(* ===== verification/Prelude.thy ===== *)
theory Prelude
  imports Main "HOL-Library.Word" "HOL-Library.AList"
begin

unbundle bit_operations_syntax

text \<open>
  Shared vocabulary of the development: bytes and buffers, the errors the library throws,
  the result type of code that may throw, JavaScript's insertion-ordered objects, decimal
  numerals, and the generic lemmas the components use.
\<close>

section \<open>Bytes and buffers\<close>

type_synonym byte = "8 word"
type_synonym bytes = "byte list"

lemma unat_byte_lt [simp]: "unat (b :: byte) < 256"
  by (rule less_le_trans [OF unsigned_less]) simp

text \<open>\<open>Buffer.alloc(n)\<close> is zero-filled; \<open>target.set(source, offset)\<close> throws when the
  source does not fit.\<close>

definition buf_alloc :: "nat \<Rightarrow> bytes" where
  "buf_alloc n = replicate n 0"

text \<open>\<open>wipeBuffer\<close> fills a buffer with zeros in place (\<open>undefined\<close> is skipped by the guard);
  the model returns the buffer as it is afterwards.\<close>

definition wipeBuffer :: "bytes \<Rightarrow> bytes" where
  "wipeBuffer b = (if 0 < length b then replicate (length b) 0 else b)"

definition wipeBuffers :: "bytes list \<Rightarrow> bytes list" where
  "wipeBuffers bs = map wipeBuffer bs"

section \<open>Errors and results\<close>

text \<open>
  One constructor per error class the code throws (\<open>src/errors.ts\<close> and the built-in ones).
  The text is the constant part of the message; interpolated values are dropped except where
  the class stores them as fields. \<open>NoMatchingSession\<close> is the \<open>SessionError\<close> that
  \<open>decryptWithSessions\<close> throws with the list of the candidates' errors attached. The last two
  classes are private to \<open>src/file-storage.ts\<close>.
\<close>

datatype error =
    Error string
  | TypeError string
  | RangeError string
  | ReferenceError string
  | SessionError string
  | NoMatchingSession "error list"
  | MessageCounterError string
  | PreKeyError string
  | SenderKeyError string
  | UntrustedIdentityKeyError string bytes "bytes option"
  | FileSignalStorageLockError string
  | FileSignalStorageConflictError int int string
  | CorruptStorageFileError string
  | UnsupportedFormatVersionError string

text \<open>\<open>instanceof SessionError\<close>: the class and its subclasses.\<close>

fun is_session_error :: "error \<Rightarrow> bool" where
  "is_session_error (SessionError _) = True"
| "is_session_error (NoMatchingSession _) = True"
| "is_session_error (MessageCounterError _) = True"
| "is_session_error (PreKeyError _) = True"
| "is_session_error _ = False"

text \<open>Sequencing of code that may throw: the first error ends the run.\<close>

definition rbind :: "'e + 'a \<Rightarrow> ('a \<Rightarrow> 'e + 'b) \<Rightarrow> 'e + 'b" where
  "rbind m f = (case m of Inl e \<Rightarrow> Inl e | Inr x \<Rightarrow> f x)"

definition guard_that :: "bool \<Rightarrow> 'e \<Rightarrow> 'e + unit" where
  "guard_that b e = (if b then Inr () else Inl e)"

named_theorems res_simps "equations that resolve a chain of fallible steps"

lemma rbind_Inl [simp]: "rbind (Inl e) f = Inl e"
  by (simp add: rbind_def)

lemma rbind_Inr [simp]: "rbind (Inr x) f = f x"
  by (simp add: rbind_def)

lemma rbind_eq_Inr [res_simps]: "rbind m f = Inr y \<longleftrightarrow> (\<exists>x. m = Inr x \<and> f x = Inr y)"
  by (cases m) auto

lemma rbind_eq_Inl [res_simps]: "rbind m f = Inl e \<longleftrightarrow> m = Inl e \<or> (\<exists>x. m = Inr x \<and> f x = Inl e)"
  by (cases m) auto

lemma rbind_cong [fundef_cong]:
  "m = m' \<Longrightarrow> (\<And>x. m' = Inr x \<Longrightarrow> f x = g x) \<Longrightarrow> rbind m f = rbind m' g"
  by (cases m') auto

lemma guard_that_Inr [res_simps]: "guard_that b e = Inr u \<longleftrightarrow> b"
  by (simp add: guard_that_def)

lemma guard_that_Inl [res_simps]: "guard_that b e = Inl e' \<longleftrightarrow> \<not> b \<and> e' = e"
  by (auto simp: guard_that_def)

lemma guard_that_simps [simp]: "guard_that True e = Inr ()" "guard_that False e = Inl e"
  by (simp_all add: guard_that_def)

definition is_ok :: "'e + 'a \<Rightarrow> bool" where
  "is_ok m = (case m of Inl _ \<Rightarrow> False | Inr _ \<Rightarrow> True)"

lemma is_ok_simps [simp]: "is_ok (Inr x)" "\<not> is_ok (Inl e)"
  by (simp_all add: is_ok_def)

lemma is_ok_iff: "is_ok m \<longleftrightarrow> (\<exists>x. m = Inr x)"
  by (cases m) auto

definition buf_set :: "bytes \<Rightarrow> bytes \<Rightarrow> nat \<Rightarrow> error + bytes" where
  "buf_set b src off =
     (if length b < off + length src then Inl (RangeError ''offset is out of bounds'')
      else Inr (take off b @ src @ drop (off + length src) b))"

lemma buf_set_Inr [res_simps]:
  "buf_set b src off = Inr b' \<longleftrightarrow>
     off + length src \<le> length b \<and> b' = take off b @ src @ drop (off + length src) b"
  by (auto simp: buf_set_def)

lemma length_wipeBuffer [simp]: "length (wipeBuffer b) = length b"
  by (simp add: wipeBuffer_def)

lemma set_wipeBuffer: "set (wipeBuffer b) \<subseteq> {0}"
  by (auto simp: wipeBuffer_def)

lemma wipeBuffer_idem [simp]: "wipeBuffer (wipeBuffer b) = wipeBuffer b"
  by (auto simp: wipeBuffer_def)

section \<open>Insertion-ordered objects\<close>

text \<open>
  A JavaScript object or \<open>Map\<close> with non-numeric keys lists its properties in insertion
  order, an assignment to a present key keeps the key's place, and a new key goes last. The
  association lists of \<open>HOL-Library.AList\<close> behave the same way.
\<close>

abbreviation obj_get :: "('k \<times> 'v) list \<Rightarrow> 'k \<Rightarrow> 'v option" where
  "obj_get \<equiv> map_of"

abbreviation obj_set :: "'k \<Rightarrow> 'v \<Rightarrow> ('k \<times> 'v) list \<Rightarrow> ('k \<times> 'v) list" where
  "obj_set \<equiv> AList.update"

abbreviation obj_del :: "'k \<Rightarrow> ('k \<times> 'v) list \<Rightarrow> ('k \<times> 'v) list" where
  "obj_del \<equiv> AList.delete"

abbreviation obj_keys :: "('k \<times> 'v) list \<Rightarrow> 'k list" where
  "obj_keys m \<equiv> map fst m"

abbreviation obj_wf :: "('k \<times> 'v) list \<Rightarrow> bool" where
  "obj_wf m \<equiv> distinct (obj_keys m)"

named_theorems obj_simps "lookup after an update or a deletion, and distinct keys"

lemma obj_get_set [obj_simps]: "obj_get (obj_set k v m) k' = (if k' = k then Some v else obj_get m k')"
  by (simp add: update_conv')

lemma obj_get_del [obj_simps]: "obj_get (obj_del k m) k' = (if k' = k then None else obj_get m k')"
  by (simp add: delete_conv')

lemma obj_wf_set [obj_simps, intro]: "obj_wf m \<Longrightarrow> obj_wf (obj_set k v m)"
  by (rule distinct_update)

lemma obj_wf_del [obj_simps, intro]: "obj_wf m \<Longrightarrow> obj_wf (obj_del k m)"
  by (rule distinct_delete)

lemma obj_keys_set: "obj_keys (obj_set k v m) = (if k \<in> set (obj_keys m) then obj_keys m else obj_keys m @ [k])"
  by (induction m) auto

lemma obj_keys_del: "obj_keys (obj_del k m) = filter (\<lambda>x. x \<noteq> k) (obj_keys m)"
  by (induction m) auto

lemma obj_set_fresh: "k \<notin> set (obj_keys m) \<Longrightarrow> obj_set k v m = m @ [(k, v)]"
  by (induction m) auto

lemma obj_del_filter: "obj_del k m = filter (\<lambda>p. fst p \<noteq> k) m"
  by (induction m) auto

lemma length_obj_set: "length (obj_set k v m) = (if k \<in> set (obj_keys m) then length m else Suc (length m))"
  by (induction m) auto

lemma obj_get_None [obj_simps]: "obj_get m k = None \<longleftrightarrow> k \<notin> set (obj_keys m)"
  by (simp add: map_of_eq_None_iff)

lemma obj_get_Some_in: "obj_get m k = Some v \<Longrightarrow> (k, v) \<in> set m"
  by (rule map_of_SomeD)

lemma obj_get_in: "obj_wf m \<Longrightarrow> (k, v) \<in> set m \<Longrightarrow> obj_get m k = Some v"
  by simp

lemma length_obj_del:
  "obj_wf m \<Longrightarrow> k \<in> set (obj_keys m) \<Longrightarrow> Suc (length (obj_del k m)) = length m"
proof (induction m)
  case (Cons p m)
  show ?case
  proof (cases "fst p = k")
    case True
    with Cons.prems have "k \<notin> set (obj_keys m)" by auto
    then have "filter (\<lambda>q. fst q \<noteq> k) m = m" by (force intro!: filter_True)
    with True show ?thesis by (simp add: obj_del_filter)
  next
    case False
    with Cons show ?thesis by (simp add: obj_del_filter)
  qed
qed simp

section \<open>Numerals\<close>

text \<open>\<open>String(n)\<close> for a non-negative integer, and \<open>parseInt(s, 10)\<close> on a string of digits.\<close>

definition digit_char :: "nat \<Rightarrow> char" where
  "digit_char d = char_of (48 + d)"

definition is_digit :: "char \<Rightarrow> bool" where
  "is_digit c = (48 \<le> (of_char c :: nat) \<and> (of_char c :: nat) \<le> 57)"

definition digit_val :: "char \<Rightarrow> nat" where
  "digit_val c = of_char c - 48"

fun nat_to_string :: "nat \<Rightarrow> string" where
  "nat_to_string n = (if n < 10 then [digit_char n] else nat_to_string (n div 10) @ [digit_char (n mod 10)])"

declare nat_to_string.simps [simp del]

definition int_to_string :: "int \<Rightarrow> string" where
  "int_to_string i = (if i < 0 then CHR ''-'' # nat_to_string (nat (- i)) else nat_to_string (nat i))"

definition parse_digits :: "string \<Rightarrow> nat" where
  "parse_digits s = foldl (\<lambda>n c. 10 * n + digit_val c) 0 s"

lemma is_digit_digit_char [simp]: "d < 10 \<Longrightarrow> is_digit (digit_char d)"
  by (simp add: is_digit_def digit_char_def)

lemma digit_val_digit_char [simp]: "d < 10 \<Longrightarrow> digit_val (digit_char d) = d"
  by (simp add: digit_val_def digit_char_def)

lemma nat_to_string_digits: "list_all is_digit (nat_to_string n)"
proof (induction n rule: nat_to_string.induct)
  case (1 n)
  then show ?case by (subst nat_to_string.simps) (simp add: list_all_append)
qed

lemma nat_to_string_nonempty [simp]: "nat_to_string n \<noteq> []"
  by (subst nat_to_string.simps) simp

lemma parse_nat_to_string [simp]: "parse_digits (nat_to_string n) = n"
proof (induction n rule: nat_to_string.induct)
  case (1 n)
  show ?case
  proof (cases "n < 10")
    case True
    then show ?thesis by (subst nat_to_string.simps) (simp add: parse_digits_def)
  next
    case False
    with 1 have "parse_digits (nat_to_string (n div 10)) = n div 10" by simp
    with False show ?thesis
      by (subst nat_to_string.simps) (simp add: parse_digits_def)
  qed
qed

lemma inj_nat_to_string: "nat_to_string m = nat_to_string n \<Longrightarrow> m = n"
  by (metis parse_nat_to_string)

section \<open>Lists\<close>

lemma sorted_distinct_drop: "sorted xs \<and> distinct xs \<Longrightarrow> sorted (drop n xs) \<and> distinct (drop n xs)"
  by (simp add: sorted_wrt_drop)

end
