(* ===== verification/Address.thy ===== *)
theory Address
  imports Prelude
begin

text \<open>
  \<open>src/protocol-address.ts\<close>, \<open>src/direction.ts\<close> and \<open>src/sender-key-name.ts\<close>: the addresses
  sessions are stored under and the names sender keys are stored under.

  Strings are lists of 8-bit characters, a subset of JavaScript's UTF-16 strings, and device ids
  are integers, which JavaScript represents exactly up to \<open>2 ^ 53 - 1\<close>. The \<open>typeof\<close> checks of
  the constructors are the types of the model.
\<close>

datatype direction = Sending_Direction | Receiving_Direction

section \<open>ProtocolAddress\<close>

record protocol_address =
  addr_id :: string
  deviceId :: int

definition new_ProtocolAddress :: "string \<Rightarrow> int \<Rightarrow> error + protocol_address" where
  "new_ProtocolAddress i d =
     (if CHR ''.'' \<in> set i then Inl (TypeError ''encoded addr detected'')
      else Inr \<lparr>addr_id = i, deviceId = d\<rparr>)"

definition address_toString :: "protocol_address \<Rightarrow> string" where
  "address_toString a = addr_id a @ ''.'' @ int_to_string (deviceId a)"

primrec lastIndexOf :: "char \<Rightarrow> string \<Rightarrow> nat option" where
  "lastIndexOf c [] = None"
| "lastIndexOf c (x # xs) =
     (case lastIndexOf c xs of
        Some i \<Rightarrow> Some (Suc i)
      | None \<Rightarrow> if x = c then Some 0 else None)"

definition address_from :: "string \<Rightarrow> error + protocol_address" where
  "address_from encodedAddress =
     (case lastIndexOf (CHR ''.'') encodedAddress of
        None \<Rightarrow> Inl (Error ''Invalid address encoding'')
      | Some sep \<Rightarrow>
          (let i = take sep encodedAddress;
               deviceIdPart = drop (sep + 1) encodedAddress
           in if deviceIdPart = [] \<or> \<not> list_all is_digit deviceIdPart
              then Inl (Error ''Invalid address encoding'')
              else new_ProtocolAddress i (int (parse_digits deviceIdPart))))"

definition address_is :: "protocol_address \<Rightarrow> protocol_address \<Rightarrow> bool" where
  "address_is this other \<longleftrightarrow> addr_id other = addr_id this \<and> deviceId other = deviceId this"

definition address_wf :: "protocol_address \<Rightarrow> bool" where
  "address_wf a \<longleftrightarrow> CHR ''.'' \<notin> set (addr_id a) \<and> 0 \<le> deviceId a"

section \<open>SenderKeyName\<close>

record sender_key_name =
  skn_groupId :: string
  skn_sender :: protocol_address

definition SenderKeyName_serialize :: "sender_key_name \<Rightarrow> string" where
  "SenderKeyName_serialize n =
     skn_groupId n @ ''::'' @ addr_id (skn_sender n) @ ''::'' @ int_to_string (deviceId (skn_sender n))"

definition SenderKeyName_equals :: "sender_key_name \<Rightarrow> sender_key_name option \<Rightarrow> bool" where
  "SenderKeyName_equals this other =
     (case other of
        None \<Rightarrow> False
      | Some o' \<Rightarrow> skn_groupId this = skn_groupId o' \<and> address_is (skn_sender this) (skn_sender o'))"

text \<open>
  \<open>num & 0xffffffff\<close> converts to a signed 32-bit integer and masks with \<open>-1\<close>.
\<close>

definition intValue :: "int \<Rightarrow> int" where
  "intValue num =
     (if num > 0x7fffffff \<or> num < - 0x80000000 then sint (word_of_int num AND (- 1) :: 32 word) else num)"

definition hashCode :: "string \<Rightarrow> int" where
  "hashCode str = foldl (\<lambda>hash c. intValue (hash * 31 + of_char c)) 0 str"

definition SenderKeyName_hashCode :: "sender_key_name \<Rightarrow> int" where
  "SenderKeyName_hashCode n = hashCode (skn_groupId n) XOR hashCode (address_toString (skn_sender n))"

section \<open>Facts about addresses\<close>

lemma is_digit_not [simp]: "\<not> is_digit (CHR ''.'')" "\<not> is_digit (CHR '':'')" "\<not> is_digit (CHR ''-'')"
  by (simp_all add: is_digit_def)

lemma lastIndexOf_None: "c \<notin> set s \<longleftrightarrow> lastIndexOf c s = None"
  by (induction s) (auto split: option.splits)

lemma lastIndexOf_append: "c \<notin> set t \<Longrightarrow> lastIndexOf c (s @ c # t) = Some (length s)"
  by (induction s) (auto simp: lastIndexOf_None split: option.splits)

lemma lastIndexOf_Some: "lastIndexOf c s = Some i \<Longrightarrow> \<exists>t. s = take i s @ c # t \<and> i < length s \<and> c \<notin> set t \<and> t = drop (i + 1) s"
proof (induction s arbitrary: i)
  case (Cons x xs)
  then show ?case by (auto simp: lastIndexOf_None split: option.splits if_splits)
qed simp

lemma digits_no_char: "\<not> is_digit c \<Longrightarrow> c \<notin> set (nat_to_string n)"
  using nat_to_string_digits [of n] by (auto simp: list_all_iff)

lemma int_to_string_nonneg: "0 \<le> i \<Longrightarrow> int_to_string i = nat_to_string (nat i)"
  by (simp add: int_to_string_def)

lemma inj_int_to_string: "int_to_string i = int_to_string j \<Longrightarrow> i = j"
proof -
  have "hd (nat_to_string n) \<noteq> CHR ''-''" for n
    using digits_no_char [of "CHR ''-''" n] by (metis is_digit_not(3) list.set_sel(1) nat_to_string_nonempty)
  then show "int_to_string i = int_to_string j \<Longrightarrow> i = j"
    by (auto simp: int_to_string_def split: if_splits dest: inj_nat_to_string) (metis list.sel(1))+
qed

lemma int_to_string_no_dot: "CHR ''.'' \<notin> set (int_to_string i)"
  by (simp add: int_to_string_def digits_no_char)

lemma address_from_toString: "address_wf a \<Longrightarrow> address_from (address_toString a) = Inr a"
  using nat_to_string_digits [of "nat (deviceId a)"]
  by (simp add: address_from_def address_toString_def address_wf_def int_to_string_nonneg
      lastIndexOf_append digits_no_char new_ProtocolAddress_def)

lemma address_from_wf:
  assumes "address_from s = Inr a"
  shows "address_wf a"
  using assms by (auto simp: address_from_def address_wf_def new_ProtocolAddress_def Let_def split: option.splits if_splits)

lemma address_toString_inject:
  assumes "address_toString a = address_toString b"
  shows "a = b"
proof -
  have *: "lastIndexOf (CHR ''.'') (address_toString c) = Some (length (addr_id c))" for c
    by (simp add: address_toString_def lastIndexOf_append int_to_string_no_dot)
  from * [of a] * [of b] assms have "length (addr_id a) = length (addr_id b)" by simp
  with assms have "addr_id a = addr_id b" "int_to_string (deviceId a) = int_to_string (deviceId b)"
    by (auto simp: address_toString_def)
  then show ?thesis by (simp add: inj_int_to_string protocol_address.equality)
qed

lemma address_is_iff: "address_is a b \<longleftrightarrow> a = b"
  by (auto simp: address_is_def intro: protocol_address.equality)

section \<open>Facts about sender key names\<close>

lemma SenderKeyName_equals_iff: "SenderKeyName_equals n (Some m) \<longleftrightarrow> n = m"
  by (auto simp: SenderKeyName_equals_def address_is_iff intro: sender_key_name.equality)

text \<open>
  \<open>serialize\<close> is the key under which a storage keeps a sender key. It tells names apart as long as
  the sender ids hold no colon; nothing forbids one, and then two names may share the key.
\<close>

lemma last_split_unique: "x @ (c :: char) # t = y @ c # u \<Longrightarrow> c \<notin> set t \<Longrightarrow> c \<notin> set u \<Longrightarrow> x = y \<and> t = u"
  using lastIndexOf_append [of c t x] lastIndexOf_append [of c u y] by simp

lemma int_to_string_no_colon: "CHR '':'' \<notin> set (int_to_string i)"
  by (simp add: int_to_string_def digits_no_char)

lemma SenderKeyName_serialize_inject:
  assumes "SenderKeyName_serialize n = SenderKeyName_serialize m"
    and no_colon: "CHR '':'' \<notin> set (addr_id (skn_sender n))" "CHR '':'' \<notin> set (addr_id (skn_sender m))"
  shows "n = m"
proof -
  let ?g = skn_groupId and ?i = "\<lambda>n. addr_id (skn_sender n)" and ?d = "\<lambda>n. int_to_string (deviceId (skn_sender n))"
  have "(?g n @ ''::'' @ ?i n @ '':'') @ CHR '':'' # ?d n = (?g m @ ''::'' @ ?i m @ '':'') @ CHR '':'' # ?d m"
    using assms(1) by (simp add: SenderKeyName_serialize_def)
  from last_split_unique [OF this int_to_string_no_colon int_to_string_no_colon]
  have d: "?d n = ?d m" and "(?g n @ '':'') @ CHR '':'' # ?i n = (?g m @ '':'') @ CHR '':'' # ?i m" by simp_all
  from last_split_unique [OF this(2) no_colon] have "?i n = ?i m" "?g n = ?g m" by simp_all
  then show ?thesis
    using inj_int_to_string [OF d] by (intro sender_key_name.equality protocol_address.equality) simp_all
qed

lemma SenderKeyName_serialize_clash:
  defines "n \<equiv> \<lparr>skn_groupId = ''a'', skn_sender = \<lparr>addr_id = ''b::c'', deviceId = 1\<rparr>\<rparr>"
    and "m \<equiv> \<lparr>skn_groupId = ''a::b'', skn_sender = \<lparr>addr_id = ''c'', deviceId = 1\<rparr>\<rparr>"
  shows "SenderKeyName_serialize n = SenderKeyName_serialize m" "\<not> SenderKeyName_equals n (Some m)"
    "address_wf (skn_sender n)" "address_wf (skn_sender m)"
  by (simp_all add: n_def m_def SenderKeyName_serialize_def SenderKeyName_equals_def address_wf_def)

lemma intValue_sint: "intValue n = sint (word_of_int n :: 32 word)"
proof (cases "n > 0x7fffffff \<or> n < - 0x80000000")
  case False
  then have "sint (word_of_int n :: 32 word) = n"
    by (simp add: sint_sbintrunc' signed_take_bit_int_eq_self)
  with False show ?thesis by (simp add: intValue_def)
qed (simp add: intValue_def)

definition java_hash :: "string \<Rightarrow> 32 word" where
  "java_hash s = foldl (\<lambda>h c. h * 31 + of_char c) 0 s"

lemma hashCode_java: "hashCode s = sint (java_hash s)"
proof -
  have step: "intValue (sint h * 31 + of_char c) = sint (h * 31 + of_char c :: 32 word)" for h :: "32 word" and c
    by (simp add: intValue_sint of_int_of_char)
  have "foldl (\<lambda>hash c. intValue (hash * 31 + of_char c)) (sint h) s = sint (foldl (\<lambda>h c. h * 31 + of_char c) h s)"
    for h :: "32 word"
    by (induction s arbitrary: h) (simp_all add: step del: of_int_add)
  from this [of 0] show ?thesis by (simp add: hashCode_def java_hash_def)
qed

end
