(* ===== verification/Base64.thy ===== *)
theory Base64
  imports Prelude
begin

text \<open>
  \<open>buffer.toString("base64")\<close> and \<open>Buffer.from(s, "base64")\<close> of Node, the two standard
  library functions by which the code turns every key into an object key or a JSON string.
  The decoder also accepts the URL-safe alphabet, skips characters outside both alphabets and
  stops at the padding. Decoding an encoded buffer gives the buffer back, so the encoding is
  injective and an object keyed by base64 strings behaves like one keyed by buffers.
\<close>

definition b64_char :: "nat \<Rightarrow> char" where
  "b64_char n =
     (if n < 26 then char_of (65 + n)
      else if n < 52 then char_of (71 + n)
      else if n < 62 then char_of (n - 4)
      else if n = 62 then char_of (43 :: nat) else char_of (47 :: nat))"

definition b64_val :: "char \<Rightarrow> nat option" where
  "b64_val c = (let n = (of_char c :: nat) in
     if 65 \<le> n \<and> n \<le> 90 then Some (n - 65)
     else if 97 \<le> n \<and> n \<le> 122 then Some (n - 71)
     else if 48 \<le> n \<and> n \<le> 57 then Some (n + 4)
     else if n = 43 \<or> n = 45 then Some 62
     else if n = 47 \<or> n = 95 then Some 63
     else None)"

fun b64_sextets :: "nat list \<Rightarrow> nat list" where
  "b64_sextets [] = []"
| "b64_sextets [a] = [a div 4, a mod 4 * 16]"
| "b64_sextets [a, b] = [a div 4, a mod 4 * 16 + b div 16, b mod 16 * 4]"
| "b64_sextets (a # b # c # r) =
     a div 4 # (a mod 4 * 16 + b div 16) # (b mod 16 * 4 + c div 64) # (c mod 64) # b64_sextets r"

fun b64_octets :: "nat list \<Rightarrow> nat list" where
  "b64_octets [] = []"
| "b64_octets [_] = []"
| "b64_octets [x, y] = [x * 4 + y div 16]"
| "b64_octets [x, y, z] = [x * 4 + y div 16, y mod 16 * 16 + z div 4]"
| "b64_octets (x # y # z # w # r) =
     (x * 4 + y div 16) # (y mod 16 * 16 + z div 4) # (z mod 4 * 64 + w) # b64_octets r"

definition b64_padding :: "nat \<Rightarrow> string" where
  "b64_padding n = (if n mod 3 = 1 then ''=='' else if n mod 3 = 2 then ''='' else [])"

definition b64_encode :: "bytes \<Rightarrow> string" where
  "b64_encode b = map b64_char (b64_sextets (map unat b)) @ b64_padding (length b)"

definition b64_decode :: "string \<Rightarrow> bytes" where
  "b64_decode s = map word_of_nat (b64_octets (List.map_filter b64_val (takeWhile (\<lambda>c. c \<noteq> CHR ''='') s)))"

lemma b64_sextets_bound: "(\<forall>x\<in>set xs. x < 256) \<Longrightarrow> \<forall>y\<in>set (b64_sextets xs). y < 64"
  by (induction xs rule: b64_sextets.induct) auto

lemma b64_octets_sextets: "(\<forall>x\<in>set xs. x < 256) \<Longrightarrow> b64_octets (b64_sextets xs) = xs"
proof (induction xs rule: b64_sextets.induct)
  case (2 a)
  then show ?case by simp
next
  case (3 a b)
  have "(a mod 4 * 16 + b div 16) div 16 = a mod 4" "(a mod 4 * 16 + b div 16) mod 16 = b div 16"
    using "3.prems" by auto
  then show ?case by simp
next
  case (4 a b c r)
  have bounds: "b div 16 mod 16 = b div 16" "c div 64 mod 4 = c div 64" using "4.prems" by auto
  have 1: "(a mod 4 * 16 + b div 16) div 16 = a mod 4" "(a mod 4 * 16 + b div 16) mod 16 = b div 16"
    using "4.prems" by auto
  have 2: "(b mod 16 * 4 + c div 64) div 4 = b mod 16" "(b mod 16 * 4 + c div 64) mod 4 = c div 64"
    using "4.prems" by auto
  have 3: "b div 16 * 16 + b mod 16 = b" "c div 64 * 64 + c mod 64 = c" "a div 4 * 4 + a mod 4 = a" by simp_all
  have "b64_octets (b64_sextets r) = r" using 4 by auto
  then show ?case by (simp add: 1 2 3 bounds)
qed simp

lemma b64_val_char [simp]: "n < 64 \<Longrightarrow> b64_val (b64_char n) = Some n"
  by (auto simp: b64_val_def b64_char_def Let_def)

lemma b64_char_not_padding [simp]: "n < 64 \<Longrightarrow> b64_char n \<noteq> CHR ''=''"
proof -
  assume n: "n < 64"
  have "(of_char (b64_char n) :: nat) \<noteq> 61" using n by (auto simp: b64_char_def)
  then show ?thesis by auto
qed

lemma b64_takeWhile:
  assumes "\<forall>n\<in>set ns. n < 64"
  shows "takeWhile (\<lambda>c. c \<noteq> CHR ''='') (map b64_char ns @ b64_padding k) = map b64_char ns"
proof -
  have "\<forall>c\<in>set (map b64_char ns). c \<noteq> CHR ''=''" using assms by auto
  moreover have "takeWhile (\<lambda>c. c \<noteq> CHR ''='') (b64_padding k) = []"
    by (simp add: b64_padding_def)
  ultimately show ?thesis by (simp add: takeWhile_append)
qed

lemma b64_map_filter: "\<forall>n\<in>set ns. n < 64 \<Longrightarrow> List.map_filter b64_val (map b64_char ns) = ns"
  by (induction ns) (simp_all add: List.map_filter_def)

theorem b64_decode_encode [simp]: "b64_decode (b64_encode b) = b"
proof -
  have oct: "\<forall>x\<in>set (map unat b). x < 256"
    by auto
  note sext = b64_sextets_bound [OF oct]
  show ?thesis
    by (simp add: b64_decode_def b64_encode_def b64_takeWhile [OF sext] b64_map_filter [OF sext]
        b64_octets_sextets [OF oct] del: map_map) (simp add: comp_def)
qed

lemma b64_encode_inject [simp]: "b64_encode a = b64_encode b \<longleftrightarrow> a = b"
  by (metis b64_decode_encode)

lemma b64_sextets_Nil [simp]: "b64_sextets xs = [] \<longleftrightarrow> xs = []"
  by (cases xs rule: b64_sextets.cases) auto

lemma b64_encode_Nil [simp]: "b64_encode b = [] \<longleftrightarrow> b = []"
  by (auto simp: b64_encode_def b64_padding_def)

end
