(* ===== verification/Crypto.thy ===== *)
theory Crypto
  imports Prelude
begin

text \<open>
  \<open>src/crypto.ts\<close>: HMAC, hashing, AES-CBC, key derivation and MAC verification.

  The primitives themselves live in OpenSSL (Node's \<open>crypto\<close>) and in
  \<open>@neykoor/curve25519-ts\<close>, neither of which is part of the repository. They are the fields
  of the record \<open>prims\<close>, an argument of every definition that uses them. What the code
  relies on is stated by \<open>prims_ok\<close>: output lengths (for AES-CBC the PKCS7 padding), decryption undoing encryption, the
  symmetry of Diffie-Hellman, and verification accepting what signing produced. No secrecy
  assumption is made.
\<close>

section \<open>The primitives\<close>

record prims =
  hmac_sha256 :: "bytes \<Rightarrow> bytes \<Rightarrow> bytes"
  sha512 :: "bytes \<Rightarrow> bytes"
  aes256_cbc_encrypt :: "bytes \<Rightarrow> bytes \<Rightarrow> bytes \<Rightarrow> error + bytes"
  aes256_cbc_decrypt :: "bytes \<Rightarrow> bytes \<Rightarrow> bytes \<Rightarrow> error + bytes"
  has_diffieHellman :: bool
  node_diffieHellman :: "bytes \<Rightarrow> bytes \<Rightarrow> error + bytes"
  curvejs_sharedKey :: "bytes \<Rightarrow> bytes \<Rightarrow> bytes"
  curvejs_sign :: "bytes \<Rightarrow> bytes \<Rightarrow> bytes"
  curvejs_verify :: "bytes \<Rightarrow> bytes \<Rightarrow> bytes \<Rightarrow> bool"
  curvejs_generateKeyPair :: "bytes \<Rightarrow> bytes \<times> bytes"
  x25519_public :: "bytes \<Rightarrow> bytes"

text \<open>
  The arguments are in the order of the calls: \<open>hmac_sha256 key data\<close>,
  \<open>aes256_cbc_encrypt key iv data\<close>, \<open>node_diffieHellman privateDer publicDer\<close>,
  \<open>curvejs_sharedKey private public\<close>, \<open>curvejs_sign private message\<close>,
  \<open>curvejs_verify public message signature\<close>; \<open>curvejs_generateKeyPair seed\<close> is the pair
  (public, private). \<open>x25519_public\<close> is not called by the code: it names the public key that
  belongs to a private key, so that the laws below can speak about key pairs.
\<close>

definition hmac_ok :: "prims \<Rightarrow> bool" where
  "hmac_ok P \<longleftrightarrow> (\<forall>k d. length (hmac_sha256 P k d) = 32)"

definition hash_ok :: "prims \<Rightarrow> bool" where
  "hash_ok P \<longleftrightarrow> (\<forall>d. length (sha512 P d) = 64)"

definition aes_ok :: "prims \<Rightarrow> bool" where
  "aes_ok P \<longleftrightarrow>
     (\<forall>k iv d. length k = 32 \<longrightarrow> length iv = 16 \<longrightarrow>
        (\<exists>ct. aes256_cbc_encrypt P k iv d = Inr ct \<and> length ct = 16 * (length d div 16 + 1) \<and>
              aes256_cbc_decrypt P k iv ct = Inr d))"

lemma aes_okE:
  assumes "aes_ok P" "length k = 32" "length iv = 16"
  obtains ct where "aes256_cbc_encrypt P k iv d = Inr ct" "length ct = 16 * (length d div 16 + 1)"
    "aes256_cbc_decrypt P k iv ct = Inr d"
proof -
  have "\<exists>ct. aes256_cbc_encrypt P k iv d = Inr ct \<and> length ct = 16 * (length d div 16 + 1) \<and>
      aes256_cbc_decrypt P k iv ct = Inr d"
    using assms by (simp add: aes_ok_def)
  then show thesis by (elim exE conjE) (rule that)
qed

section \<open>crypto.ts\<close>

definition crypto_encrypt :: "prims \<Rightarrow> bytes \<Rightarrow> bytes \<Rightarrow> bytes \<Rightarrow> error + bytes" where
  "crypto_encrypt P key data iv = aes256_cbc_encrypt P key iv data"

definition crypto_decrypt :: "prims \<Rightarrow> bytes \<Rightarrow> bytes \<Rightarrow> bytes \<Rightarrow> error + bytes" where
  "crypto_decrypt P key data iv = aes256_cbc_decrypt P key iv data"

definition calculateMAC :: "prims \<Rightarrow> bytes \<Rightarrow> bytes \<Rightarrow> bytes" where
  "calculateMAC P key data = hmac_sha256 P key data"

definition crypto_hash :: "prims \<Rightarrow> bytes \<Rightarrow> bytes" where
  "crypto_hash P data = sha512 P data"

text \<open>
  \<open>infoArray\<close> is one buffer of \<open>info.byteLength + 33\<close> bytes that is rewritten between the
  rounds: its first 32 bytes take the previous block, its last byte the round number. The first
  round hashes \<open>infoArray.slice(32)\<close>.
\<close>

definition set_front :: "bytes \<Rightarrow> bytes \<Rightarrow> bytes" where
  "set_front src buf = src @ drop (length src) buf"

definition set_last :: "byte \<Rightarrow> bytes \<Rightarrow> bytes" where
  "set_last x buf = buf[length buf - 1 := x]"

definition deriveSecrets :: "prims \<Rightarrow> bytes \<Rightarrow> bytes \<Rightarrow> bytes \<Rightarrow> int option \<Rightarrow> error + bytes list" where
  "deriveSecrets P input salt info chunks =
     (if length salt \<noteq> 32 then Inl (Error ''Got salt of incorrect length'')
      else let count = (case chunks of None \<Rightarrow> 3 | Some n \<Rightarrow> n) in
        if count < 1 \<or> 3 < count then Inl (Error ''chunks must be between 1 and 3'')
        else
          let prk = calculateMAC P salt input;
              info0 = replicate 32 0 @ info @ [0];
              info1 = set_last 1 info0;
              t1 = calculateMAC P prk (drop 32 info1);
              info2 = set_last 2 (set_front t1 info1);
              t2 = calculateMAC P prk info2;
              info3 = set_last 3 (set_front t2 info2);
              t3 = calculateMAC P prk info3
          in Inr (if count > 2 then [t1, t2, t3] else if count > 1 then [t1, t2] else [t1]))"

definition verifyMAC :: "prims \<Rightarrow> bytes \<Rightarrow> bytes \<Rightarrow> bytes \<Rightarrow> nat \<Rightarrow> error + unit" where
  "verifyMAC P data key mac len =
     (let calculated = take len (calculateMAC P key data) in
      if length mac \<noteq> len \<or> length calculated \<noteq> len then Inl (Error ''Bad MAC length'')
      else guard_that (mac = calculated) (Error ''Bad MAC''))"

section \<open>HKDF, the specification of the key derivation\<close>

text \<open>
  RFC 5869 with SHA-256: the expansion step computes \<open>T(0)\<close>, the empty string, and
  \<open>T(i) = HMAC(PRK, T(i - 1) | info | i)\<close>.
\<close>

primrec hkdf_block :: "prims \<Rightarrow> bytes \<Rightarrow> bytes \<Rightarrow> nat \<Rightarrow> bytes" where
  "hkdf_block P prk info 0 = []"
| "hkdf_block P prk info (Suc i) = hmac_sha256 P prk (hkdf_block P prk info i @ info @ [of_nat (Suc i)])"

definition hkdf :: "prims \<Rightarrow> bytes \<Rightarrow> bytes \<Rightarrow> bytes \<Rightarrow> nat \<Rightarrow> bytes list" where
  "hkdf P input salt info n = map (\<lambda>i. hkdf_block P (hmac_sha256 P salt input) info (Suc i)) [0..<n]"

lemma set_last_append: "set_last x (xs @ [y]) = xs @ [x]"
  by (simp add: set_last_def)

lemma length_calculateMAC [simp]: "hmac_ok P \<Longrightarrow> length (calculateMAC P k d) = 32"
  by (simp add: hmac_ok_def calculateMAC_def)

lemma set_front_block: "length t = length z \<Longrightarrow> set_front t (z @ r) = t @ r"
  by (simp add: set_front_def)

lemma deriveSecrets_rounds:
  assumes "hmac_ok P" "length salt = 32" "1 \<le> n" "n \<le> 3"
  shows "deriveSecrets P input salt info (Some n) = Inr (hkdf P input salt info (nat n))"
proof -
  let ?prk = "calculateMAC P salt input"
  have 1: "set_last 1 (replicate 32 0 @ info @ [0]) = replicate 32 0 @ info @ [1]"
    using set_last_append [of 1 "replicate 32 0 @ info" 0] by simp
  have 2: "set_last r (set_front t (z @ info @ [q])) = t @ info @ [r]"
    if "length t = 32" "length z = 32" for t z :: bytes and q r
    using that set_last_append [of r "t @ info" q] by (simp add: set_front_block)
  define t1 where "t1 = calculateMAC P ?prk (info @ [1])"
  define t2 where "t2 = calculateMAC P ?prk (t1 @ info @ [2])"
  have len: "length t1 = 32" "length t2 = 32" using assms(1) by (simp_all add: t1_def t2_def)
  have blocks: "t1 = hkdf_block P ?prk info 1" "t2 = hkdf_block P ?prk info 2"
    by (simp_all add: t1_def t2_def calculateMAC_def numeral_2_eq_2)
  have "n = 1 \<or> n = 2 \<or> n = 3" using assms(3,4) by auto
  then show ?thesis
    using assms len
    by (elim disjE)
      (simp_all add: deriveSecrets_def Let_def 1 2 hkdf_def numeral_2_eq_2 numeral_3_eq_3
        calculateMAC_def t1_def t2_def)
qed

lemma deriveSecrets_default: "deriveSecrets P input salt info None = deriveSecrets P input salt info (Some 3)"
  by (simp add: deriveSecrets_def)

lemma length_hkdf [simp]: "length (hkdf P input salt info n) = n"
  by (simp add: hkdf_def)

lemma hkdf_block_length: "hmac_ok P \<Longrightarrow> x \<in> set (hkdf P input salt info n) \<Longrightarrow> length x = 32"
  by (auto simp: hkdf_def hmac_ok_def)

lemma hkdf_nth_length [simp]: "hmac_ok P \<Longrightarrow> i < n \<Longrightarrow> length (hkdf P input salt info n ! i) = 32"
  by (rule hkdf_block_length [of P _ input salt info n]) simp_all

lemma hkdf_take: "m \<le> n \<Longrightarrow> take m (hkdf P input salt info n) = hkdf P input salt info m"
  by (simp add: hkdf_def take_map)

lemma hkdf_nth: "i < n \<Longrightarrow> hkdf P input salt info n ! i = hkdf P input salt info 3 ! i" if "n \<le> 3"
  using that by (simp add: hkdf_def)

lemma derive3:
  assumes "hmac_ok P" "length salt = 32"
  shows "deriveSecrets P input salt info None = Inr (hkdf P input salt info 3)"
  using deriveSecrets_rounds [OF assms, of 3] by (simp add: deriveSecrets_default)

lemma derive2:
  assumes "hmac_ok P" "length salt = 32"
  shows "deriveSecrets P input salt info (Some 2) = Inr (hkdf P input salt info 2)"
  using deriveSecrets_rounds [OF assms, of 2] by simp

lemma deriveSecrets_length:
  "deriveSecrets P input salt info chunks = Inr ts \<Longrightarrow> 1 \<le> length ts \<and> length ts \<le> 3"
  by (auto simp: deriveSecrets_def Let_def split: if_splits)

lemma deriveSecrets_block_length:
  "hmac_ok P \<Longrightarrow> deriveSecrets P input salt info chunks = Inr ts \<Longrightarrow> t \<in> set ts \<Longrightarrow> length t = 32"
  by (auto simp: deriveSecrets_def Let_def split: if_splits)

section \<open>MAC verification\<close>

lemma verifyMAC_iff:
  assumes "hmac_ok P" "len \<le> 32"
  shows "verifyMAC P data key mac len = Inr () \<longleftrightarrow> mac = take len (hmac_sha256 P key data)"
  using assms by (auto simp: verifyMAC_def Let_def guard_that_def hmac_ok_def calculateMAC_def)

section \<open>The symmetric-key ratchet, specification\<close>

text \<open>The chain key \<open>n\<close> steps after \<open>k\<close>, and the message key that belongs to it.\<close>

primrec chain_key_at :: "prims \<Rightarrow> bytes \<Rightarrow> nat \<Rightarrow> bytes" where
  "chain_key_at P k 0 = k"
| "chain_key_at P k (Suc n) = hmac_sha256 P (chain_key_at P k n) [2]"

definition message_key_at :: "prims \<Rightarrow> bytes \<Rightarrow> nat \<Rightarrow> bytes" where
  "message_key_at P k n = hmac_sha256 P (chain_key_at P k n) [1]"

lemma chain_key_shift: "chain_key_at P (hmac_sha256 P k [2]) n = chain_key_at P k (Suc n)"
  by (induction n) auto

lemma message_key_shift: "message_key_at P (hmac_sha256 P k [2]) n = message_key_at P k (Suc n)"
  by (simp add: message_key_at_def chain_key_shift)

lemma chain_key_at_add: "chain_key_at P (chain_key_at P k a) b = chain_key_at P k (a + b)"
  by (induction b) auto

lemma message_key_at_add: "message_key_at P (chain_key_at P k a) b = message_key_at P k (a + b)"
  by (simp add: message_key_at_def chain_key_at_add)

end
