(* ===== verification/Curve.thy ===== *)
theory Curve
  imports Crypto
begin

text \<open>
  \<open>src/curve.ts\<close>: the public key format (a \<open>0x05\<close> type byte and 32 bytes), the argument
  checks, key generation and Diffie-Hellman over Node's DER-encoded keys with the pure
  TypeScript fallback, and signatures.
\<close>

record key_pair =
  pubKey :: bytes
  privKey :: bytes

definition PUBLIC_KEY_DER_PREFIX :: bytes where
  "PUBLIC_KEY_DER_PREFIX = [48, 42, 48, 5, 6, 3, 43, 101, 110, 3, 33, 0]"

definition PRIVATE_KEY_DER_PREFIX :: bytes where
  "PRIVATE_KEY_DER_PREFIX = [48, 46, 2, 1, 0, 48, 5, 6, 3, 43, 101, 110, 4, 34, 4, 32]"

definition KEY_BUNDLE_TYPE :: bytes where
  "KEY_BUNDLE_TYPE = [5]"

definition prefixKeyInPublicKey :: "bytes \<Rightarrow> bytes" where
  "prefixKeyInPublicKey pub = KEY_BUNDLE_TYPE @ pub"

definition validatePrivKey :: "bytes \<Rightarrow> error + unit" where
  "validatePrivKey priv = guard_that (length priv = 32) (Error ''Incorrect private key length'')"

text \<open>\<open>pubKey[0] !== 5\<close> is only read when the length is 33, so the index is in range.\<close>

definition scrubPubKeyFormat :: "bytes \<Rightarrow> error + bytes" where
  "scrubPubKeyFormat pub =
     (if (length pub \<noteq> 33 \<or> pub ! 0 \<noteq> 5) \<and> length pub \<noteq> 32 then Inl (Error ''Invalid public key'')
      else if length pub = 33 then Inr (drop 1 pub)
      else Inr pub)"

text \<open>The loop ors all bytes together and rejects an all-zero secret.\<close>

definition assertNotLowOrderSecret :: "bytes \<Rightarrow> error + bytes" where
  "assertNotLowOrderSecret secret =
     (if foldl (\<lambda>check b. check OR b) 0 secret = 0
      then Inl (Error ''invalid public key (low-order point)'') else Inr secret)"

definition unclampEd25519PrivateKey :: "bytes \<Rightarrow> bytes" where
  "unclampEd25519PrivateKey sk =
     (let sk1 = sk[0 := sk ! 0 OR 6];
          sk2 = sk1[31 := sk1 ! 31 OR 128]
      in sk2[31 := sk2 ! 31 AND NOT 64])"

definition getPublicFromPrivateKey :: "prims \<Rightarrow> bytes \<Rightarrow> bytes" where
  "getPublicFromPrivateKey P priv =
     prefixKeyInPublicKey (fst (curvejs_generateKeyPair P (unclampEd25519PrivateKey priv)))"

text \<open>
  Key generation: \<open>native\<close> is what \<open>nodeCrypto.generateKeyPairSync\<close> returns (DER-encoded public
  and private key) or throws, \<open>rnd\<close> the 32 random bytes the fallback would draw. In the
  asynchronous variant \<open>native\<close> is how the promise around the callback of \<open>nodeCrypto.generateKeyPair\<close> is settled.
\<close>

definition buf_slice :: "nat \<Rightarrow> nat \<Rightarrow> bytes \<Rightarrow> bytes" where
  "buf_slice a b xs = take (b - a) (drop a xs)"

definition generateKeyPair :: "prims \<Rightarrow> error + (bytes \<times> bytes) \<Rightarrow> bytes \<Rightarrow> key_pair" where
  "generateKeyPair P native rnd =
     (case native of
        Inr (publicDer, privateDer) \<Rightarrow>
          \<lparr>pubKey = prefixKeyInPublicKey
             (buf_slice (length PUBLIC_KEY_DER_PREFIX) (length PUBLIC_KEY_DER_PREFIX + 32) publicDer),
           privKey = buf_slice (length PRIVATE_KEY_DER_PREFIX) (length PRIVATE_KEY_DER_PREFIX + 32) privateDer\<rparr>
      | Inl _ \<Rightarrow>
          (case curvejs_generateKeyPair P rnd of
             (pub, priv) \<Rightarrow> \<lparr>pubKey = prefixKeyInPublicKey pub, privKey = priv\<rparr>))"

definition generateKeyPairAsync :: "prims \<Rightarrow> error + (bytes \<times> bytes) \<Rightarrow> bytes \<Rightarrow> key_pair" where
  "generateKeyPairAsync P native rnd =
     (case native of
        Inr (publicDerBytes, privateDerBytes) \<Rightarrow>
          (let publicKey = buf_slice (length PUBLIC_KEY_DER_PREFIX) (length PUBLIC_KEY_DER_PREFIX + 32) publicDerBytes;
               privateKey = buf_slice (length PRIVATE_KEY_DER_PREFIX) (length PRIVATE_KEY_DER_PREFIX + 32) privateDerBytes
           in \<lparr>pubKey = prefixKeyInPublicKey publicKey, privKey = privateKey\<rparr>)
      | Inl _ \<Rightarrow>
          (let (public, private) = curvejs_generateKeyPair P rnd
           in \<lparr>pubKey = prefixKeyInPublicKey public, privKey = private\<rparr>))"

lemma generateKeyPairAsync_same: "generateKeyPairAsync P native rnd = generateKeyPair P native rnd"
  by (simp add: generateKeyPairAsync_def generateKeyPair_def Let_def split: sum.split prod.split)

definition calculateAgreement :: "prims \<Rightarrow> bytes \<Rightarrow> bytes \<Rightarrow> error + bytes" where
  "calculateAgreement P pubInput priv =
     rbind (scrubPubKeyFormat pubInput) (\<lambda>pub.
     rbind (validatePrivKey priv) (\<lambda>_.
     rbind (guard_that (length pub = 32) (Error ''Invalid public key'')) (\<lambda>_.
       if has_diffieHellman P
       then rbind (node_diffieHellman P (PRIVATE_KEY_DER_PREFIX @ priv) (PUBLIC_KEY_DER_PREFIX @ pub))
              assertNotLowOrderSecret
       else assertNotLowOrderSecret (curvejs_sharedKey P priv pub))))"

definition calculateSignature :: "prims \<Rightarrow> bytes \<Rightarrow> bytes \<Rightarrow> error + bytes" where
  "calculateSignature P priv msg = rbind (validatePrivKey priv) (\<lambda>_. Inr (curvejs_sign P priv msg))"

definition verifySignature :: "prims \<Rightarrow> bytes \<Rightarrow> bytes \<Rightarrow> bytes \<Rightarrow> error + bool" where
  "verifySignature P pubInput msg sig =
     rbind (scrubPubKeyFormat pubInput) (\<lambda>pub.
     rbind (guard_that (length pub = 32) (Error ''Invalid public key'')) (\<lambda>_.
     rbind (guard_that (length sig = 64) (Error ''Invalid signature'')) (\<lambda>_.
       Inr (curvejs_verify P pub msg sig))))"

section \<open>What is relied on\<close>

text \<open>
  A key pair is what key generation returns: 32 private bytes and the public key that belongs to
  them. Two key pairs agree on a shared secret, in both implementations.
\<close>

definition is_key_pair :: "prims \<Rightarrow> key_pair \<Rightarrow> bool" where
  "is_key_pair P kp \<longleftrightarrow> length (privKey kp) = 32 \<and> pubKey kp = 5 # x25519_public P (privKey kp)"

definition dh_ok :: "prims \<Rightarrow> bool" where
  "dh_ok P \<longleftrightarrow>
     (\<forall>a b. length a = 32 \<longrightarrow> length b = 32 \<longrightarrow>
        length (x25519_public P a) = 32 \<and>
        (\<exists>s. length s = 32 \<and> (\<exists>x\<in>set s. x \<noteq> 0) \<and>
           node_diffieHellman P (PRIVATE_KEY_DER_PREFIX @ a) (PUBLIC_KEY_DER_PREFIX @ x25519_public P b) = Inr s \<and>
           node_diffieHellman P (PRIVATE_KEY_DER_PREFIX @ b) (PUBLIC_KEY_DER_PREFIX @ x25519_public P a) = Inr s \<and>
           curvejs_sharedKey P a (x25519_public P b) = s \<and>
           curvejs_sharedKey P b (x25519_public P a) = s))"

definition sign_ok :: "prims \<Rightarrow> bool" where
  "sign_ok P \<longleftrightarrow>
     (\<forall>a m. length a = 32 \<longrightarrow>
        length (curvejs_sign P a m) = 64 \<and> curvejs_verify P (x25519_public P a) m (curvejs_sign P a m))"

definition prims_ok :: "prims \<Rightarrow> bool" where
  "prims_ok P \<longleftrightarrow> hmac_ok P \<and> hash_ok P \<and> aes_ok P \<and> dh_ok P \<and> sign_ok P"

lemma prims_okD:
  assumes "prims_ok P"
  shows "hmac_ok P" "hash_ok P" "aes_ok P" "dh_ok P" "sign_ok P"
  using assms by (simp_all add: prims_ok_def)

section \<open>Facts\<close>

lemma foldl_or_zero: "foldl (\<lambda>check b. check OR b) c (bs :: bytes) = 0 \<longleftrightarrow> c = 0 \<and> (\<forall>b\<in>set bs. b = 0)"
proof (induction bs arbitrary: c)
  case (Cons b bs)
  have "c OR b = 0 \<longleftrightarrow> c = 0 \<and> b = 0"
    by (rule or_eq_0_iff)
  with Cons show ?case by auto
qed simp

lemma assertNotLowOrderSecret_iff:
  "assertNotLowOrderSecret s = Inr t \<longleftrightarrow> t = s \<and> (\<exists>x\<in>set s. x \<noteq> 0)"
  by (auto simp: assertNotLowOrderSecret_def foldl_or_zero)

lemma is_key_pair_lengths:
  assumes "dh_ok P" "is_key_pair P kp"
  shows "length (privKey kp) = 32" "length (pubKey kp) = 33"
  using assms by (auto simp: is_key_pair_def dh_ok_def)

lemma scrub_key_pair:
  assumes "dh_ok P" "is_key_pair P kp"
  shows "scrubPubKeyFormat (pubKey kp) = Inr (x25519_public P (privKey kp))"
  using is_key_pair_lengths [OF assms] assms(2) by (auto simp: scrubPubKeyFormat_def is_key_pair_def)

lemma scrubPubKeyFormat_length: "scrubPubKeyFormat pub = Inr k \<Longrightarrow> length k = 32"
  by (auto simp: scrubPubKeyFormat_def split: if_splits)

lemma agreement_symmetric:
  assumes "dh_ok P" "is_key_pair P A" "is_key_pair P B"
  obtains s where "calculateAgreement P (pubKey A) (privKey B) = Inr s"
    and "calculateAgreement P (pubKey B) (privKey A) = Inr s" and "length s = 32"
proof -
  let ?a = "privKey A" and ?b = "privKey B"
  have len: "length ?a = 32" "length ?b = 32"
    using assms by (simp_all add: is_key_pair_def)
  with assms(1) obtain s where s: "length s = 32" "\<exists>x\<in>set s. x \<noteq> 0"
      "node_diffieHellman P (PRIVATE_KEY_DER_PREFIX @ ?a) (PUBLIC_KEY_DER_PREFIX @ x25519_public P ?b) = Inr s"
      "node_diffieHellman P (PRIVATE_KEY_DER_PREFIX @ ?b) (PUBLIC_KEY_DER_PREFIX @ x25519_public P ?a) = Inr s"
      "curvejs_sharedKey P ?a (x25519_public P ?b) = s" "curvejs_sharedKey P ?b (x25519_public P ?a) = s"
    unfolding dh_ok_def by blast
  have pub: "length (x25519_public P ?a) = 32" "length (x25519_public P ?b) = 32"
    using assms(1) len unfolding dh_ok_def by blast+
  have ok: "assertNotLowOrderSecret s = Inr s"
    using s(2) by (simp add: assertNotLowOrderSecret_iff)
  show thesis
    by (rule that [of s])
      (use s ok len pub scrub_key_pair [OF assms(1,2)] scrub_key_pair [OF assms(1,3)] in
        \<open>simp_all add: calculateAgreement_def validatePrivKey_def\<close>)
qed

lemma agreement_priv_length: "calculateAgreement P pub priv = Inr s \<Longrightarrow> length priv = 32"
  by (auto simp: calculateAgreement_def validatePrivKey_def res_simps)

text \<open>The DER wrapping that \<open>generateKeyPairSync\<close> documents, and key generation on it.\<close>

lemma generateKeyPair_native:
  assumes "dh_ok P" "length priv = 32"
  shows "is_key_pair P (generateKeyPair P
     (Inr (PUBLIC_KEY_DER_PREFIX @ x25519_public P priv, PRIVATE_KEY_DER_PREFIX @ priv)) rnd)"
proof -
  have "length (x25519_public P priv) = 32" using assms by (auto simp: dh_ok_def)
  then show ?thesis
    using assms(2)
    by (simp add: is_key_pair_def generateKeyPair_def prefixKeyInPublicKey_def KEY_BUNDLE_TYPE_def
        buf_slice_def PUBLIC_KEY_DER_PREFIX_def PRIVATE_KEY_DER_PREFIX_def)
qed

lemma signature_verifies:
  assumes "dh_ok P" "sign_ok P" "is_key_pair P kp" "calculateSignature P (privKey kp) m = Inr sig"
  shows "verifySignature P (pubKey kp) m sig = Inr True"
proof -
  have "length (privKey kp) = 32" using assms(3) by (simp add: is_key_pair_def)
  moreover from this have "length (x25519_public P (privKey kp)) = 32" using assms(1) by (auto simp: dh_ok_def)
  ultimately show ?thesis
    using assms(2,4) scrub_key_pair [OF assms(1,3)]
    by (auto simp: verifySignature_def calculateSignature_def validatePrivKey_def sign_ok_def res_simps)
qed

lemma sign_total:
  assumes "sign_ok P" "length priv = 32"
  obtains sig where "calculateSignature P priv m = Inr sig" "length sig = 64"
  using assms by (auto simp: calculateSignature_def validatePrivKey_def sign_ok_def)

lemma unclamp_length [simp]: "length (unclampEd25519PrivateKey sk) = length sk"
  by (simp add: unclampEd25519PrivateKey_def Let_def)

end
