(* ===== verification/Session_Record.thy ===== *)
theory Session_Record
  imports Base64 Curve
begin

text \<open>
  \<open>src/session-record.ts\<close> with \<open>base-key-type.ts\<close> and \<open>chain-type.ts\<close>: the state of the
  Double Ratchet for one peer address. A record holds sessions keyed by the base64 of their base
  key, a session holds chains keyed by the base64 of a ratchet public key, and a chain holds the
  skipped message keys keyed by counter.

  Buffers are values: a buffer that is wiped and then dropped has no further effect, a buffer that
  is wiped and stays reachable is zero afterwards. \<open>_chains\<close> and \<open>sessions\<close> list their keys in
  insertion order; \<open>messageKeys\<close> has integer keys, which JavaScript lists in ascending order.
\<close>

section \<open>Data\<close>

datatype base_key_type = OURS | THEIRS

datatype chain_type = SENDING | RECEIVING

definition CLOSED_SESSIONS_MAX :: nat where
  "CLOSED_SESSIONS_MAX = 40"

definition SESSION_RECORD_VERSION :: string where
  "SESSION_RECORD_VERSION = ''v1''"

definition SESSION_ENTRY_VERSION :: string where
  "SESSION_ENTRY_VERSION = ''v1''"

record chain_key =
  ck_counter :: int
  ck_key :: "bytes option"

record chain =
  messageKeys :: "(nat \<times> bytes) list"
  chainKey :: chain_key
  chainType :: chain_type

record current_ratchet =
  ephemeralKeyPair :: key_pair
  lastRemoteEphemeralKey :: bytes
  previousCounter :: int
  rootKey :: bytes

record index_info =
  baseKey :: bytes
  baseKeyType :: base_key_type
  ii_closed :: int
  ii_used :: int
  ii_created :: int
  remoteIdentityKey :: bytes

record pending_pre_key =
  pp_signedKeyId :: nat
  pp_baseKey :: bytes
  pp_preKeyId :: "nat option"

record session_entry =
  entryVersion :: string
  se_registrationId :: "nat option"
  currentRatchet :: current_ratchet
  indexInfo :: index_info
  pendingPreKey :: "pending_pre_key option"
  chains :: "(string \<times> chain) list"

record session_record =
  sessions :: "(string \<times> session_entry) list"
  version :: string

section \<open>Message keys\<close>

text \<open>Assignment to an integer-keyed object: the keys stay in ascending order.\<close>

fun mk_set :: "nat \<Rightarrow> bytes \<Rightarrow> (nat \<times> bytes) list \<Rightarrow> (nat \<times> bytes) list" where
  "mk_set i v [] = [(i, v)]"
| "mk_set i v ((j, w) # r) =
     (if i < j then (i, v) # (j, w) # r else if i = j then (i, v) # r else (j, w) # mk_set i v r)"

abbreviation mk_wf :: "(nat \<times> bytes) list \<Rightarrow> bool" where
  "mk_wf mk \<equiv> sorted_wrt (<) (map fst mk)"

lemma mk_set_keys: "set (map fst (mk_set i v mk)) = insert i (set (map fst mk))"
  by (induction i v mk rule: mk_set.induct) auto

lemma mk_set_wf: "mk_wf mk \<Longrightarrow> mk_wf (mk_set i v mk)"
proof (induction i v mk rule: mk_set.induct)
  case (2 i v j w r)
  then show ?case using mk_set_keys [of i v r] by fastforce
qed simp

lemma mk_get_set: "mk_wf mk \<Longrightarrow> obj_get (mk_set i v mk) k = (if k = i then Some v else obj_get mk k)"
proof (induction i v mk rule: mk_set.induct)
  case (2 i v j w r)
  have "k \<notin> set (map fst r)" if "k \<le> j" using that 2 by force
  then have "obj_get r k = None" if "k \<le> j" using that by (simp add: map_of_eq_None_iff)
  with 2 show ?case by auto
qed simp

lemma mk_set_last: "mk_wf mk \<Longrightarrow> \<forall>j\<in>set (map fst mk). j < i \<Longrightarrow> mk_set i v mk = mk @ [(i, v)]"
  by (induction i v mk rule: mk_set.induct) auto

lemma mk_wf_distinct: "mk_wf mk \<Longrightarrow> obj_wf mk"
  by (simp add: strict_sorted_iff)

lemma mk_wf_drop: "mk_wf mk \<Longrightarrow> mk_wf (drop n mk)"
  by (simp add: drop_map [symmetric] sorted_wrt_drop)

lemma mk_wf_del: "mk_wf mk \<Longrightarrow> mk_wf (obj_del k mk)"
  by (simp add: obj_keys_del sorted_wrt_filter)

section \<open>SessionEntry\<close>

definition SessionEntry_toString :: "session_entry \<Rightarrow> string" where
  "SessionEntry_toString e =
     ''<SessionEntry [baseKey='' @ b64_encode (baseKey (indexInfo e)) @ '']>''"

definition addChain :: "bytes \<Rightarrow> chain \<Rightarrow> session_entry \<Rightarrow> error + session_entry" where
  "addChain k value e =
     (let cid = b64_encode k in
      if cid \<in> set (obj_keys (chains e)) then Inl (Error ''Overwrite attempt'')
      else Inr (e\<lparr>chains := obj_set cid value (chains e)\<rparr>))"

definition getChain :: "bytes \<Rightarrow> session_entry \<Rightarrow> chain option" where
  "getChain k e = obj_get (chains e) (b64_encode k)"

definition deleteChain :: "bytes \<Rightarrow> session_entry \<Rightarrow> error + session_entry" where
  "deleteChain k e =
     (let cid = b64_encode k in
      case obj_get (chains e) cid of
        None \<Rightarrow> Inl (ReferenceError ''Not Found'')
      | Some _ \<Rightarrow> Inr (e\<lparr>chains := obj_del cid (chains e)\<rparr>))"

text \<open>The chains a caller changes in place after \<open>getChain\<close>.\<close>

definition putChain :: "bytes \<Rightarrow> chain \<Rightarrow> session_entry \<Rightarrow> session_entry" where
  "putChain k c e = e\<lparr>chains := obj_set (b64_encode k) c (chains e)\<rparr>"

definition receiving_ids :: "session_entry \<Rightarrow> string list" where
  "receiving_ids e = map fst (filter (\<lambda>(_, c). chainType c = RECEIVING) (chains e))"

definition removeOldReceiverChains :: "nat \<Rightarrow> session_entry \<Rightarrow> session_entry" where
  "removeOldReceiverChains mx e =
     (let receiving = receiving_ids e;
          excess = length receiving - mx
      in e\<lparr>chains := fold obj_del (take excess receiving) (chains e)\<rparr>)"

definition entry_chains :: "session_entry \<Rightarrow> (bytes \<times> chain) list" where
  "entry_chains e = map (\<lambda>(k, c). (b64_decode k, c)) (chains e)"

definition wipe_chain :: "chain \<Rightarrow> chain" where
  "wipe_chain c =
     c\<lparr>chainKey := (chainKey c)\<lparr>ck_key := map_option wipeBuffer (ck_key (chainKey c))\<rparr>,
       messageKeys := map (\<lambda>(i, mk). (i, wipeBuffer mk)) (messageKeys c)\<rparr>"

definition wipeKeyMaterial :: "session_entry \<Rightarrow> session_entry" where
  "wipeKeyMaterial e =
     (let r = currentRatchet e; kp = ephemeralKeyPair r in
      e\<lparr>currentRatchet := r\<lparr>ephemeralKeyPair := kp\<lparr>privKey := wipeBuffer (privKey kp)\<rparr>,
                           rootKey := wipeBuffer (rootKey r)\<rparr>,
        chains := map (\<lambda>(k, c). (k, wipe_chain c)) (chains e)\<rparr>)"

section \<open>Serialized form\<close>

record ser_chain =
  sc_counter :: int
  sc_key :: "string option"
  sc_chainType :: chain_type
  sc_messageKeys :: "(nat \<times> string) list"

record ser_pending =
  sp_signedKeyId :: nat
  sp_baseKey :: string
  sp_preKeyId :: "nat option"

record ser_entry =
  s_entryVersion :: "string option"
  s_registrationId :: "nat option"
  s_pubKey :: string
  s_privKey :: string
  s_lastRemoteEphemeralKey :: string
  s_previousCounter :: int
  s_rootKey :: string
  s_baseKey :: string
  s_baseKeyType :: base_key_type
  s_closed :: int
  s_used :: int
  s_created :: int
  s_remoteIdentityKey :: string
  s_chains :: "(string \<times> ser_chain) list"
  s_pendingPreKey :: "ser_pending option"

record ser_record =
  sr_version :: "string option"
  sr_registrationId :: "nat option"
  sr_sessions :: "(string \<times> ser_entry) list"

definition serializeChain :: "chain \<Rightarrow> ser_chain" where
  "serializeChain c =
     \<lparr>sc_counter = ck_counter (chainKey c),
      sc_key = map_option b64_encode (ck_key (chainKey c)),
      sc_chainType = chainType c,
      sc_messageKeys = map (\<lambda>(i, mk). (i, b64_encode mk)) (messageKeys c)\<rparr>"

text \<open>\<open>key ? Buffer.from(key, "base64") : undefined\<close>: the empty string is falsy.\<close>

definition deserializeChain :: "ser_chain \<Rightarrow> chain" where
  "deserializeChain c =
     \<lparr>messageKeys = map (\<lambda>(i, mk). (i, b64_decode mk)) (sc_messageKeys c),
      chainKey = \<lparr>ck_counter = sc_counter c,
                  ck_key = (case sc_key c of None \<Rightarrow> None | Some k \<Rightarrow> if k = [] then None else Some (b64_decode k))\<rparr>,
      chainType = sc_chainType c\<rparr>"

definition SessionEntry_serialize :: "session_entry \<Rightarrow> ser_entry" where
  "SessionEntry_serialize e =
     (let r = currentRatchet e; i = indexInfo e in
      \<lparr>s_entryVersion = Some (entryVersion e),
       s_registrationId = se_registrationId e,
       s_pubKey = b64_encode (pubKey (ephemeralKeyPair r)),
       s_privKey = b64_encode (privKey (ephemeralKeyPair r)),
       s_lastRemoteEphemeralKey = b64_encode (lastRemoteEphemeralKey r),
       s_previousCounter = previousCounter r,
       s_rootKey = b64_encode (rootKey r),
       s_baseKey = b64_encode (baseKey i),
       s_baseKeyType = baseKeyType i,
       s_closed = ii_closed i,
       s_used = ii_used i,
       s_created = ii_created i,
       s_remoteIdentityKey = b64_encode (remoteIdentityKey i),
       s_chains = map (\<lambda>(k, c). (k, serializeChain c)) (chains e),
       s_pendingPreKey = map_option (\<lambda>p.
         \<lparr>sp_signedKeyId = pp_signedKeyId p, sp_baseKey = b64_encode (pp_baseKey p), sp_preKeyId = pp_preKeyId p\<rparr>)
         (pendingPreKey e)\<rparr>)"

text \<open>
  \<open>migrateEntry\<close>: the list of entry migrations is empty, so only data without a version passes.
\<close>

definition migrateEntry :: "ser_entry \<Rightarrow> error + ser_entry" where
  "migrateEntry d =
     (if s_entryVersion d = None then Inr d else Inl (Error ''Error migrating SessionEntry''))"

definition SessionEntry_deserialize :: "ser_entry \<Rightarrow> error + session_entry" where
  "SessionEntry_deserialize data =
     rbind (if s_entryVersion data \<noteq> Some SESSION_ENTRY_VERSION then migrateEntry data else Inr data) (\<lambda>d.
     Inr \<lparr>entryVersion = SESSION_ENTRY_VERSION,
          se_registrationId = s_registrationId d,
          currentRatchet =
            \<lparr>ephemeralKeyPair = \<lparr>pubKey = b64_decode (s_pubKey d), privKey = b64_decode (s_privKey d)\<rparr>,
             lastRemoteEphemeralKey = b64_decode (s_lastRemoteEphemeralKey d),
             previousCounter = s_previousCounter d,
             rootKey = b64_decode (s_rootKey d)\<rparr>,
          indexInfo =
            \<lparr>baseKey = b64_decode (s_baseKey d), baseKeyType = s_baseKeyType d,
             ii_closed = s_closed d, ii_used = s_used d, ii_created = s_created d,
             remoteIdentityKey = b64_decode (s_remoteIdentityKey d)\<rparr>,
          pendingPreKey = map_option (\<lambda>p.
            \<lparr>pp_signedKeyId = sp_signedKeyId p, pp_baseKey = b64_decode (sp_baseKey p), pp_preKeyId = sp_preKeyId p\<rparr>)
            (s_pendingPreKey d),
          chains = map (\<lambda>(k, c). (k, deserializeChain c)) (s_chains d)\<rparr>)"

section \<open>SessionRecord\<close>

definition new_session_record :: session_record where
  "new_session_record = \<lparr>sessions = [], version = SESSION_RECORD_VERSION\<rparr>"

text \<open>
  The one record migration: a version-less record spreads its own registration id over the
  sessions that lack one (\<open>0\<close> counts as lacking); without an id it only logs. A version other
  than \<open>v1\<close> is refused.
\<close>

definition falsy_id :: "nat option \<Rightarrow> bool" where
  "falsy_id i = (case i of None \<Rightarrow> True | Some n \<Rightarrow> n = 0)"

definition SessionRecord_migrate :: "ser_record \<Rightarrow> error + ser_record" where
  "SessionRecord_migrate d =
     (if sr_version d = None then
        Inr (if falsy_id (sr_registrationId d) then d
             else d\<lparr>sr_sessions := map (\<lambda>(k, s).
                  (k, if falsy_id (s_registrationId s) then s\<lparr>s_registrationId := sr_registrationId d\<rparr> else s))
                  (sr_sessions d)\<rparr>)
      else if sr_version d = Some ''v1'' then Inr d
      else Inl (Error ''Error migrating SessionRecord''))"

fun deserialize_entries :: "(string \<times> ser_entry) list \<Rightarrow> error + (string \<times> session_entry) list" where
  "deserialize_entries [] = Inr []"
| "deserialize_entries ((k, d) # r) =
     rbind (SessionEntry_deserialize d) (\<lambda>e. rbind (deserialize_entries r) (\<lambda>es. Inr ((k, e) # es)))"

text \<open>
  The code's \<open>Buffer.from(JSON.stringify(x))\<close> and \<open>JSON.parse\<close> are left out here: the model
  hands over the value \<open>x\<close> that the JSON text denotes.
\<close>

definition SessionRecord_deserialize :: "ser_record \<Rightarrow> error + session_record" where
  "SessionRecord_deserialize data =
     rbind (if sr_version data \<noteq> Some SESSION_RECORD_VERSION then SessionRecord_migrate data else Inr data) (\<lambda>d.
     rbind (deserialize_entries (sr_sessions d)) (\<lambda>es.
     Inr (new_session_record\<lparr>sessions := es\<rparr>)))"

definition SessionRecord_serialize :: "session_record \<Rightarrow> ser_record" where
  "SessionRecord_serialize r =
     \<lparr>sr_version = Some (version r), sr_registrationId = None,
      sr_sessions = map (\<lambda>(k, e). (k, SessionEntry_serialize e)) (sessions r)\<rparr>"

definition isClosed :: "session_entry \<Rightarrow> bool" where
  "isClosed e = (ii_closed (indexInfo e) \<noteq> - 1)"

definition getOpenSession :: "session_record \<Rightarrow> session_entry option" where
  "getOpenSession r = find (\<lambda>s. \<not> isClosed s) (map snd (sessions r))"

definition haveOpenSession :: "session_record \<Rightarrow> bool" where
  "haveOpenSession r =
     (case getOpenSession r of None \<Rightarrow> False | Some s \<Rightarrow> se_registrationId s \<noteq> None)"

definition getSession :: "bytes \<Rightarrow> session_record \<Rightarrow> error + session_entry option" where
  "getSession k r =
     (let session = obj_get (sessions r) (b64_encode k) in
      case session of
        Some s \<Rightarrow> if baseKeyType (indexInfo s) = OURS
                   then Inl (Error ''Tried to lookup a session using our basekey'') else Inr (Some s)
      | None \<Rightarrow> Inr None)"

definition setSession :: "session_entry \<Rightarrow> session_record \<Rightarrow> session_record" where
  "setSession s r = r\<lparr>sessions := obj_set (b64_encode (baseKey (indexInfo s))) s (sessions r)\<rparr>"

text \<open>\<open>Array.prototype.sort\<close> is stable; the comparator orders by \<open>used\<close>, latest first.\<close>

definition getSessions :: "session_record \<Rightarrow> session_entry list" where
  "getSessions r = sort_key (\<lambda>s. - ii_used (indexInfo s)) (map snd (sessions r))"

text \<open>\<open>now\<close> is what \<open>Date.now()\<close> returns.\<close>

definition closeSession :: "int \<Rightarrow> session_entry \<Rightarrow> session_entry" where
  "closeSession now s =
     (if isClosed s then s else s\<lparr>indexInfo := (indexInfo s)\<lparr>ii_closed := now\<rparr>\<rparr>)"

definition openSession :: "session_entry \<Rightarrow> session_entry" where
  "openSession s = s\<lparr>indexInfo := (indexInfo s)\<lparr>ii_closed := - 1\<rparr>\<rparr>"

text \<open>
  The callers' \<open>const open = record.getOpenSession(); if (open) record.closeSession(open)\<close>:
  the session object found is changed in place.
\<close>

fun close_first_open :: "int \<Rightarrow> (string \<times> session_entry) list \<Rightarrow> (string \<times> session_entry) list" where
  "close_first_open now [] = []"
| "close_first_open now ((k, s) # r) =
     (if isClosed s then (k, s) # close_first_open now r else (k, closeSession now s) # r)"

definition closeOpenSession :: "int \<Rightarrow> session_record \<Rightarrow> session_record" where
  "closeOpenSession now r = r\<lparr>sessions := close_first_open now (sessions r)\<rparr>"

text \<open>\<open>removeOldSessions\<close>: while there are more than 40, drop the one closed longest ago.\<close>

definition older :: "(string \<times> session_entry) option \<Rightarrow> string \<times> session_entry \<Rightarrow> (string \<times> session_entry) option" where
  "older oldest ks =
     (if ii_closed (indexInfo (snd ks)) \<noteq> - 1 \<and>
         (case oldest of None \<Rightarrow> True
          | Some (_, o') \<Rightarrow> ii_closed (indexInfo (snd ks)) < ii_closed (indexInfo o'))
      then Some ks else oldest)"

definition oldestClosed :: "(string \<times> session_entry) list \<Rightarrow> (string \<times> session_entry) option" where
  "oldestClosed ss = foldl older None ss"

lemma oldestClosed_in: "oldestClosed ss = Some ks \<Longrightarrow> ks \<in> set ss"
proof -
  have "foldl older o' ss = Some ks \<Longrightarrow> ks \<in> set ss \<or> o' = Some ks" for o'
    by (induction ss arbitrary: o') (auto simp: older_def split: if_splits)
  then show "oldestClosed ss = Some ks \<Longrightarrow> ks \<in> set ss" by (auto simp: oldestClosed_def)
qed

lemma length_obj_del_le: "length (obj_del k m) \<le> length m"
  by (simp add: obj_del_filter)

lemma length_obj_del_less: "k \<in> set (obj_keys m) \<Longrightarrow> length (obj_del k m) < length m"
  by (induction m) (auto simp: obj_del_filter intro: le_less_trans [OF length_filter_le])

lemma oldestClosed_shrinks: "oldestClosed ss = Some (k, s) \<Longrightarrow> length (obj_del k ss) < length ss"
  by (rule length_obj_del_less) (use oldestClosed_in in force)

function remove_old :: "(string \<times> session_entry) list \<Rightarrow> error + (string \<times> session_entry) list" where
  "remove_old ss =
     (if CLOSED_SESSIONS_MAX < length ss then
        (case oldestClosed ss of
           None \<Rightarrow> Inl (Error ''Corrupt sessions object'')
         | Some (k, s) \<Rightarrow> if k = [] then Inl (Error ''Corrupt sessions object'') else remove_old (obj_del k ss))
      else Inr ss)"
  by pat_completeness auto
termination
  by (relation "measure length") (auto intro: oldestClosed_shrinks)

declare remove_old.simps [simp del]

definition removeOldSessions :: "session_record \<Rightarrow> error + session_record" where
  "removeOldSessions r = rbind (remove_old (sessions r)) (\<lambda>ss. Inr (r\<lparr>sessions := ss\<rparr>))"

definition js_or :: "int \<Rightarrow> int \<Rightarrow> int" where
  "js_or a b = (if a = 0 then b else a)"

definition is_stale :: "int \<Rightarrow> session_entry \<Rightarrow> bool" where
  "is_stale cutoff s =
     (let lastUsed = js_or (ii_used (indexInfo s)) (ii_created (indexInfo s))
      in ii_closed (indexInfo s) \<noteq> - 1 \<and> lastUsed < cutoff)"

definition removeStaleSessions :: "int \<Rightarrow> int \<Rightarrow> session_record \<Rightarrow> session_record" where
  "removeStaleSessions now maxAgeMs r =
     (let cutoff = now - maxAgeMs
      in r\<lparr>sessions := filter (\<lambda>(_, s). \<not> is_stale cutoff s) (sessions r)\<rparr>)"

definition deleteAllSessions :: "session_record \<Rightarrow> session_record" where
  "deleteAllSessions r = r\<lparr>sessions := []\<rparr>"

section \<open>Facts about chains\<close>

definition chain_wf :: "chain \<Rightarrow> bool" where
  "chain_wf c \<longleftrightarrow>
     mk_wf (messageKeys c) \<and> ck_key (chainKey c) \<noteq> Some [] \<and> - 1 \<le> ck_counter (chainKey c) \<and>
     (\<forall>i\<in>set (map fst (messageKeys c)). int i \<le> ck_counter (chainKey c))"

definition entry_wf :: "session_entry \<Rightarrow> bool" where
  "entry_wf e \<longleftrightarrow>
     entryVersion e = SESSION_ENTRY_VERSION \<and> obj_wf (chains e) \<and> (\<forall>(_, c)\<in>set (chains e). chain_wf c)"

definition record_wf :: "session_record \<Rightarrow> bool" where
  "record_wf r \<longleftrightarrow>
     version r = SESSION_RECORD_VERSION \<and> obj_wf (sessions r) \<and>
     (\<forall>(k, e)\<in>set (sessions r). entry_wf e \<and> k = b64_encode (baseKey (indexInfo e)) \<and> k \<noteq> [])"

lemma addChain_Inr [res_simps]:
  "addChain k c e = Inr e' \<longleftrightarrow> getChain k e = None \<and> e' = putChain k c e"
  by (auto simp: addChain_def putChain_def getChain_def Let_def map_of_eq_None_iff)

lemma getChain_put: "getChain k (putChain k' c e) = (if k = k' then Some c else getChain k e)"
  by (simp add: getChain_def putChain_def obj_simps)

lemma deleteChain_Inr [res_simps]:
  "deleteChain k e = Inr e' \<longleftrightarrow> getChain k e \<noteq> None \<and> e' = e\<lparr>chains := obj_del (b64_encode k) (chains e)\<rparr>"
  by (auto simp: deleteChain_def getChain_def Let_def split: option.splits)

lemma putChain_fields [simp]:
  "currentRatchet (putChain k c e) = currentRatchet e" "indexInfo (putChain k c e) = indexInfo e"
  "pendingPreKey (putChain k c e) = pendingPreKey e" "se_registrationId (putChain k c e) = se_registrationId e"
  "entryVersion (putChain k c e) = entryVersion e"
  by (simp_all add: putChain_def)

lemma fold_obj_del: "fold obj_del ks m = filter (\<lambda>p. fst p \<notin> set ks) m"
  by (induction ks arbitrary: m) (auto simp: obj_del_filter intro: filter_cong)

lemma obj_wf_filter: "obj_wf m \<Longrightarrow> obj_wf (filter P m)"
  by (induction m) auto

lemma removeOld_chains:
  "chains (removeOldReceiverChains mx e) =
     filter (\<lambda>p. fst p \<notin> set (take (length (receiving_ids e) - mx) (receiving_ids e))) (chains e)"
  by (simp add: removeOldReceiverChains_def Let_def fold_obj_del)

lemma removeOld_fields [simp]:
  "currentRatchet (removeOldReceiverChains mx e) = currentRatchet e"
  "indexInfo (removeOldReceiverChains mx e) = indexInfo e"
  "pendingPreKey (removeOldReceiverChains mx e) = pendingPreKey e"
  "se_registrationId (removeOldReceiverChains mx e) = se_registrationId e"
  "entryVersion (removeOldReceiverChains mx e) = entryVersion e"
  by (simp_all add: removeOldReceiverChains_def Let_def)

lemma filter_by_key:
  "map fst (filter (\<lambda>p. Q (snd p)) (filter (\<lambda>p. fst p \<notin> K) m)) = filter (\<lambda>k. k \<notin> K) (map fst (filter (\<lambda>p. Q (snd p)) m))"
  by (induction m) auto

lemma filter_notin_take: "distinct xs \<Longrightarrow> filter (\<lambda>k. k \<notin> set (take n xs)) xs = drop n xs"
proof (induction xs arbitrary: n)
  case (Cons x xs)
  show ?case
  proof (cases n)
    case (Suc m)
    have "filter (\<lambda>k. k \<noteq> x \<and> k \<notin> set (take m xs)) xs = filter (\<lambda>k. k \<notin> set (take m xs)) xs"
      using Cons.prems by (intro filter_cong) auto
    with Suc Cons show ?thesis by simp
  qed (simp add: filter_id_conv)
qed simp

lemma receiving_ids_alt: "receiving_ids e = map fst (filter (\<lambda>p. chainType (snd p) = RECEIVING) (chains e))"
  by (simp add: receiving_ids_def case_prod_beta')

lemma removeOld_receiving:
  assumes "obj_wf (chains e)"
  shows "receiving_ids (removeOldReceiverChains mx e) =
     drop (length (receiving_ids e) - mx) (receiving_ids e)"
proof -
  have d: "distinct (receiving_ids e)"
    unfolding receiving_ids_alt by (rule obj_wf_filter [OF assms])
  show ?thesis
    unfolding receiving_ids_alt [of "removeOldReceiverChains mx e"] removeOld_chains
      filter_by_key [of "\<lambda>c. chainType c = RECEIVING"]
    by (simp only: receiving_ids_alt [symmetric] filter_notin_take [OF d])
qed

lemma removeOld_sending:
  "obj_wf (chains e) \<Longrightarrow> (k, c) \<in> set (chains e) \<Longrightarrow> chainType c = SENDING \<Longrightarrow>
     (k, c) \<in> set (chains (removeOldReceiverChains mx e))"
  by (auto simp: removeOld_chains receiving_ids_def dest!: in_set_takeD) (metis chain_type.distinct(1) map_of_eq_Some_iff option.inject)

section \<open>Serialization gives the state back\<close>

lemma deserialize_serialize_chain:
  "ck_key (chainKey c) \<noteq> Some [] \<Longrightarrow> deserializeChain (serializeChain c) = c"
  by (cases c; cases "chainKey c")
    (auto simp: deserializeChain_def serializeChain_def comp_def case_prod_beta' split: option.splits)

lemma deserialize_serialize_entry:
  assumes "entryVersion e = SESSION_ENTRY_VERSION"
    and "\<And>k c. (k, c) \<in> set (chains e) \<Longrightarrow> ck_key (chainKey c) \<noteq> Some []"
  shows "SessionEntry_deserialize (SessionEntry_serialize e) = Inr e"
proof -
  have "map (\<lambda>(k, c). (k, deserializeChain (serializeChain c))) (chains e) = chains e"
    using assms(2) by (auto simp: deserialize_serialize_chain intro!: map_idI)
  moreover have "map_option (\<lambda>p. \<lparr>pp_signedKeyId = pp_signedKeyId p, pp_baseKey = pp_baseKey p,
      pp_preKeyId = pp_preKeyId p\<rparr>) (pendingPreKey e) = pendingPreKey e"
    by (cases "pendingPreKey e") auto
  ultimately show ?thesis
    using assms(1)
    by (simp add: SessionEntry_deserialize_def SessionEntry_serialize_def Let_def comp_def
        case_prod_beta' option.map_comp)
qed

lemma entry_roundtrip: "entry_wf e \<Longrightarrow> SessionEntry_deserialize (SessionEntry_serialize e) = Inr e"
  by (rule deserialize_serialize_entry) (auto simp: entry_wf_def chain_wf_def)

lemma deserialize_entries_map:
  "\<forall>(k, e)\<in>set ss. entry_wf e \<Longrightarrow>
     deserialize_entries (map (\<lambda>(k, e). (k, SessionEntry_serialize e)) ss) = Inr ss"
  by (induction ss) (auto simp: entry_roundtrip)

lemma record_roundtrip: "record_wf r \<Longrightarrow> SessionRecord_deserialize (SessionRecord_serialize r) = Inr r"
  using deserialize_entries_map [of "sessions r"]
  by (fastforce simp: SessionRecord_deserialize_def SessionRecord_serialize_def record_wf_def
      new_session_record_def)

section \<open>Facts about records\<close>

lemma older_spec:
  "foldl older o' ss = r \<Longrightarrow>
     (case r of
        None \<Rightarrow> o' = None \<and> (\<forall>(k, s)\<in>set ss. \<not> isClosed s)
      | Some (k, s) \<Rightarrow>
          (o' = Some (k, s) \<or> isClosed s) \<and>
          (\<forall>(k', s')\<in>set ss. isClosed s' \<longrightarrow> ii_closed (indexInfo s) \<le> ii_closed (indexInfo s')) \<and>
          (\<forall>k' s'. o' = Some (k', s') \<longrightarrow> ii_closed (indexInfo s) \<le> ii_closed (indexInfo s')))"
proof (induction ss arbitrary: o')
  case Nil
  then show ?case by (auto split: option.splits)
next
  case (Cons ks ss)
  from Cons.prems have "foldl older (older o' ks) ss = r" by simp
  from Cons.IH [OF this] show ?case
    by (cases ks; cases o') (auto simp: older_def isClosed_def split: option.splits if_splits)
qed

lemma oldestClosed_None: "oldestClosed ss = None \<longleftrightarrow> (\<forall>(k, s)\<in>set ss. \<not> isClosed s)"
proof
  assume "oldestClosed ss = None"
  then show "\<forall>(k, s)\<in>set ss. \<not> isClosed s"
    using older_spec [of None ss None] by (simp add: oldestClosed_def)
next
  assume *: "\<forall>(k, s)\<in>set ss. \<not> isClosed s"
  show "oldestClosed ss = None"
  proof (rule ccontr)
    assume "oldestClosed ss \<noteq> None"
    then obtain k s where ks: "oldestClosed ss = Some (k, s)" by auto
    then have "isClosed s" using older_spec [of None ss "Some (k, s)"] by (simp add: oldestClosed_def)
    with * oldestClosed_in [OF ks] show False by auto
  qed
qed

lemma oldestClosed_Some:
  assumes "oldestClosed ss = Some (k, s)"
  shows "(k, s) \<in> set ss" "isClosed s"
    "\<And>k' s'. (k', s') \<in> set ss \<Longrightarrow> isClosed s' \<Longrightarrow> ii_closed (indexInfo s) \<le> ii_closed (indexInfo s')"
  using oldestClosed_in [OF assms] older_spec [of None ss "Some (k, s)"] assms
  by (auto simp: oldestClosed_def)

lemma remove_old_cases:
  assumes "remove_old ss = Inr ss'"
  obtains (small) "length ss \<le> CLOSED_SESSIONS_MAX" "ss' = ss"
    | (evict) k s where "CLOSED_SESSIONS_MAX < length ss" "oldestClosed ss = Some (k, s)" "k \<noteq> []"
        "remove_old (obj_del k ss) = Inr ss'"
  using assms by (subst (asm) remove_old.simps) (auto split: if_splits option.splits)

lemma remove_old_bound: "remove_old ss = Inr ss' \<Longrightarrow> length ss' \<le> CLOSED_SESSIONS_MAX"
  by (induction ss rule: remove_old.induct) (erule remove_old_cases, auto)

lemma remove_old_sub: "remove_old ss = Inr ss' \<Longrightarrow> \<exists>K. ss' = filter (\<lambda>p. fst p \<notin> K) ss"
proof (induction ss rule: remove_old.induct)
  case (1 ss)
  from "1.prems" show ?case
  proof (cases rule: remove_old_cases)
    case small
    then show ?thesis by (intro exI [of _ "{}"]) simp
  next
    case (evict k s)
    obtain K where "ss' = filter (\<lambda>p. fst p \<notin> K) (obj_del k ss)"
      using "1.IH" [OF evict(1,2) refl evict(3,4)] by blast
    then show ?thesis
      by (intro exI [of _ "insert k K"]) (auto simp: obj_del_filter intro: filter_cong)
  qed
qed

lemma obj_del_in: "(k', v) \<in> set (obj_del k m) \<longleftrightarrow> (k', v) \<in> set m \<and> k' \<noteq> k"
  by (auto simp: obj_del_filter)

lemma remove_old_keeps:
  assumes "obj_wf ss" "remove_old ss = Inr ss'" "(k, s) \<in> set ss" "\<not> isClosed s"
  shows "(k, s) \<in> set ss'"
  using assms
proof (induction ss rule: remove_old.induct)
  case (1 ss)
  from "1.prems"(2) show ?case
  proof (cases rule: remove_old_cases)
    case small
    with "1.prems" show ?thesis by simp
  next
    case (evict k' s')
    have "k \<noteq> k'"
      using oldestClosed_Some(1,2) [OF evict(2)] "1.prems"(1,3,4) by (metis eq_key_imp_eq_value)
    with evict "1.IH" [of "(k', s')" k' s'] "1.prems" show ?thesis
      by (simp add: obj_del_in obj_wf_del)
  qed
qed

text \<open>An evicted session was closed no later than any closed session that stays.\<close>

lemma remove_old_oldest:
  assumes "obj_wf ss" "remove_old ss = Inr ss'" "(k, s) \<in> set ss" "(k, s) \<notin> set ss'"
    "(k1, s1) \<in> set ss'" "isClosed s1"
  shows "ii_closed (indexInfo s) \<le> ii_closed (indexInfo s1)"
  using assms
proof (induction ss rule: remove_old.induct)
  case (1 ss)
  from "1.prems"(2) show ?case
  proof (cases rule: remove_old_cases)
    case small
    with "1.prems" show ?thesis by simp
  next
    case (evict k' s')
    obtain K where K: "ss' = filter (\<lambda>p. fst p \<notin> K) (obj_del k' ss)"
      using remove_old_sub [OF evict(4)] by blast
    show ?thesis
    proof (cases "k = k'")
      case True
      then have "s = s'" using oldestClosed_Some(1) [OF evict(2)] "1.prems"(1,3) by (metis eq_key_imp_eq_value)
      then show ?thesis
        using oldestClosed_Some(3) [OF evict(2), of k1 s1] "1.prems"(5,6) K by (auto simp: obj_del_in)
    next
      case False
      with evict "1.IH" [of "(k', s')" k' s'] "1.prems" show ?thesis
        by (simp add: obj_del_in obj_wf_del)
    qed
  qed
qed

lemma length_filter_del: "length (filter P (obj_del k m)) \<le> length (filter P m)"
  by (induction m) auto

text \<open>Eviction succeeds unless more than 40 sessions are open at once.\<close>

lemma remove_old_ok:
  assumes "obj_wf ss" "length (filter (\<lambda>p. \<not> isClosed (snd p)) ss) \<le> CLOSED_SESSIONS_MAX"
    "\<forall>(k, s)\<in>set ss. k \<noteq> []"
  shows "\<exists>ss'. remove_old ss = Inr ss'"
  using assms
proof (induction ss rule: remove_old.induct)
  case (1 ss)
  show ?case
  proof (cases "CLOSED_SESSIONS_MAX < length ss")
    case True
    then have "filter (\<lambda>p. \<not> isClosed (snd p)) ss \<noteq> ss" using "1.prems"(2) by auto
    then have "oldestClosed ss \<noteq> None" unfolding oldestClosed_None by (auto simp: filter_id_conv)
    then obtain k s where ks: "oldestClosed ss = Some (k, s)" by auto
    then have "k \<noteq> []" using oldestClosed_Some(1) [OF ks] "1.prems"(3) by auto
    moreover have "length (filter (\<lambda>p. \<not> isClosed (snd p)) (obj_del k ss)) \<le> CLOSED_SESSIONS_MAX"
      using "1.prems"(2) length_filter_del [of "\<lambda>p. \<not> isClosed (snd p)" k ss] by simp
    moreover have "\<forall>(k', s')\<in>set (obj_del k ss). k' \<noteq> []"
      using "1.prems"(3) by (auto simp: obj_del_in)
    ultimately show ?thesis
      using "1.IH" [OF True ks refl] "1.prems"(1) True ks
      by (subst remove_old.simps) (simp add: obj_wf_del)
  next
    case False
    then show ?thesis by (subst remove_old.simps) simp
  qed
qed

section \<open>Chains after an update\<close>

lemma obj_set_in: "(k', v') \<in> set (obj_set k v m) \<Longrightarrow> (k', v') = (k, v) \<or> (k', v') \<in> set m"
  by (induction m) (auto split: if_splits)

lemma obj_set_self: "(k, v) \<in> set (obj_set k v m)"
  by (induction m) auto

lemma entry_wf_put: "entry_wf e \<Longrightarrow> chain_wf c \<Longrightarrow> entry_wf (putChain k c e)"
  by (auto simp: entry_wf_def putChain_def obj_simps dest!: obj_set_in)

lemma entry_wf_del: "entry_wf e \<Longrightarrow> entry_wf (e\<lparr>chains := obj_del k (chains e)\<rparr>)"
  by (auto simp: entry_wf_def obj_simps obj_del_in)

lemma entry_wf_get: "entry_wf e \<Longrightarrow> getChain k e = Some c \<Longrightarrow> chain_wf c"
  by (auto simp: entry_wf_def getChain_def dest!: obj_get_Some_in)

lemma entry_wf_fields [simp]:
  "entry_wf (e\<lparr>currentRatchet := r\<rparr>) = entry_wf e" "entry_wf (e\<lparr>indexInfo := i\<rparr>) = entry_wf e"
  "entry_wf (e\<lparr>pendingPreKey := p\<rparr>) = entry_wf e"
  by (simp_all add: entry_wf_def)

lemma entry_wf_removeOld: "entry_wf e \<Longrightarrow> entry_wf (removeOldReceiverChains mx e)"
  by (auto simp: entry_wf_def removeOld_chains obj_wf_filter)

lemma getChain_fields [simp]:
  "getChain k (e\<lparr>currentRatchet := r\<rparr>) = getChain k e" "getChain k (e\<lparr>indexInfo := i\<rparr>) = getChain k e"
  "getChain k (e\<lparr>pendingPreKey := p\<rparr>) = getChain k e"
  by (simp_all add: getChain_def)

lemma getChain_del: "getChain k (e\<lparr>chains := obj_del (b64_encode k') (chains e)\<rparr>) = (if k = k' then None else getChain k e)"
  by (simp add: getChain_def obj_get_del)

lemma obj_get_filter_keys: "obj_get (filter (\<lambda>p. fst p \<notin> K) m) k = (if k \<in> K then None else obj_get m k)"
  by (induction m) auto

lemma getChain_removeOld:
  "getChain k (removeOldReceiverChains mx e) =
     (if b64_encode k \<in> set (take (length (receiving_ids e) - mx) (receiving_ids e)) then None else getChain k e)"
  by (simp add: getChain_def removeOld_chains obj_get_filter_keys)

lemma receiving_ids_fields [simp]:
  "receiving_ids (e\<lparr>currentRatchet := r\<rparr>) = receiving_ids e" "receiving_ids (e\<lparr>indexInfo := i\<rparr>) = receiving_ids e"
  "receiving_ids (e\<lparr>pendingPreKey := p\<rparr>) = receiving_ids e"
  by (simp_all add: receiving_ids_def)

lemma receiving_ids_distinct: "obj_wf (chains e) \<Longrightarrow> distinct (receiving_ids e)"
  unfolding receiving_ids_alt by (rule obj_wf_filter)

lemma receiving_ids_in:
  "getChain k e = Some c \<Longrightarrow> obj_wf (chains e) \<Longrightarrow> b64_encode k \<in> set (receiving_ids e) \<longleftrightarrow> chainType c = RECEIVING"
proof -
  assume c: "getChain k e = Some c" and wf: "obj_wf (chains e)"
  have "b64_encode k \<in> set (receiving_ids e) \<longleftrightarrow> (\<exists>c'. (b64_encode k, c') \<in> set (chains e) \<and> chainType c' = RECEIVING)"
    by (auto simp: receiving_ids_alt intro: rev_image_eqI)
  also have "\<dots> \<longleftrightarrow> chainType c = RECEIVING"
    using c wf unfolding getChain_def by (metis map_of_eq_Some_iff option.inject)
  finally show ?thesis .
qed

lemma receiving_ids_put_new:
  assumes "getChain k e = None"
  shows "receiving_ids (putChain k c e) = receiving_ids e @ (if chainType c = RECEIVING then [b64_encode k] else [])"
  using assms by (simp add: receiving_ids_alt putChain_def getChain_def obj_get_None obj_set_fresh)

lemma obj_set_filter_keys:
  "obj_get m k = Some v0 \<Longrightarrow> Q v0 = Q v \<Longrightarrow>
     map fst (filter (\<lambda>p. Q (snd p)) (obj_set k v m)) = map fst (filter (\<lambda>p. Q (snd p)) m)"
  by (induction m) (auto split: if_splits)

lemma receiving_ids_put_same:
  "getChain k e = Some c0 \<Longrightarrow> chainType c0 = chainType c \<Longrightarrow> receiving_ids (putChain k c e) = receiving_ids e"
  unfolding receiving_ids_alt putChain_def getChain_def
  using obj_set_filter_keys [of "chains e" "b64_encode k" c0 "\<lambda>c. chainType c = RECEIVING" c] by simp

lemma receiving_ids_del: "receiving_ids (e\<lparr>chains := obj_del k (chains e)\<rparr>) = filter (\<lambda>x. x \<noteq> k) (receiving_ids e)"
  unfolding receiving_ids_alt by (simp add: obj_del_filter filter_map comp_def conj_commute)

end
