(* ===== verification/Wire.thy ===== *)
theory Wire
  imports Prelude
begin

text \<open>
  The interface of \<open>protobufjs\<close>' \<open>Writer\<close> and \<open>Reader\<close> and the decode loop that every message
  class of the repository runs over it.

  The package is not part of the repository: its operations are the fields of the record
  \<open>wire\<close>. A reader is the list of the bytes that remain; each operation returns the value and
  what remains after it, or throws. \<open>wire_ok\<close> is what the code relies on: reading undoes
  writing, and a read never moves backwards.
\<close>

record wire =
  w_uint32 :: "int \<Rightarrow> bytes"
  w_bytes :: "bytes \<Rightarrow> bytes"
  w_ldelim :: "bytes \<Rightarrow> bytes"
  r_uint32 :: "bytes \<Rightarrow> error + (nat \<times> bytes)"
  r_bytes :: "bytes \<Rightarrow> error + (bytes \<times> bytes)"
  r_skipType :: "nat \<Rightarrow> bytes \<Rightarrow> error + bytes"

definition wire_ok :: "wire \<Rightarrow> bool" where
  "wire_ok W \<longleftrightarrow>
     (\<forall>v rest. 0 \<le> v \<longrightarrow> v < 2 ^ 32 \<longrightarrow> r_uint32 W (w_uint32 W v @ rest) = Inr (nat v, rest)) \<and>
     (\<forall>b rest. length b < 2 ^ 32 \<longrightarrow> r_bytes W (w_bytes W b @ rest) = Inr (b, rest)) \<and>
     (\<forall>b rest. length b < 2 ^ 32 \<longrightarrow> r_uint32 W (w_ldelim W b @ rest) = Inr (length b, b @ rest)) \<and>
     (\<forall>bs v rest. r_uint32 W bs = Inr (v, rest) \<longrightarrow> length rest < length bs \<and> v < 2 ^ 32) \<and>
     (\<forall>bs b rest. r_bytes W bs = Inr (b, rest) \<longrightarrow> length rest \<le> length bs) \<and>
     (\<forall>t bs rest. r_skipType W t bs = Inr rest \<longrightarrow> length rest \<le> length bs)"

lemma wire_okD:
  assumes "wire_ok W"
  shows "0 \<le> v \<Longrightarrow> v < 2 ^ 32 \<Longrightarrow> r_uint32 W (w_uint32 W v @ rest) = Inr (nat v, rest)"
    and "length b < 2 ^ 32 \<Longrightarrow> r_bytes W (w_bytes W b @ rest) = Inr (b, rest)"
    and "length b < 2 ^ 32 \<Longrightarrow> r_uint32 W (w_ldelim W b @ rest) = Inr (length b, b @ rest)"
    and "r_uint32 W bs = Inr (n, rest) \<Longrightarrow> length rest < length bs"
    and "r_uint32 W bs = Inr (n, rest) \<Longrightarrow> n < 2 ^ 32"
    and "r_bytes W bs = Inr (b, rest) \<Longrightarrow> length rest \<le> length bs"
    and "r_skipType W t bs = Inr rest \<Longrightarrow> length rest \<le> length bs"
  using assms unfolding wire_ok_def by blast+

lemma w_uint32_nonempty: "wire_ok W \<Longrightarrow> 0 \<le> v \<Longrightarrow> v < 2 ^ 32 \<Longrightarrow> 0 < length (w_uint32 W v)"
  using wire_okD(1) [of W v "[]"] wire_okD(4) [of W "w_uint32 W v" "nat v" "[]"] by auto

text \<open>
  The sizes of what is written: at most five bytes for a number, and a byte string with its length in
  front. Only the limits on whole messages need them.
\<close>

definition wire_sizes :: "wire \<Rightarrow> bool" where
  "wire_sizes W \<longleftrightarrow>
     (\<forall>v. 0 \<le> v \<longrightarrow> v < 2 ^ 32 \<longrightarrow> length (w_uint32 W v) \<le> 5) \<and>
     (\<forall>b. length b < 2 ^ 32 \<longrightarrow> length b \<le> length (w_bytes W b) \<and> length (w_bytes W b) \<le> length b + 5)"

section \<open>The decode loop\<close>

text \<open>
  \<open>while (r.pos < end) { tag = r.uint32(); switch (tag >>> 3) ... }\<close>. A \<open>step\<close> is the body of
  the \<open>switch\<close>: it gets the field number, the wire type, the message so far and the remaining
  bytes. \<open>stop\<close> is the number of bytes that remain when \<open>pos\<close> reaches \<open>end\<close>; it is negative
  when \<open>end\<close> lies behind the buffer, and then the loop only ends by an error. The fuel bounds the
  rounds; \<open>None\<close> stands for a loop that is still running when the fuel is used up, which the
  length of the input rules out (\<open>decode_fields_enough\<close>).
\<close>

type_synonym 'm step = "nat \<Rightarrow> nat \<Rightarrow> 'm \<Rightarrow> bytes \<Rightarrow> error + ('m \<times> bytes)"

fun decode_fields :: "wire \<Rightarrow> 'm step \<Rightarrow> nat \<Rightarrow> int \<Rightarrow> 'm \<Rightarrow> bytes \<Rightarrow> (error + ('m \<times> bytes)) option" where
  "decode_fields W step 0 stop m bs = None"
| "decode_fields W step (Suc fuel) stop m bs =
     (if int (length bs) \<le> stop then Some (Inr (m, bs))
      else case r_uint32 W bs of
          Inl e \<Rightarrow> Some (Inl e)
        | Inr (tag, r1) \<Rightarrow>
            (case step (tag div 8) (tag mod 8) m r1 of
               Inl e \<Rightarrow> Some (Inl e)
             | Inr (m', r2) \<Rightarrow> decode_fields W step fuel stop m' r2))"

declare decode_fields.simps(2) [simp del]

definition run_fields :: "wire \<Rightarrow> 'm step \<Rightarrow> int \<Rightarrow> 'm \<Rightarrow> bytes \<Rightarrow> error + ('m \<times> bytes)" where
  "run_fields W step stop m bs =
     (case decode_fields W step (Suc (length bs)) stop m bs of
        Some res \<Rightarrow> res | None \<Rightarrow> Inl (Error ''decoding does not end''))"

text \<open>The cases of the \<open>switch\<close>: read a number or a byte string and store it.\<close>

definition read_u :: "wire \<Rightarrow> bytes \<Rightarrow> (nat \<Rightarrow> 'm) \<Rightarrow> error + ('m \<times> bytes)" where
  "read_u W bs f = rbind (r_uint32 W bs) (\<lambda>(v, r). Inr (f v, r))"

definition read_b :: "wire \<Rightarrow> bytes \<Rightarrow> (bytes \<Rightarrow> 'm) \<Rightarrow> error + ('m \<times> bytes)" where
  "read_b W bs f = rbind (r_bytes W bs) (\<lambda>(b, r). Inr (f b, r))"

definition read_skip :: "wire \<Rightarrow> nat \<Rightarrow> bytes \<Rightarrow> 'm \<Rightarrow> error + ('m \<times> bytes)" where
  "read_skip W wt bs m = rbind (r_skipType W wt bs) (\<lambda>r. Inr (m, r))"

definition step_ok :: "'m step \<Rightarrow> bool" where
  "step_ok step \<longleftrightarrow> (\<forall>n t m bs m' bs'. step n t m bs = Inr (m', bs') \<longrightarrow> length bs' \<le> length bs)"

lemma read_ok:
  assumes "wire_ok W"
  shows "read_u W bs f = Inr (m', bs') \<Longrightarrow> length bs' \<le> length bs"
    and "read_b W bs g = Inr (m', bs') \<Longrightarrow> length bs' \<le> length bs"
    and "read_skip W wt bs m = Inr (m', bs') \<Longrightarrow> length bs' \<le> length bs"
  using wire_okD(4,6,7) [OF assms]
  by (fastforce simp: read_u_def read_b_def read_skip_def res_simps split: prod.splits)+

lemma decode_fields_enough:
  assumes "wire_ok W" "step_ok step" "length bs < fuel"
  shows "\<exists>res. decode_fields W step fuel stop m bs = Some res"
  using assms(3)
proof (induction fuel arbitrary: m bs)
  case (Suc fuel)
  show ?case
  proof (cases "r_uint32 W bs")
    case (Inr p)
    obtain tag r1 where p: "p = (tag, r1)" by (cases p)
    have less: "length r1 < length bs" using wire_okD(4) [OF assms(1)] Inr p by blast
    show ?thesis
    proof (cases "step (tag div 8) (tag mod 8) m r1")
      case (Inr q)
      obtain m' r2 where q: "q = (m', r2)" by (cases q)
      have "length r2 \<le> length r1" using assms(2) Inr q unfolding step_ok_def by blast
      with less Suc.prems have "length r2 < fuel" by simp
      from Suc.IH [OF this] Inr q \<open>r_uint32 W bs = Inr p\<close> p show ?thesis
        by (simp add: decode_fields.simps(2))
    qed (use Inr p in \<open>simp add: decode_fields.simps(2)\<close>)
  qed (simp add: decode_fields.simps(2))
qed simp

lemma decode_fields_mono:
  "decode_fields W step fuel stop m bs = Some res \<Longrightarrow> fuel \<le> fuel' \<Longrightarrow>
     decode_fields W step fuel' stop m bs = Some res"
proof (induction fuel arbitrary: fuel' m bs)
  case (Suc fuel)
  then obtain g where g: "fuel' = Suc g" "fuel \<le> g" by (cases fuel') auto
  show ?case
  proof (cases "int (length bs) \<le> stop")
    case False
    show ?thesis
    proof (cases "r_uint32 W bs")
      case (Inr p)
      obtain tag r1 where p: "p = (tag, r1)" by (cases p)
      show ?thesis
        using Suc.prems(1) Inr p False g Suc.IH [OF _ g(2)]
        by (cases "step (tag div 8) (tag mod 8) m r1") (auto simp: decode_fields.simps(2))
    qed (use Suc.prems g False in \<open>simp add: decode_fields.simps(2)\<close>)
  qed (use Suc.prems g in \<open>simp add: decode_fields.simps(2)\<close>)
qed simp

lemma run_fields_Some: "decode_fields W step (Suc (length bs)) stop m bs = Some res \<Longrightarrow> run_fields W step stop m bs = res"
  by (simp add: run_fields_def)

lemma run_fields_unfold:
  assumes "wire_ok W" "step_ok step"
  shows "run_fields W step stop m bs =
     (if int (length bs) \<le> stop then Inr (m, bs)
      else rbind (r_uint32 W bs) (\<lambda>(tag, r1).
           rbind (step (tag div 8) (tag mod 8) m r1) (\<lambda>(m', r2). run_fields W step stop m' r2)))"
proof -
  obtain res where res: "decode_fields W step (Suc (length bs)) stop m bs = Some res"
    using decode_fields_enough [OF assms, of bs "Suc (length bs)"] by auto
  have again: "run_fields W step stop m' r2 = res'"
    if "decode_fields W step (length bs) stop m' r2 = Some res'" "r_uint32 W bs = Inr (tag, r1)"
      "step (tag div 8) (tag mod 8) m r1 = Inr (m', r2)" for tag r1 m' r2 res'
  proof -
    have "length r1 < length bs" using wire_okD(4) [OF assms(1) that(2)] .
    moreover have "length r2 \<le> length r1" using assms(2) that(3) unfolding step_ok_def by blast
    ultimately have le: "Suc (length r2) \<le> length bs" by simp
    obtain res2 where res2: "decode_fields W step (Suc (length r2)) stop m' r2 = Some res2"
      using decode_fields_enough [OF assms, of r2 "Suc (length r2)"] by auto
    from decode_fields_mono [OF res2 le] that(1) have "res2 = res'" by simp
    with res2 show ?thesis by (simp add: run_fields_Some)
  qed
  have "res = (if int (length bs) \<le> stop then Inr (m, bs)
      else rbind (r_uint32 W bs) (\<lambda>(tag, r1).
           rbind (step (tag div 8) (tag mod 8) m r1) (\<lambda>(m', r2). run_fields W step stop m' r2)))"
    using res [unfolded decode_fields.simps(2)]
    by (auto simp: rbind_def dest: again split: if_splits sum.splits prod.splits)
  with run_fields_Some [OF res] show ?thesis by simp
qed

text \<open>One field in front of the input, written as the encoders write it.\<close>

lemma run_field:
  assumes "wire_ok W" "step_ok step" "tag < 2 ^ 32" "stop \<le> int (length rest)"
    and "step (nat tag div 8) (nat tag mod 8) m (payload @ rest) = Inr (m', rest)" "0 \<le> tag"
  shows "run_fields W step stop m (w_uint32 W tag @ payload @ rest) = run_fields W step stop m' rest"
proof -
  have "0 < length (w_uint32 W tag)" by (rule w_uint32_nonempty) (use assms in auto)
  then have "\<not> int (length (w_uint32 W tag @ payload @ rest)) \<le> stop"
    using assms(4) unfolding length_append by linarith
  then show ?thesis
    using assms wire_okD(1) [OF assms(1), of tag "payload @ rest"]
    by (subst run_fields_unfold) simp_all
qed

lemma run_end: "wire_ok W \<Longrightarrow> step_ok step \<Longrightarrow> run_fields W step (int (length rest)) m rest = Inr (m, rest)"
  by (subst run_fields_unfold) simp_all

lemma read_u_written: "wire_ok W \<Longrightarrow> 0 \<le> v \<Longrightarrow> v < 2 ^ 32 \<Longrightarrow> read_u W (w_uint32 W v @ rest) f = Inr (f (nat v), rest)"
  by (simp add: read_u_def wire_okD)

lemma read_b_written: "wire_ok W \<Longrightarrow> length b < 2 ^ 32 \<Longrightarrow> read_b W (w_bytes W b @ rest) f = Inr (f b, rest)"
  by (simp add: read_b_def wire_okD)

section \<open>Optional fields\<close>

text \<open>
  \<open>if (message.f != null && hasOwnProperty(message, "f")) writer.uint32(tag).bytes(message.f)\<close>.
\<close>

definition put_b :: "wire \<Rightarrow> int \<Rightarrow> bytes option \<Rightarrow> bytes" where
  "put_b W tag x = (case x of None \<Rightarrow> [] | Some b \<Rightarrow> w_uint32 W tag @ w_bytes W b)"

definition put_u :: "wire \<Rightarrow> int \<Rightarrow> int option \<Rightarrow> bytes" where
  "put_u W tag x = (case x of None \<Rightarrow> [] | Some v \<Rightarrow> w_uint32 W tag @ w_uint32 W v)"

definition u32_opt :: "int option \<Rightarrow> bool" where
  "u32_opt x \<longleftrightarrow> (case x of None \<Rightarrow> True | Some v \<Rightarrow> 0 \<le> v \<and> v < 2 ^ 32)"

definition len32_opt :: "bytes option \<Rightarrow> bool" where
  "len32_opt x \<longleftrightarrow> (case x of None \<Rightarrow> True | Some b \<Rightarrow> length b < 2 ^ 32)"

lemma run_put_b:
  assumes "wire_ok W" "step_ok step" "0 \<le> tag" "tag < 2 ^ 32" "stop \<le> int (length rest)" "len32_opt x"
    and "\<And>b. x = Some b \<Longrightarrow>
      step (nat tag div 8) (nat tag mod 8) m (w_bytes W b @ rest) = read_b W (w_bytes W b @ rest) f"
  shows "run_fields W step stop m (put_b W tag x @ rest) =
     run_fields W step stop (case x of None \<Rightarrow> m | Some b \<Rightarrow> f b) rest"
proof (cases x)
  case (Some b)
  with assms have "length b < 2 ^ 32" by (simp add: len32_opt_def)
  with assms Some show ?thesis
    by (simp add: put_b_def run_field read_b_written)
qed (simp add: put_b_def)

lemma run_put_u:
  assumes "wire_ok W" "step_ok step" "0 \<le> tag" "tag < 2 ^ 32" "stop \<le> int (length rest)" "u32_opt x"
    and "\<And>v. x = Some v \<Longrightarrow>
      step (nat tag div 8) (nat tag mod 8) m (w_uint32 W v @ rest) = read_u W (w_uint32 W v @ rest) f"
  shows "run_fields W step stop m (put_u W tag x @ rest) =
     run_fields W step stop (case x of None \<Rightarrow> m | Some v \<Rightarrow> f (nat v)) rest"
proof (cases x)
  case (Some v)
  with assms have "0 \<le> v" "v < 2 ^ 32" by (simp_all add: u32_opt_def)
  with assms Some show ?thesis
    by (simp add: put_u_def run_field read_u_written)
qed (simp add: put_u_def)

lemma put_sizes:
  assumes "wire_sizes W" "0 \<le> tag" "tag < 2 ^ 32"
  shows "len32_opt x \<Longrightarrow> length (put_b W tag x) \<le> (case x of None \<Rightarrow> 0 | Some b \<Rightarrow> length b + 10)"
    and "len32_opt (Some b) \<Longrightarrow> length b \<le> length (put_b W tag (Some b))"
    and "u32_opt n \<Longrightarrow> length (put_u W tag n) \<le> 10"
proof -
  have tag: "length (w_uint32 W tag) \<le> 5" using assms by (simp add: wire_sizes_def)
  have "length (w_bytes W b) \<le> length b + 5 \<and> length b \<le> length (w_bytes W b)" if "length b < 2 ^ 32" for b
    using assms(1) that by (simp add: wire_sizes_def)
  then show "len32_opt x \<Longrightarrow> length (put_b W tag x) \<le> (case x of None \<Rightarrow> 0 | Some b \<Rightarrow> length b + 10)"
    "len32_opt (Some b) \<Longrightarrow> length b \<le> length (put_b W tag (Some b))"
    using tag by (fastforce simp: put_b_def len32_opt_def split: option.splits)+
  have "length (w_uint32 W v) \<le> 5" if "0 \<le> v" "v < 2 ^ 32" for v
    using assms(1) that by (simp add: wire_sizes_def)
  then show "u32_opt n \<Longrightarrow> length (put_u W tag n) \<le> 10"
    using tag by (fastforce simp: put_u_def u32_opt_def split: option.splits)
qed

end
