(* ===== verification/Signal_Storage.thy ===== *)
theory Signal_Storage
  imports Address Session_Record Wire
begin

text \<open>
  The interfaces of \<open>src/types.ts\<close> that the session code calls. A storage is a record of
  functions over a state \<open>'s\<close>: reads give a value or an error, writes also give the state
  afterwards, which stays changed when a later step throws. A loaded session record is the caller's
  own copy, as it is for both storages of the repository.

  Random key pairs and the clock are inputs: \<open>ev_fresh i\<close> is the \<open>i\<close>-th key pair the operation
  generates and \<open>ev_now\<close> the time of the operation.
\<close>

section \<open>Code that reads and writes a storage\<close>

type_synonym ('s, 'a) op = "'s \<Rightarrow> (error + 'a) \<times> 's"

definition sret :: "'a \<Rightarrow> ('s, 'a) op" where
  "sret x = (\<lambda>s. (Inr x, s))"

definition sbind :: "('s, 'a) op \<Rightarrow> ('a \<Rightarrow> ('s, 'b) op) \<Rightarrow> ('s, 'b) op" where
  "sbind m f = (\<lambda>s. case m s of (Inl e, s') \<Rightarrow> (Inl e, s') | (Inr x, s') \<Rightarrow> f x s')"

definition sread :: "('s \<Rightarrow> error + 'a) \<Rightarrow> ('s, 'a) op" where
  "sread f = (\<lambda>s. (f s, s))"

definition slift :: "error + 'a \<Rightarrow> ('s, 'a) op" where
  "slift r = (\<lambda>s. (r, s))"

named_theorems st_simps "how a chain of storage operations runs"

lemma st_basic [st_simps]:
  "sret x s = (Inr x, s)" "slift r s = (r, s)" "sread f s = (f s, s)"
  by (simp_all add: sret_def slift_def sread_def)

lemma sbind_Inr [st_simps]:
  "sbind m f s = (Inr y, s'') \<longleftrightarrow> (\<exists>x s'. m s = (Inr x, s') \<and> f x s' = (Inr y, s''))"
  by (auto simp: sbind_def split: prod.splits sum.splits)

lemma sbind_Inl:
  "sbind m f s = (Inl e, s'') \<longleftrightarrow>
     m s = (Inl e, s'') \<or> (\<exists>x s'. m s = (Inr x, s') \<and> f x s' = (Inl e, s''))"
  by (auto simp: sbind_def split: prod.splits sum.splits)

lemma sbind_run:
  "m s = (Inr x, s') \<Longrightarrow> sbind m f s = f x s'"
  "m s = (Inl e, s') \<Longrightarrow> sbind m f s = (Inl e, s')"
  by (simp_all add: sbind_def)

lemma sbind_sread: "sbind (sread g) f s = (case g s of Inl e \<Rightarrow> (Inl e, s) | Inr x \<Rightarrow> f x s)"
  by (simp add: sbind_def sread_def split: sum.splits)

lemma sbind_slift: "sbind (slift r) f s = (case r of Inl e \<Rightarrow> (Inl e, s) | Inr x \<Rightarrow> f x s)"
  by (simp add: sbind_def slift_def split: sum.splits)

text \<open>
  \<open>keeps I m Q\<close>: from a state with \<open>I\<close> the operation ends in a state with \<open>I\<close>, also when it throws,
  and a value it returns has \<open>Q\<close>. \<open>fails_clean I m\<close>: the operation keeps \<open>I\<close> when it throws.
\<close>

definition keeps :: "('s \<Rightarrow> bool) \<Rightarrow> ('s, 'a) op \<Rightarrow> ('a \<Rightarrow> bool) \<Rightarrow> bool" where
  "keeps I m Q \<longleftrightarrow> (\<forall>s r s'. I s \<longrightarrow> m s = (r, s') \<longrightarrow> I s' \<and> (\<forall>x. r = Inr x \<longrightarrow> Q x))"

definition fails_clean :: "('s \<Rightarrow> bool) \<Rightarrow> ('s, 'a) op \<Rightarrow> bool" where
  "fails_clean I m \<longleftrightarrow> (\<forall>s e s'. I s \<longrightarrow> m s = (Inl e, s') \<longrightarrow> I s')"

named_theorems keeps_rules "how a chain of operations keeps an invariant"

lemma keeps_sret [keeps_rules]: "Q x \<Longrightarrow> keeps I (sret x) Q"
  by (simp add: keeps_def sret_def)

lemma keeps_slift [keeps_rules]: "(\<And>x. r = Inr x \<Longrightarrow> Q x) \<Longrightarrow> keeps I (slift r) Q"
  by (simp add: keeps_def slift_def)

lemma keeps_read: "(\<And>s x. I s \<Longrightarrow> g s = Inr x \<Longrightarrow> Q x) \<Longrightarrow> keeps I (\<lambda>s. (g s, s)) Q"
  by (simp add: keeps_def)

lemma keeps_sread [keeps_rules]: "(\<And>s x. I s \<Longrightarrow> g s = Inr x \<Longrightarrow> Q x) \<Longrightarrow> keeps I (sread g) Q"
  by (simp add: keeps_def sread_def)

lemma keeps_sbind: "keeps I m Q \<Longrightarrow> (\<And>x. Q x \<Longrightarrow> keeps I (f x) R) \<Longrightarrow> keeps I (sbind m f) R"
proof -
  assume m: "keeps I m Q" and f: "\<And>x. Q x \<Longrightarrow> keeps I (f x) R"
  have "I s'' \<and> (\<forall>y. r = Inr y \<longrightarrow> R y)" if s: "I s" and run: "sbind m f s = (r, s'')" for s r s''
  proof (cases "m s")
    case (Pair q s')
    note ms = m [unfolded keeps_def, rule_format, OF s Pair]
    show ?thesis
    proof (cases q)
      case (Inl e)
      then show ?thesis using run Pair ms by (auto simp: sbind_def)
    next
      case (Inr x)
      then have "f x s' = (r, s'')" using run Pair by (simp add: sbind_def)
      then show ?thesis using f [of x, unfolded keeps_def, rule_format, of s' r s''] ms Inr by blast
    qed
  qed
  then show ?thesis unfolding keeps_def by blast
qed

lemma keeps_step: "keeps I m (\<lambda>_. True) \<Longrightarrow> (\<And>x. keeps I (f x) R) \<Longrightarrow> keeps I (sbind m f) R"
  by (rule keeps_sbind)

lemma keeps_slift_bind: "(\<And>x. r = Inr x \<Longrightarrow> keeps I (f x) R) \<Longrightarrow> keeps I (sbind (slift r) f) R"
  by (rule keeps_sbind [where Q = "\<lambda>x. r = Inr x"]) (simp_all add: keeps_slift)

lemma keeps_if: "(b \<Longrightarrow> keeps I m Q) \<Longrightarrow> (\<not> b \<Longrightarrow> keeps I n Q) \<Longrightarrow> keeps I (if b then m else n) Q"
  by simp

lemma keeps_option:
  "(x = None \<Longrightarrow> keeps I m Q) \<Longrightarrow> (\<And>y. x = Some y \<Longrightarrow> keeps I (n y) Q) \<Longrightarrow>
     keeps I (case x of None \<Rightarrow> m | Some y \<Rightarrow> n y) Q"
  by (cases x) simp_all

lemma keeps_weaken: "keeps I m Q \<Longrightarrow> (\<And>x. Q x \<Longrightarrow> R x) \<Longrightarrow> keeps I m R"
  unfolding keeps_def by blast

lemma keepsD: "keeps I m Q \<Longrightarrow> I s \<Longrightarrow> m s = (r, s') \<Longrightarrow> I s'"
  unfolding keeps_def by blast

lemma fails_cleanD: "fails_clean I m \<Longrightarrow> I s \<Longrightarrow> m s = (Inl e, s') \<Longrightarrow> I s'"
  unfolding fails_clean_def by blast

lemma fails_clean_sbind:
  "keeps I m Q \<Longrightarrow> (\<And>x. Q x \<Longrightarrow> fails_clean I (f x)) \<Longrightarrow> fails_clean I (sbind m f)"
proof -
  assume m: "keeps I m Q" and f: "\<And>x. Q x \<Longrightarrow> fails_clean I (f x)"
  have "I s''" if s: "I s" and run: "sbind m f s = (Inl e, s'')" for s e s''
    using run unfolding sbind_Inl
  proof
    assume "m s = (Inl e, s'')"
    with keepsD [OF m s] show ?thesis by blast
  next
    assume "\<exists>x s'. m s = (Inr x, s') \<and> f x s' = (Inl e, s'')"
    then obtain x s' where ms: "m s = (Inr x, s')" and fs: "f x s' = (Inl e, s'')" by blast
    have "I s'" "Q x" using m [unfolded keeps_def, rule_format, OF s ms] by simp_all
    then show ?thesis using f fs unfolding fails_clean_def by blast
  qed
  then show ?thesis unfolding fails_clean_def by blast
qed

lemma fails_clean_keeps: "keeps I m Q \<Longrightarrow> fails_clean I m"
  unfolding keeps_def fails_clean_def by blast

lemma fails_clean_never: "(\<And>s e s'. m s \<noteq> (Inl e, s')) \<Longrightarrow> fails_clean I m"
  unfolding fails_clean_def by blast

text \<open>Sequences that start with a read or with code that does not touch the storage.\<close>

lemma keeps_read_bind:
  assumes "\<And>s x. I s \<Longrightarrow> g s = Inr x \<Longrightarrow> keeps I (f x) R"
  shows "keeps I (sbind (\<lambda>s. (g s, s)) f) R"
proof (rule keeps_sbind [where Q = "\<lambda>x. \<exists>s. I s \<and> g s = Inr x"])
  show "keeps I (\<lambda>s. (g s, s)) (\<lambda>x. \<exists>s. I s \<and> g s = Inr x)" by (rule keeps_read) blast
  show "keeps I (f x) R" if "\<exists>s. I s \<and> g s = Inr x" for x using that assms by blast
qed

lemma clean_read_bind:
  assumes "\<And>s x. I s \<Longrightarrow> g s = Inr x \<Longrightarrow> fails_clean I (f x)"
  shows "fails_clean I (sbind (\<lambda>s. (g s, s)) f)"
proof (rule fails_clean_sbind [where Q = "\<lambda>x. \<exists>s. I s \<and> g s = Inr x"])
  show "keeps I (\<lambda>s. (g s, s)) (\<lambda>x. \<exists>s. I s \<and> g s = Inr x)" by (rule keeps_read) blast
  show "fails_clean I (f x)" if "\<exists>s. I s \<and> g s = Inr x" for x using that assms by blast
qed

lemma clean_slift_bind: "(\<And>x. r = Inr x \<Longrightarrow> fails_clean I (f x)) \<Longrightarrow> fails_clean I (sbind (slift r) f)"
  by (rule fails_clean_sbind [where Q = "\<lambda>x. r = Inr x"]) (simp_all add: keeps_slift)

lemma clean_step: "keeps I m (\<lambda>_. True) \<Longrightarrow> (\<And>x. fails_clean I (f x)) \<Longrightarrow> fails_clean I (sbind m f)"
  by (rule fails_clean_sbind)

lemma clean_if: "(b \<Longrightarrow> fails_clean I m) \<Longrightarrow> (\<not> b \<Longrightarrow> fails_clean I n) \<Longrightarrow> fails_clean I (if b then m else n)"
  by simp

lemma clean_option:
  "(x = None \<Longrightarrow> fails_clean I m) \<Longrightarrow> (\<And>y. x = Some y \<Longrightarrow> fails_clean I (n y)) \<Longrightarrow>
     fails_clean I (case x of None \<Rightarrow> m | Some y \<Rightarrow> n y)"
  by (cases x) simp_all

lemma clean_slift: "fails_clean I (slift r)"
  by (simp add: fails_clean_def slift_def)

section \<open>SignalStorage\<close>

record 's signal_storage =
  loadSession :: "string \<Rightarrow> 's \<Rightarrow> error + session_record option"
  storeSession :: "string \<Rightarrow> session_record \<Rightarrow> ('s, unit) op"
  isTrustedIdentity :: "string \<Rightarrow> bytes \<Rightarrow> direction \<Rightarrow> ('s, bool) op"
  loadIdentity :: "(string \<Rightarrow> 's \<Rightarrow> error + bytes option) option"
  loadPreKey :: "nat \<Rightarrow> 's \<Rightarrow> error + key_pair option"
  removePreKey :: "nat \<Rightarrow> ('s, unit) op"
  loadSignedPreKey :: "nat \<Rightarrow> 's \<Rightarrow> error + key_pair option"
  getOurRegistrationId :: "'s \<Rightarrow> error + nat"
  getOurIdentity :: "'s \<Rightarrow> error + key_pair"

record env =
  ev_prims :: prims
  ev_wire :: wire
  ev_now :: int
  ev_fresh :: "nat \<Rightarrow> key_pair"

text \<open>\<open>Buffer.from(text)\<close> for the ASCII labels of the protocol.\<close>

definition ascii :: "string \<Rightarrow> bytes" where
  "ascii s = map of_char s"

text \<open>
  \<open>untrustedIdentityError\<close>, which the session builder and the session cipher both define: the
  error carries the identity stored before, when the storage has \<open>loadIdentity\<close>.
\<close>

definition untrustedIdentityError :: "'s signal_storage \<Rightarrow> protocol_address \<Rightarrow> bytes \<Rightarrow> ('s, 'a) op" where
  "untrustedIdentityError S addr identityKey =
     sbind (case loadIdentity S of None \<Rightarrow> sret None | Some f \<Rightarrow> sread (f (addr_id addr)))
       (\<lambda>previousIdentityKey.
          slift (Inl (UntrustedIdentityKeyError (addr_id addr) identityKey previousIdentityKey)))"

lemma untrustedIdentityError_throws:
  "untrustedIdentityError S addr k s = (r, s') \<Longrightarrow> s' = s \<and> (\<exists>e. r = Inl e)"
  by (auto simp: untrustedIdentityError_def sbind_def sread_def sret_def slift_def split: option.splits sum.splits)

end
