(* ===== verification/JS_Value.thy ===== *)
theory JS_Value
  imports Prelude
begin

text \<open>
  Values of type \<open>unknown\<close>: what the run-time checks of the code inspect. \<open>JFrac n\<close> stands for
  any number that is not an integer and not \<open>NaN\<close>, where \<open>n\<close> is what remains when its fraction is
  dropped (\<open>0\<close> for the infinities); the checks only ask whether a number is an integer and compare
  integers.
\<close>

datatype jsval =
    JUndef
  | JNull
  | JBool bool
  | JInt int
  | JFrac int
  | JNaN
  | JStr string
  | JBuf bytes
  | JArr "jsval list"
  | JObj "(string \<times> jsval) list"

fun js_truthy :: "jsval \<Rightarrow> bool" where
  "js_truthy JUndef = False"
| "js_truthy JNull = False"
| "js_truthy (JBool b) = b"
| "js_truthy (JInt n) = (n \<noteq> 0)"
| "js_truthy JNaN = False"
| "js_truthy (JStr s) = (s \<noteq> [])"
| "js_truthy _ = True"

text \<open>\<open>typeof v === "object"\<close>.\<close>

fun js_is_object :: "jsval \<Rightarrow> bool" where
  "js_is_object JNull = True"
| "js_is_object (JBuf _) = True"
| "js_is_object (JArr _) = True"
| "js_is_object (JObj _) = True"
| "js_is_object _ = False"

text \<open>
  \<open>v.f\<close>. The callers have excluded \<open>null\<close> and \<open>undefined\<close>, where the access would throw;
  buffers, arrays and primitives have none of the properties that are looked up.
\<close>

fun js_get :: "jsval \<Rightarrow> string \<Rightarrow> jsval" where
  "js_get (JObj ps) f = (case map_of ps f of None \<Rightarrow> JUndef | Some v \<Rightarrow> v)"
| "js_get _ f = JUndef"

text \<open>\<open>v == null\<close>, \<open>v.length\<close> and \<open>hasOwnProperty\<close>.\<close>

fun js_nullish :: "jsval \<Rightarrow> bool" where
  "js_nullish JUndef = True"
| "js_nullish JNull = True"
| "js_nullish _ = False"

fun js_length :: "jsval \<Rightarrow> jsval" where
  "js_length (JStr s) = JInt (int (length s))"
| "js_length (JBuf b) = JInt (int (length b))"
| "js_length (JArr xs) = JInt (int (length xs))"
| "js_length (JObj ps) = js_get (JObj ps) ''length''"
| "js_length _ = JUndef"

fun js_has_own :: "jsval \<Rightarrow> string \<Rightarrow> bool" where
  "js_has_own (JObj ps) f = (map_of ps f \<noteq> None)"
| "js_has_own _ f = False"

lemma js_get_own: "\<not> js_has_own v f \<Longrightarrow> js_get v f = JUndef"
  by (cases v) auto

text \<open>An element of a plain array, written into a buffer.\<close>

fun byte_of_js :: "jsval \<Rightarrow> byte" where
  "byte_of_js (JInt n) = word_of_int n"
| "byte_of_js _ = 0"

definition js_nat_opt :: "nat option \<Rightarrow> jsval" where
  "js_nat_opt x = (case x of None \<Rightarrow> JUndef | Some n \<Rightarrow> JInt (int n))"

end
