(* ===== verification/Prekey_Validator.thy ===== *)
theory Prekey_Validator
  imports JS_Value
begin

text \<open>
  \<open>src/prekey-bundle-validator.ts\<close>: the checks on a device key bundle before a session is built
  from it and on an incoming prekey message before it is processed. The validators take values of
  unknown shape; \<open>bundle_accepted\<close> and \<open>incoming_accepted\<close> say exactly which values pass.
\<close>

definition MIN_REGISTRATION_ID :: int where "MIN_REGISTRATION_ID = 1"
definition MAX_REGISTRATION_ID :: int where "MAX_REGISTRATION_ID = 0x3fff"
definition MAX_INCOMING_REGISTRATION_ID :: int where "MAX_INCOMING_REGISTRATION_ID = 0xffffffff"
definition IDENTITY_KEY_LENGTH :: nat where "IDENTITY_KEY_LENGTH = 33"
definition PUBLIC_KEY_LENGTH :: nat where "PUBLIC_KEY_LENGTH = 33"
definition SIGNATURE_LENGTH :: nat where "SIGNATURE_LENGTH = 64"
definition MAX_KEY_ID :: int where "MAX_KEY_ID = 0xffffff"

lemmas validator_consts =
  MIN_REGISTRATION_ID_def MAX_REGISTRATION_ID_def MAX_INCOMING_REGISTRATION_ID_def
  IDENTITY_KEY_LENGTH_def PUBLIC_KEY_LENGTH_def SIGNATURE_LENGTH_def MAX_KEY_ID_def

text \<open>\<open>isNonNegativeInteger(n)\<close> narrows the value to a number; \<open>Some\<close> carries that number.\<close>

fun isNonNegativeInteger :: "jsval \<Rightarrow> int option" where
  "isNonNegativeInteger (JInt n) = (if 0 \<le> n then Some n else None)"
| "isNonNegativeInteger _ = None"

fun assertBufferLength :: "jsval \<Rightarrow> nat \<Rightarrow> string \<Rightarrow> error + unit" where
  "assertBufferLength (JBuf b) len field =
     (if length b \<noteq> len then Inl (PreKeyError (field @ '' has invalid length'')) else Inr ())"
| "assertBufferLength _ len field = Inl (PreKeyError (field @ '' must be a Uint8Array''))"

definition assertKeyId :: "jsval \<Rightarrow> string \<Rightarrow> error + unit" where
  "assertKeyId value field =
     (case isNonNegativeInteger value of
        None \<Rightarrow> Inl (PreKeyError (field @ '' is out of range''))
      | Some n \<Rightarrow> if n > MAX_KEY_ID then Inl (PreKeyError (field @ '' is out of range'')) else Inr ())"

definition assertRegistrationId :: "jsval \<Rightarrow> error + unit" where
  "assertRegistrationId value =
     (case isNonNegativeInteger value of
        None \<Rightarrow> Inl (PreKeyError ''Invalid registrationId'')
      | Some n \<Rightarrow> if n < MIN_REGISTRATION_ID \<or> n > MAX_REGISTRATION_ID
                   then Inl (PreKeyError ''Invalid registrationId'') else Inr ())"

definition assertIncomingRegistrationId :: "jsval \<Rightarrow> error + unit" where
  "assertIncomingRegistrationId value =
     (case isNonNegativeInteger value of
        None \<Rightarrow> Inl (PreKeyError ''Invalid registrationId'')
      | Some n \<Rightarrow> if n < MIN_REGISTRATION_ID \<or> n > MAX_INCOMING_REGISTRATION_ID
                   then Inl (PreKeyError ''Invalid registrationId'') else Inr ())"

definition assertValidDeviceKeyBundle :: "jsval \<Rightarrow> error + unit" where
  "assertValidDeviceKeyBundle bundle =
     (if \<not> js_truthy bundle \<or> \<not> js_is_object bundle
      then Inl (PreKeyError ''Device key bundle must be an object'')
      else
        rbind (assertRegistrationId (js_get bundle ''registrationId'')) (\<lambda>_.
        rbind (assertBufferLength (js_get bundle ''identityKey'') IDENTITY_KEY_LENGTH ''identityKey'') (\<lambda>_.
        let spk = js_get bundle ''signedPreKey'' in
        if \<not> js_truthy spk \<or> \<not> js_is_object spk then Inl (PreKeyError ''Missing signedPreKey'')
        else
          rbind (assertKeyId (js_get spk ''keyId'') ''signedPreKey.keyId'') (\<lambda>_.
          rbind (assertBufferLength (js_get spk ''publicKey'') PUBLIC_KEY_LENGTH ''signedPreKey.publicKey'') (\<lambda>_.
          rbind (assertBufferLength (js_get spk ''signature'') SIGNATURE_LENGTH ''signedPreKey.signature'') (\<lambda>_.
          let pk = js_get bundle ''preKey'' in
          if js_truthy pk then
            rbind (assertKeyId (js_get pk ''keyId'') ''preKey.keyId'') (\<lambda>_.
            assertBufferLength (js_get pk ''publicKey'') PUBLIC_KEY_LENGTH ''preKey.publicKey'')
          else Inr ()))))))"

definition assertValidIncomingPreKeyMessage :: "jsval \<Rightarrow> error + unit" where
  "assertValidIncomingPreKeyMessage message =
     (if \<not> js_truthy message \<or> \<not> js_is_object message
      then Inl (PreKeyError ''Incoming prekey message must be an object'')
      else
        rbind (assertBufferLength (js_get message ''identityKey'') IDENTITY_KEY_LENGTH ''identityKey'') (\<lambda>_.
        rbind (assertBufferLength (js_get message ''baseKey'') PUBLIC_KEY_LENGTH ''baseKey'') (\<lambda>_.
        rbind (case js_get message ''message'' of
                 JBuf b \<Rightarrow> guard_that (length b \<noteq> 0) (PreKeyError ''message must be a non-empty Uint8Array'')
               | _ \<Rightarrow> Inl (PreKeyError ''message must be a non-empty Uint8Array'')) (\<lambda>_.
        rbind (if js_get message ''registrationId'' \<noteq> JUndef
               then assertIncomingRegistrationId (js_get message ''registrationId'') else Inr ()) (\<lambda>_.
        rbind (if js_get message ''preKeyId'' \<noteq> JUndef
               then assertKeyId (js_get message ''preKeyId'') ''preKeyId'' else Inr ()) (\<lambda>_.
        rbind (guard_that (js_get message ''signedPreKeyId'' \<noteq> JUndef) (PreKeyError ''Missing signedPreKeyId'')) (\<lambda>_.
          assertKeyId (js_get message ''signedPreKeyId'') ''signedPreKeyId'')))))))"

section \<open>What passes\<close>

definition js_key_id :: "jsval \<Rightarrow> bool" where
  "js_key_id v \<longleftrightarrow> (\<exists>n. v = JInt n \<and> 0 \<le> n \<and> n \<le> 0xffffff)"

definition js_int_between :: "int \<Rightarrow> int \<Rightarrow> jsval \<Rightarrow> bool" where
  "js_int_between lo hi v \<longleftrightarrow> (\<exists>n. v = JInt n \<and> lo \<le> n \<and> n \<le> hi)"

definition js_bytes :: "nat \<Rightarrow> jsval \<Rightarrow> bool" where
  "js_bytes len v \<longleftrightarrow> (\<exists>b. v = JBuf b \<and> length b = len)"

lemma assertBufferLength_iff [res_simps]: "assertBufferLength v len f = Inr u \<longleftrightarrow> js_bytes len v"
  by (cases v) (auto simp: js_bytes_def)

lemma assertKeyId_iff [res_simps]: "assertKeyId v f = Inr u \<longleftrightarrow> js_key_id v"
  by (cases v) (auto simp: assertKeyId_def js_key_id_def MAX_KEY_ID_def)

lemma assertRegistrationId_iff [res_simps]: "assertRegistrationId v = Inr u \<longleftrightarrow> js_int_between 1 0x3fff v"
  by (cases v) (auto simp: assertRegistrationId_def js_int_between_def validator_consts)

lemma assertIncomingRegistrationId_iff [res_simps]:
  "assertIncomingRegistrationId v = Inr u \<longleftrightarrow> js_int_between 1 0xffffffff v"
  by (cases v) (auto simp: assertIncomingRegistrationId_def js_int_between_def validator_consts)

definition bundle_accepted :: "jsval \<Rightarrow> bool" where
  "bundle_accepted v \<longleftrightarrow> (\<exists>ps. v = JObj ps) \<and>
     js_int_between 1 0x3fff (js_get v ''registrationId'') \<and>
     js_bytes 33 (js_get v ''identityKey'') \<and>
     js_key_id (js_get (js_get v ''signedPreKey'') ''keyId'') \<and>
     js_bytes 33 (js_get (js_get v ''signedPreKey'') ''publicKey'') \<and>
     js_bytes 64 (js_get (js_get v ''signedPreKey'') ''signature'') \<and>
     (js_truthy (js_get v ''preKey'') \<longrightarrow>
        js_key_id (js_get (js_get v ''preKey'') ''keyId'') \<and>
        js_bytes 33 (js_get (js_get v ''preKey'') ''publicKey''))"

definition incoming_accepted :: "jsval \<Rightarrow> bool" where
  "incoming_accepted v \<longleftrightarrow> (\<exists>ps. v = JObj ps) \<and>
     js_bytes 33 (js_get v ''identityKey'') \<and> js_bytes 33 (js_get v ''baseKey'') \<and>
     (\<exists>b. js_get v ''message'' = JBuf b \<and> b \<noteq> []) \<and>
     (js_get v ''registrationId'' \<noteq> JUndef \<longrightarrow> js_int_between 1 0xffffffff (js_get v ''registrationId'')) \<and>
     (js_get v ''preKeyId'' \<noteq> JUndef \<longrightarrow> js_key_id (js_get v ''preKeyId'')) \<and>
     js_key_id (js_get v ''signedPreKeyId'')"

lemma js_get_undef: "js_get v f \<noteq> JUndef \<Longrightarrow> \<exists>ps. v = JObj ps"
  by (cases v) auto

lemma js_get_object: "js_key_id (js_get v f) \<or> js_bytes n (js_get v f) \<Longrightarrow> \<exists>ps. v = JObj ps"
  by (rule js_get_undef [of v f]) (auto simp: js_key_id_def js_bytes_def)

lemma bundle_accepted_iff: "assertValidDeviceKeyBundle v = Inr () \<longleftrightarrow> bundle_accepted v"
proof (cases "js_truthy v \<and> js_is_object v \<and> js_truthy (js_get v ''signedPreKey'') \<and> js_is_object (js_get v ''signedPreKey'')")
  case True
  moreover have "js_bytes 33 (js_get v ''identityKey'') \<Longrightarrow> \<exists>ps. v = JObj ps"
    using js_get_object [of v "''identityKey''" 33] by blast
  ultimately show ?thesis
    by (auto simp: assertValidDeviceKeyBundle_def bundle_accepted_def Let_def res_simps validator_consts
        split: if_splits)
next
  case False
  have "\<not> bundle_accepted v"
  proof
    assume acc: "bundle_accepted v"
    then obtain ps where "v = JObj ps" by (auto simp: bundle_accepted_def)
    moreover from acc obtain qs where "js_get v ''signedPreKey'' = JObj qs"
      using js_get_object [of "js_get v ''signedPreKey''" "''keyId''"] by (auto simp: bundle_accepted_def)
    ultimately show False using False by simp
  qed
  moreover have "assertValidDeviceKeyBundle v \<noteq> Inr ()"
    using False by (auto simp: assertValidDeviceKeyBundle_def Let_def res_simps)
  ultimately show ?thesis by simp
qed

lemma incoming_accepted_iff: "assertValidIncomingPreKeyMessage v = Inr () \<longleftrightarrow> incoming_accepted v"
proof (cases "js_truthy v \<and> js_is_object v")
  case True
  have obj: "js_bytes 33 (js_get v ''identityKey'') \<Longrightarrow> \<exists>ps. v = JObj ps"
    using js_get_object [of v "''identityKey''" 33] by blast
  have msg: "(case m of JBuf b \<Rightarrow> guard_that (length b \<noteq> 0) e | _ \<Rightarrow> Inl e) = Inr () \<longleftrightarrow> (\<exists>b. m = JBuf b \<and> b \<noteq> [])"
    for m and e :: error by (cases m) (auto simp: guard_that_def)
  have undef: "js_key_id x \<Longrightarrow> x \<noteq> JUndef" for x by (auto simp: js_key_id_def)
  from True show ?thesis
    by (auto simp: assertValidIncomingPreKeyMessage_def incoming_accepted_def res_simps validator_consts
        msg obj undef split: if_split_asm)
next
  case False
  then show ?thesis by (auto simp: assertValidIncomingPreKeyMessage_def incoming_accepted_def)
qed

section \<open>The typed views the session code uses\<close>

record signed_pre_key_pub =
  spk_keyId :: nat
  spk_publicKey :: bytes
  spk_signature :: bytes

record pre_key_pub =
  prk_keyId :: nat
  prk_publicKey :: bytes

record device_key_bundle =
  b_registrationId :: nat
  b_identityKey :: bytes
  b_signedPreKey :: signed_pre_key_pub
  b_preKey :: "pre_key_pub option"

record incoming_pre_key_message =
  im_registrationId :: "nat option"
  im_identityKey :: bytes
  im_baseKey :: bytes
  im_preKeyId :: "nat option"
  im_signedPreKeyId :: "nat option"
  im_message :: bytes

definition js_of_bundle :: "device_key_bundle \<Rightarrow> jsval" where
  "js_of_bundle b =
     JObj [(''registrationId'', JInt (int (b_registrationId b))),
           (''identityKey'', JBuf (b_identityKey b)),
           (''signedPreKey'', JObj [(''keyId'', JInt (int (spk_keyId (b_signedPreKey b)))),
              (''publicKey'', JBuf (spk_publicKey (b_signedPreKey b))),
              (''signature'', JBuf (spk_signature (b_signedPreKey b)))]),
           (''preKey'', case b_preKey b of None \<Rightarrow> JUndef
              | Some p \<Rightarrow> JObj [(''keyId'', JInt (int (prk_keyId p))), (''publicKey'', JBuf (prk_publicKey p))])]"

definition js_of_incoming :: "incoming_pre_key_message \<Rightarrow> jsval" where
  "js_of_incoming m =
     JObj [(''registrationId'', js_nat_opt (im_registrationId m)),
           (''identityKey'', JBuf (im_identityKey m)),
           (''baseKey'', JBuf (im_baseKey m)),
           (''preKeyId'', js_nat_opt (im_preKeyId m)),
           (''signedPreKeyId'', js_nat_opt (im_signedPreKeyId m)),
           (''message'', JBuf (im_message m))]"

definition bundle_valid :: "device_key_bundle \<Rightarrow> bool" where
  "bundle_valid b \<longleftrightarrow>
     1 \<le> b_registrationId b \<and> b_registrationId b \<le> 0x3fff \<and> length (b_identityKey b) = 33 \<and>
     spk_keyId (b_signedPreKey b) \<le> 0xffffff \<and> length (spk_publicKey (b_signedPreKey b)) = 33 \<and>
     length (spk_signature (b_signedPreKey b)) = 64 \<and>
     (\<forall>p. b_preKey b = Some p \<longrightarrow> prk_keyId p \<le> 0xffffff \<and> length (prk_publicKey p) = 33)"

definition incoming_valid :: "incoming_pre_key_message \<Rightarrow> bool" where
  "incoming_valid m \<longleftrightarrow>
     length (im_identityKey m) = 33 \<and> length (im_baseKey m) = 33 \<and> im_message m \<noteq> [] \<and>
     (\<forall>r. im_registrationId m = Some r \<longrightarrow> 1 \<le> r \<and> r \<le> 0xffffffff) \<and>
     (\<forall>i. im_preKeyId m = Some i \<longrightarrow> i \<le> 0xffffff) \<and>
     (\<exists>i. im_signedPreKeyId m = Some i \<and> i \<le> 0xffffff)"

lemma assert_bundle [res_simps]: "assertValidDeviceKeyBundle (js_of_bundle b) = Inr () \<longleftrightarrow> bundle_valid b"
  unfolding bundle_accepted_iff
  by (cases "b_preKey b")
    (auto simp: bundle_accepted_def bundle_valid_def js_of_bundle_def js_int_between_def js_key_id_def js_bytes_def)

lemma assert_incoming [res_simps]:
  "assertValidIncomingPreKeyMessage (js_of_incoming m) = Inr () \<longleftrightarrow> incoming_valid m"
  unfolding incoming_accepted_iff
  by (cases "im_registrationId m"; cases "im_preKeyId m"; cases "im_signedPreKeyId m")
    (auto simp: incoming_accepted_def incoming_valid_def js_of_incoming_def js_int_between_def js_key_id_def
      js_bytes_def js_nat_opt_def)

end
