(* ===== verification/Session_Builder.thy ===== *)
theory Session_Builder
  imports Signal_Storage Prekey_Validator
begin

text \<open>
  \<open>src/session-builder.ts\<close>: building a session from a peer's key bundle (\<open>initOutgoing\<close>) or
  from the header of an incoming prekey message (\<open>initIncoming\<close>). Both run the X3DH key agreement
  in \<open>initSession\<close>. The log lines are left out.
\<close>

section \<open>X3DH\<close>

text \<open>
  \<open>sharedSecret\<close> is a buffer of 32 bytes \<open>0xff\<close> followed by the agreements; \<open>a1\<close> and \<open>a2\<close>
  trade places between the two roles. \<open>Buffer.set\<close> throws when an agreement does not fit.
\<close>

definition x3dh_secret :: "bool \<Rightarrow> bytes \<Rightarrow> bytes \<Rightarrow> bytes \<Rightarrow> bytes option \<Rightarrow> error + bytes" where
  "x3dh_secret isInitiator a1 a2 a3 a4 =
     (let size = (if a4 \<noteq> None then 32 * 5 else 32 * 4);
          secret0 = replicate 32 0xff @ drop 32 (buf_alloc size)
      in rbind (buf_set secret0 a1 (if isInitiator then 32 else 32 * 2)) (\<lambda>b1.
         rbind (buf_set b1 a2 (if isInitiator then 32 * 2 else 32)) (\<lambda>b2.
         rbind (buf_set b2 a3 (32 * 3)) (\<lambda>b3.
           case a4 of None \<Rightarrow> Inr b3 | Some a \<Rightarrow> buf_set b3 a (32 * 4)))))"

definition calculateSendingRatchet :: "prims \<Rightarrow> bytes \<Rightarrow> session_entry \<Rightarrow> error + session_entry" where
  "calculateSendingRatchet P remoteKey session =
     (let ratchet = currentRatchet session in
      rbind (calculateAgreement P remoteKey (privKey (ephemeralKeyPair ratchet))) (\<lambda>sharedSecret.
      rbind (deriveSecrets P sharedSecret (rootKey ratchet) (ascii ''WhisperRatchet'') None) (\<lambda>masterKey.
      rbind (addChain (pubKey (ephemeralKeyPair ratchet))
               \<lparr>messageKeys = [],
                chainKey = \<lparr>ck_counter = - 1, ck_key = Some (masterKey ! 1)\<rparr>,
                chainType = SENDING\<rparr> session) (\<lambda>session1.
        Inr (session1\<lparr>currentRatchet := (currentRatchet session1)\<lparr>rootKey := masterKey ! 0\<rparr>\<rparr>)))))"

text \<open>
  The non-null assertions of the code (\<open>ourSignedKey!\<close>, \<open>theirSignedPubKey!\<close>) read a property of
  \<open>undefined\<close> when they fail, which throws a \<open>TypeError\<close>. \<open>fresh\<close> is the key pair the initiator
  generates for its first ratchet.
\<close>

definition need :: "'a option \<Rightarrow> error + 'a" where
  "need x = (case x of None \<Rightarrow> Inl (TypeError ''Cannot read properties of undefined'') | Some y \<Rightarrow> Inr y)"

definition initSession ::
  "prims \<Rightarrow> int \<Rightarrow> key_pair \<Rightarrow> key_pair \<Rightarrow> bool \<Rightarrow> key_pair option \<Rightarrow> key_pair option \<Rightarrow> bytes \<Rightarrow>
   bytes option \<Rightarrow> bytes option \<Rightarrow> nat option \<Rightarrow> error + session_entry" where
  "initSession P now fresh ourIdentityKey isInitiator ourEphemeralKey ourSignedKeyInput
     theirIdentityPubKey theirEphemeralPubKey theirSignedPubKeyInput registrationId =
     rbind (guard_that (\<not> (if isInitiator then ourSignedKeyInput \<noteq> None else theirSignedPubKeyInput \<noteq> None))
              (Error ''Invalid call to initSession'')) (\<lambda>_.
     rbind (need (if isInitiator then theirSignedPubKeyInput else theirEphemeralPubKey)) (\<lambda>theirSignedPubKey.
     rbind (calculateAgreement P theirSignedPubKey (privKey ourIdentityKey)) (\<lambda>a1.
     rbind (need (if isInitiator then ourEphemeralKey else ourSignedKeyInput)) (\<lambda>ourSignedKey.
     rbind (calculateAgreement P theirIdentityPubKey (privKey ourSignedKey)) (\<lambda>a2.
     rbind (calculateAgreement P theirSignedPubKey (privKey ourSignedKey)) (\<lambda>a3.
     rbind (case (ourEphemeralKey, theirEphemeralPubKey) of
              (Some e, Some k) \<Rightarrow> rbind (calculateAgreement P k (privKey e)) (\<lambda>a. Inr (Some a))
            | _ \<Rightarrow> Inr None) (\<lambda>a4.
     rbind (x3dh_secret isInitiator a1 a2 a3 a4) (\<lambda>sharedSecret.
     rbind (deriveSecrets P sharedSecret (buf_alloc 32) (ascii ''WhisperText'') None) (\<lambda>masterKey.
     rbind (need (if isInitiator then map_option pubKey ourEphemeralKey else theirEphemeralPubKey)) (\<lambda>base.
       let session =
         \<lparr>entryVersion = SESSION_ENTRY_VERSION,
          se_registrationId = registrationId,
          currentRatchet =
            \<lparr>ephemeralKeyPair = (if isInitiator then fresh else ourSignedKey),
             lastRemoteEphemeralKey = theirSignedPubKey,
             previousCounter = 0,
             rootKey = masterKey ! 0\<rparr>,
          indexInfo =
            \<lparr>baseKey = base,
             baseKeyType = (if isInitiator then OURS else THEIRS),
             ii_closed = - 1, ii_used = now, ii_created = now,
             remoteIdentityKey = theirIdentityPubKey\<rparr>,
          pendingPreKey = None,
          chains = []\<rparr>
       in if isInitiator then calculateSendingRatchet P theirSignedPubKey session else Inr session))))))))))"

section \<open>Outgoing and incoming sessions\<close>

definition isTrusted_or_throw ::
  "'s signal_storage \<Rightarrow> protocol_address \<Rightarrow> bytes \<Rightarrow> direction \<Rightarrow> ('s, unit) op" where
  "isTrusted_or_throw S addr k dir =
     sbind (isTrustedIdentity S (addr_id addr) k dir) (\<lambda>ok.
       if ok then sret () else untrustedIdentityError S addr k)"

definition initOutgoing :: "env \<Rightarrow> 's signal_storage \<Rightarrow> protocol_address \<Rightarrow> device_key_bundle \<Rightarrow> ('s, unit) op" where
  "initOutgoing E S addr device =
     (let P = ev_prims E; spk = b_signedPreKey device; fqAddr = address_toString addr in
      sbind (slift (assertValidDeviceKeyBundle (js_of_bundle device))) (\<lambda>_.
      sbind (slift (verifySignature P (b_identityKey device) (spk_publicKey spk) (spk_signature spk))) (\<lambda>valid.
      sbind (slift (guard_that valid (Error ''Signature validation failed''))) (\<lambda>_.
      sbind (isTrusted_or_throw S addr (b_identityKey device) Sending_Direction) (\<lambda>_.
      let base = ev_fresh E 0 in
      sbind (sread (getOurIdentity S)) (\<lambda>ourIdentityKey.
      sbind (slift (initSession P (ev_now E) (ev_fresh E 1) ourIdentityKey True (Some base) None
                      (b_identityKey device) (map_option prk_publicKey (b_preKey device))
                      (Some (spk_publicKey spk)) (Some (b_registrationId device)))) (\<lambda>session0.
      let session = session0\<lparr>pendingPreKey :=
            Some \<lparr>pp_signedKeyId = spk_keyId spk, pp_baseKey = pubKey base,
                  pp_preKeyId = map_option prk_keyId (b_preKey device)\<rparr>\<rparr> in
      sbind (sread (loadSession S fqAddr)) (\<lambda>loaded.
      let record = (case loaded of None \<Rightarrow> new_session_record | Some r \<Rightarrow> closeOpenSession (ev_now E) r) in
      sbind (slift (removeOldSessions (setSession session record))) (\<lambda>record'.
        storeSession S fqAddr record')))))))))"

text \<open>
  \<open>initIncoming\<close> changes the caller's record in place; the model returns it with the result. Where
  the code throws after changing the record, the caller drops the record.
\<close>

definition initIncoming ::
  "env \<Rightarrow> 's signal_storage \<Rightarrow> protocol_address \<Rightarrow> session_record \<Rightarrow> incoming_pre_key_message \<Rightarrow>
   ('s, session_record \<times> nat option) op" where
  "initIncoming E S addr record message =
     (let P = ev_prims E in
      sbind (slift (assertValidIncomingPreKeyMessage (js_of_incoming message))) (\<lambda>_.
      sbind (isTrusted_or_throw S addr (im_identityKey message) Receiving_Direction) (\<lambda>_.
      sbind (slift (getSession (im_baseKey message) record)) (\<lambda>existing.
      if existing \<noteq> None then sret (record, None)
      else
        sbind (case im_preKeyId message of
                 None \<Rightarrow> sret None
               | Some i \<Rightarrow> sbind (sread (loadPreKey S i)) (\<lambda>kp.
                   if kp = None then slift (Inl (PreKeyError ''Invalid PreKey ID'')) else sret kp)) (\<lambda>preKeyPair.
        sbind (case im_signedPreKeyId message of
                 None \<Rightarrow> sret None | Some i \<Rightarrow> sread (loadSignedPreKey S i)) (\<lambda>signedPreKeyPair.
        if signedPreKeyPair = None then slift (Inl (PreKeyError ''Missing SignedPreKey''))
        else
          let record1 = closeOpenSession (ev_now E) record in
          sbind (sread (getOurIdentity S)) (\<lambda>ourIdentityKey.
          sbind (slift (initSession P (ev_now E) (ev_fresh E 0) ourIdentityKey False preKeyPair signedPreKeyPair
                          (im_identityKey message) (Some (im_baseKey message)) None
                          (im_registrationId message))) (\<lambda>session.
            sret (setSession session record1, im_preKeyId message)))))))))"

end
