(* ===== verification/Whisper_Protocol.thy ===== *)
theory Whisper_Protocol
  imports Wire
begin

text \<open>
  \<open>src/whisper-text-protocol.ts\<close>: the three protobuf messages of the pairwise protocol with
  their \<open>encode\<close>, \<open>decode\<close>, \<open>encodeDelimited\<close> and \<open>decodeDelimited\<close>. A field is \<open>None\<close> when
  the object has no own property of that name; reading it then gives the prototype's default
  (\<open>0\<close> or the empty buffer), which the getters \<open>def_u\<close> and \<open>def_b\<close> return.
\<close>

definition def_u :: "nat option \<Rightarrow> nat" where
  "def_u x = (case x of None \<Rightarrow> 0 | Some n \<Rightarrow> n)"

definition def_b :: "bytes option \<Rightarrow> bytes" where
  "def_b x = (case x of None \<Rightarrow> [] | Some b \<Rightarrow> b)"

text \<open>A numeric field as it is handed to \<open>Writer.uint32\<close>.\<close>

abbreviation u_field :: "nat option \<Rightarrow> int option" where
  "u_field \<equiv> map_option int"

definition delimited :: "wire \<Rightarrow> (int \<Rightarrow> bytes \<Rightarrow> error + ('m \<times> bytes)) \<Rightarrow> bytes \<Rightarrow> error + ('m \<times> bytes)" where
  "delimited W decode bs =
     rbind (r_uint32 W bs) (\<lambda>(len, r). decode (int (length r) - int len) r)"

section \<open>WhisperMessage\<close>

text \<open>
  \<open>previousCounter\<close> is an integer here, because the cipher may store \<open>-1\<close> in it before
  encoding.
\<close>

record whisper_message =
  wm_ephemeralKey :: "bytes option"
  wm_counter :: "int option"
  wm_previousCounter :: "int option"
  wm_ciphertext :: "bytes option"

definition WhisperMessage_create :: whisper_message where
  "WhisperMessage_create =
     \<lparr>wm_ephemeralKey = None, wm_counter = None, wm_previousCounter = None, wm_ciphertext = None\<rparr>"

definition WhisperMessage_encode :: "wire \<Rightarrow> whisper_message \<Rightarrow> bytes" where
  "WhisperMessage_encode W m =
     put_b W 10 (wm_ephemeralKey m) @ put_u W 16 (wm_counter m) @
     put_u W 24 (wm_previousCounter m) @ put_b W 34 (wm_ciphertext m)"

definition WhisperMessage_step :: "wire \<Rightarrow> whisper_message step" where
  "WhisperMessage_step W field wt m bs =
     (if field = 1 then read_b W bs (\<lambda>b. m\<lparr>wm_ephemeralKey := Some b\<rparr>)
      else if field = 2 then read_u W bs (\<lambda>v. m\<lparr>wm_counter := Some (int v)\<rparr>)
      else if field = 3 then read_u W bs (\<lambda>v. m\<lparr>wm_previousCounter := Some (int v)\<rparr>)
      else if field = 4 then read_b W bs (\<lambda>b. m\<lparr>wm_ciphertext := Some b\<rparr>)
      else read_skip W wt bs m)"

definition WhisperMessage_read :: "wire \<Rightarrow> int \<Rightarrow> bytes \<Rightarrow> error + (whisper_message \<times> bytes)" where
  "WhisperMessage_read W stop bs = run_fields W (WhisperMessage_step W) stop WhisperMessage_create bs"

definition WhisperMessage_decode :: "wire \<Rightarrow> bytes \<Rightarrow> error + whisper_message" where
  "WhisperMessage_decode W bs = rbind (WhisperMessage_read W 0 bs) (\<lambda>(m, _). Inr m)"

definition WhisperMessage_encodeDelimited :: "wire \<Rightarrow> whisper_message \<Rightarrow> bytes" where
  "WhisperMessage_encodeDelimited W m = w_ldelim W (WhisperMessage_encode W m)"

definition WhisperMessage_decodeDelimited :: "wire \<Rightarrow> bytes \<Rightarrow> error + (whisper_message \<times> bytes)" where
  "WhisperMessage_decodeDelimited W = delimited W (WhisperMessage_read W)"

definition whisper_fits :: "whisper_message \<Rightarrow> bool" where
  "whisper_fits m \<longleftrightarrow> len32_opt (wm_ephemeralKey m) \<and> u32_opt (wm_counter m) \<and>
     u32_opt (wm_previousCounter m) \<and> len32_opt (wm_ciphertext m)"

lemma WhisperMessage_step_ok: "wire_ok W \<Longrightarrow> step_ok (WhisperMessage_step W)"
  unfolding step_ok_def WhisperMessage_step_def by (auto split: if_splits dest: read_ok)

lemma nat_u_field: "x \<noteq> None \<Longrightarrow> u32_opt x \<Longrightarrow> int (nat (the x)) = the x"
  by (auto simp: u32_opt_def)

lemma WhisperMessage_read_encode:
  assumes "wire_ok W" "whisper_fits m"
  shows "WhisperMessage_read W (int (length rest)) (WhisperMessage_encode W m @ rest) = Inr (m, rest)"
proof -
  note ok = assms(1) WhisperMessage_step_ok [OF assms(1)]
  have "WhisperMessage_read W (int (length rest)) (WhisperMessage_encode W m @ rest) =
     run_fields W (WhisperMessage_step W) (int (length rest)) m rest"
    using assms(2) unfolding WhisperMessage_read_def WhisperMessage_encode_def append_assoc whisper_fits_def
    by (subst run_put_b [OF ok], simp_all add: WhisperMessage_step_def,
        subst run_put_u [OF ok], simp_all add: WhisperMessage_step_def,
        subst run_put_u [OF ok], simp_all add: WhisperMessage_step_def,
        subst run_put_b [OF ok], simp_all add: WhisperMessage_step_def)
      (cases m; auto simp: WhisperMessage_create_def u32_opt_def split: option.splits)
  then show ?thesis using run_end [OF ok] by simp
qed

lemma WhisperMessage_decode_encode:
  assumes "wire_ok W" "whisper_fits m"
  shows "WhisperMessage_decode W (WhisperMessage_encode W m) = Inr m"
  using WhisperMessage_read_encode [OF assms, of "[]"] by (simp add: WhisperMessage_decode_def)

text \<open>A delimited message is read back in front of any bytes that follow it.\<close>

lemma delimited_written:
  assumes "wire_ok W" "length b < 2 ^ 32" "decode (int (length rest)) (b @ rest) = Inr (m, rest)"
  shows "delimited W decode (w_ldelim W b @ rest) = Inr (m, rest)"
  using assms by (simp add: delimited_def wire_okD)

section \<open>PreKeyWhisperMessage\<close>

record prekey_whisper_message =
  pk_registrationId :: "nat option"
  pk_preKeyId :: "nat option"
  pk_signedPreKeyId :: "nat option"
  pk_baseKey :: "bytes option"
  pk_identityKey :: "bytes option"
  pk_message :: "bytes option"

definition PreKeyWhisperMessage_create :: prekey_whisper_message where
  "PreKeyWhisperMessage_create =
     \<lparr>pk_registrationId = None, pk_preKeyId = None, pk_signedPreKeyId = None, pk_baseKey = None, pk_identityKey = None, pk_message = None\<rparr>"

definition PreKeyWhisperMessage_encode :: "wire \<Rightarrow> prekey_whisper_message \<Rightarrow> bytes" where
  "PreKeyWhisperMessage_encode W m =
     put_u W 8 (u_field (pk_preKeyId m)) @
     put_b W 18 (pk_baseKey m) @
     put_b W 26 (pk_identityKey m) @
     put_b W 34 (pk_message m) @
     put_u W 40 (u_field (pk_registrationId m)) @
     put_u W 48 (u_field (pk_signedPreKeyId m))"

definition PreKeyWhisperMessage_step :: "wire \<Rightarrow> prekey_whisper_message step" where
  "PreKeyWhisperMessage_step W field wt m bs =
     (if field = 5 then read_u W bs (\<lambda>v. m\<lparr>pk_registrationId := Some v\<rparr>)
      else if field = 1 then read_u W bs (\<lambda>v. m\<lparr>pk_preKeyId := Some v\<rparr>)
      else if field = 6 then read_u W bs (\<lambda>v. m\<lparr>pk_signedPreKeyId := Some v\<rparr>)
      else if field = 2 then read_b W bs (\<lambda>b. m\<lparr>pk_baseKey := Some b\<rparr>)
      else if field = 3 then read_b W bs (\<lambda>b. m\<lparr>pk_identityKey := Some b\<rparr>)
      else if field = 4 then read_b W bs (\<lambda>b. m\<lparr>pk_message := Some b\<rparr>)
      else read_skip W wt bs m)"

definition PreKeyWhisperMessage_read :: "wire \<Rightarrow> int \<Rightarrow> bytes \<Rightarrow> error + (prekey_whisper_message \<times> bytes)" where
  "PreKeyWhisperMessage_read W stop bs = run_fields W (PreKeyWhisperMessage_step W) stop PreKeyWhisperMessage_create bs"

definition PreKeyWhisperMessage_decode :: "wire \<Rightarrow> bytes \<Rightarrow> error + prekey_whisper_message" where
  "PreKeyWhisperMessage_decode W bs = rbind (PreKeyWhisperMessage_read W 0 bs) (\<lambda>(m, _). Inr m)"

definition PreKeyWhisperMessage_encodeDelimited :: "wire \<Rightarrow> prekey_whisper_message \<Rightarrow> bytes" where
  "PreKeyWhisperMessage_encodeDelimited W m = w_ldelim W (PreKeyWhisperMessage_encode W m)"

definition PreKeyWhisperMessage_decodeDelimited :: "wire \<Rightarrow> bytes \<Rightarrow> error + (prekey_whisper_message \<times> bytes)" where
  "PreKeyWhisperMessage_decodeDelimited W = delimited W (PreKeyWhisperMessage_read W)"

definition prekey_whisper_message_fits :: "prekey_whisper_message \<Rightarrow> bool" where
  "prekey_whisper_message_fits m \<longleftrightarrow>
     u32_opt (u_field (pk_preKeyId m)) \<and>
     len32_opt (pk_baseKey m) \<and>
     len32_opt (pk_identityKey m) \<and>
     len32_opt (pk_message m) \<and>
     u32_opt (u_field (pk_registrationId m)) \<and>
     u32_opt (u_field (pk_signedPreKeyId m))"

lemma PreKeyWhisperMessage_step_ok: "wire_ok W \<Longrightarrow> step_ok (PreKeyWhisperMessage_step W)"
  unfolding step_ok_def PreKeyWhisperMessage_step_def by (auto split: if_splits dest: read_ok)

lemma PreKeyWhisperMessage_read_encode:
  assumes "wire_ok W" "prekey_whisper_message_fits m"
  shows "PreKeyWhisperMessage_read W (int (length rest)) (PreKeyWhisperMessage_encode W m @ rest) = Inr (m, rest)"
proof -
  note ok = assms(1) PreKeyWhisperMessage_step_ok [OF assms(1)]
  have "PreKeyWhisperMessage_read W (int (length rest)) (PreKeyWhisperMessage_encode W m @ rest) =
     run_fields W (PreKeyWhisperMessage_step W) (int (length rest)) m rest"
    using assms(2) unfolding PreKeyWhisperMessage_read_def PreKeyWhisperMessage_encode_def append_assoc prekey_whisper_message_fits_def
    by (subst run_put_u [OF ok], simp_all add: PreKeyWhisperMessage_step_def,
        subst run_put_b [OF ok], simp_all add: PreKeyWhisperMessage_step_def,
        subst run_put_b [OF ok], simp_all add: PreKeyWhisperMessage_step_def,
        subst run_put_b [OF ok], simp_all add: PreKeyWhisperMessage_step_def,
        subst run_put_u [OF ok], simp_all add: PreKeyWhisperMessage_step_def,
        subst run_put_u [OF ok], simp_all add: PreKeyWhisperMessage_step_def)
      (cases m; auto simp: PreKeyWhisperMessage_create_def u32_opt_def split: option.splits)
  then show ?thesis using run_end [OF ok] by simp
qed

lemma PreKeyWhisperMessage_decode_encode:
  assumes "wire_ok W" "prekey_whisper_message_fits m"
  shows "PreKeyWhisperMessage_decode W (PreKeyWhisperMessage_encode W m) = Inr m"
  using PreKeyWhisperMessage_read_encode [OF assms, of "[]"] by (simp add: PreKeyWhisperMessage_decode_def)

section \<open>KeyExchangeMessage\<close>

record key_exchange_message =
  kx_id :: "nat option"
  kx_baseKey :: "bytes option"
  kx_ephemeralKey :: "bytes option"
  kx_identityKey :: "bytes option"
  kx_baseKeySignature :: "bytes option"

definition KeyExchangeMessage_create :: key_exchange_message where
  "KeyExchangeMessage_create =
     \<lparr>kx_id = None, kx_baseKey = None, kx_ephemeralKey = None, kx_identityKey = None, kx_baseKeySignature = None\<rparr>"

definition KeyExchangeMessage_encode :: "wire \<Rightarrow> key_exchange_message \<Rightarrow> bytes" where
  "KeyExchangeMessage_encode W m =
     put_u W 8 (u_field (kx_id m)) @
     put_b W 18 (kx_baseKey m) @
     put_b W 26 (kx_ephemeralKey m) @
     put_b W 34 (kx_identityKey m) @
     put_b W 42 (kx_baseKeySignature m)"

definition KeyExchangeMessage_step :: "wire \<Rightarrow> key_exchange_message step" where
  "KeyExchangeMessage_step W field wt m bs =
     (if field = 1 then read_u W bs (\<lambda>v. m\<lparr>kx_id := Some v\<rparr>)
      else if field = 2 then read_b W bs (\<lambda>b. m\<lparr>kx_baseKey := Some b\<rparr>)
      else if field = 3 then read_b W bs (\<lambda>b. m\<lparr>kx_ephemeralKey := Some b\<rparr>)
      else if field = 4 then read_b W bs (\<lambda>b. m\<lparr>kx_identityKey := Some b\<rparr>)
      else if field = 5 then read_b W bs (\<lambda>b. m\<lparr>kx_baseKeySignature := Some b\<rparr>)
      else read_skip W wt bs m)"

definition KeyExchangeMessage_read :: "wire \<Rightarrow> int \<Rightarrow> bytes \<Rightarrow> error + (key_exchange_message \<times> bytes)" where
  "KeyExchangeMessage_read W stop bs = run_fields W (KeyExchangeMessage_step W) stop KeyExchangeMessage_create bs"

definition KeyExchangeMessage_decode :: "wire \<Rightarrow> bytes \<Rightarrow> error + key_exchange_message" where
  "KeyExchangeMessage_decode W bs = rbind (KeyExchangeMessage_read W 0 bs) (\<lambda>(m, _). Inr m)"

definition KeyExchangeMessage_encodeDelimited :: "wire \<Rightarrow> key_exchange_message \<Rightarrow> bytes" where
  "KeyExchangeMessage_encodeDelimited W m = w_ldelim W (KeyExchangeMessage_encode W m)"

definition KeyExchangeMessage_decodeDelimited :: "wire \<Rightarrow> bytes \<Rightarrow> error + (key_exchange_message \<times> bytes)" where
  "KeyExchangeMessage_decodeDelimited W = delimited W (KeyExchangeMessage_read W)"

definition key_exchange_message_fits :: "key_exchange_message \<Rightarrow> bool" where
  "key_exchange_message_fits m \<longleftrightarrow>
     u32_opt (u_field (kx_id m)) \<and>
     len32_opt (kx_baseKey m) \<and>
     len32_opt (kx_ephemeralKey m) \<and>
     len32_opt (kx_identityKey m) \<and>
     len32_opt (kx_baseKeySignature m)"

lemma KeyExchangeMessage_step_ok: "wire_ok W \<Longrightarrow> step_ok (KeyExchangeMessage_step W)"
  unfolding step_ok_def KeyExchangeMessage_step_def by (auto split: if_splits dest: read_ok)

lemma KeyExchangeMessage_read_encode:
  assumes "wire_ok W" "key_exchange_message_fits m"
  shows "KeyExchangeMessage_read W (int (length rest)) (KeyExchangeMessage_encode W m @ rest) = Inr (m, rest)"
proof -
  note ok = assms(1) KeyExchangeMessage_step_ok [OF assms(1)]
  have "KeyExchangeMessage_read W (int (length rest)) (KeyExchangeMessage_encode W m @ rest) =
     run_fields W (KeyExchangeMessage_step W) (int (length rest)) m rest"
    using assms(2) unfolding KeyExchangeMessage_read_def KeyExchangeMessage_encode_def append_assoc key_exchange_message_fits_def
    by (subst run_put_u [OF ok], simp_all add: KeyExchangeMessage_step_def,
        subst run_put_b [OF ok], simp_all add: KeyExchangeMessage_step_def,
        subst run_put_b [OF ok], simp_all add: KeyExchangeMessage_step_def,
        subst run_put_b [OF ok], simp_all add: KeyExchangeMessage_step_def,
        subst run_put_b [OF ok], simp_all add: KeyExchangeMessage_step_def)
      (cases m; auto simp: KeyExchangeMessage_create_def u32_opt_def split: option.splits)
  then show ?thesis using run_end [OF ok] by simp
qed

lemma KeyExchangeMessage_decode_encode:
  assumes "wire_ok W" "key_exchange_message_fits m"
  shows "KeyExchangeMessage_decode W (KeyExchangeMessage_encode W m) = Inr m"
  using KeyExchangeMessage_read_encode [OF assms, of "[]"] by (simp add: KeyExchangeMessage_decode_def)

end
