(* ===== verification/Session_Cipher.thy ===== *)
theory Session_Cipher
  imports Session_Builder Whisper_Protocol
begin

text \<open>
  \<open>src/session-cipher.ts\<close>: the Double Ratchet. Message framing, the symmetric chain step
  (\<open>fillMessageKeys\<close>), the Diffie-Hellman ratchet step (\<open>maybeStepRatchet\<close>), and the public
  operations on top of a storage. The job queue that serialises the operations of one address is
  modelled in another theory; each operation here is the job it runs.
\<close>

definition VERSION :: nat where "VERSION = 3"
definition DEFAULT_STALE_SESSION_MAX_AGE_MS :: int where
  "DEFAULT_STALE_SESSION_MAX_AGE_MS = 90 * 24 * 60 * 60 * 1000"
definition MIN_MESSAGE_LENGTH :: nat where "MIN_MESSAGE_LENGTH = 1 + 1 + 8"
definition MAX_RECEIVER_CHAINS :: nat where "MAX_RECEIVER_CHAINS = 5"
definition MAX_MESSAGE_KEYS :: nat where "MAX_MESSAGE_KEYS = 2000"

section \<open>Checks on a decoded message\<close>

definition assertKeyBytes :: "bytes \<Rightarrow> error + unit" where
  "assertKeyBytes v = guard_that (length v = 33) (SessionError ''Invalid: expected a 33-byte public key'')"

definition assertCounter :: "int \<Rightarrow> error + unit" where
  "assertCounter v = guard_that (\<not> v < 0) (SessionError ''Invalid: expected a non-negative integer'')"

text \<open>Reading an absent field gives the default of the message's prototype.\<close>

definition wm_key :: "whisper_message \<Rightarrow> bytes" where "wm_key m = def_b (wm_ephemeralKey m)"
definition wm_body :: "whisper_message \<Rightarrow> bytes" where "wm_body m = def_b (wm_ciphertext m)"
definition wm_count :: "whisper_message \<Rightarrow> int" where
  "wm_count m = (case wm_counter m of None \<Rightarrow> 0 | Some n \<Rightarrow> n)"
definition wm_previous :: "whisper_message \<Rightarrow> int" where
  "wm_previous m = (case wm_previousCounter m of None \<Rightarrow> 0 | Some n \<Rightarrow> n)"

definition assertValidWhisperMessage :: "whisper_message \<Rightarrow> error + unit" where
  "assertValidWhisperMessage m =
     rbind (assertKeyBytes (wm_key m)) (\<lambda>_.
     rbind (assertCounter (wm_count m)) (\<lambda>_.
     rbind (assertCounter (wm_previous m)) (\<lambda>_.
       guard_that (\<not> (length (wm_body m) = 0 \<or> length (wm_body m) mod 16 \<noteq> 0))
         (SessionError ''Invalid WhisperMessage.ciphertext: expected a non-empty AES-CBC block''))))"

definition decodePreKeyMessage :: "wire \<Rightarrow> bytes \<Rightarrow> error + prekey_whisper_message" where
  "decodePreKeyMessage W data =
     (case PreKeyWhisperMessage_decode W data of
        Inl e \<Rightarrow> Inl (PreKeyError ''Invalid PreKeyWhisperMessage'') | Inr m \<Rightarrow> Inr m)"

definition decodeWhisperMessage :: "wire \<Rightarrow> bytes \<Rightarrow> error + whisper_message" where
  "decodeWhisperMessage W data =
     (case WhisperMessage_decode W data of
        Inl e \<Rightarrow> Inl (SessionError ''Invalid WhisperMessage'') | Inr m \<Rightarrow> Inr m)"

definition encodeTupleByte :: "nat \<Rightarrow> nat \<Rightarrow> error + byte" where
  "encodeTupleByte number1 number2 =
     (if number1 > 15 \<or> number2 > 15 then Inl (TypeError ''Numbers must be 4 bits or less'')
      else Inr (push_bit 4 (of_nat number1) OR of_nat number2))"

definition decodeTupleByte :: "byte \<Rightarrow> nat \<times> nat" where
  "decodeTupleByte b = (unat (drop_bit 4 b), unat (b AND 0xf))"

section \<open>The symmetric ratchet\<close>

definition pruneMessageKeys :: "chain \<Rightarrow> chain" where
  "pruneMessageKeys c =
     (let indexes = map fst (messageKeys c); excess = length indexes - MAX_MESSAGE_KEYS
      in c\<lparr>messageKeys := fold obj_del (take excess indexes) (messageKeys c)\<rparr>)"

text \<open>One turn of the loop: the message key of the next counter and the next chain key.\<close>

definition chain_step :: "prims \<Rightarrow> bytes \<Rightarrow> chain \<Rightarrow> chain" where
  "chain_step P key c =
     (let n = ck_counter (chainKey c) + 1 in
      c\<lparr>messageKeys := mk_set (nat n) (calculateMAC P key [1]) (messageKeys c),
        chainKey := \<lparr>ck_counter = n, ck_key = Some (calculateMAC P key [2])\<rparr>\<rparr>)"

lemma chain_step_counter [simp]: "ck_counter (chainKey (chain_step P key c)) = ck_counter (chainKey c) + 1"
  by (simp add: chain_step_def Let_def)

function fill_loop :: "prims \<Rightarrow> int \<Rightarrow> chain \<Rightarrow> error + chain" where
  "fill_loop P counter c =
     (if ck_counter (chainKey c) < counter then
        if counter - ck_counter (chainKey c) > 2000
        then Inl (SessionError ''Over 2000 messages into the future!'')
        else (case ck_key (chainKey c) of
                None \<Rightarrow> Inl (SessionError ''Chain closed'')
              | Some key \<Rightarrow> fill_loop P counter (chain_step P key c))
      else Inr c)"
  by pat_completeness auto
termination
  by (relation "measure (\<lambda>(_, counter, c). nat (counter - ck_counter (chainKey c)))") auto

declare fill_loop.simps [simp del]

definition fillMessageKeys :: "prims \<Rightarrow> chain \<Rightarrow> int \<Rightarrow> error + chain" where
  "fillMessageKeys P c counter =
     rbind (fill_loop P counter c) (\<lambda>c'.
       Inr (if ck_counter (chainKey c') \<noteq> ck_counter (chainKey c) then pruneMessageKeys c' else c'))"

section \<open>The Diffie-Hellman ratchet\<close>

definition calculateRatchet :: "prims \<Rightarrow> session_entry \<Rightarrow> bytes \<Rightarrow> bool \<Rightarrow> error + session_entry" where
  "calculateRatchet P session remoteKey sending =
     (let ratchet = currentRatchet session in
      rbind (calculateAgreement P remoteKey (privKey (ephemeralKeyPair ratchet))) (\<lambda>sharedSecret.
      rbind (deriveSecrets P sharedSecret (rootKey ratchet) (ascii ''WhisperRatchet'') (Some 2)) (\<lambda>masterKey.
      rbind (addChain (if sending then pubKey (ephemeralKeyPair ratchet) else remoteKey)
               \<lparr>messageKeys = [],
                chainKey = \<lparr>ck_counter = - 1, ck_key = Some (masterKey ! 1)\<rparr>,
                chainType = (if sending then SENDING else RECEIVING)\<rparr> session) (\<lambda>session1.
        Inr (session1\<lparr>currentRatchet := (currentRatchet session1)\<lparr>rootKey := masterKey ! 0\<rparr>\<rparr>)))))"

definition close_previous :: "prims \<Rightarrow> session_entry \<Rightarrow> int \<Rightarrow> error + session_entry" where
  "close_previous P session prevCount =
     (let last = lastRemoteEphemeralKey (currentRatchet session) in
      case getChain last session of
        None \<Rightarrow> Inr session
      | Some previousRatchet \<Rightarrow>
          rbind (fillMessageKeys P previousRatchet prevCount) (\<lambda>c.
            Inr (putChain last (c\<lparr>chainKey := (chainKey c)\<lparr>ck_key := None\<rparr>\<rparr>) session)))"

definition retire_sending :: "session_entry \<Rightarrow> error + session_entry" where
  "retire_sending session =
     (let eph = pubKey (ephemeralKeyPair (currentRatchet session)) in
      case getChain eph session of
        None \<Rightarrow> Inr session
      | Some prevCounter \<Rightarrow>
          deleteChain eph
            (session\<lparr>currentRatchet :=
               (currentRatchet session)\<lparr>previousCounter := ck_counter (chainKey prevCounter)\<rparr>\<rparr>))"

text \<open>\<open>close_previous\<close> and \<open>retire_sending\<close> are the two conditional blocks of the method.\<close>

definition maybeStepRatchet ::
  "prims \<Rightarrow> key_pair \<Rightarrow> session_entry \<Rightarrow> bytes \<Rightarrow> int \<Rightarrow> error + session_entry" where
  "maybeStepRatchet P fresh session remoteKey prevCount =
     (if getChain remoteKey session \<noteq> None then Inr session
      else
        rbind (close_previous P session prevCount) (\<lambda>s1.
        rbind (calculateRatchet P s1 remoteKey False) (\<lambda>s2.
        rbind (retire_sending s2) (\<lambda>s3.
        let s4 = s3\<lparr>currentRatchet := (currentRatchet s3)\<lparr>ephemeralKeyPair := fresh\<rparr>\<rparr> in
        rbind (calculateRatchet P s4 remoteKey True) (\<lambda>s5.
        let s6 = s5\<lparr>currentRatchet := (currentRatchet s5)\<lparr>lastRemoteEphemeralKey := remoteKey\<rparr>\<rparr> in
          Inr (removeOldReceiverChains MAX_RECEIVER_CHAINS s6))))))"

section \<open>One message\<close>

text \<open>
  \<open>Buffer.alloc(n + 67)\<close> and four \<open>set\<close> calls; \<open>set\<close> throws when the source does not fit.
\<close>

definition mac_input :: "bytes \<Rightarrow> bytes \<Rightarrow> bytes \<Rightarrow> error + bytes" where
  "mac_input first second msg =
     (let buf = buf_alloc (length msg + 33 * 2 + 1) in
      rbind (buf_set buf first 0) (\<lambda>b1.
      rbind (buf_set b1 second 33) (\<lambda>b2.
      rbind (encodeTupleByte VERSION VERSION) (\<lambda>v.
        buf_set (b2[33 * 2 := v]) msg (33 * 2 + 1)))))"

definition MESSAGE_KEYS_INFO :: bytes where
  "MESSAGE_KEYS_INFO = ascii ''WhisperMessageKeys''"

definition check_versions :: "string \<Rightarrow> byte \<Rightarrow> error + unit" where
  "check_versions what b =
     (let versions = decodeTupleByte b in
      guard_that (\<not> (snd versions > 3 \<or> fst versions < 3)) (Error (''Incompatible version number on '' @ what)))"

text \<open>\<open>chain.messageKeys[counter]\<close> after \<open>fillMessageKeys\<close>, deleted from the chain.\<close>

definition takeMessageKey :: "prims \<Rightarrow> session_entry \<Rightarrow> bytes \<Rightarrow> int \<Rightarrow> error + (bytes \<times> session_entry)" where
  "takeMessageKey P session ephemeralKey counter =
     (case getChain ephemeralKey session of
        None \<Rightarrow> Inl (SessionError ''No chain found for message ephemeral key'')
      | Some chain \<Rightarrow>
          rbind (guard_that (chainType chain \<noteq> SENDING) (SessionError ''Tried to decrypt on a sending chain'')) (\<lambda>_.
          rbind (fillMessageKeys P chain counter) (\<lambda>filled.
          case obj_get (messageKeys filled) (nat counter) of
            None \<Rightarrow> Inl (MessageCounterError ''Key used already or never filled'')
          | Some messageKey \<Rightarrow>
              Inr (messageKey,
                   putChain ephemeralKey (filled\<lparr>messageKeys := obj_del (nat counter) (messageKeys filled)\<rparr>) session))))"

text \<open>
  The result is the plaintext and the session as the call leaves it. The code changes its argument
  in place; all its callers pass a copy that they drop when the call throws.
\<close>

definition doDecryptWhisperMessage ::
  "prims \<Rightarrow> wire \<Rightarrow> (error + key_pair) \<Rightarrow> key_pair \<Rightarrow> bytes \<Rightarrow> session_entry \<Rightarrow> error + (bytes \<times> session_entry)" where
  "doDecryptWhisperMessage P W ourIdentity fresh messageBuffer session =
     (if length messageBuffer < MIN_MESSAGE_LENGTH then Inl (SessionError ''Message too short'')
      else
        rbind (check_versions ''WhisperMessage'' (messageBuffer ! 0)) (\<lambda>_.
        let messageProto = take (length messageBuffer - 9) (drop 1 messageBuffer) in
        rbind (decodeWhisperMessage W messageProto) (\<lambda>message.
        rbind (assertValidWhisperMessage message) (\<lambda>_.
        rbind (maybeStepRatchet P fresh session (wm_key message) (wm_previous message)) (\<lambda>session1.
        rbind (takeMessageKey P session1 (wm_key message) (wm_count message)) (\<lambda>(messageKey, session2).
        rbind (deriveSecrets P messageKey (buf_alloc 32) MESSAGE_KEYS_INFO None) (\<lambda>keys.
        rbind ourIdentity (\<lambda>ourIdentityKey.
        rbind (mac_input (remoteIdentityKey (indexInfo session2)) (pubKey ourIdentityKey) messageProto) (\<lambda>macInput.
        rbind (verifyMAC P macInput (keys ! 1) (drop (length messageBuffer - 8) messageBuffer) 8) (\<lambda>_.
        rbind (crypto_decrypt P (keys ! 0) (wm_body message) (take 16 (keys ! 2))) (\<lambda>plaintext.
          Inr (plaintext, session2\<lparr>pendingPreKey := None\<rparr>))))))))))))"

text \<open>
  The part of \<open>encrypt\<close> between loading and storing: the framed message and the session with the
  sending chain advanced. The result is one version byte, the encoded message and 8 bytes of MAC.
\<close>

definition frame_message :: "prims \<Rightarrow> bytes \<Rightarrow> bytes \<Rightarrow> bytes \<Rightarrow> bytes \<Rightarrow> error + bytes" where
  "frame_message P macKey ourIdentityPub theirIdentityPub msgBuf =
     rbind (mac_input ourIdentityPub theirIdentityPub msgBuf) (\<lambda>macInput.
     let mac = calculateMAC P macKey macInput in
     rbind (encodeTupleByte VERSION VERSION) (\<lambda>v.
     rbind (buf_set ((buf_alloc (length msgBuf + 9))[0 := v]) msgBuf 1) (\<lambda>r1.
       buf_set r1 (take 8 mac) (length msgBuf + 1))))"

definition encryptMessage ::
  "prims \<Rightarrow> wire \<Rightarrow> key_pair \<Rightarrow> bytes \<Rightarrow> session_entry \<Rightarrow> error + (bytes \<times> session_entry)" where
  "encryptMessage P W ourIdentityKey data session =
     (let ratchet = currentRatchet session; eph = pubKey (ephemeralKeyPair ratchet) in
      case getChain eph session of
        None \<Rightarrow> Inl (SessionError ''No chain found for current ratchet'')
      | Some chain \<Rightarrow>
          rbind (guard_that (chainType chain \<noteq> RECEIVING) (SessionError ''Tried to encrypt on a receiving chain'')) (\<lambda>_.
          rbind (fillMessageKeys P chain (ck_counter (chainKey chain) + 1)) (\<lambda>filled.
          let n = ck_counter (chainKey filled) in
          rbind (need (obj_get (messageKeys filled) (nat n))) (\<lambda>messageKey.
          rbind (deriveSecrets P messageKey (buf_alloc 32) MESSAGE_KEYS_INFO None) (\<lambda>keys.
          let session1 = putChain eph (filled\<lparr>messageKeys := obj_del (nat n) (messageKeys filled)\<rparr>) session in
          rbind (crypto_encrypt P (keys ! 0) data (take 16 (keys ! 2))) (\<lambda>ciphertext.
          let msgBuf = WhisperMessage_encode W
                \<lparr>wm_ephemeralKey = Some eph, wm_counter = Some n,
                 wm_previousCounter = Some (previousCounter ratchet), wm_ciphertext = Some ciphertext\<rparr> in
          rbind (frame_message P (keys ! 1) (pubKey ourIdentityKey) (remoteIdentityKey (indexInfo session1)) msgBuf)
            (\<lambda>result. Inr (result, session1))))))))"

end
