(* ===== verification/Session_Operations.thy ===== *)
theory Session_Operations
  imports Session_Cipher
begin

text \<open>
  The public operations of \<open>src/session-cipher.ts\<close> over a storage. Each definition is the job the
  code hands to \<open>queueJob\<close>.
\<close>

record 's session_cipher =
  sc_addr :: protocol_address
  sc_storage :: "'s signal_storage"
  sc_staleSessionMaxAgeMs :: int

definition new_SessionCipher :: "'s signal_storage \<Rightarrow> protocol_address \<Rightarrow> int option \<Rightarrow> 's session_cipher" where
  "new_SessionCipher S addr stale =
     \<lparr>sc_addr = addr, sc_storage = S,
      sc_staleSessionMaxAgeMs = (case stale of None \<Rightarrow> DEFAULT_STALE_SESSION_MAX_AGE_MS | Some n \<Rightarrow> n)\<rparr>"

definition cipher_toString :: "'s session_cipher \<Rightarrow> string" where
  "cipher_toString C = ''<SessionCipher('' @ address_toString (sc_addr C) @ '')>''"

definition getRecord :: "'s session_cipher \<Rightarrow> ('s, session_record option) op" where
  "getRecord C = sread (loadSession (sc_storage C) (address_toString (sc_addr C)))"

definition expire_record :: "int \<Rightarrow> int \<Rightarrow> session_record \<Rightarrow> error + session_record" where
  "expire_record now maxAge record =
     rbind (removeOldSessions record) (\<lambda>r.
       Inr (if maxAge \<noteq> 0 then removeStaleSessions now maxAge r else r))"

definition storeRecord :: "env \<Rightarrow> 's session_cipher \<Rightarrow> session_record \<Rightarrow> ('s, unit) op" where
  "storeRecord E C record =
     sbind (slift (expire_record (ev_now E) (sc_staleSessionMaxAgeMs C) record)) (\<lambda>r.
       storeSession (sc_storage C) (address_toString (sc_addr C)) r)"

section \<open>Encryption\<close>

record encrypted_message =
  em_type :: nat
  em_body :: bytes
  em_registrationId :: "nat option"

text \<open>The open session is changed in place inside its record.\<close>

fun update_first_open :: "session_entry \<Rightarrow> (string \<times> session_entry) list \<Rightarrow> (string \<times> session_entry) list" where
  "update_first_open s' [] = []"
| "update_first_open s' ((k, s) # r) = (if isClosed s then (k, s) # update_first_open s' r else (k, s') # r)"

definition wrap_prekey :: "env \<Rightarrow> 's session_cipher \<Rightarrow> key_pair \<Rightarrow> bytes \<Rightarrow> pending_pre_key \<Rightarrow> ('s, bytes) op" where
  "wrap_prekey E C ourIdentityKey result p =
     sbind (sread (getOurRegistrationId (sc_storage C))) (\<lambda>registrationId.
     sbind (slift (encodeTupleByte VERSION VERSION)) (\<lambda>v.
       sret (v # PreKeyWhisperMessage_encode (ev_wire E)
         \<lparr>pk_registrationId = Some registrationId,
          pk_preKeyId = pp_preKeyId p,
          pk_signedPreKeyId = Some (pp_signedKeyId p),
          pk_baseKey = Some (pp_baseKey p),
          pk_identityKey = Some (pubKey ourIdentityKey),
          pk_message = Some result\<rparr>)))"

definition encrypt :: "env \<Rightarrow> 's session_cipher \<Rightarrow> bytes \<Rightarrow> ('s, encrypted_message) op" where
  "encrypt E C data =
     (let S = sc_storage C in
      sbind (sread (getOurIdentity S)) (\<lambda>ourIdentityKey.
      sbind (getRecord C) (\<lambda>loaded.
      case loaded of
        None \<Rightarrow> slift (Inl (SessionError ''No sessions''))
      | Some record \<Rightarrow>
          (case getOpenSession record of
             None \<Rightarrow> slift (Inl (SessionError ''No open session''))
           | Some session \<Rightarrow>
               sbind (isTrusted_or_throw S (sc_addr C) (remoteIdentityKey (indexInfo session)) Sending_Direction) (\<lambda>_.
               sbind (slift (encryptMessage (ev_prims E) (ev_wire E) ourIdentityKey data session)) (\<lambda>(result, session1).
               sbind (storeRecord E C (record\<lparr>sessions := update_first_open session1 (sessions record)\<rparr>)) (\<lambda>_.
               case pendingPreKey session1 of
                 None \<Rightarrow> sret \<lparr>em_type = 1, em_body = result, em_registrationId = se_registrationId session1\<rparr>
               | Some p \<Rightarrow>
                   sbind (wrap_prekey E C ourIdentityKey result p) (\<lambda>body.
                     sret \<lparr>em_type = 3, em_body = body, em_registrationId = se_registrationId session1\<rparr>))))))))"

section \<open>Decryption\<close>

text \<open>
  Each session is tried on a copy that went through \<open>serialize\<close> and \<open>deserialize\<close>. The \<open>i\<close>-th
  candidate that steps its ratchet generates \<open>ev_fresh i\<close>.
\<close>

fun try_sessions ::
  "prims \<Rightarrow> wire \<Rightarrow> (error + key_pair) \<Rightarrow> int \<Rightarrow> (nat \<Rightarrow> key_pair) \<Rightarrow> bytes \<Rightarrow> nat \<Rightarrow>
   session_entry list \<Rightarrow> error list \<Rightarrow> error + (session_entry \<times> bytes)" where
  "try_sessions P W our now fresh data i [] errs = Inl (NoMatchingSession errs)"
| "try_sessions P W our now fresh data i (session # r) errs =
     rbind (SessionEntry_deserialize (SessionEntry_serialize session)) (\<lambda>candidate.
       case doDecryptWhisperMessage P W our (fresh i) data candidate of
         Inr (plaintext, s') \<Rightarrow> Inr (s'\<lparr>indexInfo := (indexInfo s')\<lparr>ii_used := now\<rparr>\<rparr>, plaintext)
       | Inl e \<Rightarrow> try_sessions P W our now fresh data (Suc i) r (errs @ [e]))"

definition decryptWithSessions ::
  "env \<Rightarrow> (error + key_pair) \<Rightarrow> bytes \<Rightarrow> session_entry list \<Rightarrow> error + (session_entry \<times> bytes)" where
  "decryptWithSessions E our data ss =
     (if ss = [] then Inl (SessionError ''No sessions available'')
      else try_sessions (ev_prims E) (ev_wire E) our (ev_now E) (ev_fresh E) data 0 ss [])"

definition touch_closed :: "int \<Rightarrow> session_entry \<Rightarrow> session_entry" where
  "touch_closed now s = (if isClosed s then s\<lparr>indexInfo := (indexInfo s)\<lparr>ii_used := now\<rparr>\<rparr> else s)"

definition decryptWhisperMessage :: "env \<Rightarrow> 's session_cipher \<Rightarrow> bytes \<Rightarrow> ('s, bytes) op" where
  "decryptWhisperMessage E C data =
     (let S = sc_storage C in
      sbind (getRecord C) (\<lambda>loaded.
      case loaded of
        None \<Rightarrow> slift (Inl (SessionError ''No session record''))
      | Some record \<Rightarrow>
          sbind (\<lambda>s. (decryptWithSessions E (getOurIdentity S s) data (getSessions record), s)) (\<lambda>(session, plaintext).
          sbind (isTrusted_or_throw S (sc_addr C) (remoteIdentityKey (indexInfo session)) Receiving_Direction) (\<lambda>_.
          sbind (storeRecord E C (setSession (touch_closed (ev_now E) session) record)) (\<lambda>_.
            sret plaintext)))))"

fun requiredBytes :: "jsval \<Rightarrow> string \<Rightarrow> error + bytes" where
  "requiredBytes (JBuf b) field = Inr b"
| "requiredBytes _ field = Inl (PreKeyError (''Missing '' @ field))"

text \<open>
  Reading \<open>identityKey\<close>, \<open>baseKey\<close>, \<open>message\<close> and \<open>signedPreKeyId\<close> of a decoded message that lacks
  them gives the prototype's default, an empty buffer or \<open>0\<close>.
\<close>

definition incoming_of :: "prekey_whisper_message \<Rightarrow> error + incoming_pre_key_message" where
  "incoming_of m =
     rbind (requiredBytes (JBuf (def_b (pk_identityKey m))) ''PreKeyWhisperMessage.identityKey'') (\<lambda>ik.
     rbind (requiredBytes (JBuf (def_b (pk_baseKey m))) ''PreKeyWhisperMessage.baseKey'') (\<lambda>bk.
     rbind (requiredBytes (JBuf (def_b (pk_message m))) ''PreKeyWhisperMessage.message'') (\<lambda>msg.
       Inr \<lparr>im_registrationId = pk_registrationId m, im_identityKey = ik, im_baseKey = bk,
            im_preKeyId = pk_preKeyId m, im_signedPreKeyId = Some (def_u (pk_signedPreKeyId m)),
            im_message = msg\<rparr>)))"

definition decryptPreKeyWhisperMessage :: "env \<Rightarrow> 's session_cipher \<Rightarrow> bytes \<Rightarrow> ('s, bytes) op" where
  "decryptPreKeyWhisperMessage E C data =
     (let S = sc_storage C in
      if length data < MIN_MESSAGE_LENGTH then slift (Inl (SessionError ''Message too short''))
      else
        sbind (slift (check_versions ''PreKeyWhisperMessage'' (data ! 0))) (\<lambda>_.
        sbind (getRecord C) (\<lambda>loaded.
        sbind (slift (decodePreKeyMessage (ev_wire E) (drop 1 data))) (\<lambda>preKeyProto.
        sbind (slift (guard_that (loaded \<noteq> None \<or> pk_registrationId preKeyProto \<noteq> None)
                        (PreKeyError ''No registrationId''))) (\<lambda>_.
        let record = (case loaded of None \<Rightarrow> new_session_record | Some r \<Rightarrow> r) in
        sbind (slift (incoming_of preKeyProto)) (\<lambda>incoming.
        sbind (initIncoming E S (sc_addr C) record incoming) (\<lambda>(record1, preKeyId).
        sbind (slift (getSession (im_baseKey incoming) record1)) (\<lambda>found.
        case found of
          None \<Rightarrow> slift (Inl (SessionError ''No session established for incoming PreKeyWhisperMessage''))
        | Some session \<Rightarrow>
            sbind (slift (SessionEntry_deserialize (SessionEntry_serialize session))) (\<lambda>candidate.
            sbind (\<lambda>s. (doDecryptWhisperMessage (ev_prims E) (ev_wire E) (getOurIdentity S s) (ev_fresh E 0)
                          (im_message incoming) candidate, s)) (\<lambda>(plaintext, session1).
            sbind (storeRecord E C (setSession session1 record1)) (\<lambda>_.
            sbind (case preKeyId of None \<Rightarrow> sret () | Some i \<Rightarrow> removePreKey S i) (\<lambda>_.
              sret plaintext))))))))))))"

section \<open>Other operations\<close>

definition hasOpenSession :: "'s session_cipher \<Rightarrow> ('s, bool) op" where
  "hasOpenSession C =
     sbind (getRecord C) (\<lambda>loaded.
       sret (case loaded of None \<Rightarrow> False | Some record \<Rightarrow> haveOpenSession record))"

definition cipher_closeOpenSession :: "env \<Rightarrow> 's session_cipher \<Rightarrow> ('s, unit) op" where
  "cipher_closeOpenSession E C =
     sbind (getRecord C) (\<lambda>loaded.
       case loaded of
         None \<Rightarrow> sret ()
       | Some record \<Rightarrow>
           (case getOpenSession record of
              None \<Rightarrow> sret ()
            | Some _ \<Rightarrow> storeRecord E C (closeOpenSession (ev_now E) record)))"

end
