(* ===== verification/Ratchet.thy ===== *)
theory Ratchet
  imports Session_Operations
begin

text \<open>
  The symmetric ratchet against its specification: the chain key \<open>n\<close> steps after \<open>k\<close> and the message
  key at position \<open>n\<close> are iterated HMACs, and a chain started from \<open>k\<close> only ever holds those keys.
  Then the Diffie-Hellman step: the two sides derive the same chain key and the same root key.
\<close>

section \<open>Specification of a chain\<close>

definition advance :: "prims \<Rightarrow> bytes \<Rightarrow> nat \<Rightarrow> chain \<Rightarrow> chain" where
  "advance P k m c =
     c\<lparr>messageKeys := messageKeys c @
          map (\<lambda>i. (nat (ck_counter (chainKey c) + 1 + int i), message_key_at P k i)) [0..<m],
       chainKey := \<lparr>ck_counter = ck_counter (chainKey c) + int m, ck_key = Some (chain_key_at P k m)\<rparr>\<rparr>"

lemma chain_wf_step:
  assumes "hmac_ok P" "chain_wf c"
  shows "chain_wf (chain_step P key c)"
    and "messageKeys (chain_step P key c) =
           messageKeys c @ [(nat (ck_counter (chainKey c) + 1), calculateMAC P key [1])]"
proof -
  let ?n = "ck_counter (chainKey c) + 1"
  have wf: "mk_wf (messageKeys c)" "- 1 \<le> ck_counter (chainKey c)"
    "\<forall>i\<in>set (map fst (messageKeys c)). int i \<le> ck_counter (chainKey c)"
    using assms(2) by (simp_all add: chain_wf_def)
  then have lt: "\<forall>i\<in>set (map fst (messageKeys c)). i < nat ?n" by force
  show "messageKeys (chain_step P key c) = messageKeys c @ [(nat ?n, calculateMAC P key [1])]"
    using mk_set_last [OF wf(1) lt] by (simp add: chain_step_def Let_def)
  have "calculateMAC P key [2] \<noteq> []" using length_calculateMAC [OF assms(1), of key "[2]"] by force
  then show "chain_wf (chain_step P key c)"
    using wf mk_set_wf [OF wf(1)] mk_set_keys [of "nat ?n" "calculateMAC P key [1]" "messageKeys c"]
    by (fastforce simp: chain_wf_def chain_step_def Let_def)
qed

lemma advance_step:
  assumes "hmac_ok P" "chain_wf c"
  shows "advance P (hmac_sha256 P key [2]) m (chain_step P key c) = advance P key (Suc m) c"
proof -
  let ?n = "ck_counter (chainKey c) + 1"
  have "map (\<lambda>i. (nat (?n + int i), message_key_at P key i)) [0..<Suc m] =
      (nat ?n, message_key_at P key 0) # map (\<lambda>i. (nat (?n + 1 + int i), message_key_at P key (Suc i))) [0..<m]"
    unfolding map_upt_Suc by (simp add: algebra_simps)
  then show ?thesis
    unfolding advance_def chain_wf_step(2) [OF assms]
    by (simp add: chain_step_def Let_def chain_key_shift message_key_shift message_key_at_def calculateMAC_def
        del: upt_Suc)
qed

lemma fill_loop_done: "counter \<le> ck_counter (chainKey c) \<Longrightarrow> fill_loop P counter c = Inr c"
  by (subst fill_loop.simps) simp

lemma fill_loop_advance:
  assumes "hmac_ok P" "chain_wf c" "ck_key (chainKey c) = Some key"
    and "counter = ck_counter (chainKey c) + int m" "m \<le> 2000"
  shows "fill_loop P counter c = Inr (advance P key m c)"
  using assms(2-)
proof (induction m arbitrary: c key)
  case 0
  then show ?case by (simp add: fill_loop_done advance_def)
next
  case (Suc m)
  have "fill_loop P counter (chain_step P key c) =
      Inr (advance P (hmac_sha256 P key [2]) m (chain_step P key c))"
    using Suc.prems by (intro Suc.IH chain_wf_step assms(1)) (simp_all add: chain_step_def Let_def calculateMAC_def)
  with Suc.prems show ?case
    by (subst fill_loop.simps) (simp add: advance_step [OF assms(1)])
qed

lemma fill_loop_far:
  "counter - ck_counter (chainKey c) > 2000 \<Longrightarrow>
     fill_loop P counter c = Inl (SessionError ''Over 2000 messages into the future!'')"
  by (subst fill_loop.simps) simp

lemma fill_loop_closed:
  "ck_key (chainKey c) = None \<Longrightarrow> ck_counter (chainKey c) < counter \<Longrightarrow> counter - ck_counter (chainKey c) \<le> 2000 \<Longrightarrow>
     fill_loop P counter c = Inl (SessionError ''Chain closed'')"
  by (subst fill_loop.simps) simp

section \<open>fillMessageKeys\<close>

lemma prune_keys:
  assumes "chain_wf c"
  shows "messageKeys (pruneMessageKeys c) = drop (length (messageKeys c) - MAX_MESSAGE_KEYS) (messageKeys c)"
proof -
  let ?mk = "messageKeys c" and ?n = "length (messageKeys c) - MAX_MESSAGE_KEYS"
  have d: "distinct (map fst ?mk)" using assms mk_wf_distinct by (simp add: chain_wf_def)
  have "filter (\<lambda>p. fst p \<notin> set (take n (map fst m))) m = drop n m" if "distinct (map fst m)" for n and m :: "(nat \<times> bytes) list"
    using that
  proof (induction m arbitrary: n)
    case (Cons p m)
    show ?case
    proof (cases n)
      case (Suc n')
      have "filter (\<lambda>q. fst q \<noteq> fst p \<and> fst q \<notin> set (take n' (map fst m))) m =
          filter (\<lambda>q. fst q \<notin> set (take n' (map fst m))) m"
        using Cons.prems by (intro filter_cong) (auto simp: image_iff)
      with Suc Cons show ?thesis by simp
    qed (simp add: filter_id_conv)
  qed simp
  from this [OF d, of ?n] show ?thesis
    by (simp add: pruneMessageKeys_def Let_def fold_obj_del)
qed

lemma prune_other [simp]:
  "chainKey (pruneMessageKeys c) = chainKey c" "chainType (pruneMessageKeys c) = chainType c"
  by (simp_all add: pruneMessageKeys_def Let_def)

lemma chain_wf_prune:
  assumes "chain_wf c"
  shows "chain_wf (pruneMessageKeys c)"
  using assms unfolding chain_wf_def prune_keys [OF assms]
  by (auto simp: mk_wf_drop dest!: in_set_dropD)

lemma prune_bound: "chain_wf c \<Longrightarrow> length (messageKeys (pruneMessageKeys c)) \<le> MAX_MESSAGE_KEYS"
  by (simp add: prune_keys)

lemma advance_wf:
  assumes "hmac_ok P" "chain_wf c" "ck_key (chainKey c) = Some key"
  shows "chain_wf (advance P key m c)"
  using assms(2,3)
proof (induction m arbitrary: c key)
  case 0
  then show ?case by (cases c; cases "chainKey c") (simp add: advance_def)
next
  case (Suc m)
  have "chain_wf (advance P (hmac_sha256 P key [2]) m (chain_step P key c))"
    using Suc.prems by (intro Suc.IH chain_wf_step assms(1)) (simp_all add: chain_step_def Let_def calculateMAC_def)
  then show ?case using Suc.prems by (simp add: advance_step [OF assms(1)])
qed

text \<open>The three outcomes of \<open>fillMessageKeys\<close> on a well-formed chain.\<close>

lemma fillMessageKeys_cases:
  assumes "hmac_ok P" "chain_wf c"
  obtains (keep) "counter \<le> ck_counter (chainKey c)" "fillMessageKeys P c counter = Inr c"
    | (extend) key m where "ck_key (chainKey c) = Some key" "counter = ck_counter (chainKey c) + int m"
        "0 < m" "m \<le> 2000" "fillMessageKeys P c counter = Inr (pruneMessageKeys (advance P key m c))"
    | (far) "counter - ck_counter (chainKey c) > 2000"
        "fillMessageKeys P c counter = Inl (SessionError ''Over 2000 messages into the future!'')"
    | (closed) "ck_key (chainKey c) = None" "ck_counter (chainKey c) < counter"
        "counter - ck_counter (chainKey c) \<le> 2000" "fillMessageKeys P c counter = Inl (SessionError ''Chain closed'')"
proof -
  consider "counter \<le> ck_counter (chainKey c)" | "counter - ck_counter (chainKey c) > 2000"
    | "ck_counter (chainKey c) < counter" "counter - ck_counter (chainKey c) \<le> 2000" by linarith
  then show thesis
  proof cases
    case 1
    then show thesis by (intro keep) (simp_all add: fillMessageKeys_def fill_loop_done)
  next
    case 2
    then show thesis by (intro far) (simp_all add: fillMessageKeys_def fill_loop_far)
  next
    case 3
    show thesis
    proof (cases "ck_key (chainKey c)")
      case None
      with 3 show thesis by (intro closed) (simp_all add: fillMessageKeys_def fill_loop_closed)
    next
      case (Some key)
      define m where "m = nat (counter - ck_counter (chainKey c))"
      have m: "counter = ck_counter (chainKey c) + int m" "0 < m" "m \<le> 2000" using 3 by (simp_all add: m_def)
      from Some m show thesis
        using fill_loop_advance [OF assms Some m(1,3)]
        by (intro extend [OF Some m]) (simp add: fillMessageKeys_def advance_def)
    qed
  qed
qed

lemma fillMessageKeys_ok:
  assumes "hmac_ok P" "chain_wf c" "fillMessageKeys P c counter = Inr c'"
  shows "chain_wf c'" "chainType c' = chainType c"
    "ck_counter (chainKey c') = max (ck_counter (chainKey c)) counter"
    "length (messageKeys c) \<le> MAX_MESSAGE_KEYS \<Longrightarrow> length (messageKeys c') \<le> MAX_MESSAGE_KEYS"
proof -
  have adv: "chain_wf (advance P key m c)" if "ck_key (chainKey c) = Some key" for key m
    by (rule advance_wf [OF assms(1,2) that])
  have "chain_wf c' \<and> chainType c' = chainType c \<and>
      ck_counter (chainKey c') = max (ck_counter (chainKey c)) counter \<and>
      (length (messageKeys c) \<le> MAX_MESSAGE_KEYS \<longrightarrow> length (messageKeys c') \<le> MAX_MESSAGE_KEYS)"
    using assms(1,2)
  proof (cases rule: fillMessageKeys_cases [where counter = counter])
    case keep
    with assms show ?thesis by simp
  next
    case (extend key m)
    then have "c' = pruneMessageKeys (advance P key m c)" using assms(3) by simp
    then show ?thesis
      using chain_wf_prune [OF adv] prune_bound [OF adv] extend
      by (simp add: advance_def)
  qed (use assms(3) in simp_all)
  then show "chain_wf c'" "chainType c' = chainType c"
    "ck_counter (chainKey c') = max (ck_counter (chainKey c)) counter"
    "length (messageKeys c) \<le> MAX_MESSAGE_KEYS \<Longrightarrow> length (messageKeys c') \<le> MAX_MESSAGE_KEYS"
    by blast+
qed

section \<open>The keys a chain holds\<close>

definition chain_from :: "prims \<Rightarrow> bytes \<Rightarrow> chain \<Rightarrow> bool" where
  "chain_from P k c \<longleftrightarrow> chain_wf c \<and>
     (\<forall>key. ck_key (chainKey c) = Some key \<longrightarrow> key = chain_key_at P k (nat (ck_counter (chainKey c) + 1))) \<and>
     (\<forall>(i, v)\<in>set (messageKeys c). v = message_key_at P k i)"

lemma new_chain_from:
  "k \<noteq> [] \<Longrightarrow> chain_from P k \<lparr>messageKeys = [], chainKey = \<lparr>ck_counter = - 1, ck_key = Some k\<rparr>, chainType = t\<rparr>"
  by (simp add: chain_from_def chain_wf_def)

lemma advance_from:
  assumes "hmac_ok P" "chain_from P k c" "ck_key (chainKey c) = Some key"
  shows "chain_from P k (advance P key m c)"
proof -
  let ?n = "ck_counter (chainKey c)"
  have key: "key = chain_key_at P k (nat (?n + 1))" and n: "- 1 \<le> ?n" and wf: "chain_wf c"
    using assms(2,3) by (auto simp: chain_from_def chain_wf_def)
  have "chain_wf (advance P key m c)" by (rule advance_wf [OF assms(1) wf assms(3)])
  moreover have "nat (?n + 1) + i = nat (?n + 1 + int i)" for i using n by simp
  moreover have "nat (?n + 1) + m = nat (?n + int m + 1)" using n by simp
  ultimately show ?thesis
    using assms(2) by (auto simp: chain_from_def advance_def key chain_key_at_add message_key_at_add)
qed

lemma prune_from: "chain_from P k c \<Longrightarrow> chain_from P k (pruneMessageKeys c)"
  by (auto simp: chain_from_def chain_wf_prune prune_keys dest!: in_set_dropD)

lemma fill_from:
  assumes "hmac_ok P" "chain_from P k c" "fillMessageKeys P c counter = Inr c'"
  shows "chain_from P k c'"
proof -
  have "chain_wf c" using assms(2) by (simp add: chain_from_def)
  with assms(1) show ?thesis
  proof (cases rule: fillMessageKeys_cases [where counter = counter])
    case (extend key m)
    then show ?thesis
      using assms(3) prune_from [OF advance_from [OF assms(1,2) extend(1)], of m] by simp
  qed (use assms in simp_all)
qed

text \<open>Filling up to a new counter puts the key of that counter into the chain, behind the old ones.\<close>

lemma prune_last:
  assumes "chain_wf c" "messageKeys c = xs @ [(i, v)]"
  shows "obj_get (messageKeys (pruneMessageKeys c)) i = Some v"
proof -
  have "(i, v) \<in> set (drop n (xs @ [(i, v)]))" if "n \<le> length xs" for n
    using that by simp
  moreover have "length (messageKeys c) - MAX_MESSAGE_KEYS \<le> length xs"
    using assms(2) by (simp add: MAX_MESSAGE_KEYS_def)
  ultimately have "(i, v) \<in> set (messageKeys (pruneMessageKeys c))"
    unfolding prune_keys [OF assms(1)] assms(2) by simp
  moreover have "obj_wf (messageKeys (pruneMessageKeys c))"
    using chain_wf_prune [OF assms(1)] mk_wf_distinct by (simp add: chain_wf_def)
  ultimately show ?thesis by (rule obj_get_in [rotated])
qed

lemma fill_new_key:
  assumes "hmac_ok P" "chain_from P k c" "ck_key (chainKey c) = Some key"
    and "ck_counter (chainKey c) < counter" "counter - ck_counter (chainKey c) \<le> 2000"
  obtains c' where "fillMessageKeys P c counter = Inr c'" "chain_from P k c'" "chainType c' = chainType c"
    "ck_counter (chainKey c') = counter" "obj_get (messageKeys c') (nat counter) = Some (message_key_at P k (nat counter))"
    "ck_key (chainKey c') = Some (chain_key_at P k (nat (counter + 1)))"
proof -
  let ?n = "ck_counter (chainKey c)"
  have wf: "chain_wf c" using assms(2) by (simp add: chain_from_def)
  then have n: "- 1 \<le> ?n" by (simp add: chain_wf_def)
  define m where "m = nat (counter - ?n) - 1"
  have m: "counter = ?n + int (Suc m)" "Suc m \<le> 2000" using assms(4,5) by (simp_all add: m_def)
  let ?a = "advance P key (Suc m) c"
  have adv: "chain_from P k ?a" by (rule advance_from [OF assms(1-3)])
  have fill: "fillMessageKeys P c counter = Inr (pruneMessageKeys ?a)"
    using fill_loop_advance [OF assms(1) wf assms(3) m] m(1) by (simp add: fillMessageKeys_def advance_def)
  have "counter = ?n + 1 + int m" using m(1) by simp
  then have "messageKeys ?a = (messageKeys c @ map (\<lambda>i. (nat (?n + 1 + int i), message_key_at P key i)) [0..<m]) @
      [(nat counter, message_key_at P key m)]"
    by (simp add: advance_def)
  moreover have "message_key_at P key m = message_key_at P k (nat counter)"
  proof -
    have "nat (?n + 1) + m = nat counter" using n m(1) by simp
    then show ?thesis using assms(2,3) by (simp add: chain_from_def message_key_at_add)
  qed
  ultimately have get: "obj_get (messageKeys (pruneMessageKeys ?a)) (nat counter) = Some (message_key_at P k (nat counter))"
    using prune_last adv by (simp add: chain_from_def)
  have from_a: "chain_from P k (pruneMessageKeys ?a)" by (rule prune_from [OF adv])
  show thesis
    by (rule that [OF fill from_a _ _ get])
      (use m(1) from_a in \<open>auto simp: advance_def chain_from_def\<close>)
qed

lemma chain_from_get: "chain_from P k c \<Longrightarrow> obj_get (messageKeys c) i = Some v \<Longrightarrow> v = message_key_at P k i"
  by (auto simp: chain_from_def dest!: obj_get_Some_in)

end
