(* ===== verification/Messages.thy ===== *)
theory Messages
  imports Ratchet
begin

text \<open>
  One message from encryption to decryption: the frame (version byte, encoded message, truncated
  MAC), what \<open>encryptMessage\<close> returns, and what \<open>doDecryptWhisperMessage\<close> does with it on a session
  that holds the matching chain.
\<close>

section \<open>The frame\<close>

lemma tuple_byte_table:
  "\<forall>a\<in>set [0..<16]. \<forall>b\<in>set [0..<16]. (case encodeTupleByte a b of Inl _ \<Rightarrow> False | Inr v \<Rightarrow> decodeTupleByte v = (a, b))"
  by code_simp

lemma tuple_byte_roundtrip:
  assumes "a \<le> 15" "b \<le> 15"
  obtains v where "encodeTupleByte a b = Inr v" "decodeTupleByte v = (a, b)"
proof -
  have "a \<in> set [0..<16]" "b \<in> set [0..<16]" using assms by auto
  then have "case encodeTupleByte a b of Inl _ \<Rightarrow> False | Inr v \<Rightarrow> decodeTupleByte v = (a, b)"
    using tuple_byte_table by blast
  then show thesis using that by (auto split: sum.splits)
qed

lemma version_byte [simp]: "encodeTupleByte VERSION VERSION = Inr 0x33"
  by code_simp

lemma check_versions_33 [simp]: "check_versions what 0x33 = Inr ()"
proof -
  have "decodeTupleByte 0x33 = (3, 3)" by code_simp
  then show ?thesis by (simp add: check_versions_def)
qed

lemma mac_input_eq:
  assumes "length a = 33" "length b = 33"
  shows "mac_input a b msg = Inr (a @ b @ 0x33 # msg)"
proof -
  let ?z = "replicate (length msg) (0 :: byte)"
  have alloc: "buf_alloc (length msg + 33 * 2 + 1) = replicate 33 0 @ replicate 33 0 @ 0 # ?z"
    by (simp add: buf_alloc_def replicate_add [symmetric] del: replicate_Suc
        flip: replicate_Suc)
  have "buf_set (replicate 33 0 @ replicate 33 0 @ 0 # ?z) a 0 = Inr (a @ replicate 33 0 @ 0 # ?z)"
    using assms by (simp add: buf_set_def)
  moreover have "buf_set (a @ replicate 33 0 @ 0 # ?z) b 33 = Inr (a @ b @ 0 # ?z)"
    using assms by (simp add: buf_set_def)
  moreover have "(a @ b @ 0 # ?z)[33 * 2 := 0x33] = a @ b @ 0x33 # ?z"
    using assms by (simp add: list_update_append)
  moreover have "buf_set (a @ b @ 0x33 # ?z) msg (33 * 2 + 1) = Inr (a @ b @ 0x33 # msg)"
    using assms by (simp add: buf_set_def)
  ultimately show ?thesis by (simp only: mac_input_def alloc Let_def rbind_Inr version_byte)
qed

lemma mac_input_fails:
  assumes "mac_input a b msg = Inr r" shows "length r = length msg + 67"
  using assms by (auto simp: mac_input_def res_simps Let_def buf_alloc_def)

definition message_mac :: "prims \<Rightarrow> bytes \<Rightarrow> bytes \<Rightarrow> bytes \<Rightarrow> bytes \<Rightarrow> bytes" where
  "message_mac P macKey sender receiver msgBuf =
     take 8 (hmac_sha256 P macKey (sender @ receiver @ 0x33 # msgBuf))"

lemma frame_message_eq:
  assumes "hmac_ok P" "length a = 33" "length b = 33"
  shows "frame_message P macKey a b msgBuf = Inr (0x33 # msgBuf @ message_mac P macKey a b msgBuf)"
proof -
  let ?n = "length msgBuf" and ?z = "replicate 8 (0 :: byte)"
  have alloc: "(buf_alloc (?n + 9))[0 := 0x33] = 0x33 # replicate ?n 0 @ ?z"
    by (simp add: buf_alloc_def replicate_add [symmetric] del: replicate.simps)
      (simp add: numeral_eq_Suc)
  have len: "length (take 8 (calculateMAC P macKey m)) = 8" for m
    using assms(1) by simp
  have "buf_set (0x33 # replicate ?n 0 @ ?z) msgBuf 1 = Inr (0x33 # msgBuf @ ?z)"
    by (simp add: buf_set_def)
  moreover have "buf_set (0x33 # msgBuf @ ?z) t (?n + 1) = Inr (0x33 # msgBuf @ t)" if "length t = 8" for t
    using that by (simp add: buf_set_def)
  ultimately show ?thesis
    using len by (simp add: frame_message_def mac_input_eq assms(2,3) Let_def alloc message_mac_def calculateMAC_def)
qed

section \<open>Opening a frame\<close>

definition message_keys :: "prims \<Rightarrow> bytes \<Rightarrow> bytes list" where
  "message_keys P mk = hkdf P mk (buf_alloc 32) MESSAGE_KEYS_INFO 3"

lemma derive_message_keys [simp]:
  "hmac_ok P \<Longrightarrow> deriveSecrets P mk (buf_alloc 32) MESSAGE_KEYS_INFO None = Inr (message_keys P mk)"
  by (simp add: derive3 message_keys_def buf_alloc_def)

lemma message_keys_lengths:
  assumes "hmac_ok P"
  shows "length (message_keys P mk ! 0) = 32" "length (take 16 (message_keys P mk ! 2)) = 16"
proof -
  have "length (message_keys P mk ! i) = 32" if "i < 3" for i
    using hkdf_block_length [OF assms, of "message_keys P mk ! i" mk "buf_alloc 32" MESSAGE_KEYS_INFO 3] that
    by (simp add: message_keys_def)
  from this [of 0] this [of 2]
  show "length (message_keys P mk ! 0) = 32" "length (take 16 (message_keys P mk ! 2)) = 16" by simp_all
qed

lemma length_message_mac [simp]: "hmac_ok P \<Longrightarrow> length (message_mac P k a b m) = 8"
  by (simp add: message_mac_def hmac_ok_def)

lemma frame_parts:
  assumes "length mac = 8"
  shows "take (length (v # msg @ mac) - 9) (drop 1 (v # msg @ mac)) = msg"
    "drop (length (v # msg @ mac) - 8) (v # msg @ mac) = mac"
  using assms by simp_all

lemma verify_message_mac:
  assumes "hmac_ok P" "length a = 33" "length b = 33"
  shows "rbind (mac_input a b msg) (\<lambda>i. rbind (verifyMAC P i k mac 8) f) =
     (if mac = message_mac P k a b msg then f () else rbind (verifyMAC P (a @ b @ 0x33 # msg) k mac 8) f)"
  using assms by (auto simp: mac_input_eq message_mac_def verifyMAC_def Let_def hmac_ok_def calculateMAC_def)

definition message_valid :: "whisper_message \<Rightarrow> bool" where
  "message_valid m \<longleftrightarrow> length (wm_key m) = 33 \<and> 0 \<le> wm_count m \<and> 0 \<le> wm_previous m \<and>
     wm_body m \<noteq> [] \<and> length (wm_body m) mod 16 = 0"

lemma assertValidWhisperMessage_iff [res_simps]: "assertValidWhisperMessage m = Inr u \<longleftrightarrow> message_valid m"
  by (auto simp: assertValidWhisperMessage_def message_valid_def assertKeyBytes_def assertCounter_def res_simps)

lemma takeMessageKey_Inr:
  "takeMessageKey P s eph n = Inr (mk, s') \<longleftrightarrow>
     (\<exists>c filled. getChain eph s = Some c \<and> chainType c \<noteq> SENDING \<and> fillMessageKeys P c n = Inr filled \<and>
        obj_get (messageKeys filled) (nat n) = Some mk \<and>
        s' = putChain eph (filled\<lparr>messageKeys := obj_del (nat n) (messageKeys filled)\<rparr>) s)"
  unfolding takeMessageKey_def
  by (cases "getChain eph s") (auto simp: res_simps split: option.splits)

text \<open>Exactly the frames that decrypt, and what decrypting them gives.\<close>

lemma doDecrypt_Inr:
  assumes "hmac_ok P"
  shows "doDecryptWhisperMessage P W (Inr our) fresh buf s = Inr (pt, s') \<longleftrightarrow>
    (\<exists>m s1 mk s2 mac. length buf \<ge> MIN_MESSAGE_LENGTH \<and> check_versions ''WhisperMessage'' (buf ! 0) = Inr () \<and>
       WhisperMessage_decode W (take (length buf - 9) (drop 1 buf)) = Inr m \<and> message_valid m \<and>
       maybeStepRatchet P fresh s (wm_key m) (wm_previous m) = Inr s1 \<and>
       takeMessageKey P s1 (wm_key m) (wm_count m) = Inr (mk, s2) \<and>
       mac_input (remoteIdentityKey (indexInfo s2)) (pubKey our) (take (length buf - 9) (drop 1 buf)) = Inr mac \<and>
       verifyMAC P mac (message_keys P mk ! 1) (drop (length buf - 8) buf) 8 = Inr () \<and>
       crypto_decrypt P (message_keys P mk ! 0) (wm_body m) (take 16 (message_keys P mk ! 2)) = Inr pt \<and>
       s' = s2\<lparr>pendingPreKey := None\<rparr>)"
proof -
  have dec: "decodeWhisperMessage W d = Inr m \<longleftrightarrow> WhisperMessage_decode W d = Inr m" for d m
    by (auto simp: decodeWhisperMessage_def split: sum.splits)
  show ?thesis
    unfolding doDecryptWhisperMessage_def Let_def
    by (cases "length buf < MIN_MESSAGE_LENGTH") (auto simp: res_simps dec assms)
qed

section \<open>Sealing a frame\<close>

lemma need_Inr [res_simps]: "need x = Inr y \<longleftrightarrow> x = Some y"
  by (cases x) (simp_all add: need_def)

lemma encryptMessage_eq:
  fixes session :: session_entry
  defines "eph \<equiv> pubKey (ephemeralKeyPair (currentRatchet session))"
  assumes P: "prims_ok P"
    and chain: "getChain eph session = Some c" "chainType c = SENDING" "chain_from P k c"
      "ck_key (chainKey c) = Some key"
    and ids: "length (pubKey our) = 33" "length (remoteIdentityKey (indexInfo session)) = 33"
    and n: "n = ck_counter (chainKey c) + 1"
  obtains ct c' where
    "length ct = 16 * (length data div 16 + 1)"
    "fillMessageKeys P c n = Inr c'"
    "crypto_decrypt P (message_keys P (message_key_at P k (nat n)) ! 0) ct
       (take 16 (message_keys P (message_key_at P k (nat n)) ! 2)) = Inr data"
    "aes256_cbc_encrypt P (message_keys P (message_key_at P k (nat n)) ! 0)
       (take 16 (message_keys P (message_key_at P k (nat n)) ! 2)) data = Inr ct"
    "encryptMessage P W our data session =
       (let msgBuf = WhisperMessage_encode W \<lparr>wm_ephemeralKey = Some eph, wm_counter = Some n,
              wm_previousCounter = Some (previousCounter (currentRatchet session)), wm_ciphertext = Some ct\<rparr>
        in Inr (0x33 # msgBuf @ message_mac P (message_keys P (message_key_at P k (nat n)) ! 1) (pubKey our)
                  (remoteIdentityKey (indexInfo session)) msgBuf,
                putChain eph (c'\<lparr>messageKeys := obj_del (nat n) (messageKeys c')\<rparr>) session))"
proof -
  have hm: "hmac_ok P" and aes: "aes_ok P" using P by (simp_all add: prims_okD)
  have "ck_counter (chainKey c) < n" "n - ck_counter (chainKey c) \<le> 2000" using n by simp_all
  from fill_new_key [OF hm chain(3,4) this]
  obtain c' where c': "fillMessageKeys P c n = Inr c'" "ck_counter (chainKey c') = n"
      "obj_get (messageKeys c') (nat n) = Some (message_key_at P k (nat n))" by metis
  let ?keys = "message_keys P (message_key_at P k (nat n))"
  obtain ct where ct: "aes256_cbc_encrypt P (?keys ! 0) (take 16 (?keys ! 2)) data = Inr ct"
      "length ct = 16 * (length data div 16 + 1)" "aes256_cbc_decrypt P (?keys ! 0) (take 16 (?keys ! 2)) ct = Inr data"
    by (rule aes_okE [OF aes message_keys_lengths [OF hm]])
  have step: "fillMessageKeys P c (ck_counter (chainKey c) + 1) = Inr c'" using c'(1) n by simp
  show thesis
  proof (rule that [OF ct(2) c'(1) _ ct(1)])
    show "crypto_decrypt P (?keys ! 0) ct (take 16 (?keys ! 2)) = Inr data"
      using ct(3) by (simp add: crypto_decrypt_def)
    show "encryptMessage P W our data session =
       (let msgBuf = WhisperMessage_encode W \<lparr>wm_ephemeralKey = Some eph, wm_counter = Some n,
              wm_previousCounter = Some (previousCounter (currentRatchet session)), wm_ciphertext = Some ct\<rparr>
        in Inr (0x33 # msgBuf @ message_mac P (?keys ! 1) (pubKey our) (remoteIdentityKey (indexInfo session)) msgBuf,
                putChain eph (c'\<lparr>messageKeys := obj_del (nat n) (messageKeys c')\<rparr>) session))"
      unfolding encryptMessage_def Let_def eph_def [symmetric]
      using chain c' ct ids
      by (simp add: step need_def hm crypto_encrypt_def frame_message_eq)
  qed
qed

text \<open>Opening the frame of a message whose key the receiving chain holds.\<close>

lemma doDecrypt_eq:
  assumes P: "prims_ok P" "wire_ok W"
    and m: "whisper_fits m" "message_valid m"
    and step: "maybeStepRatchet P fresh s (wm_key m) (wm_previous m) = Inr s1"
    and key: "takeMessageKey P s1 (wm_key m) (wm_count m) = Inr (mk, s2)"
    and ids: "length (remoteIdentityKey (indexInfo s2)) = 33" "length (pubKey our) = 33"
    and pt: "crypto_decrypt P (message_keys P mk ! 0) (wm_body m) (take 16 (message_keys P mk ! 2)) = Inr pt"
    and msgBuf: "msgBuf = WhisperMessage_encode W m"
    and buf: "buf = 0x33 # msgBuf @ message_mac P (message_keys P mk ! 1) (remoteIdentityKey (indexInfo s2)) (pubKey our) msgBuf"
    and long: "msgBuf \<noteq> []"
  shows "doDecryptWhisperMessage P W (Inr our) fresh buf s = Inr (pt, s2\<lparr>pendingPreKey := None\<rparr>)"
proof -
  have hm: "hmac_ok P" using P(1) by (simp add: prims_okD)
  have parts: "take (length buf - 9) (drop 1 buf) = msgBuf"
    "drop (length buf - 8) buf = message_mac P (message_keys P mk ! 1) (remoteIdentityKey (indexInfo s2)) (pubKey our) msgBuf"
    unfolding buf by (rule frame_parts, simp add: hm)+
  have len: "MIN_MESSAGE_LENGTH \<le> length buf"
    using long hm by (cases msgBuf) (simp_all add: buf MIN_MESSAGE_LENGTH_def)
  have head: "buf ! 0 = 0x33" by (simp add: buf)
  let ?mac = "remoteIdentityKey (indexInfo s2) @ pubKey our @ 0x33 # msgBuf"
  have verify: "verifyMAC P ?mac (message_keys P mk ! 1)
      (message_mac P (message_keys P mk ! 1) (remoteIdentityKey (indexInfo s2)) (pubKey our) msgBuf) 8 = Inr ()"
    by (simp add: verifyMAC_iff hm message_mac_def)
  show ?thesis
    unfolding doDecrypt_Inr [OF hm] parts head
    by (intro exI [of _ m] exI [of _ s1] exI [of _ mk] exI [of _ s2] exI [of _ ?mac] conjI
        len check_versions_33 step key pt refl m(2) mac_input_eq ids verify)
      (simp add: msgBuf WhisperMessage_decode_encode [OF P(2) m(1)])
qed

end
