(* ===== verification/Key_Agreement.thy ===== *)
theory Key_Agreement
  imports Messages
begin

text \<open>
  The two sides of a key agreement: X3DH (\<open>initSession\<close> as initiator and as responder) ends in the
  same master key, and one Diffie-Hellman ratchet step (\<open>calculateRatchet\<close> or
  \<open>calculateSendingRatchet\<close> on one side, \<open>calculateRatchet\<close> on the other) ends in the same root key
  and chain key.
\<close>

section \<open>The shared secret\<close>

definition dh :: "prims \<Rightarrow> key_pair \<Rightarrow> key_pair \<Rightarrow> bytes" where
  "dh P A B = (case calculateAgreement P (pubKey B) (privKey A) of Inl _ \<Rightarrow> [] | Inr s \<Rightarrow> s)"

lemma dh_agree:
  assumes "dh_ok P" "is_key_pair P A" "is_key_pair P B"
  shows "calculateAgreement P (pubKey B) (privKey A) = Inr (dh P A B)" "dh P A B = dh P B A" "length (dh P A B) = 32"
proof -
  from agreement_symmetric [OF assms] obtain s where
    "calculateAgreement P (pubKey A) (privKey B) = Inr s" "calculateAgreement P (pubKey B) (privKey A) = Inr s"
    "length s = 32" .
  then show "calculateAgreement P (pubKey B) (privKey A) = Inr (dh P A B)" "dh P A B = dh P B A" "length (dh P A B) = 32"
    by (simp_all add: dh_def)
qed

definition x3dh_input :: "bytes \<Rightarrow> bytes \<Rightarrow> bytes \<Rightarrow> bytes option \<Rightarrow> bytes" where
  "x3dh_input d1 d2 d3 d4 = replicate 32 0xff @ d1 @ d2 @ d3 @ (case d4 of None \<Rightarrow> [] | Some d \<Rightarrow> d)"

lemma buf_set_mid:
  "length src = length old \<Longrightarrow> off = length pre \<Longrightarrow> buf_set (pre @ old @ post) src off = Inr (pre @ src @ post)"
  by (simp add: buf_set_def)

lemma x3dh_secret_eq:
  assumes "length a1 = 32" "length a2 = 32" "length a3 = 32" "\<forall>a. a4 = Some a \<longrightarrow> length a = 32"
  shows "x3dh_secret ini a1 a2 a3 a4 = Inr (if ini then x3dh_input a1 a2 a3 a4 else x3dh_input a2 a1 a3 a4)"
proof -
  let ?f = "replicate 32 (0xff :: byte)" and ?z = "replicate 32 (0 :: byte)"
  let ?t = "if a4 = None then [] else ?z"
  have alloc: "replicate 32 0xff @ drop 32 (buf_alloc (if a4 \<noteq> None then 32 * 5 else 32 * 4)) = ?f @ ?z @ ?z @ ?z @ ?t"
    by (simp add: buf_alloc_def replicate_add [symmetric])
  have s1: "buf_set (?f @ ?z @ r) a 32 = Inr (?f @ a @ r)" if "length a = 32" for a r
    using that buf_set_mid [of a ?z 32 ?f r] by simp
  have s2: "buf_set (?f @ x @ ?z @ r) a 64 = Inr (?f @ x @ a @ r)" if "length a = 32" "length x = 32" for a x r
    using that buf_set_mid [of a ?z 64 "?f @ x" r] by simp
  have s3: "buf_set (?f @ x @ y @ ?z @ r) a 96 = Inr (?f @ x @ y @ a @ r)"
    if "length a = 32" "length x = 32" "length y = 32" for a x y r
    using that buf_set_mid [of a ?z 96 "?f @ x @ y" r] by simp
  have s4: "buf_set (?f @ x @ y @ w @ ?z) a 128 = Inr (?f @ x @ y @ w @ a)"
    if "length a = 32" "length x = 32" "length y = 32" "length w = 32" for a x y w
    using that buf_set_mid [of a ?z 128 "?f @ x @ y @ w" "[]"] by simp
  have s64: "buf_set (?f @ ?z @ ?z @ r) a 64 = Inr (?f @ ?z @ a @ r)" if "length a = 32" for a r
    using s2 [of a ?z r] that by simp
  show ?thesis
    using assms unfolding x3dh_secret_def Let_def alloc
    by (cases a4; cases ini) (simp_all add: s1 s2 s3 s3 [where r = "[]", simplified] s4 s64 x3dh_input_def)
qed

lemma length_x3dh_input:
  "length d1 = 32 \<Longrightarrow> length d2 = 32 \<Longrightarrow> length d3 = 32 \<Longrightarrow>
     length (x3dh_input d1 d2 d3 d4) = 128 + (case d4 of None \<Rightarrow> 0 | Some d \<Rightarrow> length d)"
  by (simp add: x3dh_input_def split: option.splits)

section \<open>One ratchet step\<close>

definition kdf_rk :: "prims \<Rightarrow> bytes \<Rightarrow> bytes \<Rightarrow> bytes \<times> bytes" where
  "kdf_rk P root secret =
     (let ks = hkdf P secret root (ascii ''WhisperRatchet'') 2 in (ks ! 0, ks ! 1))"

definition new_chain :: "bytes \<Rightarrow> chain_type \<Rightarrow> chain" where
  "new_chain k t = \<lparr>messageKeys = [], chainKey = \<lparr>ck_counter = - 1, ck_key = Some k\<rparr>, chainType = t\<rparr>"

definition set_root :: "bytes \<Rightarrow> session_entry \<Rightarrow> session_entry" where
  "set_root r s = s\<lparr>currentRatchet := (currentRatchet s)\<lparr>rootKey := r\<rparr>\<rparr>"

lemma kdf_rk_length:
  assumes "hmac_ok P" shows "length (fst (kdf_rk P r s)) = 32" "length (snd (kdf_rk P r s)) = 32"
proof -
  have "length (hkdf P s r i 2 ! n) = 32" if "n < 2" for i n
    using hkdf_block_length [OF assms, of "hkdf P s r i 2 ! n" s r i 2] that by simp
  then show "length (fst (kdf_rk P r s)) = 32" "length (snd (kdf_rk P r s)) = 32"
    by (simp_all add: kdf_rk_def Let_def)
qed

lemma deriveSecrets_salt: "deriveSecrets P input salt info chunks = Inr ts \<Longrightarrow> length salt = 32"
  by (auto simp: deriveSecrets_def split: if_splits)

text \<open>Both directions of \<open>calculateRatchet\<close>, for any arguments on which it returns.\<close>

lemma calculateRatchet_Inr:
  assumes "hmac_ok P"
  shows "calculateRatchet P s remoteKey sending = Inr s' \<longleftrightarrow>
    (\<exists>secret. calculateAgreement P remoteKey (privKey (ephemeralKeyPair (currentRatchet s))) = Inr secret \<and>
       length (rootKey (currentRatchet s)) = 32 \<and>
       (let (root, key) = kdf_rk P (rootKey (currentRatchet s)) secret;
            k = (if sending then pubKey (ephemeralKeyPair (currentRatchet s)) else remoteKey)
        in getChain k s = None \<and>
           s' = set_root root (putChain k (new_chain key (if sending then SENDING else RECEIVING)) s)))"
proof (cases "length (rootKey (currentRatchet s)) = 32")
  case True
  then show ?thesis
    unfolding calculateRatchet_def Let_def kdf_rk_def
    by (simp add: derive2 [OF assms] res_simps new_chain_def set_root_def) blast
next
  case False
  then show ?thesis by (auto simp: calculateRatchet_def Let_def res_simps dest: deriveSecrets_salt)
qed

lemma calculateRatchet_eq:
  assumes "hmac_ok P" "dh_ok P" "is_key_pair P (ephemeralKeyPair (currentRatchet s))" "is_key_pair P R"
    and "length (rootKey (currentRatchet s)) = 32"
    and "kdf_rk P (rootKey (currentRatchet s)) (dh P (ephemeralKeyPair (currentRatchet s)) R) = (root, key)"
    and "k = (if sending then pubKey (ephemeralKeyPair (currentRatchet s)) else pubKey R)" "getChain k s = None"
  shows "calculateRatchet P s (pubKey R) sending =
     Inr (set_root root (putChain k (new_chain key (if sending then SENDING else RECEIVING)) s))"
  using assms(3-) dh_agree(1) [OF assms(2-4)] by (simp add: calculateRatchet_Inr [OF assms(1)])

lemma calculateSendingRatchet_eq:
  assumes "hmac_ok P" "dh_ok P" "is_key_pair P (ephemeralKeyPair (currentRatchet s))" "is_key_pair P R"
    and "length (rootKey (currentRatchet s)) = 32"
    and "kdf_rk P (rootKey (currentRatchet s)) (dh P (ephemeralKeyPair (currentRatchet s)) R) = (root, key)"
    and "getChain (pubKey (ephemeralKeyPair (currentRatchet s))) s = None"
  shows "calculateSendingRatchet P (pubKey R) s =
     Inr (set_root root (putChain (pubKey (ephemeralKeyPair (currentRatchet s))) (new_chain key SENDING) s))"
proof -
  let ?info = "ascii ''WhisperRatchet''"
  have "hkdf P x r ?info 3 ! i = hkdf P x r ?info 2 ! i" if "i < 2" for x r i
    using that hkdf_take [of 2 3 P x r ?info] nth_take [of i 2 "hkdf P x r ?info 3"] by simp
  then have "kdf_rk P r x = (hkdf P x r ?info 3 ! 0, hkdf P x r ?info 3 ! 1)" for r x
    by (simp add: kdf_rk_def Let_def)
  with assms(6) have "hkdf P (dh P (ephemeralKeyPair (currentRatchet s)) R) (rootKey (currentRatchet s)) ?info 3 ! 0 = root"
    "hkdf P (dh P (ephemeralKeyPair (currentRatchet s)) R) (rootKey (currentRatchet s)) ?info 3 ! 1 = key"
    by simp_all
  moreover have "addChain (pubKey (ephemeralKeyPair (currentRatchet s))) (new_chain key SENDING) s =
      Inr (putChain (pubKey (ephemeralKeyPair (currentRatchet s))) (new_chain key SENDING) s)"
    using assms(7) by (simp add: addChain_Inr)
  ultimately show ?thesis
    unfolding calculateSendingRatchet_def Let_def dh_agree(1) [OF assms(2-4)] rbind_Inr derive3 [OF assms(1,5)]
    by (simp add: new_chain_def set_root_def)
qed

section \<open>X3DH\<close>

definition x3dh_master :: "prims \<Rightarrow> key_pair \<Rightarrow> key_pair \<Rightarrow> key_pair \<Rightarrow> key_pair \<Rightarrow> key_pair option \<Rightarrow> bytes" where
  "x3dh_master P identA base identB signedB oneTimeB =
     hkdf P (x3dh_input (dh P identA signedB) (dh P base identB) (dh P base signedB) (map_option (dh P base) oneTimeB))
       (buf_alloc 32) (ascii ''WhisperText'') 3 ! 0"

definition entry_of_agreement ::
  "nat option \<Rightarrow> current_ratchet \<Rightarrow> int \<Rightarrow> bytes \<Rightarrow> base_key_type \<Rightarrow> bytes \<Rightarrow> (string \<times> chain) list \<Rightarrow> session_entry" where
  "entry_of_agreement rid ratchet now base t remote cs =
     \<lparr>entryVersion = SESSION_ENTRY_VERSION, se_registrationId = rid, currentRatchet = ratchet,
      indexInfo = \<lparr>baseKey = base, baseKeyType = t, ii_closed = - 1, ii_used = now, ii_created = now,
                   remoteIdentityKey = remote\<rparr>,
      pendingPreKey = None, chains = cs\<rparr>"

lemma x3dh_master_length: "hmac_ok P \<Longrightarrow> length (x3dh_master P A E B S O') = 32"
  by (simp add: x3dh_master_def)

lemma initSession_responder:
  assumes "hmac_ok P" "dh_ok P"
    and kp: "is_key_pair P IB" "is_key_pair P SB" "\<forall>x. OB = Some x \<longrightarrow> is_key_pair P x"
      "is_key_pair P IA" "is_key_pair P E"
  shows "initSession P now fresh IB False OB (Some SB) (pubKey IA) (Some (pubKey E)) None rid =
     Inr (entry_of_agreement rid
            \<lparr>ephemeralKeyPair = SB, lastRemoteEphemeralKey = pubKey E, previousCounter = 0,
             rootKey = x3dh_master P IA E IB SB OB\<rparr>
            now (pubKey E) THEIRS (pubKey IA) [])"
proof -
  note agree = dh_agree [OF assms(2)]
  have sym: "dh P IB E = dh P E IB" "dh P SB IA = dh P IA SB" "dh P SB E = dh P E SB"
    using kp by (simp_all add: agree(2) [of _ E] agree(2) [of SB IA])
  have len: "length (dh P E IB) = 32" "length (dh P IA SB) = 32" "length (dh P E SB) = 32"
    using kp by (simp_all add: agree(3))
  have one: "(case (OB, Some (pubKey E)) of (Some e, Some k) \<Rightarrow> rbind (calculateAgreement P k (privKey e)) (\<lambda>a. Inr (Some a))
      | _ \<Rightarrow> Inr None) = (Inr (map_option (dh P E) OB) :: error + bytes option)"
    using kp(3,5) agree(1) [of _ E] agree(2) [of _ E] by (cases OB) simp_all
  have secret: "x3dh_secret False (dh P IB E) (dh P SB IA) (dh P SB E) (map_option (dh P E) OB) =
      Inr (x3dh_input (dh P IA SB) (dh P E IB) (dh P E SB) (map_option (dh P E) OB))"
    using x3dh_secret_eq [of "dh P IB E" "dh P SB IA" "dh P SB E" "map_option (dh P E) OB" False] len kp(3,5) agree(3) [of E]
    by (auto simp: sym)
  show ?thesis
    unfolding initSession_def need_def
    using agree(1) [OF kp(1,5)] agree(1) [OF kp(2,4)] agree(1) [OF kp(2,5)]
    by (simp add: one [simplified] secret derive3 [OF assms(1)] buf_alloc_def x3dh_master_def entry_of_agreement_def)
qed

lemma initSession_initiator:
  assumes "hmac_ok P" "dh_ok P"
    and kp: "is_key_pair P IA" "is_key_pair P E" "is_key_pair P F"
      "is_key_pair P IB" "is_key_pair P SB" "\<forall>x. OB = Some x \<longrightarrow> is_key_pair P x"
    and rk: "kdf_rk P (x3dh_master P IA E IB SB OB) (dh P F SB) = (root, key)"
  shows "initSession P now F IA True (Some E) None (pubKey IB) (map_option pubKey OB) (Some (pubKey SB)) rid =
     Inr (entry_of_agreement rid
            \<lparr>ephemeralKeyPair = F, lastRemoteEphemeralKey = pubKey SB, previousCounter = 0, rootKey = root\<rparr>
            now (pubKey E) OURS (pubKey IB) [(b64_encode (pubKey F), new_chain key SENDING)])"
proof -
  note agree = dh_agree [OF assms(2)]
  have len: "length (dh P E IB) = 32" "length (dh P IA SB) = 32" "length (dh P E SB) = 32"
    using kp by (simp_all add: agree(3))
  have one: "(case (Some E, map_option pubKey OB) of (Some e, Some k) \<Rightarrow> rbind (calculateAgreement P k (privKey e)) (\<lambda>a. Inr (Some a))
      | _ \<Rightarrow> Inr None) = (Inr (map_option (dh P E) OB) :: error + bytes option)"
    using kp(2,6) agree(1) [of E] by (cases OB) simp_all
  have secret: "x3dh_secret True (dh P IA SB) (dh P E IB) (dh P E SB) (map_option (dh P E) OB) =
      Inr (x3dh_input (dh P IA SB) (dh P E IB) (dh P E SB) (map_option (dh P E) OB))"
    using x3dh_secret_eq [of "dh P IA SB" "dh P E IB" "dh P E SB" "map_option (dh P E) OB" True] len kp(2,6) agree(3) [of E]
    by auto
  let ?m = "x3dh_master P IA E IB SB OB"
  let ?s0 = "entry_of_agreement rid
      \<lparr>ephemeralKeyPair = F, lastRemoteEphemeralKey = pubKey SB, previousCounter = 0, rootKey = ?m\<rparr>
      now (pubKey E) OURS (pubKey IB) []"
  have "initSession P now F IA True (Some E) None (pubKey IB) (map_option pubKey OB) (Some (pubKey SB)) rid =
      calculateSendingRatchet P (pubKey SB) ?s0"
    unfolding initSession_def need_def
    using agree(1) [OF kp(1,5)] agree(1) [OF kp(2,4)] agree(1) [OF kp(2,5)]
    by (simp add: one [simplified] secret derive3 [OF assms(1)] buf_alloc_def x3dh_master_def entry_of_agreement_def)
  also have "\<dots> = Inr (set_root root (putChain (pubKey F) (new_chain key SENDING) ?s0))"
    using calculateSendingRatchet_eq [OF assms(1,2), of ?s0 SB root key] kp rk x3dh_master_length [OF assms(1)]
    by (simp add: entry_of_agreement_def getChain_def)
  finally show ?thesis by (simp add: entry_of_agreement_def set_root_def putChain_def)
qed

end
