(* ===== verification/Session_Invariant.thy ===== *)
theory Session_Invariant
  imports Key_Agreement
begin

text \<open>
  The invariant of the session state and its preservation: a session keeps at most 2000 skipped
  message keys per chain and at most 5 receiving chains; a record keeps its sessions under the
  base64 of their base keys, at most one of them open and at most 40 of them.
\<close>

section \<open>One session\<close>

definition entry_ok :: "session_entry \<Rightarrow> bool" where
  "entry_ok e \<longleftrightarrow> entry_wf e \<and>
     (\<forall>(k, c)\<in>set (chains e). length (messageKeys c) \<le> MAX_MESSAGE_KEYS) \<and>
     length (receiving_ids e) \<le> MAX_RECEIVER_CHAINS"

definition keys_ok :: "session_entry \<Rightarrow> bool" where
  "keys_ok e \<longleftrightarrow> entry_wf e \<and> (\<forall>(k, c)\<in>set (chains e). length (messageKeys c) \<le> MAX_MESSAGE_KEYS)"

text \<open>The parts of a session that ratcheting does not touch.\<close>

definition same_session :: "session_entry \<Rightarrow> session_entry \<Rightarrow> bool" where
  "same_session e e' \<longleftrightarrow> indexInfo e' = indexInfo e \<and> se_registrationId e' = se_registrationId e"

lemma entry_ok_keys: "entry_ok e \<longleftrightarrow> keys_ok e \<and> length (receiving_ids e) \<le> MAX_RECEIVER_CHAINS"
  by (auto simp: entry_ok_def keys_ok_def)

lemma same_session_simps [simp]:
  "same_session e e" "same_session e (putChain k c e') = same_session e e'"
  "same_session e (e'\<lparr>currentRatchet := r\<rparr>) = same_session e e'"
  "same_session e (e'\<lparr>pendingPreKey := p\<rparr>) = same_session e e'"
  "same_session e (e'\<lparr>chains := cs\<rparr>) = same_session e e'"
  "same_session e (removeOldReceiverChains mx e') = same_session e e'"
  by (simp_all add: same_session_def)

lemma same_session_trans: "same_session a b \<Longrightarrow> same_session b c \<Longrightarrow> same_session a c"
  by (simp add: same_session_def)

lemma keys_ok_get: "keys_ok e \<Longrightarrow> getChain k e = Some c \<Longrightarrow> chain_wf c \<and> length (messageKeys c) \<le> MAX_MESSAGE_KEYS"
  unfolding keys_ok_def
  by (rule conjI) (erule conjE, erule entry_wf_get, auto simp: getChain_def dest!: obj_get_Some_in)

lemma keys_ok_put: "keys_ok e \<Longrightarrow> chain_wf c \<Longrightarrow> length (messageKeys c) \<le> MAX_MESSAGE_KEYS \<Longrightarrow> keys_ok (putChain k c e)"
  by (auto simp: keys_ok_def entry_wf_put) (auto simp: putChain_def dest!: obj_set_in)

lemma keys_ok_del:
  "keys_ok e \<Longrightarrow> keys_ok (e\<lparr>chains := obj_del k (chains e)\<rparr>)"
  "keys_ok e \<Longrightarrow> keys_ok (e\<lparr>currentRatchet := r, chains := obj_del k (chains e)\<rparr>)"
  by (auto simp: keys_ok_def entry_wf_def obj_simps obj_del_in)

lemma keys_ok_fields [simp]:
  "keys_ok (e\<lparr>currentRatchet := r\<rparr>) = keys_ok e" "keys_ok (e\<lparr>indexInfo := i\<rparr>) = keys_ok e"
  "keys_ok (e\<lparr>pendingPreKey := p\<rparr>) = keys_ok e"
  by (simp_all add: keys_ok_def)

lemma keys_ok_removeOld: "keys_ok e \<Longrightarrow> keys_ok (removeOldReceiverChains mx e)"
  by (auto simp: keys_ok_def entry_wf_removeOld removeOld_chains)

lemma entry_ok_fields [simp]:
  "entry_ok (e\<lparr>currentRatchet := r\<rparr>) = entry_ok e" "entry_ok (e\<lparr>indexInfo := i\<rparr>) = entry_ok e"
  "entry_ok (e\<lparr>pendingPreKey := p\<rparr>) = entry_ok e"
  by (simp_all add: entry_ok_keys)

lemma entry_ok_put_same:
  assumes "entry_ok e" "getChain k e = Some c0" "chainType c = chainType c0"
    "chain_wf c" "length (messageKeys c) \<le> MAX_MESSAGE_KEYS"
  shows "entry_ok (putChain k c e)"
  using assms by (simp add: entry_ok_keys keys_ok_put receiving_ids_put_same)

lemma new_chain_ok: "k \<noteq> [] \<Longrightarrow> chain_wf (new_chain k t)" "messageKeys (new_chain k t) = []"
    "chainType (new_chain k t) = t" "chainKey (new_chain k t) = \<lparr>ck_counter = - 1, ck_key = Some k\<rparr>"
  by (simp_all add: new_chain_def chain_wf_def)

lemma close_previous_ok:
  assumes "hmac_ok P" "keys_ok s" "close_previous P s pc = Inr s'"
  shows "keys_ok s'" "same_session s s'" "currentRatchet s' = currentRatchet s"
    "getChain k s = None \<Longrightarrow> getChain k s' = None" "receiving_ids s' = receiving_ids s"
proof -
  have "keys_ok s' \<and> same_session s s' \<and> currentRatchet s' = currentRatchet s \<and>
      (getChain k s = None \<longrightarrow> getChain k s' = None) \<and> receiving_ids s' = receiving_ids s"
  proof (cases "getChain (lastRemoteEphemeralKey (currentRatchet s)) s")
    case None
    with assms show ?thesis by (simp add: close_previous_def)
  next
    case (Some c)
    then obtain c' where c': "fillMessageKeys P c pc = Inr c'"
      and s': "s' = putChain (lastRemoteEphemeralKey (currentRatchet s)) (c'\<lparr>chainKey := (chainKey c')\<lparr>ck_key := None\<rparr>\<rparr>) s"
      using assms(3) by (auto simp: close_previous_def Let_def res_simps)
    note c = keys_ok_get [OF assms(2) Some]
    note ok = fillMessageKeys_ok [OF assms(1) _ c']
    have "chain_wf (c'\<lparr>chainKey := (chainKey c')\<lparr>ck_key := None\<rparr>\<rparr>)"
      using ok(1) c by (auto simp: chain_wf_def)
    then show ?thesis
      using assms(2) c ok Some unfolding s'
      by (auto simp: keys_ok_put getChain_put receiving_ids_put_same)
  qed
  then show "keys_ok s'" "same_session s s'" "currentRatchet s' = currentRatchet s"
    "getChain k s = None \<Longrightarrow> getChain k s' = None" "receiving_ids s' = receiving_ids s" by blast+
qed

lemma calculateRatchet_ok:
  assumes "hmac_ok P" "keys_ok s" "calculateRatchet P s remoteKey sending = Inr s'"
  shows "keys_ok s'" "same_session s s'"
proof -
  obtain root key k where "getChain k s = None" "key \<noteq> []"
    and s': "s' = set_root root (putChain k (new_chain key (if sending then SENDING else RECEIVING)) s)"
  proof -
    from assms(3) obtain secret root key where k: "(root, key) = kdf_rk P (rootKey (currentRatchet s)) secret"
      and "getChain (if sending then pubKey (ephemeralKeyPair (currentRatchet s)) else remoteKey) s = None"
      and "s' = set_root root (putChain (if sending then pubKey (ephemeralKeyPair (currentRatchet s)) else remoteKey)
             (new_chain key (if sending then SENDING else RECEIVING)) s)"
      unfolding calculateRatchet_Inr [OF assms(1)] Let_def case_prod_beta' by (metis prod.collapse)
    moreover have "key \<noteq> []" using kdf_rk_length(2) [OF assms(1), of "rootKey (currentRatchet s)" secret] by (auto simp: k [symmetric])
    ultimately show thesis using that by blast
  qed
  then show "keys_ok s'" "same_session s s'"
    using assms(2) by (simp_all add: set_root_def keys_ok_put new_chain_ok)
qed

lemma retire_sending_ok:
  assumes "keys_ok s" "retire_sending s = Inr s'"
  shows "keys_ok s'" "same_session s s'"
  using assms by (auto simp: retire_sending_def Let_def deleteChain_Inr keys_ok_del split: option.splits)

lemma removeOld_length: "obj_wf (chains e) \<Longrightarrow> length (receiving_ids (removeOldReceiverChains mx e)) \<le> mx"
  by (simp add: removeOld_receiving)

lemma maybeStepRatchet_ok:
  assumes "hmac_ok P" "entry_ok s" "maybeStepRatchet P fresh s remoteKey pc = Inr s'"
  shows "entry_ok s'" "same_session s s'"
proof -
  have "entry_ok s' \<and> same_session s s'"
  proof (cases "getChain remoteKey s = None")
    case False
    with assms show ?thesis by (simp add: maybeStepRatchet_def)
  next
    case True
    then obtain s1 s2 s3 s5 where s1: "close_previous P s pc = Inr s1"
      and s2: "calculateRatchet P s1 remoteKey False = Inr s2" and s3: "retire_sending s2 = Inr s3"
      and s5: "calculateRatchet P (s3\<lparr>currentRatchet := (currentRatchet s3)\<lparr>ephemeralKeyPair := fresh\<rparr>\<rparr>) remoteKey True = Inr s5"
      and s': "s' = removeOldReceiverChains MAX_RECEIVER_CHAINS
              (s5\<lparr>currentRatchet := (currentRatchet s5)\<lparr>lastRemoteEphemeralKey := remoteKey\<rparr>\<rparr>)"
      using assms(3) by (auto simp: maybeStepRatchet_def Let_def rbind_eq_Inr)
    have "keys_ok s" using assms(2) by (simp add: entry_ok_keys)
    note r1 = close_previous_ok [OF assms(1) this s1]
    note r2 = calculateRatchet_ok [OF assms(1) r1(1) s2]
    note r3 = retire_sending_ok [OF r2(1) s3]
    have "keys_ok s5" "same_session s3 s5"
      using calculateRatchet_ok [OF assms(1) _ s5] r3(1) by (simp_all add: same_session_def)
    moreover from this have "obj_wf (chains s5)" by (simp add: keys_ok_def entry_wf_def)
    ultimately show ?thesis
      using r1(2) r2(2) r3(2) unfolding s'
      by (simp add: entry_ok_keys keys_ok_removeOld removeOld_length) (auto simp: same_session_def)
  qed
  then show "entry_ok s'" "same_session s s'" by blast+
qed

lemma mk_del_ok:
  assumes "chain_wf c" "length (messageKeys c) \<le> MAX_MESSAGE_KEYS"
  shows "chain_wf (c\<lparr>messageKeys := obj_del i (messageKeys c)\<rparr>)" "length (obj_del i (messageKeys c)) \<le> MAX_MESSAGE_KEYS"
proof -
  show "length (obj_del i (messageKeys c)) \<le> MAX_MESSAGE_KEYS"
    using assms(2) length_obj_del_le [of i "messageKeys c"] by simp
  have "set (obj_del i (messageKeys c)) \<subseteq> set (messageKeys c)" by (auto simp: obj_del_filter)
  then show "chain_wf (c\<lparr>messageKeys := obj_del i (messageKeys c)\<rparr>)"
    using assms(1) mk_wf_del [of "messageKeys c" i] by (auto simp: chain_wf_def)
qed

lemma takeMessageKey_ok:
  assumes "hmac_ok P" "entry_ok s" "takeMessageKey P s eph n = Inr (mk, s')"
  shows "entry_ok s'" "same_session s s'"
proof -
  from assms(3) obtain c f where c: "getChain eph s = Some c" "fillMessageKeys P c n = Inr f"
    and s': "s' = putChain eph (f\<lparr>messageKeys := obj_del (nat n) (messageKeys f)\<rparr>) s"
    by (auto simp: takeMessageKey_Inr)
  have "keys_ok s" using assms(2) by (simp add: entry_ok_keys)
  note ck = keys_ok_get [OF this c(1)]
  note f = fillMessageKeys_ok [OF assms(1) _ c(2)]
  show "entry_ok s'"
    using ck f mk_del_ok [of f "nat n"] unfolding s'
    by (intro entry_ok_put_same [OF assms(2) c(1)]) simp_all
  show "same_session s s'" by (simp add: s')
qed

lemma doDecrypt_ok:
  assumes "hmac_ok P" "entry_ok s" "doDecryptWhisperMessage P W our fresh buf s = Inr (pt, s')"
  shows "entry_ok s'" "same_session s s'" "pendingPreKey s' = None"
proof -
  obtain o' where "our = Inr o'"
    using assms(3) by (cases our)
      (auto simp: doDecryptWhisperMessage_def Let_def res_simps split: if_splits)
  with assms(3) obtain m s1 mk s2 where parts:
    "maybeStepRatchet P fresh s (wm_key m) (wm_previous m) = Inr s1"
    "takeMessageKey P s1 (wm_key m) (wm_count m) = Inr (mk, s2)" "s' = s2\<lparr>pendingPreKey := None\<rparr>"
    by (auto simp: doDecrypt_Inr [OF assms(1)])
  note r1 = maybeStepRatchet_ok [OF assms(1,2) parts(1)]
  note r2 = takeMessageKey_ok [OF assms(1) r1(1) parts(2)]
  show "entry_ok s'" "same_session s s'" "pendingPreKey s' = None"
    using r2(1) same_session_trans [OF r1(2) r2(2)] by (simp_all add: parts(3))
qed

lemma encryptMessage_ok:
  assumes "hmac_ok P" "entry_ok s" "encryptMessage P W our data s = Inr (buf, s')"
  shows "entry_ok s'" "same_session s s'" "pendingPreKey s' = pendingPreKey s"
proof -
  let ?eph = "pubKey (ephemeralKeyPair (currentRatchet s))"
  from assms(3) obtain c where c: "getChain ?eph s = Some c"
    by (cases "getChain ?eph s") (auto simp: encryptMessage_def Let_def)
  from assms(3) obtain f n where f: "fillMessageKeys P c (ck_counter (chainKey c) + 1) = Inr f"
    and s': "s' = putChain ?eph (f\<lparr>messageKeys := obj_del n (messageKeys f)\<rparr>) s"
    by (auto simp: encryptMessage_def Let_def c rbind_eq_Inr)
  have "keys_ok s" using assms(2) by (simp add: entry_ok_keys)
  note ck = keys_ok_get [OF this c]
  note r = fillMessageKeys_ok [OF assms(1) _ f]
  show "entry_ok s'"
    using ck r mk_del_ok [of f n] unfolding s'
    by (intro entry_ok_put_same [OF assms(2) c]) simp_all
  show "same_session s s'" "pendingPreKey s' = pendingPreKey s" by (simp_all add: s')
qed

section \<open>One record\<close>

definition open_count :: "(string \<times> session_entry) list \<Rightarrow> nat" where
  "open_count ss = length (filter (\<lambda>p. \<not> isClosed (snd p)) ss)"

definition record_ok :: "session_record \<Rightarrow> bool" where
  "record_ok r \<longleftrightarrow> record_wf r \<and> (\<forall>(k, e)\<in>set (sessions r). entry_ok e) \<and> open_count (sessions r) \<le> 1"

definition stored_ok :: "session_record \<Rightarrow> bool" where
  "stored_ok r \<longleftrightarrow> record_ok r \<and> length (sessions r) \<le> CLOSED_SESSIONS_MAX"

lemma record_ok_new: "record_ok new_session_record"
  by (simp add: record_ok_def record_wf_def new_session_record_def open_count_def)

lemma open_count_filter: "open_count (filter P ss) \<le> open_count ss"
  by (induction ss) (auto simp: open_count_def)

lemma open_count_set: "open_count (obj_set k e ss) \<le> open_count ss + (if isClosed e then 0 else 1)"
  by (induction ss) (auto simp: open_count_def)

lemma open_count_set_same:
  "obj_get ss k = Some e0 \<Longrightarrow> isClosed e = isClosed e0 \<Longrightarrow> open_count (obj_set k e ss) = open_count ss"
  by (induction ss) (auto simp: open_count_def split: if_splits)

lemma isClosed_close: "now \<noteq> - 1 \<Longrightarrow> isClosed (closeSession now e)"
  by (simp add: closeSession_def isClosed_def)

lemma open_count_close_first: "now \<noteq> - 1 \<Longrightarrow> open_count (close_first_open now ss) = open_count ss - 1"
  by (induction ss rule: close_first_open.induct) (auto simp: open_count_def isClosed_close)

lemma entry_ok_close [simp]: "entry_ok (closeSession now e) = entry_ok e"
  by (simp add: closeSession_def)

lemma entry_ok_wf: "entry_ok e \<Longrightarrow> entry_wf e"
  by (simp add: entry_ok_def)

lemma record_ok_set:
  assumes "record_ok r" "entry_ok e" "baseKey (indexInfo e) \<noteq> []"
    and "open_count (sessions (setSession e r)) \<le> 1"
  shows "record_ok (setSession e r)"
  using assms by (auto simp: record_ok_def record_wf_def setSession_def obj_simps entry_ok_wf dest!: obj_set_in)

lemma record_ok_get:
  assumes "record_ok r" "(k, e) \<in> set (sessions r)"
  shows "entry_ok e" "baseKey (indexInfo e) \<noteq> []" "k = b64_encode (baseKey (indexInfo e))"
    "obj_get (sessions r) (b64_encode (baseKey (indexInfo e))) = Some e"
  using assms by (auto simp: record_ok_def record_wf_def)

text \<open>Putting back a session that kept its index info keeps the record's invariant.\<close>

lemma record_ok_replace:
  assumes "record_ok r" "(k, e) \<in> set (sessions r)" "entry_ok e'"
    "baseKey (indexInfo e') = baseKey (indexInfo e)" "isClosed e' = isClosed e"
  shows "record_ok (setSession e' r)"
proof (rule record_ok_set [OF assms(1,3)])
  note g = record_ok_get [OF assms(1,2)]
  show "baseKey (indexInfo e') \<noteq> []" using g assms(4) by simp
  have "open_count (sessions (setSession e' r)) = open_count (sessions r)"
    using open_count_set_same [OF g(4) assms(5)] assms(4) by (simp add: setSession_def)
  then show "open_count (sessions (setSession e' r)) \<le> 1"
    using assms(1) by (simp add: record_ok_def)
qed

lemma close_first_keys: "map fst (close_first_open now ss) = map fst ss"
  by (induction ss rule: close_first_open.induct) auto

lemma close_first_in: "(k, e) \<in> set (close_first_open now ss) \<Longrightarrow> \<exists>e0. (k, e0) \<in> set ss \<and> (e = e0 \<or> e = closeSession now e0)"
  by (induction ss rule: close_first_open.induct) (auto split: if_splits)

lemma close_base [simp]: "baseKey (indexInfo (closeSession now e)) = baseKey (indexInfo e)"
  by (simp add: closeSession_def)

lemma record_ok_close:
  assumes "record_ok r" "now \<noteq> - 1"
  shows "record_ok (closeOpenSession now r)" "open_count (sessions (closeOpenSession now r)) = 0"
proof -
  show n: "open_count (sessions (closeOpenSession now r)) = 0"
    using assms by (simp add: closeOpenSession_def open_count_close_first record_ok_def)
  have "\<forall>(k, e)\<in>set (close_first_open now (sessions r)). entry_ok e \<and> k = b64_encode (baseKey (indexInfo e)) \<and> k \<noteq> []"
    using assms(1) by (fastforce simp: record_ok_def record_wf_def dest: close_first_in)
  then show "record_ok (closeOpenSession now r)"
    using assms(1) n unfolding record_ok_def record_wf_def closeOpenSession_def
    by (auto simp: close_first_keys entry_ok_wf)
qed

lemma record_ok_filter: "record_ok r \<Longrightarrow> record_ok (r\<lparr>sessions := filter P (sessions r)\<rparr>)"
  using open_count_filter [of P "sessions r"]
  by (auto simp: record_ok_def record_wf_def obj_wf_filter)

lemma removeOldSessions_ok:
  assumes "record_ok r"
  obtains r' where "removeOldSessions r = Inr r'" "stored_ok r'"
proof -
  have nonempty: "\<forall>(k, e)\<in>set (sessions r). k \<noteq> []" using assms by (auto simp: record_ok_def record_wf_def)
  have wf: "obj_wf (sessions r)" using assms by (simp add: record_ok_def record_wf_def)
  have "length (filter (\<lambda>p. \<not> isClosed (snd p)) (sessions r)) \<le> CLOSED_SESSIONS_MAX"
    using assms by (simp add: record_ok_def open_count_def CLOSED_SESSIONS_MAX_def)
  from remove_old_ok [OF wf this nonempty] obtain ss' where ss': "remove_old (sessions r) = Inr ss'" by blast
  obtain K where "ss' = filter (\<lambda>p. fst p \<notin> K) (sessions r)" using remove_old_sub [OF ss'] by blast
  then have "stored_ok (r\<lparr>sessions := ss'\<rparr>)"
    using record_ok_filter [OF assms] remove_old_bound [OF ss'] by (simp add: stored_ok_def)
  then show thesis using that ss' by (simp add: removeOldSessions_def)
qed

lemma expire_record_ok:
  assumes "record_ok r"
  obtains r' where "expire_record now maxAge r = Inr r'" "stored_ok r'"
proof -
  from removeOldSessions_ok [OF assms] obtain r1 where r1: "removeOldSessions r = Inr r1" "stored_ok r1" .
  then have "stored_ok (removeStaleSessions now maxAge r1)"
    using record_ok_filter [of r1] le_trans [OF length_filter_le]
    by (auto simp: stored_ok_def removeStaleSessions_def Let_def)
  with r1 show thesis using that by (auto simp: expire_record_def)
qed

end
