(* ===== verification/Delivery.thy ===== *)
theory Delivery
  imports Session_Invariant
begin

text \<open>
  What a sender encrypts, the receiver decrypts: on chains that started from the same chain key, in
  any order within the window of 2000 messages, and for the first message after X3DH. What was
  decrypted once is refused the second time.
\<close>

section \<open>Messages on one chain\<close>

text \<open>The receiving chain can still produce the key of message \<open>n\<close>.\<close>

definition receivable :: "chain \<Rightarrow> int \<Rightarrow> bool" where
  "receivable c n \<longleftrightarrow>
     (if n \<le> ck_counter (chainKey c) then obj_get (messageKeys c) (nat n) \<noteq> None
      else n - ck_counter (chainKey c) \<le> 2000 \<and> ck_key (chainKey c) \<noteq> None)"

lemma fill_receivable:
  assumes "hmac_ok P" "chain_from P k c" "receivable c n"
  obtains c' where "fillMessageKeys P c n = Inr c'" "obj_get (messageKeys c') (nat n) = Some (message_key_at P k (nat n))"
proof (cases "n \<le> ck_counter (chainKey c)")
  case True
  with assms(3) obtain v where v: "obj_get (messageKeys c) (nat n) = Some v" by (auto simp: receivable_def)
  show thesis
    by (rule that [of c]) (use True v chain_from_get [OF assms(2) v] in \<open>simp_all add: fillMessageKeys_def fill_loop_done\<close>)
next
  case False
  with assms(3) obtain key where "ck_key (chainKey c) = Some key" "n - ck_counter (chainKey c) \<le> 2000"
    by (auto simp: receivable_def)
  with False show thesis
    using fill_new_key [OF assms(1,2), of key n] that by (metis linorder_not_le)
qed

lemma whisper_fields [simp]:
  "wm_key \<lparr>wm_ephemeralKey = Some e, wm_counter = Some n, wm_previousCounter = Some p, wm_ciphertext = Some ct\<rparr> = e"
  "wm_count \<lparr>wm_ephemeralKey = Some e, wm_counter = Some n, wm_previousCounter = Some p, wm_ciphertext = Some ct\<rparr> = n"
  "wm_previous \<lparr>wm_ephemeralKey = Some e, wm_counter = Some n, wm_previousCounter = Some p, wm_ciphertext = Some ct\<rparr> = p"
  "wm_body \<lparr>wm_ephemeralKey = Some e, wm_counter = Some n, wm_previousCounter = Some p, wm_ciphertext = Some ct\<rparr> = ct"
  by (simp_all add: wm_key_def wm_count_def wm_previous_def wm_body_def def_b_def)

text \<open>
  The general form: \<open>B\<close> may step its ratchet first, and ends in a state \<open>B1\<close> whose chain for the
  sender's ratchet key started from the sender's chain key.
\<close>

definition sizes_ok :: "session_entry \<Rightarrow> int \<Rightarrow> bytes \<Rightarrow> bool" where
  "sizes_ok A n data \<longleftrightarrow> n < 2 ^ 32 \<and> 0 \<le> previousCounter (currentRatchet A) \<and>
     previousCounter (currentRatchet A) < 2 ^ 32 \<and> length data < 2 ^ 31 \<and>
     length (pubKey (ephemeralKeyPair (currentRatchet A))) = 33"

lemma WhisperMessage_encode_nonempty:
  assumes "wire_ok W" "whisper_fits m" "wm_counter m \<noteq> None"
  shows "WhisperMessage_encode W m \<noteq> []"
proof
  assume "WhisperMessage_encode W m = []"
  then have "WhisperMessage_decode W [] = Inr m"
    using WhisperMessage_decode_encode [OF assms(1,2)] by simp
  moreover have "WhisperMessage_decode W [] = Inr WhisperMessage_create"
    using run_end [OF assms(1) WhisperMessage_step_ok [OF assms(1)], where rest = "[]"]
    by (simp add: WhisperMessage_decode_def WhisperMessage_read_def)
  ultimately show False using assms(3) by (auto simp: WhisperMessage_create_def)
qed

text \<open>
  \<open>buf\<close> is a message with counter \<open>n\<close> for the ratchet key \<open>x\<close>, sealed under the key at \<open>n\<close> of the chain
  that started from \<open>k\<close>: whoever gets to that key decrypts it to \<open>data\<close>.
\<close>

definition opens ::
  "prims \<Rightarrow> wire \<Rightarrow> bytes \<Rightarrow> key_pair \<Rightarrow> bytes \<Rightarrow> bytes \<Rightarrow> int \<Rightarrow> int \<Rightarrow> bytes \<Rightarrow> bytes \<Rightarrow> bool" where
  "opens P W idA IB k x n pc data buf \<longleftrightarrow>
     (\<forall>fresh B B1 B2. maybeStepRatchet P fresh B x pc = Inr B1 \<longrightarrow>
        takeMessageKey P B1 x n = Inr (message_key_at P k (nat n), B2) \<longrightarrow> remoteIdentityKey (indexInfo B2) = idA \<longrightarrow>
        doDecryptWhisperMessage P W (Inr IB) fresh buf B = Inr (data, B2\<lparr>pendingPreKey := None\<rparr>))"

lemma whisper_size:
  assumes "wire_sizes W" "whisper_fits m" "length (wm_key m) = 33" "length (wm_body m) < 2 ^ 31 + 16"
    "wm_ephemeralKey m \<noteq> None" "wm_ciphertext m \<noteq> None"
  shows "length (WhisperMessage_encode W m) < 4294967287"
proof -
  note put = put_sizes [OF assms(1)]
  have "length (put_b W 10 (wm_ephemeralKey m)) \<le> 43" "length (put_u W 16 (wm_counter m)) \<le> 10"
    "length (put_u W 24 (wm_previousCounter m)) \<le> 10" "length (put_b W 34 (wm_ciphertext m)) \<le> length (wm_body m) + 10"
    using put(1) [of 10 "wm_ephemeralKey m"] put(1) [of 34 "wm_ciphertext m"] put(3) [of 16 "wm_counter m"]
      put(3) [of 24 "wm_previousCounter m"] assms(2-) by (auto simp: whisper_fits_def wm_key_def wm_body_def def_b_def)
  then show ?thesis using assms(4) by (simp add: WhisperMessage_encode_def)
qed

lemma encrypt_opens:
  fixes A :: session_entry
  defines "eph \<equiv> pubKey (ephemeralKeyPair (currentRatchet A))"
  assumes P: "prims_ok P" "wire_ok W"
    and cA: "getChain eph A = Some cA" "chainType cA = SENDING" "chain_from P k cA" "ck_key (chainKey cA) = Some key"
    and n: "n = ck_counter (chainKey cA) + 1"
    and ids: "remoteIdentityKey (indexInfo A) = pubKey IB" "length (pubKey IA) = 33" "length (pubKey IB) = 33"
    and sizes: "sizes_ok A n data"
  obtains buf f where "encryptMessage P W IA data A = Inr (buf, putChain eph (f\<lparr>messageKeys := obj_del (nat n) (messageKeys f)\<rparr>) A)"
    "fillMessageKeys P cA n = Inr f" "opens P W (pubKey IA) IB k eph n (previousCounter (currentRatchet A)) data buf"
    "wire_sizes W \<Longrightarrow> length buf < 2 ^ 32" "buf \<noteq> []"
proof -
  have hm: "hmac_ok P" using P(1) by (simp add: prims_okD)
  have nonneg: "0 \<le> n" using cA(3) n by (simp add: chain_from_def chain_wf_def)
  have lenA: "length (remoteIdentityKey (indexInfo A)) = 33" using ids by simp
  let ?keys = "message_keys P (message_key_at P k (nat n))"
  from encryptMessage_eq [OF P(1) cA [unfolded eph_def] ids(2) lenA n, of data W]
  obtain ct f where ct: "length ct = 16 * (length data div 16 + 1)"
      "crypto_decrypt P (?keys ! 0) ct (take 16 (?keys ! 2)) = Inr data" and f: "fillMessageKeys P cA n = Inr f"
    and enc: "encryptMessage P W IA data A =
       (let msgBuf = WhisperMessage_encode W \<lparr>wm_ephemeralKey = Some eph, wm_counter = Some n,
              wm_previousCounter = Some (previousCounter (currentRatchet A)), wm_ciphertext = Some ct\<rparr>
        in Inr (0x33 # msgBuf @ message_mac P (?keys ! 1) (pubKey IA) (remoteIdentityKey (indexInfo A)) msgBuf,
                putChain eph (f\<lparr>messageKeys := obj_del (nat n) (messageKeys f)\<rparr>) A))"
    unfolding eph_def by metis
  define m where "m = \<lparr>wm_ephemeralKey = Some eph, wm_counter = Some n,
     wm_previousCounter = Some (previousCounter (currentRatchet A)), wm_ciphertext = Some ct\<rparr>"
  let ?buf = "0x33 # WhisperMessage_encode W m @ message_mac P (?keys ! 1) (pubKey IA) (pubKey IB) (WhisperMessage_encode W m)"
  have eph33: "length eph = 33" and "length data < 2 ^ 31" using sizes by (simp_all add: sizes_ok_def eph_def)
  then have len_ct: "length ct < 2 ^ 31 + 16"
    using ct(1) div_le_mono [of "length data" 2147483647 16] by simp
  then have fits: "whisper_fits m" and valid: "message_valid m"
    using nonneg sizes ct(1) eph33
    by (auto simp: whisper_fits_def m_def message_valid_def sizes_ok_def len32_opt_def u32_opt_def)
  have "wire_sizes W \<Longrightarrow> length (WhisperMessage_encode W m) < 4294967287"
    by (rule whisper_size [OF _ fits]) (use len_ct eph33 in \<open>simp_all add: m_def\<close>)
  moreover have "opens P W (pubKey IA) IB k eph n (previousCounter (currentRatchet A)) data ?buf"
    unfolding opens_def
  proof (intro allI impI)
    fix fresh B B1 B2
    assume step: "maybeStepRatchet P fresh B eph (previousCounter (currentRatchet A)) = Inr B1"
      and key: "takeMessageKey P B1 eph n = Inr (message_key_at P k (nat n), B2)" and id: "remoteIdentityKey (indexInfo B2) = pubKey IA"
    show "doDecryptWhisperMessage P W (Inr IB) fresh ?buf B = Inr (data, B2\<lparr>pendingPreKey := None\<rparr>)"
    proof (rule doDecrypt_eq [OF P fits valid])
      show "maybeStepRatchet P fresh B (wm_key m) (wm_previous m) = Inr B1" using step by (simp add: m_def)
      show "takeMessageKey P B1 (wm_key m) (wm_count m) = Inr (message_key_at P k (nat n), B2)" using key by (simp add: m_def)
      show "WhisperMessage_encode W m \<noteq> []"
        by (rule WhisperMessage_encode_nonempty [OF P(2) fits]) (simp add: m_def)
    qed (use ids id ct(2) in \<open>simp_all add: m_def\<close>)
  qed
  ultimately show thesis
    using that [of ?buf f] enc f ids(1) hm by (simp add: Let_def flip: m_def)
qed

lemma delivery_core:
  fixes A :: session_entry
  defines "eph \<equiv> pubKey (ephemeralKeyPair (currentRatchet A))"
  assumes P: "prims_ok P" "wire_ok W"
    and cA: "getChain eph A = Some cA" "chainType cA = SENDING" "chain_from P k cA" "ck_key (chainKey cA) = Some key"
    and n: "n = ck_counter (chainKey cA) + 1"
    and step: "maybeStepRatchet P fresh B eph (previousCounter (currentRatchet A)) = Inr B1"
    and cB: "getChain eph B1 = Some cB" "chainType cB \<noteq> SENDING" "chain_from P k cB" "receivable cB n"
    and ids: "remoteIdentityKey (indexInfo A) = pubKey IB" "remoteIdentityKey (indexInfo B1) = pubKey IA"
      "length (pubKey IA) = 33" "length (pubKey IB) = 33"
    and sizes: "sizes_ok A n data"
  obtains buf A' f where "encryptMessage P W IA data A = Inr (buf, A')"
    "doDecryptWhisperMessage P W (Inr IB) fresh buf B =
       Inr (data, (putChain eph (f\<lparr>messageKeys := obj_del (nat n) (messageKeys f)\<rparr>) B1)\<lparr>pendingPreKey := None\<rparr>)"
    "fillMessageKeys P cB n = Inr f" "wire_sizes W \<Longrightarrow> length buf < 2 ^ 32" "buf \<noteq> []"
proof -
  have hm: "hmac_ok P" using P(1) by (simp add: prims_okD)
  obtain f where f: "fillMessageKeys P cB n = Inr f" "obj_get (messageKeys f) (nat n) = Some (message_key_at P k (nat n))"
    using fill_receivable [OF hm cB(3,4)] .
  let ?s2 = "putChain eph (f\<lparr>messageKeys := obj_del (nat n) (messageKeys f)\<rparr>) B1"
  have key: "takeMessageKey P B1 eph n = Inr (message_key_at P k (nat n), ?s2)"
    using cB f by (auto simp: takeMessageKey_Inr)
  obtain buf g where enc: "encryptMessage P W IA data A = Inr (buf, putChain eph (g\<lparr>messageKeys := obj_del (nat n) (messageKeys g)\<rparr>) A)"
    "opens P W (pubKey IA) IB k eph n (previousCounter (currentRatchet A)) data buf" "wire_sizes W \<Longrightarrow> length buf < 2 ^ 32" "buf \<noteq> []"
    using encrypt_opens [OF P cA [unfolded eph_def] n ids(1,3,4) sizes] unfolding eph_def by metis
  have id: "remoteIdentityKey (indexInfo ?s2) = pubKey IA" using ids(2) by simp
  show thesis
    by (rule that [OF enc(1) _ f(1) enc(3,4)]) (use enc(2) step key id in \<open>unfold opens_def, blast\<close>)+
qed

section \<open>Replay\<close>

lemma used_key_rejected:
  assumes frame: "MIN_MESSAGE_LENGTH \<le> length buf" "check_versions ''WhisperMessage'' (buf ! 0) = Inr ()"
    "WhisperMessage_decode W (take (length buf - 9) (drop 1 buf)) = Inr m" "message_valid m"
    and used: "getChain (wm_key m) s = Some c" "chainType c \<noteq> SENDING" "wm_count m \<le> ck_counter (chainKey c)"
      "obj_get (messageKeys c) (nat (wm_count m)) = None"
  shows "doDecryptWhisperMessage P W our fresh buf s = Inl (MessageCounterError ''Key used already or never filled'')"
proof -
  have "assertValidWhisperMessage m = Inr ()" using frame(4) by (simp add: assertValidWhisperMessage_iff)
  moreover have "takeMessageKey P s (wm_key m) (wm_count m) = Inl (MessageCounterError ''Key used already or never filled'')"
    using used by (simp add: takeMessageKey_def fillMessageKeys_def fill_loop_done guard_that_def)
  ultimately show ?thesis
    using frame used(1) by (simp add: doDecryptWhisperMessage_def decodeWhisperMessage_def maybeStepRatchet_def Let_def)
qed

lemma replay_core:
  assumes "hmac_ok P" "entry_ok s" "doDecryptWhisperMessage P W (Inr our) fresh buf s = Inr (pt, s')"
  shows "doDecryptWhisperMessage P W our' fresh' buf s' = Inl (MessageCounterError ''Key used already or never filled'')"
proof -
  from assms(3) obtain m s1 mk s2 where frame: "MIN_MESSAGE_LENGTH \<le> length buf"
      "check_versions ''WhisperMessage'' (buf ! 0) = Inr ()"
      "WhisperMessage_decode W (take (length buf - 9) (drop 1 buf)) = Inr m" "message_valid m"
    and parts: "maybeStepRatchet P fresh s (wm_key m) (wm_previous m) = Inr s1"
      "takeMessageKey P s1 (wm_key m) (wm_count m) = Inr (mk, s2)" and s': "s' = s2\<lparr>pendingPreKey := None\<rparr>"
    unfolding doDecrypt_Inr [OF assms(1)] by blast
  from parts(2) obtain c f where c: "getChain (wm_key m) s1 = Some c" "chainType c \<noteq> SENDING"
      "fillMessageKeys P c (wm_count m) = Inr f"
    and s2: "s2 = putChain (wm_key m) (f\<lparr>messageKeys := obj_del (nat (wm_count m)) (messageKeys f)\<rparr>) s1"
    by (auto simp: takeMessageKey_Inr)
  have "chain_wf c"
    using maybeStepRatchet_ok(1) [OF assms(1,2) parts(1)] c(1) keys_ok_get by (auto simp: entry_ok_keys)
  note f = fillMessageKeys_ok [OF assms(1) this c(3)]
  show ?thesis
    by (rule used_key_rejected [OF frame, where c = "f\<lparr>messageKeys := obj_del (nat (wm_count m)) (messageKeys f)\<rparr>"])
      (use f c(2) in \<open>simp_all add: s' s2 getChain_put obj_get_del\<close>)
qed

section \<open>The first ratchet step of the receiver\<close>

text \<open>A session without receiving history steps to the sender's first ratchet key.\<close>

lemma step_fresh_session:
  assumes "hmac_ok P" "dh_ok P"
    and kp: "is_key_pair P (ephemeralKeyPair (currentRatchet B))" "is_key_pair P F" "is_key_pair P G"
    and B: "chains B = []" "length (rootKey (currentRatchet B)) = 32"
    and rk: "kdf_rk P (rootKey (currentRatchet B)) (dh P (ephemeralKeyPair (currentRatchet B)) F) = (root, key)"
    and distinct: "pubKey F \<noteq> pubKey (ephemeralKeyPair (currentRatchet B))" "pubKey G \<noteq> pubKey F"
  obtains B1 where "maybeStepRatchet P G B (pubKey F) pc = Inr B1"
    "getChain (pubKey F) B1 = Some (new_chain key RECEIVING)" "indexInfo B1 = indexInfo B"
    "currentRatchet B1 = \<lparr>ephemeralKeyPair = G, lastRemoteEphemeralKey = pubKey F,
       previousCounter = previousCounter (currentRatchet B), rootKey = fst (kdf_rk P root (dh P G F))\<rparr>"
    "getChain (pubKey G) B1 = Some (new_chain (snd (kdf_rk P root (dh P G F))) SENDING)"
proof -
  have none: "getChain k B = None" for k by (simp add: getChain_def B(1))
  obtain root2 key2 where rk2: "kdf_rk P root (dh P G F) = (root2, key2)" by fastforce
  let ?B2 = "set_root root (putChain (pubKey F) (new_chain key RECEIVING) B)"
  let ?B4 = "?B2\<lparr>currentRatchet := (currentRatchet ?B2)\<lparr>ephemeralKeyPair := G\<rparr>\<rparr>"
  let ?B5 = "set_root root2 (putChain (pubKey G) (new_chain key2 SENDING) ?B4)"
  let ?B6 = "?B5\<lparr>currentRatchet := (currentRatchet ?B5)\<lparr>lastRemoteEphemeralKey := pubKey F\<rparr>\<rparr>"
  have step1: "close_previous P B pc = Inr B" by (simp add: close_previous_def none)
  have step2: "calculateRatchet P B (pubKey F) False = Inr ?B2"
    using calculateRatchet_eq [OF assms(1,2) kp(1,2) B(2) rk, of "pubKey F" False] none by simp
  have step3: "retire_sending ?B2 = Inr ?B2"
    using distinct(1) none by (simp add: retire_sending_def set_root_def getChain_put)
  have "length root = 32" using kdf_rk_length(1) [OF assms(1)] rk by (metis fst_conv)
  then have step4: "calculateRatchet P ?B4 (pubKey F) True = Inr ?B5"
    using calculateRatchet_eq [OF assms(1,2) _ kp(2), of ?B4 root2 key2 "pubKey G" True] kp(3) rk2 distinct none
    by (simp add: set_root_def getChain_put)
  have "receiving_ids B = []" by (simp add: receiving_ids_def B(1))
  then have recv: "receiving_ids ?B6 = [b64_encode (pubKey F)]"
    using none distinct by (simp add: set_root_def receiving_ids_put_new getChain_put new_chain_ok)
  define B7 where "B7 = removeOldReceiverChains MAX_RECEIVER_CHAINS ?B6"
  have get7: "getChain k B7 = getChain k ?B6" for k
    unfolding B7_def getChain_removeOld recv by (simp add: MAX_RECEIVER_CHAINS_def)
  have step: "maybeStepRatchet P G B (pubKey F) pc = Inr B7"
    unfolding B7_def by (simp add: maybeStepRatchet_def none step1 step2 step3 step4 Let_def)
  have fields: "indexInfo B7 = indexInfo B" "currentRatchet B7 = currentRatchet ?B6"
    by (simp_all add: B7_def set_root_def)
  show thesis
    by (rule that [OF step]) (use distinct none rk2 in \<open>simp_all add: get7 fields set_root_def getChain_put\<close>)
qed

section \<open>The first message\<close>

text \<open>
  \<open>A\<close> builds a session from \<open>B\<close>'s bundle and encrypts, \<open>B\<close> builds the session from the header of the
  message and decrypts.
\<close>

lemma first_message_core:
  assumes P: "prims_ok P" "wire_ok W"
    and kp: "is_key_pair P IA" "is_key_pair P E" "is_key_pair P F" "is_key_pair P IB" "is_key_pair P SB"
      "\<forall>x. OB = Some x \<longrightarrow> is_key_pair P x" "is_key_pair P G"
    and distinct: "pubKey F \<noteq> pubKey SB" "pubKey G \<noteq> pubKey F"
    and data: "length data < 2 ^ 31"
  obtains sA sB buf sA' sB' where
    "initSession P t1 F IA True (Some E) None (pubKey IB) (map_option pubKey OB) (Some (pubKey SB)) r1 = Inr sA"
    "initSession P t2 F2 IB False OB (Some SB) (pubKey IA) (Some (pubKey E)) None r2 = Inr sB"
    "encryptMessage P W IA data (sA\<lparr>pendingPreKey := pend\<rparr>) = Inr (buf, sA')"
    "doDecryptWhisperMessage P W (Inr IB) G buf sB = Inr (data, sB')"
    "wire_sizes W \<Longrightarrow> length buf < 2 ^ 32" "buf \<noteq> []"
proof -
  have hm: "hmac_ok P" and dh: "dh_ok P" using P(1) by (simp_all add: prims_okD)
  let ?m = "x3dh_master P IA E IB SB OB"
  obtain root key where rk: "kdf_rk P ?m (dh P F SB) = (root, key)" by fastforce
  let ?A = "entry_of_agreement r1
      \<lparr>ephemeralKeyPair = F, lastRemoteEphemeralKey = pubKey SB, previousCounter = 0, rootKey = root\<rparr>
      t1 (pubKey E) OURS (pubKey IB) [(b64_encode (pubKey F), new_chain key SENDING)]"
  let ?A1 = "?A\<lparr>pendingPreKey := pend\<rparr>"
  let ?B = "entry_of_agreement r2
      \<lparr>ephemeralKeyPair = SB, lastRemoteEphemeralKey = pubKey E, previousCounter = 0, rootKey = ?m\<rparr>
      t2 (pubKey E) THEIRS (pubKey IA) []"
  have len: "length (pubKey IA) = 33" "length (pubKey IB) = 33" "length (pubKey F) = 33"
    using is_key_pair_lengths [OF dh] kp by blast+
  have key: "key \<noteq> []" using kdf_rk_length(2) [OF hm, of ?m "dh P F SB"] rk by auto
  have "dh P SB F = dh P F SB" by (rule dh_agree(2) [OF dh kp(5,3)])
  then obtain B1 where B1: "maybeStepRatchet P G ?B (pubKey F) 0 = Inr B1"
      "getChain (pubKey F) B1 = Some (new_chain key RECEIVING)" "indexInfo B1 = indexInfo ?B"
    using step_fresh_session [OF hm dh, of ?B F G root key 0] kp distinct rk x3dh_master_length [OF hm]
    by (simp add: entry_of_agreement_def) metis
  have chain: "chain_from P key (new_chain key t)" for t
    unfolding new_chain_def by (rule new_chain_from [OF key])
  have "\<exists>buf A' s'. encryptMessage P W IA data ?A1 = Inr (buf, A') \<and> doDecryptWhisperMessage P W (Inr IB) G buf ?B = Inr (data, s') \<and>
      (wire_sizes W \<longrightarrow> length buf < 2 ^ 32) \<and> buf \<noteq> []"
  proof (rule delivery_core [OF P, of ?A1 "new_chain key SENDING" key key 0 G ?B B1 "new_chain key RECEIVING" IB IA data])
    show "getChain (pubKey (ephemeralKeyPair (currentRatchet ?A1))) ?A1 = Some (new_chain key SENDING)"
      by (simp add: entry_of_agreement_def getChain_def)
    show "receivable (new_chain key RECEIVING) 0" by (simp add: receivable_def new_chain_def)
    show "sizes_ok ?A1 0 data" using data len by (simp add: sizes_ok_def entry_of_agreement_def)
  qed (use B1 len chain in \<open>simp_all add: entry_of_agreement_def new_chain_ok key\<close>)
  then show thesis
    using that initSession_initiator [OF hm dh kp(1-6) rk, of t1 r1]
      initSession_responder [OF hm dh kp(4,5,6,1,2), of t2 F2 r2] by metis
qed

end
