(* ===== verification/Instances.thy ===== *)
theory Instances
  imports Wire Curve
begin

text \<open>
  Concrete values for the two parameters of the model, so that the hypotheses \<open>wire_ok\<close> and
  \<open>prims_ok\<close> are known to be satisfiable and theorems that carry them can be applied to concrete
  inputs. \<open>varint_wire\<close> is the protobuf wire format (base-128 varints, length-delimited bytes).
  \<open>demo_prims\<close> has the algebra of the primitives and none of their strength: Diffie-Hellman is
  exclusive or, a MAC is a truncation, encryption only pads.
\<close>

section \<open>The protobuf wire format\<close>

fun leb :: "nat \<Rightarrow> bytes" where
  "leb n = (if n < 128 then [of_nat n] else of_nat (n mod 128 + 128) # leb (n div 128))"

declare leb.simps [simp del]

fun unleb :: "nat \<Rightarrow> bytes \<Rightarrow> error + (nat \<times> bytes)" where
  "unleb 0 bs = Inl (Error ''invalid varint encoding'')"
| "unleb (Suc k) [] = Inl (RangeError ''index out of range'')"
| "unleb (Suc k) (b # r) =
     (if unat b < 128 then Inr (unat b, r)
      else rbind (unleb k r) (\<lambda>(v, r'). Inr (unat b - 128 + 128 * v, r')))"

definition varint_r_uint32 :: "bytes \<Rightarrow> error + (nat \<times> bytes)" where
  "varint_r_uint32 bs = rbind (unleb 5 bs) (\<lambda>(v, r). Inr (v mod 2 ^ 32, r))"

definition varint_r_bytes :: "bytes \<Rightarrow> error + (bytes \<times> bytes)" where
  "varint_r_bytes bs = rbind (varint_r_uint32 bs) (\<lambda>(n, r).
     if length r < n then Inl (RangeError ''index out of range'') else Inr (take n r, drop n r))"

definition varint_r_skip :: "nat \<Rightarrow> bytes \<Rightarrow> error + bytes" where
  "varint_r_skip wt bs =
     (if wt = 0 then rbind (varint_r_uint32 bs) (\<lambda>(_, r). Inr r)
      else if wt = 1 \<and> 8 \<le> length bs then Inr (drop 8 bs)
      else if wt = 2 then rbind (varint_r_bytes bs) (\<lambda>(_, r). Inr r)
      else if wt = 5 \<and> 4 \<le> length bs then Inr (drop 4 bs)
      else Inl (Error ''invalid wire type''))"

definition varint_wire :: wire where
  "varint_wire =
     \<lparr>w_uint32 = (\<lambda>v. leb (nat (v mod 2 ^ 32))),
      w_bytes = (\<lambda>b. leb (length b) @ b),
      w_ldelim = (\<lambda>b. leb (length b) @ b),
      r_uint32 = varint_r_uint32,
      r_bytes = varint_r_bytes,
      r_skipType = varint_r_skip\<rparr>"

lemma unat_of_nat_byte: "n < 256 \<Longrightarrow> unat (of_nat n :: byte) = n"
  by (simp add: unat_of_nat)

lemma unleb_leb: "n < 128 ^ k \<Longrightarrow> 0 < k \<Longrightarrow> unleb k (leb n @ rest) = Inr (n, rest)"
proof (induction k arbitrary: n)
  case (Suc k)
  show ?case
  proof (cases "n < 128")
    case True
    then show ?thesis by (subst leb.simps) (simp add: unat_of_nat_byte)
  next
    case False
    with Suc.prems have "n div 128 < 128 ^ k" "0 < k"
      by (simp_all add: less_mult_imp_div_less mult.commute) (cases k; simp)
    from Suc.IH [OF this] have IH: "unleb k (leb (n div 128) @ rest) = Inr (n div 128, rest)" .
    have "unat (of_nat (n mod 128 + 128) :: byte) = n mod 128 + 128"
      by (rule unat_of_nat_byte) simp
    with False IH show ?thesis by (subst leb.simps) (simp add: mult.commute del: of_nat_add)
  qed
qed simp

lemma unleb_shorter: "unleb k bs = Inr (v, rest) \<Longrightarrow> length rest < length bs"
  by (induction k bs arbitrary: v rule: unleb.induct)
    (fastforce split: if_splits prod.splits simp: res_simps)+

lemma varint_written: "n < 2 ^ 32 \<Longrightarrow> varint_r_uint32 (leb n @ rest) = Inr (n, rest)"
  using unleb_leb [of n 5 rest] by (simp add: varint_r_uint32_def)

lemma varint_r_uint32_shorter: "varint_r_uint32 bs = Inr (v, rest) \<Longrightarrow> length rest < length bs \<and> v < 2 ^ 32"
  by (auto simp: varint_r_uint32_def res_simps split: prod.splits dest: unleb_shorter)

lemma varint_r_bytes_shorter:
  assumes "varint_r_bytes bs = Inr (b, rest)"
  shows "length rest \<le> length bs"
proof -
  obtain n r where r: "varint_r_uint32 bs = Inr (n, r)"
    and "(if length r < n then Inl (RangeError ''index out of range'') else Inr (take n r, drop n r)) = Inr (b, rest)"
    using assms unfolding varint_r_bytes_def by (auto simp: res_simps)
  then have "rest = drop n r" by (cases "length r < n") simp_all
  moreover have "length r < length bs" using varint_r_uint32_shorter [OF r] by simp
  ultimately show ?thesis by (simp add: le_diff_conv)
qed

lemma varint_r_skip_shorter: "varint_r_skip wt bs = Inr rest \<Longrightarrow> length rest \<le> length bs"
  by (auto simp: varint_r_skip_def res_simps split: prod.splits if_splits
      dest!: varint_r_uint32_shorter varint_r_bytes_shorter)

lemma varint_bytes_written: "length b < 2 ^ 32 \<Longrightarrow> varint_r_bytes (leb (length b) @ b @ rest) = Inr (b, rest)"
  by (simp add: varint_r_bytes_def varint_written)

theorem wire_ok_varint: "wire_ok varint_wire"
  unfolding wire_ok_def varint_wire_def wire.simps
  by (intro conjI allI impI)
    (auto simp: varint_written varint_bytes_written
      dest: varint_r_uint32_shorter varint_r_bytes_shorter varint_r_skip_shorter)

lemma length_leb: "n < 128 ^ k \<Longrightarrow> 0 < k \<Longrightarrow> length (leb n) \<le> k"
proof (induction k arbitrary: n)
  case (Suc k)
  show ?case
  proof (cases "n < 128")
    case True
    then show ?thesis by (subst leb.simps) simp
  next
    case False
    with Suc.prems have "n div 128 < 128 ^ k" "0 < k"
      by (simp_all add: less_mult_imp_div_less mult.commute) (cases k; simp)
    from Suc.IH [OF this] False show ?thesis by (subst leb.simps) simp
  qed
qed simp

lemma wire_sizes_varint: "wire_sizes varint_wire"
proof -
  have leb5: "length (leb n) \<le> 5" if "n < 2 ^ 32" for n using length_leb [of n 5] that by simp
  have "length (w_uint32 varint_wire v) \<le> 5" for v
    unfolding varint_wire_def wire.simps by (rule leb5) (simp add: nat_less_iff)
  moreover have "length b \<le> length (w_bytes varint_wire b) \<and> length (w_bytes varint_wire b) \<le> length b + 5" if "length b < 2 ^ 32" for b
    using leb5 [OF that] by (simp add: varint_wire_def)
  ultimately show ?thesis by (simp add: wire_sizes_def)
qed

section \<open>Primitives\<close>

definition demo_shared :: "bytes \<Rightarrow> bytes \<Rightarrow> bytes" where
  "demo_shared a b = 1 # tl (map2 (\<lambda>x y. x XOR y) a b)"

definition demo_pad :: "bytes \<Rightarrow> bytes" where
  "demo_pad d = d @ replicate (16 - length d mod 16) (of_nat (16 - length d mod 16))"

definition demo_unpad :: "bytes \<Rightarrow> error + bytes" where
  "demo_unpad ct = (if ct = [] then Inl (Error ''bad decrypt'') else Inr (take (length ct - unat (last ct)) ct))"

definition demo_mac :: "bytes \<Rightarrow> bytes \<Rightarrow> bytes" where
  "demo_mac k d = take 32 (rev d @ k @ replicate 32 0)"

definition demo_sig :: "bytes \<Rightarrow> bytes" where
  "demo_sig m = take 64 (m @ replicate 64 0)"

definition demo_prims :: prims where
  "demo_prims =
     \<lparr>hmac_sha256 = demo_mac,
      sha512 = demo_sig,
      aes256_cbc_encrypt = (\<lambda>k iv d. Inr (demo_pad d)),
      aes256_cbc_decrypt = (\<lambda>k iv ct. demo_unpad ct),
      has_diffieHellman = True,
      node_diffieHellman = (\<lambda>a b. Inr (demo_shared (drop 16 a) (drop 12 b))),
      curvejs_sharedKey = demo_shared,
      curvejs_sign = (\<lambda>a m. demo_sig m),
      curvejs_verify = (\<lambda>p m sig. sig = demo_sig m),
      curvejs_generateKeyPair = (\<lambda>seed. (seed, seed)),
      x25519_public = (\<lambda>a. a)\<rparr>"

lemma demo_shared_comm: "demo_shared a b = demo_shared b a"
proof -
  have "map2 (\<lambda>x y. x XOR y) a b = map2 (\<lambda>x y. x XOR y) b a"
    by (induction a b rule: list_induct2') (simp_all add: ac_simps)
  then show ?thesis by (simp add: demo_shared_def)
qed

lemma demo_unpad_pad: "demo_unpad (demo_pad d) = Inr d"
proof -
  define p where "p = 16 - length d mod 16"
  have p: "0 < p" "p \<le> 16" using mod_less_divisor [of 16 "length d"] by (simp_all add: p_def)
  then have "unat (of_nat p :: byte) = p" by (intro unat_of_nat_byte) simp
  with p show ?thesis by (simp add: demo_unpad_def demo_pad_def flip: p_def)
qed

lemma demo_pad_length: "length (demo_pad d) = 16 * (length d div 16 + 1)"
proof -
  have "length (demo_pad d) = length d + (16 - length d mod 16)" by (simp add: demo_pad_def)
  then show ?thesis by presburger
qed

lemma demo_lengths: "length (demo_mac k d) = 32" "length (demo_sig m) = 64"
  by (auto simp: demo_mac_def demo_sig_def min_def)

lemma demo_dh_ok: "dh_ok demo_prims"
proof -
  have "\<exists>s. length s = 32 \<and> (\<exists>x\<in>set s. x \<noteq> 0) \<and> demo_shared a b = s \<and> demo_shared b a = s"
    if "length a = 32" "length b = 32" for a b
    using that demo_shared_comm [of a b] by (intro exI [of _ "demo_shared a b"]) (simp add: demo_shared_def)
  then show ?thesis
    by (auto simp: dh_ok_def demo_prims_def PRIVATE_KEY_DER_PREFIX_def PUBLIC_KEY_DER_PREFIX_def)
qed

theorem prims_ok_demo: "prims_ok demo_prims"
  using demo_dh_ok demo_unpad_pad demo_pad_length
  by (simp add: prims_ok_def hmac_ok_def hash_ok_def aes_ok_def sign_ok_def)
    (simp add: demo_prims_def demo_lengths)

text \<open>Key pairs of the instance, numbered.\<close>

definition demo_key :: "nat \<Rightarrow> key_pair" where
  "demo_key n = \<lparr>pubKey = 5 # replicate 32 (of_nat n), privKey = replicate 32 (of_nat n)\<rparr>"

lemma demo_key_pair: "is_key_pair demo_prims (demo_key n)"
  by (simp add: is_key_pair_def demo_key_def demo_prims_def)

lemma demo_key_simps [simp]:
  "pubKey (demo_key m) = pubKey (demo_key n) \<longleftrightarrow> (of_nat m :: byte) = of_nat n"
  "length (pubKey (demo_key n)) = 33" "length (privKey (demo_key n)) = 32"
  by (simp_all add: demo_key_def)

end
