(* ===== verification/Session_Properties.thy ===== *)
theory Session_Properties
  imports Delivery Instances
begin

text \<open>
  The properties of the pairwise protocol: key agreement, the symmetric and the Diffie-Hellman
  ratchet, message delivery, replay, the bounds on the session state, and the serialized form.
  Each property with hypotheses is followed by an instance on concrete keys.
\<close>

lemmas demo_facts = prims_ok_demo wire_ok_varint demo_key_pair prims_okD [OF prims_ok_demo]

section \<open>A concrete exchange\<close>

text \<open>
  A concrete exchange: the two ends of a chain that started from 32 ones, with the sender two
  messages ahead.
\<close>

definition demo_entry :: "nat \<Rightarrow> nat \<Rightarrow> chain \<Rightarrow> session_entry" where
  "demo_entry eph remote c = entry_of_agreement (Some 1)
     \<lparr>ephemeralKeyPair = demo_key eph, lastRemoteEphemeralKey = pubKey (demo_key 9), previousCounter = 0,
      rootKey = replicate 32 1\<rparr> 5 (pubKey (demo_key 8)) THEIRS (pubKey (demo_key remote))
     [(b64_encode (pubKey (demo_key 3)), c)]"

definition demo_chain :: "chain_type \<Rightarrow> chain" where
  "demo_chain t = advance demo_prims (replicate 32 1) 2 (new_chain (replicate 32 1) t)"

definition demo_sender :: session_entry where
  "demo_sender = demo_entry 3 2 (demo_chain SENDING)"

definition demo_receiver :: session_entry where
  "demo_receiver = demo_entry 4 1 (new_chain (replicate 32 1) RECEIVING)"

lemma demo_chain_from: "chain_from demo_prims (replicate 32 1) (new_chain (replicate 32 1) t)"
  unfolding new_chain_def by (rule new_chain_from) simp

lemma demo_setting:
  "getChain (pubKey (demo_key 3)) demo_sender = Some (demo_chain SENDING)"
  "pubKey (demo_key 3) = pubKey (ephemeralKeyPair (currentRatchet demo_sender))"
  "chainType (demo_chain SENDING) = SENDING"
  "chain_from demo_prims (replicate 32 1) (demo_chain SENDING)"
  "ck_key (chainKey (demo_chain SENDING)) = Some (chain_key_at demo_prims (replicate 32 1) 2)"
  "getChain (pubKey (demo_key 3)) demo_receiver = Some (new_chain (replicate 32 1) RECEIVING)"
  "chainType (new_chain (replicate 32 1) RECEIVING) = RECEIVING"
  "chain_from demo_prims (replicate 32 1) (new_chain (replicate 32 1) RECEIVING)"
  "receivable (new_chain (replicate 32 1) RECEIVING) (ck_counter (chainKey (demo_chain SENDING)) + 1)"
  "remoteIdentityKey (indexInfo demo_sender) = pubKey (demo_key 2)"
  "remoteIdentityKey (indexInfo demo_receiver) = pubKey (demo_key 1)"
  "length (pubKey (demo_key 1)) = 33" "length (pubKey (demo_key 2)) = 33"
  "sizes_ok demo_sender (ck_counter (chainKey (demo_chain SENDING)) + 1) [1, 2, 3]"
proof -
  show "chain_from demo_prims (replicate 32 1) (demo_chain SENDING)"
    unfolding demo_chain_def
    by (rule advance_from [OF prims_okD(1) [OF prims_ok_demo] demo_chain_from]) (simp add: new_chain_ok)
  show "chain_from demo_prims (replicate 32 1) (new_chain (replicate 32 1) RECEIVING)" by (rule demo_chain_from)
qed (simp_all add: demo_sender_def demo_receiver_def demo_chain_def demo_entry_def entry_of_agreement_def getChain_def
      advance_def new_chain_def receivable_def sizes_ok_def)

lemma demo_exchange:
  obtains buf A' B' where "encryptMessage demo_prims varint_wire (demo_key 1) [1, 2, 3] demo_sender = Inr (buf, A')"
    "doDecryptWhisperMessage demo_prims varint_wire (Inr (demo_key 2)) (demo_key 7) buf demo_receiver = Inr ([1, 2, 3], B')"
proof -
  have "maybeStepRatchet demo_prims (demo_key 7) demo_receiver (pubKey (demo_key 3))
      (previousCounter (currentRatchet demo_sender)) = Inr demo_receiver"
    using demo_setting(6) by (simp add: maybeStepRatchet_def)
  then show thesis
    by (rule delivery_core [OF prims_ok_demo wire_ok_varint demo_setting(1) [unfolded demo_setting(2)]
        demo_setting(3-5) refl _ demo_setting(6) [unfolded demo_setting(2)] _ demo_setting(8-14), unfolded demo_setting(2) [symmetric]])
      (use demo_setting(7) that in auto)
qed

section \<open>Sessions and messages\<close>

text \<open>C20: X3DH and the first message. The initiator builds a session from the responder's bundle
  (identity, signed prekey, optional one-time prekey) and encrypts; the responder builds a session
  from the keys in the message header with its own private keys and decrypts the plaintext.\<close>

theorem first_message_delivered:
  assumes "prims_ok P" "wire_ok W"
    and "is_key_pair P IA" "is_key_pair P E" "is_key_pair P F" "is_key_pair P IB" "is_key_pair P SB"
      "\<And>x. OB = Some x \<Longrightarrow> is_key_pair P x" "is_key_pair P G"
    and "pubKey F \<noteq> pubKey SB" "pubKey G \<noteq> pubKey F" "length data < 2 ^ 31"
  shows "\<exists>sA sB buf sA' sB'.
    initSession P t1 F IA True (Some E) None (pubKey IB) (map_option pubKey OB) (Some (pubKey SB)) r1 = Inr sA \<and>
    initSession P t2 F2 IB False OB (Some SB) (pubKey IA) (Some (pubKey E)) None r2 = Inr sB \<and>
    encryptMessage P W IA data (sA\<lparr>pendingPreKey := pend\<rparr>) = Inr (buf, sA') \<and>
    doDecryptWhisperMessage P W (Inr IB) G buf sB = Inr (data, sB')"
  by (rule first_message_core [OF assms(1-7) _ assms(9-12), of OB t1 r1 t2 F2 r2 pend]) (use assms(8) in blast)+

theorem first_message_delivered_witness:
  "\<exists>sA sB buf sA' sB'.
    initSession demo_prims 7 (demo_key 3) (demo_key 1) True (Some (demo_key 2)) None (pubKey (demo_key 4))
      (Some (pubKey (demo_key 6))) (Some (pubKey (demo_key 5))) (Some 42) = Inr sA \<and>
    initSession demo_prims 8 (demo_key 0) (demo_key 4) False (Some (demo_key 6)) (Some (demo_key 5))
      (pubKey (demo_key 1)) (Some (pubKey (demo_key 2))) None (Some 42) = Inr sB \<and>
    encryptMessage demo_prims varint_wire (demo_key 1) [1, 2, 3] (sA\<lparr>pendingPreKey := None\<rparr>) = Inr (buf, sA') \<and>
    doDecryptWhisperMessage demo_prims varint_wire (Inr (demo_key 4)) (demo_key 7) buf sB = Inr ([1, 2, 3], sB')"
  using first_message_delivered [of demo_prims varint_wire "demo_key 1" "demo_key 2" "demo_key 3" "demo_key 4"
      "demo_key 5" "Some (demo_key 6)" "demo_key 7" "[1, 2, 3]" 7 "Some 42" 8 "demo_key 0" "Some 42" None] demo_facts
  by simp

text \<open>C6: Message delivery. Let the sender's sending chain and the receiver's receiving chain for the
  same ratchet key have started from the same chain key. Then whatever the sender encrypts next
  decrypts to its plaintext at the receiver, whether the message arrives in order, ahead of up to
  2000 others, or late while its skipped key is still stored.\<close>

theorem message_delivered:
  assumes "prims_ok P" "wire_ok W"
    and "getChain eph A = Some cA" "eph = pubKey (ephemeralKeyPair (currentRatchet A))"
      "chainType cA = SENDING" "chain_from P k cA" "ck_key (chainKey cA) = Some key"
    and "getChain eph B = Some cB" "chainType cB = RECEIVING" "chain_from P k cB"
      "receivable cB (ck_counter (chainKey cA) + 1)"
    and "remoteIdentityKey (indexInfo A) = pubKey IB" "remoteIdentityKey (indexInfo B) = pubKey IA"
      "length (pubKey IA) = 33" "length (pubKey IB) = 33"
      "sizes_ok A (ck_counter (chainKey cA) + 1) data"
  shows "\<exists>buf A' B'. encryptMessage P W IA data A = Inr (buf, A') \<and>
     doDecryptWhisperMessage P W (Inr IB) fresh buf B = Inr (data, B')"
proof -
  have "maybeStepRatchet P fresh B eph (previousCounter (currentRatchet A)) = Inr B"
    using assms(8) by (simp add: maybeStepRatchet_def)
  then show ?thesis
    using delivery_core [OF assms(1,2), of A cA k key _ fresh B B cB IB IA data] assms(3-) by (metis chain_type.distinct(1))
qed

theorem message_delivered_witness:
  "\<exists>buf A' B'.
    encryptMessage demo_prims varint_wire (demo_key 1) [1, 2, 3] demo_sender = Inr (buf, A') \<and>
    doDecryptWhisperMessage demo_prims varint_wire (Inr (demo_key 2)) (demo_key 7) buf demo_receiver = Inr ([1, 2, 3], B')"
  by (rule message_delivered [OF prims_ok_demo wire_ok_varint demo_setting])

text \<open>C7: No message is decrypted twice. After a session has decrypted a message, the same bytes are
  refused by the resulting session with a \<open>MessageCounterError\<close>, whatever key pair is generated.\<close>

theorem replay_rejected:
  assumes "hmac_ok P" "entry_ok s" "doDecryptWhisperMessage P W (Inr our) fresh buf s = Inr (pt, s')"
  shows "doDecryptWhisperMessage P W our' fresh' buf s' = Inl (MessageCounterError ''Key used already or never filled'')"
  by (rule replay_core [OF assms])

lemma demo_receiver_ok: "entry_ok demo_receiver"
  using demo_chain_from [of RECEIVING]
  by (simp add: demo_receiver_def demo_entry_def entry_of_agreement_def entry_ok_def entry_wf_def receiving_ids_def
      chain_from_def new_chain_ok MAX_RECEIVER_CHAINS_def)

theorem replay_rejected_witness:
  "\<exists>buf s'. doDecryptWhisperMessage demo_prims varint_wire (Inr (demo_key 2)) (demo_key 7) buf demo_receiver = Inr ([1, 2, 3], s') \<and>
     doDecryptWhisperMessage demo_prims varint_wire (Inr (demo_key 2)) (demo_key 0) buf s' =
       Inl (MessageCounterError ''Key used already or never filled'')"
proof (rule demo_exchange)
  fix buf A' s'
  assume dec: "doDecryptWhisperMessage demo_prims varint_wire (Inr (demo_key 2)) (demo_key 7) buf demo_receiver = Inr ([1, 2, 3], s')"
  from replay_rejected [OF prims_okD(1) [OF prims_ok_demo] demo_receiver_ok dec, of "Inr (demo_key 2)" "demo_key 0"] dec
  show ?thesis by blast
qed

text \<open>C8: Only authentic messages decrypt. If a session returns a plaintext, the message decodes, its last 8
  bytes are the truncated HMAC over both identity keys, the version byte and the message, under keys
  derived from the chain's key for the message's counter, and the plaintext is what AES gives.\<close>

theorem decrypt_authentic:
  assumes "hmac_ok P" "length (pubKey our) = 33" "length (remoteIdentityKey (indexInfo s)) = 33" "entry_ok s"
    and "doDecryptWhisperMessage P W (Inr our) fresh buf s = Inr (pt, s')"
  shows "\<exists>m mk s1 s2. WhisperMessage_decode W (take (length buf - 9) (drop 1 buf)) = Inr m \<and>
     maybeStepRatchet P fresh s (wm_key m) (wm_previous m) = Inr s1 \<and>
     takeMessageKey P s1 (wm_key m) (wm_count m) = Inr (mk, s2) \<and>
     drop (length buf - 8) buf =
       message_mac P (message_keys P mk ! 1) (remoteIdentityKey (indexInfo s)) (pubKey our)
         (take (length buf - 9) (drop 1 buf)) \<and>
     crypto_decrypt P (message_keys P mk ! 0) (wm_body m) (take 16 (message_keys P mk ! 2)) = Inr pt"
proof -
  from assms(5) obtain m s1 mk s2 mac where
    parts: "WhisperMessage_decode W (take (length buf - 9) (drop 1 buf)) = Inr m"
      "maybeStepRatchet P fresh s (wm_key m) (wm_previous m) = Inr s1"
      "takeMessageKey P s1 (wm_key m) (wm_count m) = Inr (mk, s2)"
      "mac_input (remoteIdentityKey (indexInfo s2)) (pubKey our) (take (length buf - 9) (drop 1 buf)) = Inr mac"
      "verifyMAC P mac (message_keys P mk ! 1) (drop (length buf - 8) buf) 8 = Inr ()"
      "crypto_decrypt P (message_keys P mk ! 0) (wm_body m) (take 16 (message_keys P mk ! 2)) = Inr pt"
    unfolding doDecrypt_Inr [OF assms(1)] by blast
  note r1 = maybeStepRatchet_ok [OF assms(1,4) parts(2)]
  have "indexInfo s2 = indexInfo s"
    using r1(2) takeMessageKey_ok(2) [OF assms(1) r1(1) parts(3)] by (simp add: same_session_def)
  then show ?thesis
    using parts assms(1-3) by (auto simp: mac_input_eq verifyMAC_iff message_mac_def)
qed

theorem decrypt_authentic_witness:
  "\<exists>buf m mk. drop (length buf - 8) buf = message_mac demo_prims (message_keys demo_prims mk ! 1) (pubKey (demo_key 1))
       (pubKey (demo_key 2)) (take (length buf - 9) (drop 1 buf)) \<and>
     crypto_decrypt demo_prims (message_keys demo_prims mk ! 0) (wm_body m) (take 16 (message_keys demo_prims mk ! 2)) = Inr [1, 2, 3]"
proof (rule demo_exchange)
  fix buf A' s'
  assume dec: "doDecryptWhisperMessage demo_prims varint_wire (Inr (demo_key 2)) (demo_key 7) buf demo_receiver = Inr ([1, 2, 3], s')"
  have "length (remoteIdentityKey (indexInfo demo_receiver)) = 33" using demo_setting(11,12) by simp
  from decrypt_authentic [OF prims_okD(1) [OF prims_ok_demo] demo_setting(13) this demo_receiver_ok dec]
  show ?thesis unfolding demo_setting(11) by blast
qed

section \<open>The ratchets\<close>

text \<open>C21: \<open>fillMessageKeys\<close> computes the specified chain. On a chain started from \<open>k\<close> it changes nothing
  for a counter already reached, refuses a counter more than 2000 ahead or a closed chain, and
  otherwise ends at the counter with the specified chain key and message key, holding only keys of
  that chain and at most 2000 of them.\<close>

theorem fillMessageKeys_correct:
  assumes "hmac_ok P" "chain_from P k c"
  shows "if counter \<le> ck_counter (chainKey c) then fillMessageKeys P c counter = Inr c
     else if counter - ck_counter (chainKey c) > 2000
       then fillMessageKeys P c counter = Inl (SessionError ''Over 2000 messages into the future!'')
     else if ck_key (chainKey c) = None then fillMessageKeys P c counter = Inl (SessionError ''Chain closed'')
     else \<exists>c'. fillMessageKeys P c counter = Inr c' \<and> ck_counter (chainKey c') = counter \<and>
       ck_key (chainKey c') = Some (chain_key_at P k (nat (counter + 1))) \<and>
       obj_get (messageKeys c') (nat counter) = Some (message_key_at P k (nat counter)) \<and>
       chain_from P k c' \<and> length (messageKeys c') \<le> 2000"
proof -
  have wf: "chain_wf c" using assms(2) by (simp add: chain_from_def)
  show ?thesis
    using assms(1) wf
  proof (cases rule: fillMessageKeys_cases [where counter = counter])
    case (extend key m)
    then have new: "ck_counter (chainKey c) < counter" "counter - ck_counter (chainKey c) \<le> 2000" by simp_all
    obtain c' where c': "fillMessageKeys P c counter = Inr c'" "chain_from P k c'" "ck_counter (chainKey c') = counter"
        "obj_get (messageKeys c') (nat counter) = Some (message_key_at P k (nat counter))"
        "ck_key (chainKey c') = Some (chain_key_at P k (nat (counter + 1)))"
      by (rule fill_new_key [OF assms extend(1) new])
    have "length (messageKeys c') \<le> 2000"
      using extend(5) c'(1) prune_bound [OF advance_wf [OF assms(1) wf extend(1)], of m] by (auto simp: MAX_MESSAGE_KEYS_def)
    with c' new extend(1) show ?thesis by simp
  qed simp_all
qed

theorem fillMessageKeys_correct_witness:
  "\<exists>c'. fillMessageKeys demo_prims (new_chain (replicate 32 1) RECEIVING) 3 = Inr c' \<and>
     obj_get (messageKeys c') 3 = Some (message_key_at demo_prims (replicate 32 1) 3)"
  using fillMessageKeys_correct [OF prims_okD(1) [OF prims_ok_demo] demo_chain_from [of RECEIVING], of 3]
  by (auto simp: new_chain_def)

text \<open>C22: One Diffie-Hellman ratchet step on the sending side and one on the receiving side, from the same
  root key, give both sides the same new root key and the same chain key.\<close>

theorem ratchet_step_agrees:
  assumes "hmac_ok P" "dh_ok P"
    and "is_key_pair P (ephemeralKeyPair (currentRatchet A))" "is_key_pair P (ephemeralKeyPair (currentRatchet B))"
    and "rootKey (currentRatchet A) = rootKey (currentRatchet B)" "length (rootKey (currentRatchet A)) = 32"
    and "getChain (pubKey (ephemeralKeyPair (currentRatchet A))) A = None"
      "getChain (pubKey (ephemeralKeyPair (currentRatchet A))) B = None"
  shows "\<exists>A' B' key. calculateRatchet P A (pubKey (ephemeralKeyPair (currentRatchet B))) True = Inr A' \<and>
     calculateRatchet P B (pubKey (ephemeralKeyPair (currentRatchet A))) False = Inr B' \<and>
     rootKey (currentRatchet A') = rootKey (currentRatchet B') \<and>
     getChain (pubKey (ephemeralKeyPair (currentRatchet A))) A' = Some (new_chain key SENDING) \<and>
     getChain (pubKey (ephemeralKeyPair (currentRatchet A))) B' = Some (new_chain key RECEIVING)"
proof -
  let ?a = "ephemeralKeyPair (currentRatchet A)" and ?b = "ephemeralKeyPair (currentRatchet B)"
  obtain root key where rk: "kdf_rk P (rootKey (currentRatchet A)) (dh P ?a ?b) = (root, key)" by fastforce
  then have rk': "kdf_rk P (rootKey (currentRatchet B)) (dh P ?b ?a) = (root, key)"
    using assms(5) dh_agree(2) [OF assms(2-4)] by simp
  have "calculateRatchet P A (pubKey ?b) True = Inr (set_root root (putChain (pubKey ?a) (new_chain key SENDING) A))"
    using calculateRatchet_eq [OF assms(1-4,6) rk, of "pubKey ?a" True] assms(7) by simp
  moreover have "calculateRatchet P B (pubKey ?a) False = Inr (set_root root (putChain (pubKey ?a) (new_chain key RECEIVING) B))"
    using calculateRatchet_eq [OF assms(1,2,4,3) _ rk', of "pubKey ?a" False] assms(5,6,8) by simp
  ultimately show ?thesis by (auto simp: set_root_def getChain_put intro!: exI [of _ key])
qed

theorem ratchet_step_agrees_witness:
  "\<exists>A' B' key. calculateRatchet demo_prims (demo_entry 5 2 (new_chain [1] RECEIVING)) (pubKey (demo_key 6)) True = Inr A' \<and>
     calculateRatchet demo_prims (demo_entry 6 1 (new_chain [1] SENDING)) (pubKey (demo_key 5)) False = Inr B' \<and>
     getChain (pubKey (demo_key 5)) A' = Some (new_chain key SENDING) \<and>
     getChain (pubKey (demo_key 5)) B' = Some (new_chain key RECEIVING)"
proof -
  have f: "ephemeralKeyPair (currentRatchet (demo_entry e r c)) = demo_key e"
    "rootKey (currentRatchet (demo_entry e r c)) = replicate 32 1"
    "getChain (pubKey (demo_key 5)) (demo_entry e r c) = None" for e r c
    by (simp_all add: demo_entry_def entry_of_agreement_def getChain_def)
  show ?thesis
    using ratchet_step_agrees [OF prims_okD(1,4) [OF prims_ok_demo], of "demo_entry 5 2 (new_chain [1] RECEIVING)"
        "demo_entry 6 1 (new_chain [1] SENDING)"] demo_key_pair
    by (auto simp: f)
qed

section \<open>Bounds on the state\<close>

text \<open>C23: Encrypting and decrypting keep the session's invariant: at most 2000 stored message keys per
  chain, at most 5 receiving chains, counters and keys well formed; they never change the peer's
  identity or the session's place in the record.\<close>

theorem session_invariant:
  assumes "hmac_ok P" "entry_ok s"
  shows "(encryptMessage P W our data s = Inr (buf, s') \<longrightarrow> entry_ok s' \<and> indexInfo s' = indexInfo s) \<and>
    (doDecryptWhisperMessage P W oid fresh msg s = Inr (pt, s'') \<longrightarrow>
       entry_ok s'' \<and> indexInfo s'' = indexInfo s \<and> pendingPreKey s'' = None)"
  using encryptMessage_ok [OF assms, of W our data buf s'] doDecrypt_ok [OF assms, of W oid fresh msg pt s'']
  by (simp add: same_session_def)

theorem session_invariant_witness:
  "\<exists>buf s''. doDecryptWhisperMessage demo_prims varint_wire (Inr (demo_key 2)) (demo_key 7) buf demo_receiver =
       Inr ([1, 2, 3], s'') \<and> entry_ok s''"
proof (rule demo_exchange)
  fix buf A' s''
  assume "doDecryptWhisperMessage demo_prims varint_wire (Inr (demo_key 2)) (demo_key 7) buf demo_receiver = Inr ([1, 2, 3], s'')"
  then show ?thesis
    using session_invariant [OF prims_okD(1) [OF prims_ok_demo] demo_receiver_ok] by blast
qed

text \<open>\<open>removeOldReceiverChains\<close> keeps the newest receiving chains, at most the given number, and every
  sending chain.\<close>

theorem removeOldReceiverChains_correct:
  assumes "obj_wf (chains e)"
  shows "receiving_ids (removeOldReceiverChains mx e) = drop (length (receiving_ids e) - mx) (receiving_ids e) \<and>
    length (receiving_ids (removeOldReceiverChains mx e)) \<le> mx \<and>
    (getChain k e = Some c \<longrightarrow> chainType c = SENDING \<longrightarrow> getChain k (removeOldReceiverChains mx e) = Some c)"
proof (intro conjI impI)
  show "receiving_ids (removeOldReceiverChains mx e) = drop (length (receiving_ids e) - mx) (receiving_ids e)"
    by (rule removeOld_receiving [OF assms])
  show "length (receiving_ids (removeOldReceiverChains mx e)) \<le> mx" by (rule removeOld_length [OF assms])
  assume c: "getChain k e = Some c" "chainType c = SENDING"
  then have "b64_encode k \<notin> set (receiving_ids e)" using receiving_ids_in [OF c(1) assms] by simp
  then show "getChain k (removeOldReceiverChains mx e) = Some c"
    using c(1) by (auto simp: getChain_removeOld dest: in_set_takeD)
qed

theorem removeOldReceiverChains_correct_witness:
  "receiving_ids (removeOldReceiverChains 1 (demo_receiver\<lparr>chains :=
     [(''a'', new_chain [1] RECEIVING), (''b'', new_chain [2] SENDING), (''c'', new_chain [3] RECEIVING)]\<rparr>)) = [''c'']"
  using removeOldReceiverChains_correct [of "demo_receiver\<lparr>chains :=
     [(''a'', new_chain [1] RECEIVING), (''b'', new_chain [2] SENDING), (''c'', new_chain [3] RECEIVING)]\<rparr>" 1]
  by (simp add: receiving_ids_def new_chain_ok)



text \<open>C28: A well-formed record is given back by \<open>deserialize\<close> after \<open>serialize\<close>, with every session, chain,
  skipped key, closed chain, pending prekey and flag.\<close>

theorem record_serialization:
  assumes "record_wf r"
  shows "SessionRecord_deserialize (SessionRecord_serialize r) = Inr r"
  by (rule record_roundtrip [OF assms])

theorem record_serialization_witness:
  "SessionRecord_deserialize (SessionRecord_serialize
     \<lparr>sessions = [(b64_encode (pubKey (demo_key 8)), demo_receiver)], version = ''v1''\<rparr>) =
   Inr \<lparr>sessions = [(b64_encode (pubKey (demo_key 8)), demo_receiver)], version = ''v1''\<rparr>"
  by (rule record_serialization)
    (use demo_receiver_ok in \<open>simp add: record_wf_def entry_ok_def SESSION_RECORD_VERSION_def demo_receiver_def
      demo_entry_def entry_of_agreement_def, simp add: demo_key_def\<close>)

end
