(* ===== verification/Group_Proto.thy ===== *)
theory Group_Proto
  imports Wire
begin

text \<open>
  \<open>src/group-proto.ts\<close>: the two protobuf messages of group messaging. Numbers are always
  written, byte fields only when they are not empty; a field that is absent decodes to \<open>0\<close> or to
  the empty buffer.
\<close>

definition nonempty :: "bytes \<Rightarrow> bytes option" where
  "nonempty b = (if length b \<noteq> 0 then Some b else None)"

definition fits_b :: "bytes \<Rightarrow> bool" where
  "fits_b b \<longleftrightarrow> length b < 2 ^ 32"

lemma nonempty_fits [simp]: "fits_b b \<Longrightarrow> len32_opt (nonempty b)"
  by (simp add: nonempty_def len32_opt_def fits_b_def)

lemma nat_fits [simp]: "n < 2 ^ 32 \<Longrightarrow> u32_opt (Some (int n))"
  by (simp add: u32_opt_def)

section \<open>SenderKeyMessageProto\<close>

record sender_key_message_proto =
  skm_id :: nat
  skm_iteration :: nat
  skm_ciphertext :: bytes

definition SenderKeyMessageProto_create :: "nat option \<Rightarrow> nat option \<Rightarrow> bytes option \<Rightarrow> sender_key_message_proto" where
  "SenderKeyMessageProto_create keyId iteration ciphertext =
     \<lparr>skm_id = case_option 0 id keyId, skm_iteration = case_option 0 id iteration,
      skm_ciphertext = case_option [] id ciphertext\<rparr>"

lemma SenderKeyMessageProto_create_all [simp]:
  "SenderKeyMessageProto_create (Some i) (Some n) (Some c) = \<lparr>skm_id = i, skm_iteration = n, skm_ciphertext = c\<rparr>"
  by (simp add: SenderKeyMessageProto_create_def)

definition SenderKeyMessageProto_encode :: "wire \<Rightarrow> sender_key_message_proto \<Rightarrow> bytes" where
  "SenderKeyMessageProto_encode W m =
     put_u W 8 (Some (int (skm_id m))) @
     put_u W 16 (Some (int (skm_iteration m))) @
     put_b W 26 (nonempty (skm_ciphertext m))"

definition SenderKeyMessageProto_step :: "wire \<Rightarrow> sender_key_message_proto step" where
  "SenderKeyMessageProto_step W field wt m bs =
     (if field = 1 then read_u W bs (\<lambda>v. m\<lparr>skm_id := v\<rparr>)
      else if field = 2 then read_u W bs (\<lambda>v. m\<lparr>skm_iteration := v\<rparr>)
      else if field = 3 then read_b W bs (\<lambda>b. m\<lparr>skm_ciphertext := b\<rparr>)
      else read_skip W wt bs m)"

definition SenderKeyMessageProto_decode :: "wire \<Rightarrow> bytes \<Rightarrow> error + sender_key_message_proto" where
  "SenderKeyMessageProto_decode W bs =
     rbind (run_fields W (SenderKeyMessageProto_step W) 0
              \<lparr>skm_id = 0, skm_iteration = 0, skm_ciphertext = []\<rparr> bs) (\<lambda>(m, _). Inr m)"

definition skm_fits :: "sender_key_message_proto \<Rightarrow> bool" where
  "skm_fits m \<longleftrightarrow> skm_id m < 2 ^ 32 \<and> skm_iteration m < 2 ^ 32 \<and> fits_b (skm_ciphertext m)"

lemma SenderKeyMessageProto_step_ok: "wire_ok W \<Longrightarrow> step_ok (SenderKeyMessageProto_step W)"
  unfolding step_ok_def SenderKeyMessageProto_step_def by (auto split: if_splits dest: read_ok)

lemma SenderKeyMessageProto_decode_encode:
  assumes "wire_ok W" "skm_fits m"
  shows "SenderKeyMessageProto_decode W (SenderKeyMessageProto_encode W m) = Inr m"
proof -
  note ok = assms(1) SenderKeyMessageProto_step_ok [OF assms(1)]
  have "run_fields W (SenderKeyMessageProto_step W) (int (length ([] :: bytes)))
      \<lparr>skm_id = 0, skm_iteration = 0, skm_ciphertext = []\<rparr> (SenderKeyMessageProto_encode W m @ []) =
    run_fields W (SenderKeyMessageProto_step W) (int (length ([] :: bytes))) m []"
    using assms(2) unfolding SenderKeyMessageProto_encode_def append_assoc skm_fits_def
    by (subst run_put_u [OF ok], simp_all del: append_Nil2 add: SenderKeyMessageProto_step_def,
        subst run_put_u [OF ok], simp_all del: append_Nil2 add: SenderKeyMessageProto_step_def,
        subst run_put_b [OF ok], simp_all del: append_Nil2 add: SenderKeyMessageProto_step_def)
      (cases m; auto simp: nonempty_def)
  then show ?thesis using run_end [OF ok, of "[]" m] by (simp add: SenderKeyMessageProto_decode_def)
qed

section \<open>SenderKeyDistributionMessageProto\<close>

record sender_key_distribution_proto =
  skd_id :: nat
  skd_iteration :: nat
  skd_chainKey :: bytes
  skd_signingKey :: bytes

definition SenderKeyDistributionMessageProto_create ::
  "nat option \<Rightarrow> nat option \<Rightarrow> bytes option \<Rightarrow> bytes option \<Rightarrow> sender_key_distribution_proto" where
  "SenderKeyDistributionMessageProto_create keyId iteration chainKey signingKey =
     \<lparr>skd_id = case_option 0 id keyId, skd_iteration = case_option 0 id iteration,
      skd_chainKey = case_option [] id chainKey, skd_signingKey = case_option [] id signingKey\<rparr>"

lemma SenderKeyDistributionMessageProto_create_all [simp]:
  "SenderKeyDistributionMessageProto_create (Some i) (Some n) (Some k) (Some s) =
     \<lparr>skd_id = i, skd_iteration = n, skd_chainKey = k, skd_signingKey = s\<rparr>"
  by (simp add: SenderKeyDistributionMessageProto_create_def)

definition SenderKeyDistributionMessageProto_encode :: "wire \<Rightarrow> sender_key_distribution_proto \<Rightarrow> bytes" where
  "SenderKeyDistributionMessageProto_encode W m =
     put_u W 8 (Some (int (skd_id m))) @
     put_u W 16 (Some (int (skd_iteration m))) @
     put_b W 26 (nonempty (skd_chainKey m)) @
     put_b W 34 (nonempty (skd_signingKey m))"

definition SenderKeyDistributionMessageProto_step :: "wire \<Rightarrow> sender_key_distribution_proto step" where
  "SenderKeyDistributionMessageProto_step W field wt m bs =
     (if field = 1 then read_u W bs (\<lambda>v. m\<lparr>skd_id := v\<rparr>)
      else if field = 2 then read_u W bs (\<lambda>v. m\<lparr>skd_iteration := v\<rparr>)
      else if field = 3 then read_b W bs (\<lambda>b. m\<lparr>skd_chainKey := b\<rparr>)
      else if field = 4 then read_b W bs (\<lambda>b. m\<lparr>skd_signingKey := b\<rparr>)
      else read_skip W wt bs m)"

definition SenderKeyDistributionMessageProto_decode :: "wire \<Rightarrow> bytes \<Rightarrow> error + sender_key_distribution_proto" where
  "SenderKeyDistributionMessageProto_decode W bs =
     rbind (run_fields W (SenderKeyDistributionMessageProto_step W) 0
              \<lparr>skd_id = 0, skd_iteration = 0, skd_chainKey = [], skd_signingKey = []\<rparr> bs) (\<lambda>(m, _). Inr m)"

definition skd_fits :: "sender_key_distribution_proto \<Rightarrow> bool" where
  "skd_fits m \<longleftrightarrow> skd_id m < 2 ^ 32 \<and> skd_iteration m < 2 ^ 32 \<and>
     fits_b (skd_chainKey m) \<and> fits_b (skd_signingKey m)"

lemma SenderKeyDistributionMessageProto_step_ok: "wire_ok W \<Longrightarrow> step_ok (SenderKeyDistributionMessageProto_step W)"
  unfolding step_ok_def SenderKeyDistributionMessageProto_step_def by (auto split: if_splits dest: read_ok)

lemma SenderKeyDistributionMessageProto_decode_encode:
  assumes "wire_ok W" "skd_fits m"
  shows "SenderKeyDistributionMessageProto_decode W (SenderKeyDistributionMessageProto_encode W m) = Inr m"
proof -
  note ok = assms(1) SenderKeyDistributionMessageProto_step_ok [OF assms(1)]
  note step = SenderKeyDistributionMessageProto_step_def
  have "run_fields W (SenderKeyDistributionMessageProto_step W) (int (length ([] :: bytes)))
      \<lparr>skd_id = 0, skd_iteration = 0, skd_chainKey = [], skd_signingKey = []\<rparr>
      (SenderKeyDistributionMessageProto_encode W m @ []) =
    run_fields W (SenderKeyDistributionMessageProto_step W) (int (length ([] :: bytes))) m []"
    using assms(2) unfolding SenderKeyDistributionMessageProto_encode_def append_assoc skd_fits_def
    by (subst run_put_u [OF ok], simp_all del: append_Nil2 add: step,
        subst run_put_u [OF ok], simp_all del: append_Nil2 add: step,
        subst run_put_b [OF ok], simp_all del: append_Nil2 add: step,
        subst run_put_b [OF ok], simp_all del: append_Nil2 add: step)
      (cases m; auto simp: nonempty_def)
  then show ?thesis using run_end [OF ok, of "[]" m] by (simp add: SenderKeyDistributionMessageProto_decode_def)
qed

end
