(* ===== verification/Message_Objects.thy ===== *)
theory Message_Objects
  imports Whisper_Protocol JS_Value
begin

text \<open>
  \<open>src/whisper-text-protocol.ts\<close>, the conversions of its three classes between messages and plain
  objects: the copying constructor, \<open>verify\<close>, \<open>fromObject\<close>, \<open>toObject\<close> and \<open>toJSON\<close>.

  Plain objects are \<open>jsval\<close>s without inherited properties. The assignments of \<open>fromObject\<close> are
  unchecked casts in the code, so that its result is an object of untyped properties here too;
  the typed messages of \<open>Whisper_Protocol\<close> appear in it as \<open>whisper_props\<close> and its siblings.
  \<open>$util\<close> of \<open>protobufjs\<close> is a parameter, with its documented behaviour in \<open>util_ok\<close>.
\<close>

section \<open>The package's utilities\<close>

datatype bytes_as = BytesString | BytesArray | BytesBuffer

record conversion_options =
  co_bytes :: bytes_as
  co_defaults :: bool

text \<open>\<open>pu_toUint32\<close> is \<open>v >>> 0\<close> of strings, arrays and objects, which calls their conversions.\<close>

record pb_util =
  pu_isInteger :: "jsval \<Rightarrow> bool"
  pu_isString :: "jsval \<Rightarrow> bool"
  pu_newBuffer :: "nat \<Rightarrow> bytes"
  pu_base64_length :: "string \<Rightarrow> nat"
  pu_base64_decode :: "string \<Rightarrow> bytes \<Rightarrow> nat \<Rightarrow> error + bytes"
  pu_base64_encode :: "bytes \<Rightarrow> nat \<Rightarrow> nat \<Rightarrow> string"
  pu_toJSONOptions :: conversion_options
  pu_toUint32 :: "jsval \<Rightarrow> int"

definition util_ok :: "pb_util \<Rightarrow> bool" where
  "util_ok U \<longleftrightarrow>
     (\<forall>v. pu_isInteger U v = (\<exists>n. v = JInt n)) \<and> (\<forall>v. pu_isString U v = (\<exists>s. v = JStr s)) \<and>
     (\<forall>n. length (pu_newBuffer U n) = n) \<and>
     (\<forall>b. pu_base64_length U (pu_base64_encode U b 0 (length b)) = length b) \<and>
     (\<forall>b buf. length buf = length b \<longrightarrow> pu_base64_decode U (pu_base64_encode U b 0 (length b)) buf 0 = Inr b) \<and>
     pu_base64_encode U [] 0 0 = [] \<and>
     pu_toJSONOptions U = \<lparr>co_bytes = BytesString, co_defaults = False\<rparr>"

text \<open>\<open>v >>> 0\<close>.\<close>

fun toUint32 :: "pb_util \<Rightarrow> jsval \<Rightarrow> int" where
  "toUint32 U (JInt n) = n mod 2 ^ 32"
| "toUint32 U (JFrac n) = n mod 2 ^ 32"
| "toUint32 U (JBool b) = (if b then 1 else 0)"
| "toUint32 U JNaN = 0"
| "toUint32 U JNull = 0"
| "toUint32 U JUndef = 0"
| "toUint32 U v = pu_toUint32 U v"

section \<open>One field\<close>

text \<open>\<open>if (m.f != null && hasOwnProperty(m, "f")) if (!...) return "f: ... expected"\<close>.\<close>

definition verify_buffer :: "pb_util \<Rightarrow> jsval \<Rightarrow> string \<Rightarrow> string option" where
  "verify_buffer U m f =
     (let v = js_get m f in
      if \<not> js_nullish v \<and> js_has_own m f \<and> \<not> (js_length v \<noteq> JUndef \<or> pu_isString U v)
      then Some (f @ '': buffer expected'') else None)"

definition verify_integer :: "pb_util \<Rightarrow> jsval \<Rightarrow> string \<Rightarrow> string option" where
  "verify_integer U m f =
     (let v = js_get m f in
      if \<not> js_nullish v \<and> js_has_own m f \<and> \<not> pu_isInteger U v
      then Some (f @ '': integer expected'') else None)"

fun first_error :: "string option list \<Rightarrow> string option" where
  "first_error [] = None"
| "first_error (None # r) = first_error r"
| "first_error (Some e # r) = Some e"

definition verify_fields :: "jsval \<Rightarrow> string option list \<Rightarrow> string option" where
  "verify_fields message checks =
     (if \<not> js_is_object message \<or> message = JNull then Some ''object expected'' else first_error checks)"

text \<open>\<open>object.f\<close>, and what \<open>fromObject\<close> assigns to the field for it, if anything.\<close>

definition js_prop :: "jsval \<Rightarrow> string \<Rightarrow> error + jsval" where
  "js_prop v f = (if js_nullish v then Inl (TypeError ''cannot read properties'') else Inr (js_get v f))"

definition bytes_from :: "pb_util \<Rightarrow> jsval \<Rightarrow> error + jsval option" where
  "bytes_from U v =
     (if js_nullish v then Inr None
      else case v of
        JStr s \<Rightarrow> rbind (pu_base64_decode U s (pu_newBuffer U (pu_base64_length U s)) 0) (\<lambda>b. Inr (Some (JBuf b)))
      | _ \<Rightarrow> Inr (if js_truthy (js_length v) then Some v else None))"

definition number_from :: "pb_util \<Rightarrow> jsval \<Rightarrow> error + jsval option" where
  "number_from U v = Inr (if js_nullish v then None else Some (JInt (toUint32 U v)))"

definition assign_field :: "jsval \<Rightarrow> string \<Rightarrow> (jsval \<Rightarrow> error + jsval option) \<Rightarrow>
    (string \<times> jsval) list \<Rightarrow> error + (string \<times> jsval) list" where
  "assign_field object f conv m =
     rbind (js_prop object f) (\<lambda>v. rbind (conv v) (\<lambda>x. Inr (case x of None \<Rightarrow> m | Some y \<Rightarrow> obj_set f y m)))"

text \<open>The fields of \<open>toObject\<close>.\<close>

definition default_bytes :: "conversion_options \<Rightarrow> jsval" where
  "default_bytes o' = (case co_bytes o' of BytesString \<Rightarrow> JStr [] | BytesArray \<Rightarrow> JArr [] | BytesBuffer \<Rightarrow> JBuf [])"

definition bytes_value :: "pb_util \<Rightarrow> conversion_options \<Rightarrow> bytes \<Rightarrow> jsval" where
  "bytes_value U o' b =
     (case co_bytes o' of
        BytesString \<Rightarrow> JStr (pu_base64_encode U b 0 (length b))
      | BytesArray \<Rightarrow> JArr (map (\<lambda>w. JInt (uint w)) b)
      | BytesBuffer \<Rightarrow> JBuf b)"

definition put_field :: "string \<Rightarrow> jsval option \<Rightarrow> (string \<times> jsval) list \<Rightarrow> (string \<times> jsval) list" where
  "put_field f x object = (case x of None \<Rightarrow> object | Some v \<Rightarrow> obj_set f v object)"

definition options_or_empty :: "conversion_options option \<Rightarrow> conversion_options" where
  "options_or_empty o' = (case o' of None \<Rightarrow> \<lparr>co_bytes = BytesBuffer, co_defaults = False\<rparr> | Some x \<Rightarrow> x)"

text \<open>\<open>for (const key of Object.keys(properties)) if (properties[key] != null) this[key] = properties[key]\<close>.\<close>

definition copy_properties :: "(string \<times> jsval) list option \<Rightarrow> (string \<times> jsval) list" where
  "copy_properties properties =
     (case properties of None \<Rightarrow> [] | Some ps \<Rightarrow> fold (\<lambda>(k, v) m. if js_nullish v then m else obj_set k v m) ps [])"

section \<open>WhisperMessage\<close>

definition new_WhisperMessage :: "(string \<times> jsval) list option \<Rightarrow> (string \<times> jsval) list" where
  "new_WhisperMessage = copy_properties"

definition WhisperMessage_verify :: "pb_util \<Rightarrow> jsval \<Rightarrow> string option" where
  "WhisperMessage_verify U m = verify_fields m
     [verify_buffer U m ''ephemeralKey'', verify_integer U m ''counter'',
      verify_integer U m ''previousCounter'', verify_buffer U m ''ciphertext'']"

text \<open>\<open>instance\<close> says whether the argument is a \<open>WhisperMessage\<close> already.\<close>

definition WhisperMessage_fromObject :: "pb_util \<Rightarrow> bool \<Rightarrow> jsval \<Rightarrow> error + jsval" where
  "WhisperMessage_fromObject U is_instance object =
     (if is_instance then Inr object else
      rbind (assign_field object ''ephemeralKey'' (bytes_from U) (new_WhisperMessage None)) (\<lambda>m.
      rbind (assign_field object ''counter'' (number_from U) m) (\<lambda>m.
      rbind (assign_field object ''previousCounter'' (number_from U) m) (\<lambda>m.
      rbind (assign_field object ''ciphertext'' (bytes_from U) m) (\<lambda>m. Inr (JObj m))))))"

definition WhisperMessage_toObject :: "pb_util \<Rightarrow> whisper_message \<Rightarrow> conversion_options option \<Rightarrow> jsval" where
  "WhisperMessage_toObject U m options =
     (let o' = options_or_empty options;
          object = (if co_defaults o' then
            [(''ephemeralKey'', default_bytes o'), (''counter'', JInt 0), (''previousCounter'', JInt 0),
             (''ciphertext'', default_bytes o')] else []);
          object = put_field ''ephemeralKey'' (map_option (bytes_value U o') (wm_ephemeralKey m)) object;
          object = put_field ''counter'' (map_option JInt (wm_counter m)) object;
          object = put_field ''previousCounter'' (map_option JInt (wm_previousCounter m)) object
      in JObj (put_field ''ciphertext'' (map_option (bytes_value U o') (wm_ciphertext m)) object))"

definition WhisperMessage_toJSON :: "pb_util \<Rightarrow> whisper_message \<Rightarrow> jsval" where
  "WhisperMessage_toJSON U m = WhisperMessage_toObject U m (Some (pu_toJSONOptions U))"

section \<open>PreKeyWhisperMessage\<close>

definition new_PreKeyWhisperMessage :: "(string \<times> jsval) list option \<Rightarrow> (string \<times> jsval) list" where
  "new_PreKeyWhisperMessage = copy_properties"

definition PreKeyWhisperMessage_verify :: "pb_util \<Rightarrow> jsval \<Rightarrow> string option" where
  "PreKeyWhisperMessage_verify U m = verify_fields m
     [verify_integer U m ''registrationId'', verify_integer U m ''preKeyId'', verify_integer U m ''signedPreKeyId'',
      verify_buffer U m ''baseKey'', verify_buffer U m ''identityKey'', verify_buffer U m ''message'']"

definition PreKeyWhisperMessage_fromObject :: "pb_util \<Rightarrow> bool \<Rightarrow> jsval \<Rightarrow> error + jsval" where
  "PreKeyWhisperMessage_fromObject U is_instance object =
     (if is_instance then Inr object else
      rbind (assign_field object ''registrationId'' (number_from U) (new_PreKeyWhisperMessage None)) (\<lambda>m.
      rbind (assign_field object ''preKeyId'' (number_from U) m) (\<lambda>m.
      rbind (assign_field object ''signedPreKeyId'' (number_from U) m) (\<lambda>m.
      rbind (assign_field object ''baseKey'' (bytes_from U) m) (\<lambda>m.
      rbind (assign_field object ''identityKey'' (bytes_from U) m) (\<lambda>m.
      rbind (assign_field object ''message'' (bytes_from U) m) (\<lambda>m. Inr (JObj m))))))))"

definition PreKeyWhisperMessage_toObject :: "pb_util \<Rightarrow> prekey_whisper_message \<Rightarrow> conversion_options option \<Rightarrow> jsval" where
  "PreKeyWhisperMessage_toObject U m options =
     (let o' = options_or_empty options;
          object = (if co_defaults o' then
            [(''preKeyId'', JInt 0), (''baseKey'', default_bytes o'), (''identityKey'', default_bytes o'),
             (''message'', default_bytes o'), (''registrationId'', JInt 0), (''signedPreKeyId'', JInt 0)] else []);
          object = put_field ''preKeyId'' (map_option JInt (u_field (pk_preKeyId m))) object;
          object = put_field ''baseKey'' (map_option (bytes_value U o') (pk_baseKey m)) object;
          object = put_field ''identityKey'' (map_option (bytes_value U o') (pk_identityKey m)) object;
          object = put_field ''message'' (map_option (bytes_value U o') (pk_message m)) object;
          object = put_field ''registrationId'' (map_option JInt (u_field (pk_registrationId m))) object
      in JObj (put_field ''signedPreKeyId'' (map_option JInt (u_field (pk_signedPreKeyId m))) object))"

definition PreKeyWhisperMessage_toJSON :: "pb_util \<Rightarrow> prekey_whisper_message \<Rightarrow> jsval" where
  "PreKeyWhisperMessage_toJSON U m = PreKeyWhisperMessage_toObject U m (Some (pu_toJSONOptions U))"

section \<open>KeyExchangeMessage\<close>

definition new_KeyExchangeMessage :: "(string \<times> jsval) list option \<Rightarrow> (string \<times> jsval) list" where
  "new_KeyExchangeMessage = copy_properties"

definition KeyExchangeMessage_verify :: "pb_util \<Rightarrow> jsval \<Rightarrow> string option" where
  "KeyExchangeMessage_verify U m = verify_fields m
     [verify_integer U m ''id'', verify_buffer U m ''baseKey'', verify_buffer U m ''ephemeralKey'',
      verify_buffer U m ''identityKey'', verify_buffer U m ''baseKeySignature'']"

definition KeyExchangeMessage_fromObject :: "pb_util \<Rightarrow> bool \<Rightarrow> jsval \<Rightarrow> error + jsval" where
  "KeyExchangeMessage_fromObject U is_instance object =
     (if is_instance then Inr object else
      rbind (assign_field object ''id'' (number_from U) (new_KeyExchangeMessage None)) (\<lambda>m.
      rbind (assign_field object ''baseKey'' (bytes_from U) m) (\<lambda>m.
      rbind (assign_field object ''ephemeralKey'' (bytes_from U) m) (\<lambda>m.
      rbind (assign_field object ''identityKey'' (bytes_from U) m) (\<lambda>m.
      rbind (assign_field object ''baseKeySignature'' (bytes_from U) m) (\<lambda>m. Inr (JObj m)))))))"

definition KeyExchangeMessage_toObject :: "pb_util \<Rightarrow> key_exchange_message \<Rightarrow> conversion_options option \<Rightarrow> jsval" where
  "KeyExchangeMessage_toObject U m options =
     (let o' = options_or_empty options;
          object = (if co_defaults o' then
            [(''id'', JInt 0), (''baseKey'', default_bytes o'), (''ephemeralKey'', default_bytes o'),
             (''identityKey'', default_bytes o'), (''baseKeySignature'', default_bytes o')] else []);
          object = put_field ''id'' (map_option JInt (u_field (kx_id m))) object;
          object = put_field ''baseKey'' (map_option (bytes_value U o') (kx_baseKey m)) object;
          object = put_field ''ephemeralKey'' (map_option (bytes_value U o') (kx_ephemeralKey m)) object;
          object = put_field ''identityKey'' (map_option (bytes_value U o') (kx_identityKey m)) object
      in JObj (put_field ''baseKeySignature'' (map_option (bytes_value U o') (kx_baseKeySignature m)) object))"

definition KeyExchangeMessage_toJSON :: "pb_util \<Rightarrow> key_exchange_message \<Rightarrow> jsval" where
  "KeyExchangeMessage_toJSON U m = KeyExchangeMessage_toObject U m (Some (pu_toJSONOptions U))"

end
