(* ===== verification/Message_Typing.thy ===== *)
theory Message_Typing
  imports Message_Objects Base64
begin

text \<open>
  The conversions of the pairwise messages: an object that \<open>verify\<close> accepts and whose byte fields are
  buffers or base64 text becomes a message of its declared type, and a message that was turned into
  an object, in any of the three forms, is read back.
\<close>

section \<open>Objects of own properties\<close>

fun own_props :: "(string \<times> jsval option) list \<Rightarrow> (string \<times> jsval) list" where
  "own_props [] = []"
| "own_props ((f, None) # r) = own_props r"
| "own_props ((f, Some v) # r) = (f, v) # own_props r"

lemma own_props_append: "own_props (fs @ gs) = own_props fs @ own_props gs"
  by (induction fs rule: own_props.induct) auto

lemma own_props_keys: "set (obj_keys (own_props fs)) \<subseteq> fst ` set fs"
  by (induction fs rule: own_props.induct) auto

lemma own_props_get: "distinct (map fst fs) \<Longrightarrow> map_of (own_props fs) f = Option.bind (map_of fs f) id"
proof (induction fs rule: own_props.induct)
  case (2 g r)
  have "map_of (own_props r) g = None" if "g \<notin> fst ` set r"
    using own_props_keys [of r] that unfolding map_of_eq_None_iff by auto
  with 2 show ?case by auto
qed auto

lemma assign_own [simp]:
  assumes "\<not> js_nullish object" "conv (js_get object f) = Inr x" "f \<notin> fst ` set fs"
  shows "assign_field object f conv (own_props fs) = Inr (own_props (fs @ [(f, x)]))"
proof -
  have "f \<notin> set (obj_keys (own_props fs))" using own_props_keys [of fs] assms(3) by blast
  from obj_set_fresh [OF this] show ?thesis
    using assms(1,2) by (cases x) (simp_all add: assign_field_def js_prop_def res_simps own_props_append)
qed

lemma assign_first [simp]:
  "\<not> js_nullish object \<Longrightarrow> conv (js_get object f) = Inr x \<Longrightarrow> assign_field object f conv [] = Inr (own_props [(f, x)])"
  using assign_own [of object conv f x "[]"] by simp

lemma new_message [simp]:
  "new_WhisperMessage None = []" "new_PreKeyWhisperMessage None = []" "new_KeyExchangeMessage None = []"
  by (simp_all add: new_WhisperMessage_def new_PreKeyWhisperMessage_def new_KeyExchangeMessage_def copy_properties_def)

text \<open>A typed message as the object with its own properties, in the order in which \<open>fromObject\<close> assigns them.\<close>

definition whisper_props :: "whisper_message \<Rightarrow> (string \<times> jsval) list" where
  "whisper_props m = own_props
     [(''ephemeralKey'', map_option JBuf (wm_ephemeralKey m)), (''counter'', map_option JInt (wm_counter m)),
      (''previousCounter'', map_option JInt (wm_previousCounter m)), (''ciphertext'', map_option JBuf (wm_ciphertext m))]"

definition prekey_whisper_props :: "prekey_whisper_message \<Rightarrow> (string \<times> jsval) list" where
  "prekey_whisper_props m = own_props
     [(''registrationId'', map_option JInt (u_field (pk_registrationId m))), (''preKeyId'', map_option JInt (u_field (pk_preKeyId m))),
      (''signedPreKeyId'', map_option JInt (u_field (pk_signedPreKeyId m))), (''baseKey'', map_option JBuf (pk_baseKey m)),
      (''identityKey'', map_option JBuf (pk_identityKey m)), (''message'', map_option JBuf (pk_message m))]"

definition key_exchange_props :: "key_exchange_message \<Rightarrow> (string \<times> jsval) list" where
  "key_exchange_props m = own_props
     [(''id'', map_option JInt (u_field (kx_id m))), (''baseKey'', map_option JBuf (kx_baseKey m)),
      (''ephemeralKey'', map_option JBuf (kx_ephemeralKey m)), (''identityKey'', map_option JBuf (kx_identityKey m)),
      (''baseKeySignature'', map_option JBuf (kx_baseKeySignature m))]"

section \<open>Typing\<close>

text \<open>What a byte field may hold besides the length that \<open>verify\<close> asks for.\<close>

definition bytes_source :: "pb_util \<Rightarrow> jsval \<Rightarrow> bool" where
  "bytes_source U v \<longleftrightarrow> js_nullish v \<or> (\<exists>b. v = JBuf b) \<or> (\<exists>b. v = JStr (pu_base64_encode U b 0 (length b)))"

definition typed_bytes :: "pb_util \<Rightarrow> jsval \<Rightarrow> bytes option" where
  "typed_bytes U v =
     (case v of
        JBuf b \<Rightarrow> (if b = [] then None else Some b)
      | JStr s \<Rightarrow> (case pu_base64_decode U s (pu_newBuffer U (pu_base64_length U s)) 0 of Inl _ \<Rightarrow> None | Inr b \<Rightarrow> Some b)
      | _ \<Rightarrow> None)"

definition typed_number :: "jsval \<Rightarrow> nat option" where
  "typed_number v = (case v of JInt n \<Rightarrow> Some (nat (n mod 2 ^ 32)) | _ \<Rightarrow> None)"

lemma decode_encode:
  assumes "util_ok U"
  shows "pu_base64_decode U (pu_base64_encode U b 0 (length b))
    (pu_newBuffer U (pu_base64_length U (pu_base64_encode U b 0 (length b)))) 0 = Inr b"
  using assms by (simp add: util_ok_def)

lemma bytes_from_typed:
  assumes "util_ok U" "bytes_source U v"
  shows "bytes_from U v = Inr (map_option JBuf (typed_bytes U v))"
proof -
  consider "js_nullish v" | b where "v = JBuf b" | b where "v = JStr (pu_base64_encode U b 0 (length b))"
    using assms(2) by (auto simp: bytes_source_def)
  then show ?thesis
  proof cases
    case (3 b)
    then show ?thesis using decode_encode [OF assms(1), of b] by (simp add: bytes_from_def typed_bytes_def res_simps)
  qed (auto simp: bytes_from_def typed_bytes_def elim: js_nullish.elims)
qed

lemma verify_integer_None:
  assumes "util_ok U" "verify_integer U m f = None"
  shows "number_from U (js_get m f) = Inr (map_option JInt (u_field (typed_number (js_get m f))))"
proof -
  consider "js_nullish (js_get m f)" | n where "js_get m f = JInt n"
    using assms js_get_own [of m f] by (auto simp: verify_integer_def util_ok_def Let_def split: if_splits)
  then show ?thesis by cases (auto simp: number_from_def typed_number_def elim: js_nullish.elims)
qed

lemma first_error_None [simp]: "first_error checks = None \<longleftrightarrow> (\<forall>c\<in>set checks. c = None)"
  by (induction checks rule: first_error.induct) auto

lemma verify_fields_None: "verify_fields v checks = None \<longleftrightarrow> js_is_object v \<and> v \<noteq> JNull \<and> (\<forall>c\<in>set checks. c = None)"
  by (simp add: verify_fields_def)

lemma object_not_nullish: "js_is_object v \<Longrightarrow> v \<noteq> JNull \<Longrightarrow> \<not> js_nullish v"
  by (cases v) auto

lemma typed_number_u32: "u32_opt (u_field (typed_number v))"
  by (simp add: u32_opt_def typed_number_def nat_less_iff split: jsval.splits)

lemmas object_typing = bytes_from_typed verify_integer_None object_not_nullish typed_number_u32

lemma WhisperMessage_typed:
  assumes U: "util_ok U" and ok: "WhisperMessage_verify U v = None"
    and src: "bytes_source U (js_get v ''ephemeralKey'')" "bytes_source U (js_get v ''ciphertext'')"
  obtains m where "WhisperMessage_fromObject U False v = Inr (JObj (whisper_props m))"
    "u32_opt (wm_counter m)" "u32_opt (wm_previousCounter m)"
proof -
  let ?m = "\<lparr>wm_ephemeralKey = typed_bytes U (js_get v ''ephemeralKey''), wm_counter = u_field (typed_number (js_get v ''counter'')),
    wm_previousCounter = u_field (typed_number (js_get v ''previousCounter'')), wm_ciphertext = typed_bytes U (js_get v ''ciphertext'')\<rparr>"
  have obj: "\<not> js_nullish v" and ints: "verify_integer U v ''counter'' = None" "verify_integer U v ''previousCounter'' = None"
    using ok object_not_nullish by (auto simp: WhisperMessage_verify_def verify_fields_None)
  note fields = ints [THEN verify_integer_None [OF U]] src [THEN bytes_from_typed [OF U]]
  have "WhisperMessage_fromObject U False v = Inr (JObj (whisper_props ?m))"
    by (simp add: WhisperMessage_fromObject_def obj fields res_simps whisper_props_def)
  then show ?thesis by (rule that) (simp_all add: typed_number_u32)
qed

lemma PreKeyWhisperMessage_typed:
  assumes U: "util_ok U" and ok: "PreKeyWhisperMessage_verify U v = None"
    and src: "bytes_source U (js_get v ''baseKey'')" "bytes_source U (js_get v ''identityKey'')" "bytes_source U (js_get v ''message'')"
  obtains m where "PreKeyWhisperMessage_fromObject U False v = Inr (JObj (prekey_whisper_props m))"
    "u32_opt (u_field (pk_registrationId m))" "u32_opt (u_field (pk_preKeyId m))" "u32_opt (u_field (pk_signedPreKeyId m))"
proof -
  let ?m = "\<lparr>pk_registrationId = typed_number (js_get v ''registrationId''), pk_preKeyId = typed_number (js_get v ''preKeyId''),
    pk_signedPreKeyId = typed_number (js_get v ''signedPreKeyId''), pk_baseKey = typed_bytes U (js_get v ''baseKey''),
    pk_identityKey = typed_bytes U (js_get v ''identityKey''), pk_message = typed_bytes U (js_get v ''message'')\<rparr>"
  have obj: "\<not> js_nullish v" and ints: "verify_integer U v ''registrationId'' = None" "verify_integer U v ''preKeyId'' = None"
      "verify_integer U v ''signedPreKeyId'' = None"
    using ok object_not_nullish by (auto simp: PreKeyWhisperMessage_verify_def verify_fields_None)
  note fields = ints [THEN verify_integer_None [OF U]] src [THEN bytes_from_typed [OF U]]
  have "PreKeyWhisperMessage_fromObject U False v = Inr (JObj (prekey_whisper_props ?m))"
    by (simp add: PreKeyWhisperMessage_fromObject_def obj fields res_simps prekey_whisper_props_def)
  then show ?thesis by (rule that) (simp_all add: typed_number_u32)
qed

lemma KeyExchangeMessage_typed:
  assumes U: "util_ok U" and ok: "KeyExchangeMessage_verify U v = None"
    and src: "bytes_source U (js_get v ''baseKey'')" "bytes_source U (js_get v ''ephemeralKey'')"
      "bytes_source U (js_get v ''identityKey'')" "bytes_source U (js_get v ''baseKeySignature'')"
  obtains m where "KeyExchangeMessage_fromObject U False v = Inr (JObj (key_exchange_props m))" "u32_opt (u_field (kx_id m))"
proof -
  let ?m = "\<lparr>kx_id = typed_number (js_get v ''id''), kx_baseKey = typed_bytes U (js_get v ''baseKey''),
    kx_ephemeralKey = typed_bytes U (js_get v ''ephemeralKey''), kx_identityKey = typed_bytes U (js_get v ''identityKey''),
    kx_baseKeySignature = typed_bytes U (js_get v ''baseKeySignature'')\<rparr>"
  have obj: "\<not> js_nullish v" and ints: "verify_integer U v ''id'' = None"
    using ok object_not_nullish by (auto simp: KeyExchangeMessage_verify_def verify_fields_None)
  note fields = ints [THEN verify_integer_None [OF U]] src [THEN bytes_from_typed [OF U]]
  have "KeyExchangeMessage_fromObject U False v = Inr (JObj (key_exchange_props ?m))"
    by (simp add: KeyExchangeMessage_fromObject_def obj fields res_simps key_exchange_props_def)
  then show ?thesis by (rule that) (simp add: typed_number_u32)
qed

section \<open>Reading back\<close>

text \<open>What a byte or number field gives its reader: the default when it is not there.\<close>

definition read_bytes :: "jsval \<Rightarrow> string \<Rightarrow> bytes" where
  "read_bytes m f = (case js_get m f of JBuf b \<Rightarrow> b | JArr xs \<Rightarrow> map byte_of_js xs | _ \<Rightarrow> [])"

definition read_number :: "jsval \<Rightarrow> string \<Rightarrow> int" where
  "read_number m f = (case js_get m f of JInt n \<Rightarrow> n | _ \<Rightarrow> 0)"

definition default_number :: "int option \<Rightarrow> int" where
  "default_number x = (case x of None \<Rightarrow> 0 | Some n \<Rightarrow> n)"

lemma get_put_field:
  "map_of (put_field f x m) f = (case x of Some v \<Rightarrow> Some v | None \<Rightarrow> map_of m f)"
  "f \<noteq> g \<Longrightarrow> map_of (put_field f x m) g = map_of m g"
  by (simp_all add: put_field_def obj_get_set split: option.splits)

text \<open>The value of a field of \<open>toObject\<close>, and what \<open>fromObject\<close> makes of it.\<close>

definition object_field :: "bool \<Rightarrow> jsval \<Rightarrow> jsval option \<Rightarrow> jsval" where
  "object_field defaults d x = (case x of Some v \<Rightarrow> v | None \<Rightarrow> if defaults then d else JUndef)"

lemma read_elements: "map byte_of_js (map (\<lambda>w. JInt (uint w)) b) = b"
  by (induction b) simp_all

lemma bytes_back:
  assumes "util_ok U"
  obtains x where "bytes_from U (object_field (co_defaults o') (default_bytes o') (map_option (bytes_value U o') b)) = Inr x"
    and "(case x of Some (JBuf b') \<Rightarrow> b' | Some (JArr xs) \<Rightarrow> map byte_of_js xs | _ \<Rightarrow> []) = def_b b"
proof -
  have empty: "pu_base64_decode U [] (pu_newBuffer U (pu_base64_length U [])) 0 = Inr []"
    using decode_encode [OF assms, of "[]"] assms by (simp add: util_ok_def)
  note defs = object_field_def bytes_value_def default_bytes_def bytes_from_def def_b_def res_simps
  show ?thesis
  proof (cases b)
    case None
    then show ?thesis using that empty by (cases "co_bytes o'"; cases "co_defaults o'") (simp_all add: defs)
  next
    case (Some c)
    then show ?thesis
      using that decode_encode [OF assms, of c] read_elements [of c]
      by (cases "co_bytes o'"; cases "c = []") (simp_all add: defs del: map_map)
  qed
qed

lemma number_back:
  assumes "u32_opt n"
  obtains x where "number_from U (object_field defaults (JInt 0) (map_option JInt n)) = Inr x"
    and "(case x of Some (JInt k) \<Rightarrow> k | _ \<Rightarrow> 0) = default_number n"
  using that assms by (cases n; cases defaults) (auto simp: object_field_def number_from_def default_number_def u32_opt_def)

text \<open>The JSON form keeps the message exactly.\<close>

lemma bytes_back_json:
  assumes "util_ok U" "co_bytes o' = BytesString"
  shows "bytes_from U (object_field False d (map_option (bytes_value U o') b)) = Inr (map_option JBuf b)"
  using decode_encode [OF assms(1)] assms(2)
  by (cases b) (simp_all add: object_field_def bytes_value_def bytes_from_def res_simps)

lemma number_back_json: "u32_opt n \<Longrightarrow> number_from U (object_field False d (map_option JInt n)) = Inr (map_option JInt n)"
  by (cases n) (simp_all add: object_field_def number_from_def u32_opt_def)

lemma read_own:
  assumes "distinct (map fst fs)" "map_of fs f = Some x"
  shows "read_bytes (JObj (own_props fs)) f = (case x of Some (JBuf b) \<Rightarrow> b | Some (JArr xs) \<Rightarrow> map byte_of_js xs | _ \<Rightarrow> [])"
    and "read_number (JObj (own_props fs)) f = (case x of Some (JInt n) \<Rightarrow> n | _ \<Rightarrow> 0)"
  using own_props_get [OF assms(1), of f] assms(2)
  by (simp_all add: read_bytes_def read_number_def split: option.splits)

lemmas object_get = get_put_field object_field_def Let_def

definition same_whisper_message :: "whisper_message \<Rightarrow> jsval \<Rightarrow> bool" where
  "same_whisper_message m v \<longleftrightarrow> read_bytes v ''ephemeralKey'' = def_b (wm_ephemeralKey m) \<and> read_number v ''counter'' = default_number (wm_counter m) \<and> read_number v ''previousCounter'' = default_number (wm_previousCounter m) \<and> read_bytes v ''ciphertext'' = def_b (wm_ciphertext m)"

lemma WhisperMessage_toObject_get:
  shows "js_get (WhisperMessage_toObject U m opts) ''ephemeralKey'' =
     object_field (co_defaults (options_or_empty opts)) (default_bytes (options_or_empty opts)) (map_option (bytes_value U (options_or_empty opts)) (wm_ephemeralKey m))"
    and "js_get (WhisperMessage_toObject U m opts) ''counter'' =
     object_field (co_defaults (options_or_empty opts)) (JInt 0) (map_option JInt (wm_counter m))"
    and "js_get (WhisperMessage_toObject U m opts) ''previousCounter'' =
     object_field (co_defaults (options_or_empty opts)) (JInt 0) (map_option JInt (wm_previousCounter m))"
    and "js_get (WhisperMessage_toObject U m opts) ''ciphertext'' =
     object_field (co_defaults (options_or_empty opts)) (default_bytes (options_or_empty opts)) (map_option (bytes_value U (options_or_empty opts)) (wm_ciphertext m))"
  by (simp_all add: WhisperMessage_toObject_def object_get split: option.splits)

lemma WhisperMessage_object_back:
  assumes U: "util_ok U" and fits: "u32_opt (wm_counter m)" "u32_opt (wm_previousCounter m)"
  obtains v where "WhisperMessage_fromObject U False (WhisperMessage_toObject U m opts) = Inr v" "same_whisper_message m v"
proof -
  let ?o = "options_or_empty opts"
  obtain x1 where x1: "bytes_from U (object_field (co_defaults ?o) (default_bytes ?o) (map_option (bytes_value U ?o) (wm_ephemeralKey m))) = Inr x1"
      "(case x1 of Some (JBuf b') \<Rightarrow> b' | Some (JArr xs) \<Rightarrow> map byte_of_js xs | _ \<Rightarrow> []) = def_b (wm_ephemeralKey m)"
    by (rule bytes_back [OF U])
  obtain x2 where x2: "number_from U (object_field (co_defaults ?o) (JInt 0) (map_option JInt (wm_counter m))) = Inr x2"
      "(case x2 of Some (JInt k) \<Rightarrow> k | _ \<Rightarrow> 0) = default_number (wm_counter m)"
    by (rule number_back [OF fits(1)])
  obtain x3 where x3: "number_from U (object_field (co_defaults ?o) (JInt 0) (map_option JInt (wm_previousCounter m))) = Inr x3"
      "(case x3 of Some (JInt k) \<Rightarrow> k | _ \<Rightarrow> 0) = default_number (wm_previousCounter m)"
    by (rule number_back [OF fits(2)])
  obtain x4 where x4: "bytes_from U (object_field (co_defaults ?o) (default_bytes ?o) (map_option (bytes_value U ?o) (wm_ciphertext m))) = Inr x4"
      "(case x4 of Some (JBuf b') \<Rightarrow> b' | Some (JArr xs) \<Rightarrow> map byte_of_js xs | _ \<Rightarrow> []) = def_b (wm_ciphertext m)"
    by (rule bytes_back [OF U])
  let ?fs = "[(''ephemeralKey'', x1), (''counter'', x2), (''previousCounter'', x3), (''ciphertext'', x4)]"
  have obj: "\<not> js_nullish (WhisperMessage_toObject U m opts)" by (simp add: WhisperMessage_toObject_def Let_def)
  have "WhisperMessage_fromObject U False (WhisperMessage_toObject U m opts) = Inr (JObj (own_props ?fs))"
    by (simp add: WhisperMessage_fromObject_def obj WhisperMessage_toObject_get x1(1) x2(1) x3(1) x4(1) res_simps)
  moreover have "same_whisper_message m (JObj (own_props ?fs))"
    by (simp add: same_whisper_message_def read_own [of ?fs] x1(2) x2(2) x3(2) x4(2))
  ultimately show ?thesis by (rule that)
qed

lemma WhisperMessage_json_back:
  assumes U: "util_ok U" and fits: "u32_opt (wm_counter m)" "u32_opt (wm_previousCounter m)"
  shows "WhisperMessage_fromObject U False (WhisperMessage_toJSON U m) = Inr (JObj (whisper_props m))"
proof -
  let ?o = "options_or_empty (Some (pu_toJSONOptions U))"
  have o: "co_defaults ?o = False" "co_bytes ?o = BytesString" using U by (simp_all add: util_ok_def options_or_empty_def)
  have obj: "\<not> js_nullish (WhisperMessage_toObject U m opts)" for opts by (simp add: WhisperMessage_toObject_def Let_def)
  show ?thesis unfolding WhisperMessage_toJSON_def
    by (simp add: WhisperMessage_fromObject_def obj WhisperMessage_toObject_get o bytes_back_json [OF U] number_back_json fits res_simps whisper_props_def)
qed

definition same_prekey_whisper_message :: "prekey_whisper_message \<Rightarrow> jsval \<Rightarrow> bool" where
  "same_prekey_whisper_message m v \<longleftrightarrow> read_number v ''registrationId'' = default_number (u_field (pk_registrationId m)) \<and> read_number v ''preKeyId'' = default_number (u_field (pk_preKeyId m)) \<and> read_number v ''signedPreKeyId'' = default_number (u_field (pk_signedPreKeyId m)) \<and> read_bytes v ''baseKey'' = def_b (pk_baseKey m) \<and> read_bytes v ''identityKey'' = def_b (pk_identityKey m) \<and> read_bytes v ''message'' = def_b (pk_message m)"

lemma PreKeyWhisperMessage_toObject_get:
  shows "js_get (PreKeyWhisperMessage_toObject U m opts) ''registrationId'' =
     object_field (co_defaults (options_or_empty opts)) (JInt 0) (map_option JInt (u_field (pk_registrationId m)))"
    and "js_get (PreKeyWhisperMessage_toObject U m opts) ''preKeyId'' =
     object_field (co_defaults (options_or_empty opts)) (JInt 0) (map_option JInt (u_field (pk_preKeyId m)))"
    and "js_get (PreKeyWhisperMessage_toObject U m opts) ''signedPreKeyId'' =
     object_field (co_defaults (options_or_empty opts)) (JInt 0) (map_option JInt (u_field (pk_signedPreKeyId m)))"
    and "js_get (PreKeyWhisperMessage_toObject U m opts) ''baseKey'' =
     object_field (co_defaults (options_or_empty opts)) (default_bytes (options_or_empty opts)) (map_option (bytes_value U (options_or_empty opts)) (pk_baseKey m))"
    and "js_get (PreKeyWhisperMessage_toObject U m opts) ''identityKey'' =
     object_field (co_defaults (options_or_empty opts)) (default_bytes (options_or_empty opts)) (map_option (bytes_value U (options_or_empty opts)) (pk_identityKey m))"
    and "js_get (PreKeyWhisperMessage_toObject U m opts) ''message'' =
     object_field (co_defaults (options_or_empty opts)) (default_bytes (options_or_empty opts)) (map_option (bytes_value U (options_or_empty opts)) (pk_message m))"
  by (simp_all add: PreKeyWhisperMessage_toObject_def object_get split: option.splits)

lemma PreKeyWhisperMessage_object_back:
  assumes U: "util_ok U" and fits: "u32_opt (u_field (pk_registrationId m))" "u32_opt (u_field (pk_preKeyId m))" "u32_opt (u_field (pk_signedPreKeyId m))"
  obtains v where "PreKeyWhisperMessage_fromObject U False (PreKeyWhisperMessage_toObject U m opts) = Inr v" "same_prekey_whisper_message m v"
proof -
  let ?o = "options_or_empty opts"
  obtain x1 where x1: "number_from U (object_field (co_defaults ?o) (JInt 0) (map_option JInt (u_field (pk_registrationId m)))) = Inr x1"
      "(case x1 of Some (JInt k) \<Rightarrow> k | _ \<Rightarrow> 0) = default_number (u_field (pk_registrationId m))"
    by (rule number_back [OF fits(1)])
  obtain x2 where x2: "number_from U (object_field (co_defaults ?o) (JInt 0) (map_option JInt (u_field (pk_preKeyId m)))) = Inr x2"
      "(case x2 of Some (JInt k) \<Rightarrow> k | _ \<Rightarrow> 0) = default_number (u_field (pk_preKeyId m))"
    by (rule number_back [OF fits(2)])
  obtain x3 where x3: "number_from U (object_field (co_defaults ?o) (JInt 0) (map_option JInt (u_field (pk_signedPreKeyId m)))) = Inr x3"
      "(case x3 of Some (JInt k) \<Rightarrow> k | _ \<Rightarrow> 0) = default_number (u_field (pk_signedPreKeyId m))"
    by (rule number_back [OF fits(3)])
  obtain x4 where x4: "bytes_from U (object_field (co_defaults ?o) (default_bytes ?o) (map_option (bytes_value U ?o) (pk_baseKey m))) = Inr x4"
      "(case x4 of Some (JBuf b') \<Rightarrow> b' | Some (JArr xs) \<Rightarrow> map byte_of_js xs | _ \<Rightarrow> []) = def_b (pk_baseKey m)"
    by (rule bytes_back [OF U])
  obtain x5 where x5: "bytes_from U (object_field (co_defaults ?o) (default_bytes ?o) (map_option (bytes_value U ?o) (pk_identityKey m))) = Inr x5"
      "(case x5 of Some (JBuf b') \<Rightarrow> b' | Some (JArr xs) \<Rightarrow> map byte_of_js xs | _ \<Rightarrow> []) = def_b (pk_identityKey m)"
    by (rule bytes_back [OF U])
  obtain x6 where x6: "bytes_from U (object_field (co_defaults ?o) (default_bytes ?o) (map_option (bytes_value U ?o) (pk_message m))) = Inr x6"
      "(case x6 of Some (JBuf b') \<Rightarrow> b' | Some (JArr xs) \<Rightarrow> map byte_of_js xs | _ \<Rightarrow> []) = def_b (pk_message m)"
    by (rule bytes_back [OF U])
  let ?fs = "[(''registrationId'', x1), (''preKeyId'', x2), (''signedPreKeyId'', x3), (''baseKey'', x4), (''identityKey'', x5), (''message'', x6)]"
  have obj: "\<not> js_nullish (PreKeyWhisperMessage_toObject U m opts)" by (simp add: PreKeyWhisperMessage_toObject_def Let_def)
  have "PreKeyWhisperMessage_fromObject U False (PreKeyWhisperMessage_toObject U m opts) = Inr (JObj (own_props ?fs))"
    by (simp add: PreKeyWhisperMessage_fromObject_def obj PreKeyWhisperMessage_toObject_get x1(1) x2(1) x3(1) x4(1) x5(1) x6(1) res_simps)
  moreover have "same_prekey_whisper_message m (JObj (own_props ?fs))"
    by (simp add: same_prekey_whisper_message_def read_own [of ?fs] x1(2) x2(2) x3(2) x4(2) x5(2) x6(2))
  ultimately show ?thesis by (rule that)
qed

lemma PreKeyWhisperMessage_json_back:
  assumes U: "util_ok U" and fits: "u32_opt (u_field (pk_registrationId m))" "u32_opt (u_field (pk_preKeyId m))" "u32_opt (u_field (pk_signedPreKeyId m))"
  shows "PreKeyWhisperMessage_fromObject U False (PreKeyWhisperMessage_toJSON U m) = Inr (JObj (prekey_whisper_props m))"
proof -
  let ?o = "options_or_empty (Some (pu_toJSONOptions U))"
  have o: "co_defaults ?o = False" "co_bytes ?o = BytesString" using U by (simp_all add: util_ok_def options_or_empty_def)
  have obj: "\<not> js_nullish (PreKeyWhisperMessage_toObject U m opts)" for opts by (simp add: PreKeyWhisperMessage_toObject_def Let_def)
  show ?thesis unfolding PreKeyWhisperMessage_toJSON_def
    by (simp add: PreKeyWhisperMessage_fromObject_def obj PreKeyWhisperMessage_toObject_get o bytes_back_json [OF U] number_back_json fits res_simps prekey_whisper_props_def)
qed

definition same_key_exchange_message :: "key_exchange_message \<Rightarrow> jsval \<Rightarrow> bool" where
  "same_key_exchange_message m v \<longleftrightarrow> read_number v ''id'' = default_number (u_field (kx_id m)) \<and> read_bytes v ''baseKey'' = def_b (kx_baseKey m) \<and> read_bytes v ''ephemeralKey'' = def_b (kx_ephemeralKey m) \<and> read_bytes v ''identityKey'' = def_b (kx_identityKey m) \<and> read_bytes v ''baseKeySignature'' = def_b (kx_baseKeySignature m)"

lemma KeyExchangeMessage_toObject_get:
  shows "js_get (KeyExchangeMessage_toObject U m opts) ''id'' =
     object_field (co_defaults (options_or_empty opts)) (JInt 0) (map_option JInt (u_field (kx_id m)))"
    and "js_get (KeyExchangeMessage_toObject U m opts) ''baseKey'' =
     object_field (co_defaults (options_or_empty opts)) (default_bytes (options_or_empty opts)) (map_option (bytes_value U (options_or_empty opts)) (kx_baseKey m))"
    and "js_get (KeyExchangeMessage_toObject U m opts) ''ephemeralKey'' =
     object_field (co_defaults (options_or_empty opts)) (default_bytes (options_or_empty opts)) (map_option (bytes_value U (options_or_empty opts)) (kx_ephemeralKey m))"
    and "js_get (KeyExchangeMessage_toObject U m opts) ''identityKey'' =
     object_field (co_defaults (options_or_empty opts)) (default_bytes (options_or_empty opts)) (map_option (bytes_value U (options_or_empty opts)) (kx_identityKey m))"
    and "js_get (KeyExchangeMessage_toObject U m opts) ''baseKeySignature'' =
     object_field (co_defaults (options_or_empty opts)) (default_bytes (options_or_empty opts)) (map_option (bytes_value U (options_or_empty opts)) (kx_baseKeySignature m))"
  by (simp_all add: KeyExchangeMessage_toObject_def object_get split: option.splits)

lemma KeyExchangeMessage_object_back:
  assumes U: "util_ok U" and fits: "u32_opt (u_field (kx_id m))"
  obtains v where "KeyExchangeMessage_fromObject U False (KeyExchangeMessage_toObject U m opts) = Inr v" "same_key_exchange_message m v"
proof -
  let ?o = "options_or_empty opts"
  obtain x1 where x1: "number_from U (object_field (co_defaults ?o) (JInt 0) (map_option JInt (u_field (kx_id m)))) = Inr x1"
      "(case x1 of Some (JInt k) \<Rightarrow> k | _ \<Rightarrow> 0) = default_number (u_field (kx_id m))"
    by (rule number_back [OF fits])
  obtain x2 where x2: "bytes_from U (object_field (co_defaults ?o) (default_bytes ?o) (map_option (bytes_value U ?o) (kx_baseKey m))) = Inr x2"
      "(case x2 of Some (JBuf b') \<Rightarrow> b' | Some (JArr xs) \<Rightarrow> map byte_of_js xs | _ \<Rightarrow> []) = def_b (kx_baseKey m)"
    by (rule bytes_back [OF U])
  obtain x3 where x3: "bytes_from U (object_field (co_defaults ?o) (default_bytes ?o) (map_option (bytes_value U ?o) (kx_ephemeralKey m))) = Inr x3"
      "(case x3 of Some (JBuf b') \<Rightarrow> b' | Some (JArr xs) \<Rightarrow> map byte_of_js xs | _ \<Rightarrow> []) = def_b (kx_ephemeralKey m)"
    by (rule bytes_back [OF U])
  obtain x4 where x4: "bytes_from U (object_field (co_defaults ?o) (default_bytes ?o) (map_option (bytes_value U ?o) (kx_identityKey m))) = Inr x4"
      "(case x4 of Some (JBuf b') \<Rightarrow> b' | Some (JArr xs) \<Rightarrow> map byte_of_js xs | _ \<Rightarrow> []) = def_b (kx_identityKey m)"
    by (rule bytes_back [OF U])
  obtain x5 where x5: "bytes_from U (object_field (co_defaults ?o) (default_bytes ?o) (map_option (bytes_value U ?o) (kx_baseKeySignature m))) = Inr x5"
      "(case x5 of Some (JBuf b') \<Rightarrow> b' | Some (JArr xs) \<Rightarrow> map byte_of_js xs | _ \<Rightarrow> []) = def_b (kx_baseKeySignature m)"
    by (rule bytes_back [OF U])
  let ?fs = "[(''id'', x1), (''baseKey'', x2), (''ephemeralKey'', x3), (''identityKey'', x4), (''baseKeySignature'', x5)]"
  have obj: "\<not> js_nullish (KeyExchangeMessage_toObject U m opts)" by (simp add: KeyExchangeMessage_toObject_def Let_def)
  have "KeyExchangeMessage_fromObject U False (KeyExchangeMessage_toObject U m opts) = Inr (JObj (own_props ?fs))"
    by (simp add: KeyExchangeMessage_fromObject_def obj KeyExchangeMessage_toObject_get x1(1) x2(1) x3(1) x4(1) x5(1) res_simps)
  moreover have "same_key_exchange_message m (JObj (own_props ?fs))"
    by (simp add: same_key_exchange_message_def read_own [of ?fs] x1(2) x2(2) x3(2) x4(2) x5(2))
  ultimately show ?thesis by (rule that)
qed

lemma KeyExchangeMessage_json_back:
  assumes U: "util_ok U" and fits: "u32_opt (u_field (kx_id m))"
  shows "KeyExchangeMessage_fromObject U False (KeyExchangeMessage_toJSON U m) = Inr (JObj (key_exchange_props m))"
proof -
  let ?o = "options_or_empty (Some (pu_toJSONOptions U))"
  have o: "co_defaults ?o = False" "co_bytes ?o = BytesString" using U by (simp_all add: util_ok_def options_or_empty_def)
  have obj: "\<not> js_nullish (KeyExchangeMessage_toObject U m opts)" for opts by (simp add: KeyExchangeMessage_toObject_def Let_def)
  show ?thesis unfolding KeyExchangeMessage_toJSON_def
    by (simp add: KeyExchangeMessage_fromObject_def obj KeyExchangeMessage_toObject_get o bytes_back_json [OF U] number_back_json fits res_simps key_exchange_props_def)
qed

end
