(* ===== verification/Foundation_Properties.thy ===== *)
theory Foundation_Properties
  imports Instances Base64 Address Prekey_Validator Whisper_Protocol Group_Proto Message_Typing
begin

text \<open>
  The properties of the parts the protocol is built from: key derivation and MACs, key pairs,
  base64, addresses, the validators and the wire format.
\<close>

lemmas demo_parts = prims_okD [OF prims_ok_demo]

section \<open>Cryptographic glue\<close>

text \<open>C40: \<open>deriveSecrets\<close> is HKDF with SHA-256 (RFC 5869): for one to three chunks it returns the first
  blocks of the expansion, three by default, although it works in place on one buffer; other salts
  and chunk counts are refused.\<close>

theorem deriveSecrets_is_hkdf:
  assumes "hmac_ok P"
  shows "deriveSecrets P input salt info (Some n) =
      (if length salt \<noteq> 32 then Inl (Error ''Got salt of incorrect length'')
       else if n < 1 \<or> 3 < n then Inl (Error ''chunks must be between 1 and 3'')
       else Inr (hkdf P input salt info (nat n))) \<and>
    deriveSecrets P input salt info None = deriveSecrets P input salt info (Some 3)"
proof (cases "length salt = 32 \<and> 1 \<le> n \<and> n \<le> 3")
  case True
  then show ?thesis using deriveSecrets_rounds [OF assms] deriveSecrets_default by auto
next
  case False
  then show ?thesis by (auto simp: deriveSecrets_def Let_def)
qed

theorem deriveSecrets_is_hkdf_witness:
  "deriveSecrets demo_prims [7] (replicate 32 1) [9] (Some 2) = Inr (hkdf demo_prims [7] (replicate 32 1) [9] 2)"
  using deriveSecrets_is_hkdf [OF demo_parts(1), of "[7]" "replicate 32 1" "[9]" 2] by simp

text \<open>A MAC is accepted exactly when it is the truncated HMAC of the data, for every length up to 32.\<close>

theorem verifyMAC_exact:
  assumes "hmac_ok P" "len \<le> 32"
  shows "verifyMAC P data key mac len = Inr () \<longleftrightarrow> mac = take len (hmac_sha256 P key data)"
  using assms by (rule verifyMAC_iff)

theorem verifyMAC_exact_witness:
  "verifyMAC demo_prims [1] [2] (take 8 (hmac_sha256 demo_prims [2] [1])) 8 = Inr ()"
  using verifyMAC_exact [OF demo_parts(1), of 8 "[1]" "[2]"] by simp

text \<open>Generated key pairs work. A pair made from the DER keys the platform returns is well formed, two
  such pairs agree on a 32-byte secret whichever side computes it, and what the private key signs
  verifies under the public key.\<close>

theorem generated_keys_work:
  assumes "dh_ok P" "sign_ok P" "length a = 32" "length b = 32"
    and "A = generateKeyPair P (Inr (PUBLIC_KEY_DER_PREFIX @ x25519_public P a, PRIVATE_KEY_DER_PREFIX @ a)) r1"
    and "B = generateKeyPair P (Inr (PUBLIC_KEY_DER_PREFIX @ x25519_public P b, PRIVATE_KEY_DER_PREFIX @ b)) r2"
  shows "\<exists>s sig. length (pubKey A) = 33 \<and>
     calculateAgreement P (pubKey A) (privKey B) = Inr s \<and> calculateAgreement P (pubKey B) (privKey A) = Inr s \<and>
     length s = 32 \<and> calculateSignature P (privKey A) m = Inr sig \<and> verifySignature P (pubKey A) m sig = Inr True"
proof -
  have kp: "is_key_pair P A" "is_key_pair P B" unfolding assms(5,6) by (rule generateKeyPair_native [OF assms(1)], fact)+
  obtain s where "calculateAgreement P (pubKey A) (privKey B) = Inr s" "calculateAgreement P (pubKey B) (privKey A) = Inr s"
      "length s = 32" by (rule agreement_symmetric [OF assms(1) kp])
  moreover obtain sig where "calculateSignature P (privKey A) m = Inr sig"
    using sign_total [OF assms(2) is_key_pair_lengths(1) [OF assms(1) kp(1)]] by metis
  ultimately show ?thesis
    using signature_verifies [OF assms(1,2) kp(1)] is_key_pair_lengths(2) [OF assms(1) kp(1)] by blast
qed

theorem generated_keys_work_witness:
  "\<exists>s sig. calculateAgreement demo_prims (pubKey (demo_key 1)) (privKey (demo_key 2)) = Inr s \<and>
     calculateAgreement demo_prims (pubKey (demo_key 2)) (privKey (demo_key 1)) = Inr s \<and>
     calculateSignature demo_prims (privKey (demo_key 1)) [5] = Inr sig \<and>
     verifySignature demo_prims (pubKey (demo_key 1)) [5] sig = Inr True"
proof -
  have gen: "demo_key n = generateKeyPair demo_prims (Inr (PUBLIC_KEY_DER_PREFIX @ x25519_public demo_prims (privKey (demo_key n)),
      PRIVATE_KEY_DER_PREFIX @ privKey (demo_key n))) []" for n
    by (simp add: generateKeyPair_def demo_key_def demo_prims_def buf_slice_def prefixKeyInPublicKey_def
        KEY_BUNDLE_TYPE_def PUBLIC_KEY_DER_PREFIX_def PRIVATE_KEY_DER_PREFIX_def)
  show ?thesis
    using generated_keys_work [OF demo_parts(4,5) _ _ gen [of 1] gen [of 2], of "[5]"] by auto
qed

section \<open>Encodings\<close>

text \<open>An address survives \<open>toString\<close> and \<open>from\<close> exactly when its id has no dot and its device id is
  not negative, what \<open>from\<close> accepts is such an address, and different addresses have different strings.\<close>

theorem address_roundtrip:
  "(address_from (address_toString a) = Inr a \<longleftrightarrow> address_wf a) \<and>
   (address_from s = Inr b \<longrightarrow> address_wf b) \<and>
   (address_toString a = address_toString b \<longleftrightarrow> address_is a b)"
  using address_from_toString address_from_wf address_toString_inject by (auto simp: address_is_iff)

theorem address_roundtrip_witness:
  "address_from (address_toString \<lparr>addr_id = ''bob'', deviceId = 12\<rparr>) = Inr \<lparr>addr_id = ''bob'', deviceId = 12\<rparr>"
  using address_roundtrip [of "\<lparr>addr_id = ''bob'', deviceId = 12\<rparr>" "[]" "\<lparr>addr_id = ''bob'', deviceId = 12\<rparr>"]
  by (simp add: address_wf_def)

text \<open>The hash of a sender key name is built from Java's \<open>String.hashCode\<close>: the loop with its
  range test computes the 32-bit polynomial hash with wrap-around, read as a signed number.\<close>

theorem hashCode_is_java_hash:
  "hashCode s = sint (java_hash s) \<and>
   SenderKeyName_hashCode n = sint (java_hash (skn_groupId n)) XOR sint (java_hash (address_toString (skn_sender n)))"
  by (simp add: hashCode_java SenderKeyName_hashCode_def)

text \<open>C33: The validators accept exactly the documented values: the registration id range, the key and
  signature lengths, key ids of 24 bits, an optional one-time prekey, a non-empty message.\<close>

theorem validators_exact:
  "(assertValidDeviceKeyBundle v = Inr () \<longleftrightarrow> bundle_accepted v) \<and>
   (assertValidIncomingPreKeyMessage w = Inr () \<longleftrightarrow> incoming_accepted w)"
  by (simp add: bundle_accepted_iff incoming_accepted_iff)

section \<open>Wire format\<close>

text \<open>C29: Every message whose numbers fit 32 bits and whose byte fields are shorter than \<open>2 ^ 32\<close> is decoded
  back from its encoding, field by field, and absent fields stay absent.\<close>

theorem whisper_messages_roundtrip:
  assumes "wire_ok W"
  shows "(whisper_fits m \<longrightarrow> WhisperMessage_decode W (WhisperMessage_encode W m) = Inr m) \<and>
    (prekey_whisper_message_fits p \<longrightarrow> PreKeyWhisperMessage_decode W (PreKeyWhisperMessage_encode W p) = Inr p) \<and>
    (key_exchange_message_fits x \<longrightarrow> KeyExchangeMessage_decode W (KeyExchangeMessage_encode W x) = Inr x)"
  using WhisperMessage_decode_encode PreKeyWhisperMessage_decode_encode KeyExchangeMessage_decode_encode assms by blast

theorem whisper_messages_roundtrip_witness:
  "WhisperMessage_decode varint_wire (WhisperMessage_encode varint_wire
     \<lparr>wm_ephemeralKey = Some [5, 1], wm_counter = Some 300, wm_previousCounter = None, wm_ciphertext = Some [9]\<rparr>) =
   Inr \<lparr>wm_ephemeralKey = Some [5, 1], wm_counter = Some 300, wm_previousCounter = None, wm_ciphertext = Some [9]\<rparr>"
  using whisper_messages_roundtrip [OF wire_ok_varint, of "\<lparr>wm_ephemeralKey = Some [5, 1], wm_counter = Some 300,
      wm_previousCounter = None, wm_ciphertext = Some [9]\<rparr>"]
  by (simp add: whisper_fits_def len32_opt_def u32_opt_def)

text \<open>A message followed by other bytes, written with its length in front, is read back together with the
  bytes that follow.\<close>

theorem delimited_roundtrip:
  assumes "wire_ok W" "whisper_fits m" "length (WhisperMessage_encode W m) < 2 ^ 32"
  shows "WhisperMessage_decodeDelimited W (WhisperMessage_encodeDelimited W m @ rest) = Inr (m, rest)"
  unfolding WhisperMessage_decodeDelimited_def WhisperMessage_encodeDelimited_def
  using delimited_written [OF assms(1,3), of "WhisperMessage_read W" rest m] WhisperMessage_read_encode [OF assms(1,2), of rest]
  by simp

theorem delimited_roundtrip_witness:
  "WhisperMessage_decodeDelimited varint_wire (WhisperMessage_encodeDelimited varint_wire
     \<lparr>wm_ephemeralKey = None, wm_counter = Some 3, wm_previousCounter = None, wm_ciphertext = None\<rparr> @ [8, 8]) =
   Inr (\<lparr>wm_ephemeralKey = None, wm_counter = Some 3, wm_previousCounter = None, wm_ciphertext = None\<rparr>, [8, 8])"
  by (rule delimited_roundtrip [OF wire_ok_varint])
    (simp_all add: whisper_fits_def len32_opt_def u32_opt_def WhisperMessage_encode_def put_b_def put_u_def
      varint_wire_def leb.simps)

text \<open>C36: The decode loops end on every input, well formed or not: after at most one round per byte they
  have a message or an error, also when the announced length lies behind the end of the input.\<close>

theorem decoding_terminates:
  assumes "wire_ok W" "length bs < fuel"
  shows "decode_fields W (WhisperMessage_step W) fuel stop m bs \<noteq> None \<and>
    decode_fields W (PreKeyWhisperMessage_step W) fuel stop p bs \<noteq> None \<and>
    decode_fields W (KeyExchangeMessage_step W) fuel stop x bs \<noteq> None \<and>
    decode_fields W (SenderKeyMessageProto_step W) fuel stop g bs \<noteq> None \<and>
    decode_fields W (SenderKeyDistributionMessageProto_step W) fuel stop d bs \<noteq> None"
  using decode_fields_enough [OF assms(1) WhisperMessage_step_ok [OF assms(1)] assms(2), of stop m]
    decode_fields_enough [OF assms(1) PreKeyWhisperMessage_step_ok [OF assms(1)] assms(2), of stop p]
    decode_fields_enough [OF assms(1) KeyExchangeMessage_step_ok [OF assms(1)] assms(2), of stop x]
    decode_fields_enough [OF assms(1) SenderKeyMessageProto_step_ok [OF assms(1)] assms(2), of stop g]
    decode_fields_enough [OF assms(1) SenderKeyDistributionMessageProto_step_ok [OF assms(1)] assms(2), of stop d]
  by auto

theorem decoding_terminates_witness:
  "decode_fields varint_wire (WhisperMessage_step varint_wire) 4 (- 5) WhisperMessage_create [255, 10, 3] \<noteq> None"
  using decoding_terminates [OF wire_ok_varint, of "[255, 10, 3]" 4 "- 5" WhisperMessage_create] by simp

text \<open>C30: The group messages survive their encoding.\<close>

theorem group_messages_roundtrip:
  assumes "wire_ok W"
  shows "(skm_fits m \<longrightarrow> SenderKeyMessageProto_decode W (SenderKeyMessageProto_encode W m) = Inr m) \<and>
    (skd_fits d \<longrightarrow> SenderKeyDistributionMessageProto_decode W (SenderKeyDistributionMessageProto_encode W d) = Inr d)"
  using SenderKeyMessageProto_decode_encode SenderKeyDistributionMessageProto_decode_encode assms by blast

theorem group_messages_roundtrip_witness:
  "SenderKeyMessageProto_decode varint_wire (SenderKeyMessageProto_encode varint_wire
     \<lparr>skm_id = 7, skm_iteration = 0, skm_ciphertext = [1]\<rparr>) = Inr \<lparr>skm_id = 7, skm_iteration = 0, skm_ciphertext = [1]\<rparr>"
  using group_messages_roundtrip [OF wire_ok_varint, of "\<lparr>skm_id = 7, skm_iteration = 0, skm_ciphertext = [1]\<rparr>"]
  by (simp add: skm_fits_def fits_b_def)

text \<open>
  The package's utilities with the base64 of \<open>Base64\<close>; writing behind the end of a buffer is ignored.
\<close>

definition demo_util :: pb_util where
  "demo_util =
     \<lparr>pu_isInteger = (\<lambda>v. case v of JInt _ \<Rightarrow> True | _ \<Rightarrow> False), pu_isString = (\<lambda>v. case v of JStr _ \<Rightarrow> True | _ \<Rightarrow> False),
      pu_newBuffer = (\<lambda>n. replicate n 0), pu_base64_length = (\<lambda>s. length (b64_decode s)),
      pu_base64_decode = (\<lambda>s buf offset. Inr (take (length buf) (take offset buf @ b64_decode s))),
      pu_base64_encode = (\<lambda>b start n. b64_encode (take n (drop start b))),
      pu_toJSONOptions = \<lparr>co_bytes = BytesString, co_defaults = False\<rparr>, pu_toUint32 = (\<lambda>_. 0)\<rparr>"

lemma demo_util_ok: "util_ok demo_util"
  by (auto simp: util_ok_def demo_util_def split: jsval.splits)

text \<open>C31: Typing of the pairwise messages. When \<open>verify\<close> accepts a value and its byte fields are absent, buffers
  or base64 text (\<open>verify\<close> only asks whether they have a length), \<open>fromObject\<close> does not throw and gives a
  message of its declared type, every number of which fits 32 bits.\<close>

theorem verified_objects_typed:
  assumes "util_ok U"
  shows "(WhisperMessage_verify U v = None \<and> (\<forall>f \<in> {''ephemeralKey'', ''ciphertext''}. bytes_source U (js_get v f)) \<longrightarrow>
      (\<exists>m. WhisperMessage_fromObject U False v = Inr (JObj (whisper_props m)) \<and> u32_opt (wm_counter m) \<and> u32_opt (wm_previousCounter m))) \<and>
    (PreKeyWhisperMessage_verify U v = None \<and> (\<forall>f \<in> {''baseKey'', ''identityKey'', ''message''}. bytes_source U (js_get v f)) \<longrightarrow>
      (\<exists>m. PreKeyWhisperMessage_fromObject U False v = Inr (JObj (prekey_whisper_props m)) \<and>
        (\<forall>n \<in> {pk_registrationId m, pk_preKeyId m, pk_signedPreKeyId m}. u32_opt (u_field n)))) \<and>
    (KeyExchangeMessage_verify U v = None \<and>
       (\<forall>f \<in> {''baseKey'', ''ephemeralKey'', ''identityKey'', ''baseKeySignature''}. bytes_source U (js_get v f)) \<longrightarrow>
      (\<exists>m. KeyExchangeMessage_fromObject U False v = Inr (JObj (key_exchange_props m)) \<and> u32_opt (u_field (kx_id m))))"
proof (intro conjI impI, goal_cases)
  case 1
  then show ?case using WhisperMessage_typed [OF assms, of v] by (metis insertCI)
next
  case 2
  then show ?case using PreKeyWhisperMessage_typed [OF assms, of v] by (metis insertCI insertE singletonD)
next
  case 3
  then show ?case using KeyExchangeMessage_typed [OF assms, of v] by (metis insertCI)
qed

theorem verified_objects_typed_witness:
  "\<exists>m. WhisperMessage_fromObject demo_util False
      (JObj [(''counter'', JInt (-1)), (''ciphertext'', JBuf [1, 2])]) = Inr (JObj (whisper_props m)) \<and> u32_opt (wm_counter m)"
proof -
  have "WhisperMessage_verify demo_util (JObj [(''counter'', JInt (-1)), (''ciphertext'', JBuf [1, 2])]) = None"
    by (simp add: WhisperMessage_verify_def verify_fields_def verify_buffer_def verify_integer_def demo_util_def)
  moreover have "\<forall>f \<in> {''ephemeralKey'', ''ciphertext''}.
      bytes_source demo_util (js_get (JObj [(''counter'', JInt (-1)), (''ciphertext'', JBuf [1, 2])]) f)"
    by (simp add: bytes_source_def)
  ultimately show ?thesis using verified_objects_typed [OF demo_util_ok] by blast
qed

text \<open>C32: The object form of a pairwise message is read back. Whatever the options of \<open>toObject\<close>, \<open>fromObject\<close>
  gives a message whose fields read as before; from the JSON form it gives the message itself, fields
  that are not set included.\<close>

theorem object_forms_roundtrip:
  assumes "util_ok U"
  shows "(u32_opt (wm_counter m) \<and> u32_opt (wm_previousCounter m) \<longrightarrow>
      (\<exists>v. WhisperMessage_fromObject U False (WhisperMessage_toObject U m opts) = Inr v \<and> same_whisper_message m v) \<and>
      WhisperMessage_fromObject U False (WhisperMessage_toJSON U m) = Inr (JObj (whisper_props m))) \<and>
    (u32_opt (u_field (pk_registrationId p)) \<and> u32_opt (u_field (pk_preKeyId p)) \<and> u32_opt (u_field (pk_signedPreKeyId p)) \<longrightarrow>
      (\<exists>v. PreKeyWhisperMessage_fromObject U False (PreKeyWhisperMessage_toObject U p opts) = Inr v \<and> same_prekey_whisper_message p v) \<and>
      PreKeyWhisperMessage_fromObject U False (PreKeyWhisperMessage_toJSON U p) = Inr (JObj (prekey_whisper_props p))) \<and>
    (u32_opt (u_field (kx_id k)) \<longrightarrow>
      (\<exists>v. KeyExchangeMessage_fromObject U False (KeyExchangeMessage_toObject U k opts) = Inr v \<and> same_key_exchange_message k v) \<and>
      KeyExchangeMessage_fromObject U False (KeyExchangeMessage_toJSON U k) = Inr (JObj (key_exchange_props k)))"
proof (intro conjI impI, goal_cases)
  case 1
  then show ?case using WhisperMessage_object_back [OF assms, of m opts] by metis
next
  case 2
  then show ?case using WhisperMessage_json_back [OF assms] by blast
next
  case 3
  then show ?case using PreKeyWhisperMessage_object_back [OF assms, of p opts] by metis
next
  case 4
  then show ?case using PreKeyWhisperMessage_json_back [OF assms] by blast
next
  case 5
  then show ?case using KeyExchangeMessage_object_back [OF assms, of k opts] by metis
next
  case 6
  then show ?case using KeyExchangeMessage_json_back [OF assms] by blast
qed

theorem object_forms_roundtrip_witness:
  "\<exists>v. WhisperMessage_fromObject demo_util False
      (WhisperMessage_toObject demo_util \<lparr>wm_ephemeralKey = Some [5], wm_counter = Some 7, wm_previousCounter = None, wm_ciphertext = Some []\<rparr>
        (Some \<lparr>co_bytes = BytesArray, co_defaults = True\<rparr>)) = Inr v \<and> read_bytes v ''ephemeralKey'' = [5] \<and> read_number v ''counter'' = 7"
proof -
  let ?m = "\<lparr>wm_ephemeralKey = Some [5], wm_counter = Some 7, wm_previousCounter = None, wm_ciphertext = Some []\<rparr>"
  have "u32_opt (wm_counter ?m) \<and> u32_opt (wm_previousCounter ?m)" by (simp add: u32_opt_def)
  with object_forms_roundtrip [OF demo_util_ok, of ?m "Some \<lparr>co_bytes = BytesArray, co_defaults = True\<rparr>"]
  obtain v where "WhisperMessage_fromObject demo_util False
      (WhisperMessage_toObject demo_util ?m (Some \<lparr>co_bytes = BytesArray, co_defaults = True\<rparr>)) = Inr v" "same_whisper_message ?m v"
    by blast
  then show ?thesis by (intro exI [of _ v]) (simp add: same_whisper_message_def def_b_def default_number_def)
qed

end
