(* ===== verification/Session_Store.thy ===== *)
theory Session_Store
  imports Delivery
begin

text \<open>
  What the session code needs of a storage, as the locales \<open>session_store\<close> and \<open>signal_store\<close>, and what the session
  operations then guarantee: every operation keeps all stored records within the invariant, and a
  decryption that fails leaves every stored session as it was.
\<close>

section \<open>The contract of a storage\<close>

locale session_store =
  fixes S :: "'s signal_storage" and good :: "'s \<Rightarrow> bool"
  assumes load_ok: "good s \<Longrightarrow> loadSession S a s = Inr (Some r) \<Longrightarrow> stored_ok r"
    and store_good: "good s \<Longrightarrow> stored_ok r \<Longrightarrow> good (snd (storeSession S a r s))"
    and store_total: "fst (storeSession S a r s) = Inr ()"
    and load_store: "good s \<Longrightarrow> stored_ok r \<Longrightarrow>
      loadSession S b (snd (storeSession S a r s)) = (if b = a then Inr (Some r) else loadSession S b s)"
    and store_keys: "getOurIdentity S (snd (storeSession S a r s)) = getOurIdentity S s"
    and trust_good: "good s \<Longrightarrow> good (snd (isTrustedIdentity S i k d s))"
    and trust_load: "loadSession S a (snd (isTrustedIdentity S i k d s)) = loadSession S a s"
    and trust_keys: "getOurIdentity S (snd (isTrustedIdentity S i k d s)) = getOurIdentity S s"
    and trust_pins: "isTrustedIdentity S i k d s = (Inr True, s') \<Longrightarrow> isTrustedIdentity S i k d' s' = (Inr True, s')"
    and remove_good: "good s \<Longrightarrow> good (snd (removePreKey S n s))"
    and remove_load: "loadSession S a (snd (removePreKey S n s)) = loadSession S a s"

text \<open>A storage that removes prekeys without fail; one that writes a file may throw there.\<close>

locale signal_store = session_store +
  assumes remove_total: "fst (removePreKey S n s) = Inr ()"

definition env_ok :: "env \<Rightarrow> bool" where
  "env_ok E \<longleftrightarrow> hmac_ok (ev_prims E) \<and> dh_ok (ev_prims E) \<and> 0 \<le> ev_now E \<and> (\<forall>i. is_key_pair (ev_prims E) (ev_fresh E i))"

section \<open>New sessions are well formed\<close>

lemma calculateSendingRatchet_ok:
  assumes "hmac_ok P" "keys_ok s" "calculateSendingRatchet P k s = Inr s'" "chains s = []"
  shows "entry_ok s'" "same_session s s'"
proof -
  let ?eph = "pubKey (ephemeralKeyPair (currentRatchet s))"
  from assms(3) obtain sec mk where mk: "deriveSecrets P sec (rootKey (currentRatchet s)) (ascii ''WhisperRatchet'') None = Inr mk"
    and s': "s' = set_root (mk ! 0) (putChain ?eph (new_chain (mk ! 1) SENDING) s)"
    by (auto simp: calculateSendingRatchet_def Let_def rbind_eq_Inr addChain_Inr set_root_def new_chain_def)
  have "length (rootKey (currentRatchet s)) = 32" using deriveSecrets_salt [OF mk] .
  then have "mk = hkdf P sec (rootKey (currentRatchet s)) (ascii ''WhisperRatchet'') 3"
    using mk by (simp add: derive3 [OF assms(1)])
  then have "length (mk ! 1) = 32" using assms(1) by simp
  then have "mk ! 1 \<noteq> []" by force
  moreover have "getChain ?eph s = None" "receiving_ids s = []"
    using assms(4) by (simp_all add: getChain_def receiving_ids_def)
  ultimately show "entry_ok s'" "same_session s s'"
    using assms(2) unfolding s'
    by (simp_all add: set_root_def entry_ok_keys keys_ok_put new_chain_ok receiving_ids_put_new)
qed

lemma initSession_ok:
  assumes "hmac_ok P" "initSession P now fresh our ini e sk k te ts rid = Inr s'"
  shows "entry_ok s'" "\<not> isClosed s'" "Inr (baseKey (indexInfo s')) = need (if ini then map_option pubKey e else te)"
    "remoteIdentityKey (indexInfo s') = k"
proof -
  define start where "start eph theirs root base =
      \<lparr>entryVersion = SESSION_ENTRY_VERSION, se_registrationId = rid,
       currentRatchet = \<lparr>ephemeralKeyPair = eph, lastRemoteEphemeralKey = theirs, previousCounter = 0, rootKey = root\<rparr>,
       indexInfo = \<lparr>baseKey = base, baseKeyType = (if ini then OURS else THEIRS), ii_closed = - 1,
                    ii_used = now, ii_created = now, remoteIdentityKey = k\<rparr>,
       pendingPreKey = None, chains = []\<rparr>" for eph theirs root base
  from assms(2) obtain eph theirs root base where base: "need (if ini then map_option pubKey e else te) = Inr base"
    and s': "(if ini then calculateSendingRatchet P theirs (start eph theirs root base) else Inr (start eph theirs root base)) = Inr s'"
    unfolding initSession_def Let_def start_def rbind_eq_Inr by blast
  define s0 where "s0 = start eph theirs root base"
  have s0: "chains s0 = []" "entryVersion s0 = SESSION_ENTRY_VERSION" "\<not> isClosed s0" "baseKey (indexInfo s0) = base"
      "remoteIdentityKey (indexInfo s0) = k"
    by (simp_all add: s0_def start_def isClosed_def)
  have keys: "keys_ok s0" using s0(1,2) by (simp add: keys_ok_def entry_wf_def)
  have "entry_ok s' \<and> same_session s0 s'"
    using calculateSendingRatchet_ok [OF assms(1) keys _ s0(1)] s' [folded s0_def] keys s0(1)
    by (cases ini) (auto simp: entry_ok_keys receiving_ids_def)
  then show "entry_ok s'" "\<not> isClosed s'" "Inr (baseKey (indexInfo s')) = need (if ini then map_option pubKey e else te)"
    "remoteIdentityKey (indexInfo s') = k"
    using s0 base by (simp_all add: same_session_def isClosed_def)
qed

lemma record_ok_fresh:
  assumes "record_ok r" "0 \<le> now" "entry_ok e" "baseKey (indexInfo e) \<noteq> []"
  shows "record_ok (setSession e (closeOpenSession now r))"
proof -
  have "now \<noteq> - 1" using assms(2) by simp
  note c = record_ok_close [OF assms(1) this]
  have "open_count (sessions (setSession e (closeOpenSession now r))) \<le> 1"
    using open_count_set [of "b64_encode (baseKey (indexInfo e))" e "sessions (closeOpenSession now r)"] c(2)
    by (simp add: setSession_def split: if_splits)
  then show ?thesis by (rule record_ok_set [OF c(1) assms(3,4)])
qed

section \<open>The operations keep the contract\<close>

lemma find_in: "find P xs = Some x \<Longrightarrow> x \<in> set xs \<and> P x"
  by (induction xs) (auto split: if_splits)

lemma update_first_open_set:
  assumes "record_ok r" "getOpenSession r = Some e" "baseKey (indexInfo e') = baseKey (indexInfo e)"
  shows "r\<lparr>sessions := update_first_open e' (sessions r)\<rparr> = setSession e' r"
proof -
  have "find (\<lambda>s. \<not> isClosed s) (map snd ss) = Some e \<Longrightarrow> obj_wf ss \<Longrightarrow>
      (\<forall>(k, s)\<in>set ss. k = b64_encode (baseKey (indexInfo s))) \<Longrightarrow>
      update_first_open e' ss = obj_set (b64_encode (baseKey (indexInfo e))) e' ss" for ss
  proof (induction ss)
    case (Cons p ss)
    obtain k s where p: "p = (k, s)" by (cases p)
    show ?case
    proof (cases "isClosed s")
      case True
      with Cons.prems p have f: "find (\<lambda>s. \<not> isClosed s) (map snd ss) = Some e" by simp
      then have "e \<in> set (map snd ss)" using find_in [OF f] by simp
      then have "b64_encode (baseKey (indexInfo e)) \<in> fst ` set ss" using Cons.prems(3) by force
      then have "k \<noteq> b64_encode (baseKey (indexInfo e))" using Cons.prems(2) p by auto
      with True Cons f p show ?thesis by simp
    next
      case False
      with Cons.prems p show ?thesis by auto
    qed
  qed simp
  from this [of "sessions r"] have "update_first_open e' (sessions r) = obj_set (b64_encode (baseKey (indexInfo e))) e' (sessions r)"
    using assms(1,2) by (fastforce simp: record_ok_def record_wf_def getOpenSession_def)
  then show ?thesis using assms(3) by (simp add: setSession_def)
qed

lemma getOpenSession_in:
  assumes "getOpenSession r = Some e"
  obtains k where "(k, e) \<in> set (sessions r)" "\<not> isClosed e"
proof -
  from assms have "e \<in> set (map snd (sessions r))" "\<not> isClosed e"
    unfolding getOpenSession_def by (blast dest: find_in)+
  then show thesis using that by auto
qed

lemma try_sessions_ok:
  assumes "hmac_ok P" "try_sessions P W our now fresh data i ss errs = Inr (s', pt)" "\<forall>s\<in>set ss. entry_ok s"
  obtains s s0 j where "s \<in> set ss" "doDecryptWhisperMessage P W our (fresh j) data s = Inr (pt, s0)" "entry_ok s0"
    "same_session s s0" "s' = s0\<lparr>indexInfo := (indexInfo s0)\<lparr>ii_used := now\<rparr>\<rparr>"
  using assms(2,3)
proof (induction ss arbitrary: i errs thesis)
  case (Cons session r)
  have des: "SessionEntry_deserialize (SessionEntry_serialize session) = Inr session"
    using Cons.prems(3) by (simp add: entry_roundtrip entry_ok_wf)
  show ?case
  proof (cases "doDecryptWhisperMessage P W our (fresh i) data session")
    case (Inl e)
    with Cons.prems(2) des have "try_sessions P W our now fresh data (Suc i) r (errs @ [e]) = Inr (s', pt)" by simp
    from Cons.prems(3) have "\<forall>s\<in>set r. entry_ok s" by simp
    from Cons.IH [OF _ \<open>try_sessions P W our now fresh data (Suc i) r (errs @ [e]) = Inr (s', pt)\<close> this]
    show ?thesis using Cons.prems(1) by (metis list.set_intros(2))
  next
    case (Inr p)
    obtain pt0 s0 where p: "p = (pt0, s0)" by (cases p)
    from Cons.prems(2) have "s' = s0\<lparr>indexInfo := (indexInfo s0)\<lparr>ii_used := now\<rparr>\<rparr>" "pt0 = pt"
      by (simp_all add: des Inr p)
    moreover from Cons.prems(3) have "entry_ok session" by simp
    ultimately show ?thesis
      using Cons.prems(1) [of session i s0] doDecrypt_ok [OF assms(1) _ Inr [unfolded p]] Inr p by simp
  qed
qed simp

lemma set_getSessions: "set (getSessions r) = snd ` set (sessions r)"
  by (simp add: getSessions_def)

lemma decrypted_record_ok:
  assumes "hmac_ok (ev_prims E)" "record_ok r" "decryptWithSessions E our data (getSessions r) = Inr (session, pt)"
  shows "record_ok (setSession (touch_closed (ev_now E) session) r)"
proof -
  have "\<forall>s\<in>set (getSessions r). entry_ok s" using assms(2) by (auto simp: set_getSessions record_ok_def)
  moreover have "try_sessions (ev_prims E) (ev_wire E) our (ev_now E) (ev_fresh E) data 0 (getSessions r) [] = Inr (session, pt)"
    using assms(3) by (simp add: decryptWithSessions_def split: if_splits)
  ultimately obtain s s0 where s: "s \<in> set (getSessions r)" "entry_ok s0" "same_session s s0"
      "session = s0\<lparr>indexInfo := (indexInfo s0)\<lparr>ii_used := ev_now E\<rparr>\<rparr>"
    using try_sessions_ok [OF assms(1)] by metis
  then obtain k where k: "(k, s) \<in> set (sessions r)" by (auto simp: set_getSessions)
  show ?thesis
    by (rule record_ok_replace [OF assms(2) k])
      (use s in \<open>simp_all add: touch_closed_def isClosed_def same_session_def\<close>)
qed

lemma getSession_in:
  assumes "getSession k r = Inr (Some e)"
  obtains "(b64_encode k, e) \<in> set (sessions r)"
  using assms by (auto simp: getSession_def Let_def split: option.splits if_splits dest: obj_get_Some_in)

lemma prekey_record_ok:
  assumes "hmac_ok P" "record_ok r" "getSession k r = Inr (Some e)"
    "SessionEntry_deserialize (SessionEntry_serialize e) = Inr c" "doDecryptWhisperMessage P W our fresh buf c = Inr (pt, e')"
  shows "record_ok (setSession e' r)"
proof -
  from assms(3) have e: "(b64_encode k, e) \<in> set (sessions r)" by (rule getSession_in)
  note ok = record_ok_get(1) [OF assms(2) e]
  have "c = e" using assms(4) entry_roundtrip [OF entry_ok_wf [OF ok]] by simp
  with doDecrypt_ok [OF assms(1) ok] assms(5) have "entry_ok e'" "indexInfo e' = indexInfo e"
    by (auto simp: same_session_def)
  then show ?thesis using record_ok_replace [OF assms(2) e] by (simp add: isClosed_def)
qed

definition unchanged :: "'s signal_storage \<Rightarrow> 's \<Rightarrow> 's \<Rightarrow> bool" where
  "unchanged S s0 s \<longleftrightarrow> (\<forall>a. loadSession S a s = loadSession S a s0)"

lemma unchanged_refl [simp]: "unchanged S s s"
  by (simp add: unchanged_def)

context session_store
begin

lemma keeps_getRecord:
  "sc_storage C = S \<Longrightarrow> keeps (\<lambda>s. good s \<and> J s) (getRecord C) (\<lambda>r. \<forall>x. r = Some x \<longrightarrow> stored_ok x)"
  unfolding getRecord_def by (rule keeps_sread) (auto dest: load_ok)

lemma keeps_untrusted: "keeps I (untrustedIdentityError S addr k) Q"
  unfolding keeps_def using untrustedIdentityError_throws by fast

lemma keeps_trusted:
  assumes "\<And>s i k d. I s \<Longrightarrow> I (snd (isTrustedIdentity S i k d s))"
  shows "keeps I (isTrusted_or_throw S addr k d) (\<lambda>_. True)"
  unfolding isTrusted_or_throw_def
proof (rule keeps_step)
  show "keeps I (isTrustedIdentity S (addr_id addr) k d) (\<lambda>_. True)"
    unfolding keeps_def using assms by (metis snd_conv)
  show "keeps I (if ok then sret () else untrustedIdentityError S addr k) (\<lambda>_. True)" for ok
    by (simp add: keeps_untrusted keeps_sret)
qed

lemma trust_both: "good s \<and> unchanged S s0 s \<Longrightarrow>
    good (snd (isTrustedIdentity S i k d s)) \<and> unchanged S s0 (snd (isTrustedIdentity S i k d s))"
  using trust_good trust_load by (simp add: unchanged_def)

lemma store_run: "storeSession S a r s = (Inr (), snd (storeSession S a r s))"
  using store_total [of a r s] by (simp add: prod_eq_iff)

lemma storeRecord_run:
  assumes "sc_storage C = S" "record_ok r"
  obtains r' where "expire_record (ev_now E) (sc_staleSessionMaxAgeMs C) r = Inr r'" "stored_ok r'"
    "\<And>s. storeRecord E C r s = (Inr (), snd (storeSession S (address_toString (sc_addr C)) r' s))"
proof -
  obtain r' where r': "expire_record (ev_now E) (sc_staleSessionMaxAgeMs C) r = Inr r'" "stored_ok r'"
    by (rule expire_record_ok [OF assms(2)])
  have "storeRecord E C r s = (Inr (), snd (storeSession S (address_toString (sc_addr C)) r' s))" for s
    unfolding storeRecord_def sbind_slift r'(1) sum.case assms(1) using store_run by simp
  with r' show thesis by (rule that)
qed

lemma keeps_storeRecord:
  assumes "sc_storage C = S" "record_ok r"
  shows "keeps good (storeRecord E C r) (\<lambda>_. True)"
proof -
  obtain r' where r': "stored_ok r'"
    "\<And>s. storeRecord E C r s = (Inr (), snd (storeSession S (address_toString (sc_addr C)) r' s))"
    using storeRecord_run [OF assms] by metis
  then show ?thesis unfolding keeps_def using store_good by simp
qed

lemma stored_record: "stored_ok r \<Longrightarrow> record_ok r"
  by (simp add: stored_ok_def)

theorem encrypt_good:
  assumes "env_ok E" "sc_storage C = S"
  shows "keeps good (encrypt E C data) (\<lambda>_. True)"
proof -
  have hm: "hmac_ok (ev_prims E)" using assms(1) by (simp add: env_ok_def)
  have load: "keeps good (getRecord C) (\<lambda>r. \<forall>x. r = Some x \<longrightarrow> stored_ok x)"
    using keeps_getRecord [OF assms(2), of "\<lambda>_. True"] by simp
  have trusted: "keeps good (isTrusted_or_throw S addr k d) (\<lambda>_. True)" for addr k d
    by (rule keeps_trusted) (rule trust_good)
  have store: "keeps good (storeRecord E C (r\<lparr>sessions := update_first_open e' (sessions r)\<rparr>)) (\<lambda>_. True)"
    if "stored_ok r" "getOpenSession r = Some e" "encryptMessage (ev_prims E) (ev_wire E) our data e = Inr (buf, e')"
    for r e e' our buf
  proof -
    have r: "record_ok r" using that(1) by (rule stored_record)
    from getOpenSession_in [OF that(2)] obtain k where k: "(k, e) \<in> set (sessions r)" .
    note e' = encryptMessage_ok [OF hm record_ok_get(1) [OF r k] that(3)]
    then have idx: "indexInfo e' = indexInfo e" by (simp add: same_session_def)
    have "record_ok (setSession e' r)"
      using record_ok_replace [OF r k e'(1)] idx by (simp add: isClosed_def)
    then show ?thesis
      using keeps_storeRecord [OF assms(2)] update_first_open_set [OF r that(2), of e'] idx by simp
  qed
  have wrap: "keeps good (wrap_prekey E C our result p) (\<lambda>_. True)" for our result p
    unfolding wrap_prekey_def by (intro keeps_step keeps_sread keeps_slift keeps_sret) simp_all
  show ?thesis
    unfolding encrypt_def Let_def assms(2)
    apply (rule keeps_step [OF keeps_sread], simp)
    apply (rule keeps_sbind [OF load])
    apply (clarsimp split: option.splits simp: keeps_slift)
    apply (rule keeps_step [OF trusted])
    apply (rule keeps_slift_bind)
    apply clarsimp
    apply (rule keeps_step [OF store], assumption+)
    apply (auto split: option.splits intro!: keeps_sret keeps_step [OF wrap])
    done
qed

lemma keeps_both_trusted:
  "keeps (\<lambda>s. good s \<and> unchanged S s0 s) (isTrusted_or_throw S addr k d) (\<lambda>_. True)"
  by (rule keeps_trusted) (rule trust_both)

lemma keeps_good_trusted: "keeps good (isTrusted_or_throw S addr k d) (\<lambda>_. True)"
  by (rule keeps_trusted) (rule trust_good)

lemma keeps_good_getRecord:
  "sc_storage C = S \<Longrightarrow> keeps good (getRecord C) (\<lambda>r. \<forall>x. r = Some x \<longrightarrow> stored_ok x)"
  using keeps_getRecord [of C "\<lambda>_. True"] by simp

lemma clean_store_then:
  assumes "sc_storage C = S" "record_ok r" "\<And>s. fst (m s) = Inr x"
  shows "fails_clean I (sbind (storeRecord E C r) (\<lambda>_. m))"
proof (rule fails_clean_never)
  fix s e s'
  obtain s1 where "storeRecord E C r s = (Inr (), s1)" using storeRecord_run [OF assms(1,2)] by metis
  then have "fst (sbind (storeRecord E C r) (\<lambda>_. m) s) = Inr x"
    using assms(3) by (simp add: sbind_def)
  then show "sbind (storeRecord E C r) (\<lambda>_. m) s \<noteq> (Inl e, s')" by force
qed

theorem decryptWhisper_good:
  assumes "env_ok E" "sc_storage C = S"
  shows "keeps good (decryptWhisperMessage E C data) (\<lambda>_. True)"
proof -
  have hm: "hmac_ok (ev_prims E)" using assms(1) by (simp add: env_ok_def)
  show ?thesis
    unfolding decryptWhisperMessage_def Let_def assms(2)
    apply (rule keeps_sbind [OF keeps_good_getRecord [OF assms(2)]])
    apply (clarsimp split: option.splits simp: keeps_slift)
    apply (rule keeps_read_bind, clarsimp)
    apply (rule keeps_step [OF keeps_good_trusted])
    apply (rule keeps_step [OF keeps_storeRecord [OF assms(2) decrypted_record_ok [OF hm stored_record]]], assumption+)
    apply (rule keeps_sret, rule TrueI)
    done
qed

theorem decryptWhisper_clean:
  assumes "env_ok E" "sc_storage C = S"
  shows "fails_clean (\<lambda>s. good s \<and> unchanged S s0 s) (decryptWhisperMessage E C data)"
proof -
  have hm: "hmac_ok (ev_prims E)" using assms(1) by (simp add: env_ok_def)
  show ?thesis
    unfolding decryptWhisperMessage_def Let_def assms(2)
    apply (rule fails_clean_sbind [OF keeps_getRecord [OF assms(2)]])
    apply (clarsimp split: option.splits simp: clean_slift)
    apply (rule clean_read_bind, clarsimp)
    apply (rule clean_step [OF keeps_both_trusted])
    apply (rule clean_store_then [OF assms(2) decrypted_record_ok [OF hm stored_record]], assumption+)
    apply (simp add: sret_def)
    done
qed

lemma initIncoming_keeps:
  assumes "env_ok E" "stored_ok r" "\<And>s i k d. I s \<Longrightarrow> I (snd (isTrustedIdentity S i k d s))"
  shows "keeps I (initIncoming E S addr r m) (\<lambda>(r', _). record_ok r')"
proof -
  have hm: "hmac_ok (ev_prims E)" and now: "0 \<le> ev_now E" using assms(1) by (simp_all add: env_ok_def)
  have ro: "record_ok r" using assms(2) by (rule stored_record)
  show ?thesis
    unfolding initIncoming_def Let_def
    apply (rule keeps_slift_bind)
    apply (rule keeps_step [OF keeps_trusted], erule assms(3))
    apply (rule keeps_slift_bind)
    apply (rule keeps_if, rule keeps_sret, simp add: ro)
    apply (rule keeps_step, (intro keeps_option keeps_sret keeps_step keeps_sread keeps_if keeps_slift; simp))
    apply (rule keeps_step, (intro keeps_option keeps_sret keeps_sread; simp))
    apply (rule keeps_if, rule keeps_slift, simp)
    apply (rule keeps_step [OF keeps_sread], simp)
    apply (rule keeps_slift_bind)
    apply (rule keeps_sret, simp)
    apply (rule record_ok_fresh [OF ro now])
    subgoal by (rule initSession_ok(1) [OF hm])
    subgoal by (auto simp: assert_incoming incoming_valid_def need_def dest!: initSession_ok(3) [OF hm])
    done
qed

lemma stored_or_new: "\<forall>x. loaded = Some x \<longrightarrow> stored_ok x \<Longrightarrow>
    stored_ok (case loaded of None \<Rightarrow> new_session_record | Some r \<Rightarrow> r)"
  using record_ok_new by (auto simp: stored_ok_def new_session_record_def split: option.splits)

lemma keeps_remove: "keeps good (case i of None \<Rightarrow> sret () | Some n \<Rightarrow> removePreKey S n) (\<lambda>_. True)"
  by (rule keeps_option, rule keeps_sret, rule TrueI) (simp add: keeps_def, metis remove_good snd_conv)

theorem decryptPreKey_good:
  assumes "env_ok E" "sc_storage C = S"
  shows "keeps good (decryptPreKeyWhisperMessage E C data) (\<lambda>_. True)"
proof -
  have hm: "hmac_ok (ev_prims E)" using assms(1) by (simp add: env_ok_def)
  show ?thesis
    unfolding decryptPreKeyWhisperMessage_def Let_def assms(2)
    apply (rule keeps_if, rule keeps_slift, simp)
    apply (rule keeps_slift_bind)
    apply (rule keeps_sbind [OF keeps_good_getRecord [OF assms(2)]])
    apply (rule keeps_slift_bind)+
    apply (rule keeps_sbind [OF initIncoming_keeps [OF assms(1) stored_or_new]], assumption, erule trust_good)
    apply clarify
    apply (rule keeps_slift_bind)
    apply (rule keeps_option, rule keeps_slift, simp)
    apply (rule keeps_slift_bind)
    apply (rule keeps_read_bind, clarify)
    apply (rule keeps_step [OF keeps_storeRecord [OF assms(2)]])
    subgoal by (rule prekey_record_ok [OF hm]) auto
    by (rule keeps_step [OF keeps_remove]) (rule keeps_sret, rule TrueI)
qed

theorem initOutgoing_good:
  assumes "env_ok E"
  shows "keeps good (initOutgoing E S addr b) (\<lambda>_. True)"
proof -
  have hm: "hmac_ok (ev_prims E)" and now: "0 \<le> ev_now E" and kp: "is_key_pair (ev_prims E) (ev_fresh E 0)"
    using assms by (simp_all add: env_ok_def)
  have base: "pubKey (ev_fresh E 0) \<noteq> []" using kp by (auto simp: is_key_pair_def)
  have load: "keeps good (sread (loadSession S a)) (\<lambda>r. \<forall>x. r = Some x \<longrightarrow> stored_ok x)" for a
    by (rule keeps_sread) (auto dest: load_ok)
  have store: "keeps good (storeSession S a r) (\<lambda>_. True)" if "stored_ok r" for a r
    unfolding keeps_def using store_good that by (metis snd_conv)
  have new: "record_ok (setSession (e\<lparr>pendingPreKey := p\<rparr>) (case r of None \<Rightarrow> new_session_record | Some r \<Rightarrow> closeOpenSession (ev_now E) r))"
    if "initSession (ev_prims E) (ev_now E) f our True (Some (ev_fresh E 0)) None k te ts rid = Inr e"
      "\<forall>x. r = Some x \<longrightarrow> stored_ok x" for e p r f our k te ts rid
  proof -
    have e: "entry_ok (e\<lparr>pendingPreKey := p\<rparr>)" "baseKey (indexInfo (e\<lparr>pendingPreKey := p\<rparr>)) \<noteq> []"
      using initSession_ok(1,3) [OF hm that(1)] base by (simp_all add: need_def)
    have "record_ok (case r of None \<Rightarrow> new_session_record | Some r \<Rightarrow> r)"
      using stored_record [OF stored_or_new [OF that(2)]] .
    from record_ok_fresh [OF this now e] show ?thesis
      by (cases r) (simp_all add: closeOpenSession_def new_session_record_def)
  qed
  show ?thesis
    unfolding initOutgoing_def Let_def
    apply (rule keeps_slift_bind)+
    apply (rule keeps_step [OF keeps_good_trusted])
    apply (rule keeps_step [OF keeps_sread], simp)
    apply (rule keeps_slift_bind)
    apply (rule keeps_sbind [OF load])
    apply (rule keeps_slift_bind)
    apply (rule store)
    subgoal premises p
      by (metis p(6) new [OF p(4,5)] removeOldSessions_ok sum.inject(2))
    done
qed

theorem closeOpenSession_good:
  assumes "env_ok E" "sc_storage C = S"
  shows "keeps good (cipher_closeOpenSession E C) (\<lambda>_. True)"
proof -
  have "ev_now E \<noteq> - 1" using assms(1) by (auto simp: env_ok_def)
  then show ?thesis
    unfolding cipher_closeOpenSession_def
    by (intro keeps_sbind [OF keeps_good_getRecord [OF assms(2)]] keeps_option keeps_sret)
      (auto intro!: keeps_storeRecord [OF assms(2)] record_ok_close(1) dest: stored_record)
qed

end

context signal_store
begin

lemma remove_never_fails: "fst (sbind (case i of None \<Rightarrow> sret () | Some n \<Rightarrow> removePreKey S n) (\<lambda>_. sret x) s) = Inr x"
  using remove_total by (auto simp: sbind_def sret_def split: option.splits prod.splits sum.splits) (metis fst_conv Inl_not_Inr)+

theorem decryptPreKey_clean:
  assumes "env_ok E" "sc_storage C = S"
  shows "fails_clean (\<lambda>s. good s \<and> unchanged S s0 s) (decryptPreKeyWhisperMessage E C data)"
proof -
  have hm: "hmac_ok (ev_prims E)" using assms(1) by (simp add: env_ok_def)
  show ?thesis
    unfolding decryptPreKeyWhisperMessage_def Let_def assms(2)
    apply (rule clean_if, rule clean_slift)
    apply (rule clean_slift_bind)
    apply (rule fails_clean_sbind [OF keeps_getRecord [OF assms(2)]])
    apply (rule clean_slift_bind)+
    apply (rule fails_clean_sbind [OF initIncoming_keeps [OF assms(1) stored_or_new]], assumption, erule trust_both)
    apply clarify
    apply (rule clean_slift_bind)
    apply (rule clean_option, rule clean_slift)
    apply (rule clean_slift_bind)
    apply (rule clean_read_bind, clarify)
    apply (rule clean_store_then [OF assms(2) _ remove_never_fails])
    apply (rule prekey_record_ok [OF hm]; auto)
    done
qed

end

end
