(* ===== verification/Sender_Key.thy ===== *)
theory Sender_Key
  imports Base64 Crypto JS_Value Address
begin

text \<open>
  \<open>src/sender-chain-key.ts\<close>, \<open>src/sender-message-key.ts\<close>, \<open>src/sender-key-state.ts\<close> and
  \<open>src/sender-key-record.ts\<close>: the state of one sender of a group. A record holds up to five states,
  a state holds the chain key and the keys of skipped messages. Iterations are natural numbers.
\<close>

section \<open>Message keys and chain keys\<close>

record sender_message_key =
  smk_iteration :: nat
  smk_iv :: bytes
  smk_cipherKey :: bytes
  smk_seed :: bytes

definition GROUP_INFO :: bytes where
  "GROUP_INFO = map of_char ''WhisperGroup''"

definition new_SenderMessageKey :: "prims \<Rightarrow> nat \<Rightarrow> bytes \<Rightarrow> error + sender_message_key" where
  "new_SenderMessageKey P iteration seed =
     rbind (deriveSecrets P seed (buf_alloc 32) GROUP_INFO None) (\<lambda>derivative.
       if length derivative < 2 then Inl (Error ''Failed to derive sender message key material'')
       else Inr \<lparr>smk_iteration = iteration,
                 smk_iv = take 16 (derivative ! 0),
                 smk_cipherKey = drop 16 (derivative ! 0) @ take 16 (derivative ! 1),
                 smk_seed = seed\<rparr>)"

record sender_chain_key =
  sck_iteration :: nat
  sck_chainKey :: bytes

definition getDerivative :: "prims \<Rightarrow> bytes \<Rightarrow> bytes \<Rightarrow> bytes" where
  "getDerivative P seed key = calculateMAC P key seed"

definition getSenderMessageKey :: "prims \<Rightarrow> sender_chain_key \<Rightarrow> error + sender_message_key" where
  "getSenderMessageKey P c = new_SenderMessageKey P (sck_iteration c) (getDerivative P [1] (sck_chainKey c))"

definition getNext :: "prims \<Rightarrow> sender_chain_key \<Rightarrow> sender_chain_key" where
  "getNext P c = \<lparr>sck_iteration = sck_iteration c + 1, sck_chainKey = getDerivative P [2] (sck_chainKey c)\<rparr>"

section \<open>SenderKeyState\<close>

definition GROUP_MAX_MESSAGE_KEYS :: nat where "GROUP_MAX_MESSAGE_KEYS = 2000"

text \<open>A skipped key is stored as its iteration and seed.\<close>

record sender_key_state =
  sks_id :: nat
  sks_chain :: sender_chain_key
  sks_public :: bytes
  sks_private :: "bytes option"
  sks_messageKeys :: "(nat \<times> bytes) list"

definition new_SenderKeyState :: "nat \<Rightarrow> nat \<Rightarrow> bytes \<Rightarrow> bytes \<Rightarrow> bytes option \<Rightarrow> sender_key_state" where
  "new_SenderKeyState i iteration chainKey pub priv =
     \<lparr>sks_id = i, sks_chain = \<lparr>sck_iteration = iteration, sck_chainKey = chainKey\<rparr>,
      sks_public = pub, sks_private = priv, sks_messageKeys = []\<rparr>"

definition hasSenderMessageKey :: "nat \<Rightarrow> sender_key_state \<Rightarrow> bool" where
  "hasSenderMessageKey iteration st \<longleftrightarrow> (\<exists>p\<in>set (sks_messageKeys st). fst p = iteration)"

definition addSenderMessageKey :: "sender_message_key \<Rightarrow> sender_key_state \<Rightarrow> sender_key_state" where
  "addSenderMessageKey mk st =
     (let keys = sks_messageKeys st @ [(smk_iteration mk, smk_seed mk)]
      in st\<lparr>sks_messageKeys := if length keys > GROUP_MAX_MESSAGE_KEYS then tl keys else keys\<rparr>)"

text \<open>\<open>findIndex\<close> and \<open>splice\<close>: the first entry with the iteration is taken out.\<close>

fun take_key :: "nat \<Rightarrow> (nat \<times> bytes) list \<Rightarrow> (bytes \<times> (nat \<times> bytes) list) option" where
  "take_key i [] = None"
| "take_key i ((j, seed) # r) =
     (if j = i then Some (seed, r)
      else case take_key i r of None \<Rightarrow> None | Some (s, r') \<Rightarrow> Some (s, (j, seed) # r'))"

definition removeSenderMessageKey ::
  "prims \<Rightarrow> nat \<Rightarrow> sender_key_state \<Rightarrow> error + (sender_message_key option \<times> sender_key_state)" where
  "removeSenderMessageKey P iteration st =
     (case take_key iteration (sks_messageKeys st) of
        None \<Rightarrow> Inr (None, st)
      | Some (seed, rest) \<Rightarrow>
          rbind (new_SenderMessageKey P iteration seed) (\<lambda>mk.
            Inr (Some mk, st\<lparr>sks_messageKeys := rest\<rparr>)))"

section \<open>Serialized form\<close>

text \<open>
  The fields that hold key material are untyped in \<open>deserialize\<close>: base64 text, a buffer, or the JSON
  form of a buffer. Elements of a JSON byte array are integers.
\<close>

fun toB64Buffer :: "jsval \<Rightarrow> error + bytes" where
  "toB64Buffer (JBuf b) = Inr b"
| "toB64Buffer (JStr s) = Inr (b64_decode s)"
| "toB64Buffer (JObj ps) =
     (case js_get (JObj ps) ''data'' of
        JArr xs \<Rightarrow> Inr (map byte_of_js xs)
      | JStr s \<Rightarrow> Inr (b64_decode s)
      | _ \<Rightarrow> Inl (TypeError ''senderKeyState''))"
| "toB64Buffer _ = Inl (TypeError ''senderKeyState'')"

record ser_sender_key_state =
  ss_id :: nat
  ss_iteration :: nat
  ss_seed :: jsval
  ss_public :: jsval
  ss_private :: jsval
  ss_messageKeys :: "(nat \<times> jsval) list"

definition SenderKeyState_serialize :: "sender_key_state \<Rightarrow> ser_sender_key_state" where
  "SenderKeyState_serialize st =
     \<lparr>ss_id = sks_id st,
      ss_iteration = sck_iteration (sks_chain st),
      ss_seed = JStr (b64_encode (sck_chainKey (sks_chain st))),
      ss_public = JStr (b64_encode (sks_public st)),
      ss_private = (case sks_private st of None \<Rightarrow> JUndef | Some b \<Rightarrow> JStr (b64_encode b)),
      ss_messageKeys = map (\<lambda>(i, seed). (i, JStr (b64_encode seed))) (sks_messageKeys st)\<rparr>"

fun deserialize_keys :: "(nat \<times> jsval) list \<Rightarrow> error + (nat \<times> bytes) list" where
  "deserialize_keys [] = Inr []"
| "deserialize_keys ((i, v) # r) =
     rbind (toB64Buffer v) (\<lambda>seed. rbind (deserialize_keys r) (\<lambda>ks. Inr ((i, seed) # ks)))"

definition SenderKeyState_deserialize :: "ser_sender_key_state \<Rightarrow> error + sender_key_state" where
  "SenderKeyState_deserialize d =
     rbind (toB64Buffer (ss_seed d)) (\<lambda>seed.
     rbind (toB64Buffer (ss_public d)) (\<lambda>pub.
     rbind (if js_truthy (ss_private d) then rbind (toB64Buffer (ss_private d)) (\<lambda>b. Inr (Some b)) else Inr None) (\<lambda>priv.
     rbind (deserialize_keys (ss_messageKeys d)) (\<lambda>keys.
       Inr ((new_SenderKeyState (ss_id d) (ss_iteration d) seed pub priv)\<lparr>sks_messageKeys := keys\<rparr>)))))"

section \<open>SenderKeyRecord\<close>

definition MAX_STATES :: nat where "MAX_STATES = 5"

type_synonym sender_key_record = "sender_key_state list"

definition record_isEmpty :: "sender_key_record \<Rightarrow> bool" where
  "record_isEmpty r = (length r = 0)"

definition getSenderKeyState :: "nat option \<Rightarrow> sender_key_record \<Rightarrow> sender_key_state option" where
  "getSenderKeyState keyId r =
     (case keyId of
        None \<Rightarrow> if r = [] then None else Some (last r)
      | Some i \<Rightarrow> find (\<lambda>st. sks_id st = i) r)"

fun remove_first_id :: "nat \<Rightarrow> sender_key_record \<Rightarrow> sender_key_record" where
  "remove_first_id i [] = []"
| "remove_first_id i (st # r) = (if sks_id st = i then r else st # remove_first_id i r)"

definition addSenderKeyState ::
  "nat \<Rightarrow> nat \<Rightarrow> bytes \<Rightarrow> bytes \<Rightarrow> bytes option \<Rightarrow> sender_key_record \<Rightarrow> sender_key_record" where
  "addSenderKeyState i iteration chainKey pub priv r =
     (let states = remove_first_id i r @ [new_SenderKeyState i iteration chainKey pub priv]
      in if length states > MAX_STATES then tl states else states)"

definition setSenderKeyState ::
  "nat \<Rightarrow> nat \<Rightarrow> bytes \<Rightarrow> bytes \<Rightarrow> bytes option \<Rightarrow> sender_key_record \<Rightarrow> sender_key_record" where
  "setSenderKeyState i iteration chainKey pub priv r = [new_SenderKeyState i iteration chainKey pub priv]"

definition SenderKeyRecord_serialize :: "sender_key_record \<Rightarrow> ser_sender_key_state list" where
  "SenderKeyRecord_serialize r = map SenderKeyState_serialize r"

fun SenderKeyRecord_deserialize :: "ser_sender_key_state list \<Rightarrow> error + sender_key_record" where
  "SenderKeyRecord_deserialize [] = Inr []"
| "SenderKeyRecord_deserialize (d # ds) =
     rbind (SenderKeyState_deserialize d) (\<lambda>st. rbind (SenderKeyRecord_deserialize ds) (\<lambda>r. Inr (st # r)))"

text \<open>
  The code changes a state in place inside its record (\<open>getSenderKeyState\<close> returns a reference).
\<close>

fun put_state :: "sender_key_state \<Rightarrow> sender_key_record \<Rightarrow> sender_key_record" where
  "put_state st [] = []"
| "put_state st (x # r) = (if sks_id x = sks_id st then st # r else x # put_state st r)"

section \<open>Facts\<close>

definition sender_state_wf :: "sender_key_state \<Rightarrow> bool" where
  "sender_state_wf st \<longleftrightarrow>
     obj_wf (sks_messageKeys st) \<and> length (sks_messageKeys st) \<le> GROUP_MAX_MESSAGE_KEYS \<and>
     (\<forall>i\<in>set (map fst (sks_messageKeys st)). i < sck_iteration (sks_chain st)) \<and> sks_private st \<noteq> Some []"

definition sender_record_wf :: "sender_key_record \<Rightarrow> bool" where
  "sender_record_wf r \<longleftrightarrow> distinct (map sks_id r) \<and> length r \<le> MAX_STATES \<and> (\<forall>st\<in>set r. sender_state_wf st)"

lemma take_key_spec: "obj_wf m \<Longrightarrow> take_key i m = (case obj_get m i of None \<Rightarrow> None | Some s \<Rightarrow> Some (s, obj_del i m))"
proof (induction i m rule: take_key.induct)
  case (2 i j seed r)
  have "j \<notin> set (obj_keys r)" using "2.prems" by simp
  then have "obj_del j r = r" by (force simp: obj_del_filter intro!: filter_True)
  with 2 show ?case by (auto split: option.splits)
qed simp

lemma hasSenderMessageKey_iff: "hasSenderMessageKey i st \<longleftrightarrow> obj_get (sks_messageKeys st) i \<noteq> None"
  by (force simp: hasSenderMessageKey_def obj_simps)

lemma deserialize_serialize_keys:
  "deserialize_keys (map (\<lambda>(i, seed). (i, JStr (b64_encode seed))) ks) = Inr ks"
  by (induction ks) auto

lemma sender_state_roundtrip:
  assumes "sks_private st \<noteq> Some []"
  shows "SenderKeyState_deserialize (SenderKeyState_serialize st) = Inr st"
  using assms
  by (cases st; cases "sks_chain st"; cases "sks_private st")
    (auto simp: SenderKeyState_deserialize_def SenderKeyState_serialize_def deserialize_serialize_keys new_SenderKeyState_def)

lemma sender_record_roundtrip:
  "(\<forall>st\<in>set r. sks_private st \<noteq> Some []) \<Longrightarrow> SenderKeyRecord_deserialize (SenderKeyRecord_serialize r) = Inr r"
  by (induction r) (auto simp: SenderKeyRecord_serialize_def sender_state_roundtrip)

lemma remove_first_id_filter: "distinct (map sks_id r) \<Longrightarrow> remove_first_id i r = filter (\<lambda>st. sks_id st \<noteq> i) r"
proof (induction r)
  case (Cons st r)
  then have "sks_id st \<notin> sks_id ` set r" by simp
  then have "sks_id st = i \<Longrightarrow> filter (\<lambda>st. sks_id st \<noteq> i) r = r" by (intro filter_True) (metis imageI)
  with Cons show ?case by auto
qed simp

lemma new_state_wf: "priv \<noteq> Some [] \<Longrightarrow> sender_state_wf (new_SenderKeyState i n k pub priv)"
  by (simp add: sender_state_wf_def new_SenderKeyState_def)

lemma addSenderKeyState_wf:
  assumes "sender_record_wf r" "priv \<noteq> Some []"
  shows "sender_record_wf (addSenderKeyState i n k pub priv r)"
proof -
  let ?s = "filter (\<lambda>st. sks_id st \<noteq> i) r @ [new_SenderKeyState i n k pub priv]"
  have d: "distinct (map sks_id ?s)"
    using assms(1) by (auto simp: sender_record_wf_def new_SenderKeyState_def distinct_map inj_on_def)
  have w: "\<forall>st\<in>set ?s. sender_state_wf st"
    using assms new_state_wf by (auto simp: sender_record_wf_def)
  have len: "length ?s \<le> Suc MAX_STATES"
    using assms(1) le_trans [OF length_filter_le [of "\<lambda>st. sks_id st \<noteq> i" r]] by (simp add: sender_record_wf_def)
  have "addSenderKeyState i n k pub priv r = (if length ?s > MAX_STATES then tl ?s else ?s)"
    using assms(1) by (simp add: addSenderKeyState_def Let_def remove_first_id_filter sender_record_wf_def)
  then show ?thesis
    using d w len by (cases "filter (\<lambda>st. sks_id st \<noteq> i) r") (auto simp: sender_record_wf_def MAX_STATES_def)
qed

lemma getSenderKeyState_add:
  assumes "sender_record_wf r"
  shows "getSenderKeyState (Some i) (addSenderKeyState i n k pub priv r) = Some (new_SenderKeyState i n k pub priv)"
    "getSenderKeyState None (addSenderKeyState i n k pub priv r) = Some (new_SenderKeyState i n k pub priv)"
proof -
  let ?f = "filter (\<lambda>st. sks_id st \<noteq> i) r"
  obtain xs where xs: "addSenderKeyState i n k pub priv r = xs @ [new_SenderKeyState i n k pub priv]"
      "set xs \<subseteq> set ?f"
  proof (cases "length (?f @ [new_SenderKeyState i n k pub priv]) > MAX_STATES")
    case True
    then obtain x f' where "?f = x # f'" by (cases ?f) (auto simp: MAX_STATES_def)
    with True that [of f'] assms show thesis
      by (auto simp: addSenderKeyState_def Let_def remove_first_id_filter sender_record_wf_def)
  next
    case False
    with that [of ?f] assms show thesis
      by (simp add: addSenderKeyState_def Let_def remove_first_id_filter sender_record_wf_def)
  qed
  have "find (\<lambda>st. sks_id st = i) xs = None" using xs(2) by (auto simp: find_None_iff)
  moreover have "find Q (ys @ [y]) = (if find Q ys = None \<and> Q y then Some y else find Q ys)" for Q ys and y :: sender_key_state
    by (induction ys) auto
  ultimately show "getSenderKeyState (Some i) (addSenderKeyState i n k pub priv r) = Some (new_SenderKeyState i n k pub priv)"
    by (simp add: getSenderKeyState_def xs(1) new_SenderKeyState_def)
  show "getSenderKeyState None (addSenderKeyState i n k pub priv r) = Some (new_SenderKeyState i n k pub priv)"
    by (simp add: getSenderKeyState_def xs(1))
qed

end
