(* ===== verification/Group_Session.thy ===== *)
theory Group_Session
  imports Sender_Key Group_Proto Curve Signal_Storage
begin

text \<open>
  Group messaging: \<open>src/sender-key-message.ts\<close>, \<open>src/sender-key-distribution-message.ts\<close>,
  \<open>src/ciphertext-message.ts\<close>, \<open>src/group-keyhelper.ts\<close>, \<open>src/group-cipher.ts\<close> and
  \<open>src/group-session-builder.ts\<close>. The classes whose constructors take either the parts or the
  serialized bytes have one definition for each use. Each operation is the job that the code hands
  to the queue; a loaded record is the caller's own copy.
\<close>

section \<open>Messages\<close>

definition CURRENT_VERSION :: nat where "CURRENT_VERSION = 3"
definition SENDERKEY_TYPE :: nat where "SENDERKEY_TYPE = 4"
definition SENDERKEY_DISTRIBUTION_TYPE :: nat where "SENDERKEY_DISTRIBUTION_TYPE = 5"
definition GROUP_SIGNATURE_LENGTH :: nat where "GROUP_SIGNATURE_LENGTH = 64"

definition group_version :: byte where
  "group_version = (push_bit 4 (of_nat CURRENT_VERSION) OR of_nat CURRENT_VERSION) AND 0xff"

record sender_key_message =
  gm_messageVersion :: nat
  gm_keyId :: nat
  gm_iteration :: nat
  gm_ciphertext :: bytes
  gm_signature :: bytes
  gm_serialized :: bytes

definition parse_SenderKeyMessage :: "wire \<Rightarrow> bytes \<Rightarrow> error + sender_key_message" where
  "parse_SenderKeyMessage W buf =
     (if buf = [] \<or> length buf \<le> GROUP_SIGNATURE_LENGTH then Inl (Error ''Invalid SenderKeyMessage: too short'')
      else
        let message = take (length buf - GROUP_SIGNATURE_LENGTH - 1) (drop 1 buf);
            signature = drop (length buf - GROUP_SIGNATURE_LENGTH) buf
        in rbind (SenderKeyMessageProto_decode W message) (\<lambda>m.
             Inr \<lparr>gm_messageVersion = unat (drop_bit 4 (buf ! 0 AND 0xff)), gm_keyId = skm_id m,
                  gm_iteration = skm_iteration m, gm_ciphertext = skm_ciphertext m,
                  gm_signature = signature, gm_serialized = buf\<rparr>))"

definition build_SenderKeyMessage ::
  "prims \<Rightarrow> wire \<Rightarrow> nat \<Rightarrow> nat \<Rightarrow> bytes \<Rightarrow> bytes \<Rightarrow> error + sender_key_message" where
  "build_SenderKeyMessage P W keyId iteration ciphertext signatureKey =
     (let message = SenderKeyMessageProto_encode W
            (SenderKeyMessageProto_create (Some keyId) (Some iteration) (Some ciphertext)) in
      rbind (calculateSignature P signatureKey (group_version # message)) (\<lambda>signature.
        Inr \<lparr>gm_messageVersion = CURRENT_VERSION, gm_keyId = keyId, gm_iteration = iteration,
             gm_ciphertext = ciphertext, gm_signature = signature,
             gm_serialized = group_version # message @ signature\<rparr>))"

definition gm_verifySignature :: "prims \<Rightarrow> bytes \<Rightarrow> sender_key_message \<Rightarrow> error + unit" where
  "gm_verifySignature P signatureKey m =
     (let s = gm_serialized m;
          part1 = take (length s - GROUP_SIGNATURE_LENGTH) s;
          part2 = drop (length s - GROUP_SIGNATURE_LENGTH) s
      in rbind (verifySignature P signatureKey part1 part2) (\<lambda>ok.
           guard_that ok (Error ''Invalid signature!'')))"

record sender_key_distribution_message =
  dm_id :: nat
  dm_iteration :: nat
  dm_chainKey :: bytes
  dm_signatureKey :: bytes
  dm_serialized :: bytes

definition parse_SenderKeyDistributionMessage :: "wire \<Rightarrow> bytes \<Rightarrow> error + sender_key_distribution_message" where
  "parse_SenderKeyDistributionMessage W buf =
     (case SenderKeyDistributionMessageProto_decode W (drop 1 buf) of
        Inl e \<Rightarrow> Inl (Error ''Failed to decode SenderKeyDistributionMessage'')
      | Inr m \<Rightarrow> Inr \<lparr>dm_id = skd_id m, dm_iteration = skd_iteration m, dm_chainKey = skd_chainKey m,
                      dm_signatureKey = skd_signingKey m, dm_serialized = buf\<rparr>)"

definition build_SenderKeyDistributionMessage ::
  "wire \<Rightarrow> nat \<Rightarrow> nat \<Rightarrow> bytes \<Rightarrow> bytes \<Rightarrow> sender_key_distribution_message" where
  "build_SenderKeyDistributionMessage W i iteration key signatureKey =
     \<lparr>dm_id = i, dm_iteration = iteration, dm_chainKey = key, dm_signatureKey = signatureKey,
      dm_serialized = group_version # SenderKeyDistributionMessageProto_encode W
        (SenderKeyDistributionMessageProto_create (Some i) (Some iteration) (Some key) (Some signatureKey))\<rparr>"

text \<open>The constructors: with \<open>serialized\<close> they read it, otherwise every part has to be given.\<close>

definition new_SenderKeyMessage ::
  "prims \<Rightarrow> wire \<Rightarrow> nat option \<Rightarrow> nat option \<Rightarrow> bytes option \<Rightarrow> bytes option \<Rightarrow> bytes option \<Rightarrow> error + sender_key_message" where
  "new_SenderKeyMessage P W keyId iteration ciphertext signatureKey serialized =
     (case serialized of
        Some buf \<Rightarrow> parse_SenderKeyMessage W buf
      | None \<Rightarrow>
          (case (keyId, iteration, ciphertext, signatureKey) of
             (Some i, Some n, Some c, Some k) \<Rightarrow> build_SenderKeyMessage P W i n c k
           | _ \<Rightarrow> Inl (Error ''Missing arguments to build a new SenderKeyMessage'')))"

definition new_SenderKeyDistributionMessage ::
  "wire \<Rightarrow> nat option \<Rightarrow> nat option \<Rightarrow> bytes option \<Rightarrow> bytes option \<Rightarrow> bytes option \<Rightarrow> error + sender_key_distribution_message" where
  "new_SenderKeyDistributionMessage W keyId iteration key signatureKey serialized =
     (case serialized of
        Some buf \<Rightarrow> parse_SenderKeyDistributionMessage W buf
      | None \<Rightarrow>
          (case (keyId, iteration, key, signatureKey) of
             (Some i, Some n, Some k, Some s) \<Rightarrow> Inr (build_SenderKeyDistributionMessage W i n k s)
           | _ \<Rightarrow> Inl (Error ''Missing arguments to build a new SenderKeyDistributionMessage'')))"

section \<open>Key generation\<close>

text \<open>\<open>randomBytes(4).readUInt32BE(0) & 0x7fffffff\<close>.\<close>

definition generateSenderKeyId :: "bytes \<Rightarrow> nat" where
  "generateSenderKeyId rnd =
     unat ((word_rcat (take 4 rnd) :: 32 word) AND 0x7fffffff)"

definition generateSenderSigningKey :: "key_pair option \<Rightarrow> key_pair \<Rightarrow> key_pair" where
  "generateSenderSigningKey keyPair generated = (case keyPair of None \<Rightarrow> generated | Some kp \<Rightarrow> kp)"

text \<open>The random values of one call: 4 bytes for the id, 32 bytes of chain key, a signing key pair.\<close>

record group_random =
  gr_idBytes :: bytes
  gr_senderKey :: bytes
  gr_signingKey :: key_pair

section \<open>The sender's and the receivers' chain\<close>

definition MAX_JUMP :: nat where "MAX_JUMP = 2000"

function skip_keys ::
  "prims \<Rightarrow> nat \<Rightarrow> sender_chain_key \<Rightarrow> sender_key_state \<Rightarrow> error + (sender_chain_key \<times> sender_key_state)" where
  "skip_keys P iteration ck st =
     (if sck_iteration ck < iteration then
        rbind (getSenderMessageKey P ck) (\<lambda>mk.
          skip_keys P iteration (getNext P ck) (addSenderMessageKey mk st))
      else Inr (ck, st))"
  by pat_completeness auto
termination
  by (relation "measure (\<lambda>(_, iteration, ck, _). iteration - sck_iteration ck)") (auto simp: getNext_def)

declare skip_keys.simps [simp del]

definition getSenderKey ::
  "prims \<Rightarrow> sender_key_state \<Rightarrow> nat \<Rightarrow> error + (sender_message_key \<times> sender_key_state)" where
  "getSenderKey P st iteration =
     (let ck = sks_chain st in
      if sck_iteration ck > iteration then
        (if hasSenderMessageKey iteration st
         then rbind (removeSenderMessageKey P iteration st) (\<lambda>(mk, st').
                case mk of None \<Rightarrow> Inl (TypeError ''Cannot read properties of undefined'') | Some k \<Rightarrow> Inr (k, st'))
         else Inl (SenderKeyError ''Received message with old counter''))
      else if iteration - sck_iteration ck > MAX_JUMP
      then Inl (SenderKeyError ''Over 2000 messages into the future!'')
      else
        rbind (skip_keys P iteration ck st) (\<lambda>(ck', st').
        rbind (getSenderMessageKey P ck') (\<lambda>mk.
          Inr (mk, st'\<lparr>sks_chain := getNext P ck'\<rparr>))))"

section \<open>GroupCipher\<close>

record 's sender_key_store =
  loadSenderKey :: "sender_key_name \<Rightarrow> 's \<Rightarrow> error + sender_key_record option"
  storeSenderKey :: "sender_key_name \<Rightarrow> sender_key_record \<Rightarrow> ('s, unit) op"
  removeSenderKey :: "sender_key_name \<Rightarrow> ('s, unit) op"

text \<open>The part of \<open>encrypt\<close> and \<open>decrypt\<close> between loading and storing the record.\<close>

definition group_seal :: "prims \<Rightarrow> wire \<Rightarrow> sender_key_record \<Rightarrow> bytes \<Rightarrow> error + (bytes \<times> sender_key_record)" where
  "group_seal P W record paddedPlaintext =
     (case getSenderKeyState None record of
        None \<Rightarrow> Inl (SenderKeyError ''No session to encrypt message'')
      | Some st \<Rightarrow>
          (case sks_private st of
             None \<Rightarrow> Inl (SenderKeyError ''Signing key is not available for encryption'')
           | Some signingKeyPrivate \<Rightarrow>
               rbind (getSenderKey P st (sck_iteration (sks_chain st))) (\<lambda>(senderKey, st').
               rbind (crypto_encrypt P (smk_cipherKey senderKey) paddedPlaintext (smk_iv senderKey)) (\<lambda>ciphertext.
               rbind (build_SenderKeyMessage P W (sks_id st') (smk_iteration senderKey) ciphertext signingKeyPrivate) (\<lambda>m.
                 Inr (gm_serialized m, butlast record @ [st']))))))"

definition group_open :: "prims \<Rightarrow> wire \<Rightarrow> sender_key_record \<Rightarrow> bytes \<Rightarrow> error + (bytes \<times> sender_key_record)" where
  "group_open P W record senderKeyMessageBytes =
     rbind (parse_SenderKeyMessage W senderKeyMessageBytes) (\<lambda>m.
       case getSenderKeyState (Some (gm_keyId m)) record of
         None \<Rightarrow> Inl (SenderKeyError ''No session found to decrypt message'')
       | Some st \<Rightarrow>
           rbind (gm_verifySignature P (sks_public st) m) (\<lambda>_.
           rbind (getSenderKey P st (gm_iteration m)) (\<lambda>(senderKey, st').
           rbind (crypto_decrypt P (smk_cipherKey senderKey) (gm_ciphertext m) (smk_iv senderKey)) (\<lambda>plaintext.
             Inr (plaintext, put_state st' record)))))"

definition group_encrypt :: "prims \<Rightarrow> wire \<Rightarrow> 's sender_key_store \<Rightarrow> sender_key_name \<Rightarrow> bytes \<Rightarrow> ('s, bytes) op" where
  "group_encrypt P W G name paddedPlaintext =
     sbind (sread (loadSenderKey G name)) (\<lambda>loaded.
       case loaded of
         None \<Rightarrow> slift (Inl (SenderKeyError ''No SenderKeyRecord found for encryption''))
       | Some record \<Rightarrow>
           sbind (slift (group_seal P W record paddedPlaintext)) (\<lambda>(out, record').
           sbind (storeSenderKey G name record') (\<lambda>_. sret out)))"

definition group_decrypt :: "prims \<Rightarrow> wire \<Rightarrow> 's sender_key_store \<Rightarrow> sender_key_name \<Rightarrow> bytes \<Rightarrow> ('s, bytes) op" where
  "group_decrypt P W G name bs =
     sbind (sread (loadSenderKey G name)) (\<lambda>loaded.
       case loaded of
         None \<Rightarrow> slift (Inl (SenderKeyError ''No sender key record found for decryption''))
       | Some record \<Rightarrow>
           sbind (slift (group_open P W record bs)) (\<lambda>(plaintext, record').
           sbind (storeSenderKey G name record') (\<lambda>_. sret plaintext)))"

section \<open>GroupSessionBuilder\<close>

definition state_distribution :: "wire \<Rightarrow> sender_key_state \<Rightarrow> sender_key_distribution_message" where
  "state_distribution W st =
     build_SenderKeyDistributionMessage W (sks_id st) (sck_iteration (sks_chain st)) (sck_chainKey (sks_chain st)) (sks_public st)"

definition group_process :: "'s sender_key_store \<Rightarrow> sender_key_name \<Rightarrow> sender_key_distribution_message \<Rightarrow> ('s, unit) op" where
  "group_process G name m =
     (if length (dm_chainKey m) \<noteq> 32 then slift (Inl (SenderKeyError ''Invalid chain key length''))
      else if length (dm_signatureKey m) \<noteq> 32 \<and> length (dm_signatureKey m) \<noteq> 33
      then slift (Inl (SenderKeyError ''Invalid signing key length''))
      else
        sbind (sread (loadSenderKey G name)) (\<lambda>loaded.
          let record = (case loaded of None \<Rightarrow> [] | Some r \<Rightarrow> r) in
          storeSenderKey G name
            (addSenderKeyState (dm_id m) (dm_iteration m) (dm_chainKey m) (dm_signatureKey m) None record)))"

definition group_create ::
  "wire \<Rightarrow> group_random \<Rightarrow> 's sender_key_store \<Rightarrow> sender_key_name \<Rightarrow> ('s, sender_key_distribution_message) op" where
  "group_create W rnd G name =
     sbind (sread (loadSenderKey G name)) (\<lambda>loaded.
       let record0 = (case loaded of None \<Rightarrow> [] | Some r \<Rightarrow> r);
           signingKey = generateSenderSigningKey None (gr_signingKey rnd);
           record = (if record_isEmpty record0
                     then addSenderKeyState (generateSenderKeyId (gr_idBytes rnd)) 0 (gr_senderKey rnd)
                            (pubKey signingKey) (Some (privKey signingKey)) record0
                     else record0)
       in sbind (storeSenderKey G name record) (\<lambda>_.
            case getSenderKeyState None record of
              None \<Rightarrow> slift (Inl (SenderKeyError ''Failed to create sender key state''))
            | Some st \<Rightarrow> sret (state_distribution W st)))"

definition group_rotate ::
  "wire \<Rightarrow> group_random \<Rightarrow> 's sender_key_store \<Rightarrow> sender_key_name \<Rightarrow> ('s, sender_key_distribution_message) op" where
  "group_rotate W rnd G name =
     (let signingKey = generateSenderSigningKey None (gr_signingKey rnd);
          record = setSenderKeyState (generateSenderKeyId (gr_idBytes rnd)) 0 (gr_senderKey rnd)
                     (pubKey signingKey) (Some (privKey signingKey)) []
      in sbind (storeSenderKey G name record) (\<lambda>_.
           case getSenderKeyState None record of
             None \<Rightarrow> slift (Inl (SenderKeyError ''Failed to rotate sender key state''))
           | Some st \<Rightarrow> sret (state_distribution W st)))"

end
