(* ===== verification/Group_Delivery.thy ===== *)
theory Group_Delivery
  imports Group_Session
begin

text \<open>
  The sender chain of a group against its specification, and delivery: what a member seals, every
  member who knows the chain opens, in any order within the window, and only once.
\<close>

section \<open>The keys of a chain\<close>

definition smk_of :: "prims \<Rightarrow> nat \<Rightarrow> bytes \<Rightarrow> sender_message_key" where
  "smk_of P i seed =
     (let t = hkdf P seed (buf_alloc 32) GROUP_INFO 3
      in \<lparr>smk_iteration = i, smk_iv = take 16 (t ! 0), smk_cipherKey = drop 16 (t ! 0) @ take 16 (t ! 1), smk_seed = seed\<rparr>)"

lemma new_SenderMessageKey_eq: "hmac_ok P \<Longrightarrow> new_SenderMessageKey P i seed = Inr (smk_of P i seed)"
  by (simp add: new_SenderMessageKey_def derive3 buf_alloc_def smk_of_def Let_def)

lemma smk_of_lengths:
  "hmac_ok P \<Longrightarrow> length (smk_cipherKey (smk_of P i seed)) = 32"
  "hmac_ok P \<Longrightarrow> length (smk_iv (smk_of P i seed)) = 16"
  by (simp_all add: smk_of_def Let_def)

lemma getSenderMessageKey_eq:
  "hmac_ok P \<Longrightarrow> getSenderMessageKey P \<lparr>sck_iteration = i, sck_chainKey = chain_key_at P k m\<rparr> =
     Inr (smk_of P i (message_key_at P k m))"
  by (simp add: getSenderMessageKey_def new_SenderMessageKey_eq getDerivative_def calculateMAC_def message_key_at_def)

lemma getNext_eq:
  "getNext P \<lparr>sck_iteration = i, sck_chainKey = chain_key_at P k m\<rparr> =
     \<lparr>sck_iteration = Suc i, sck_chainKey = chain_key_at P k (Suc m)\<rparr>"
  by (simp add: getNext_def getDerivative_def calculateMAC_def)

text \<open>The key list is a window on the last 2000 keys that were added.\<close>

definition window :: "(nat \<times> bytes) list \<Rightarrow> (nat \<times> bytes) list" where
  "window ks = drop (length ks - GROUP_MAX_MESSAGE_KEYS) ks"

lemma window_length: "length (window ks) \<le> GROUP_MAX_MESSAGE_KEYS"
  by (simp add: window_def)

lemma window_small: "length ks \<le> GROUP_MAX_MESSAGE_KEYS \<Longrightarrow> window ks = ks"
  by (simp add: window_def)

lemma window_append: "window (window ks @ xs) = window (ks @ xs)"
proof (cases "length ks \<le> GROUP_MAX_MESSAGE_KEYS")
  case False
  let ?d = "length ks - GROUP_MAX_MESSAGE_KEYS"
  have "length (drop ?d ks @ xs) - GROUP_MAX_MESSAGE_KEYS + ?d = length (ks @ xs) - GROUP_MAX_MESSAGE_KEYS"
    using False by simp
  moreover have "drop ?d ks @ xs = drop ?d (ks @ xs)" using False by simp
  ultimately show ?thesis unfolding window_def by (metis drop_drop)
qed (simp add: window_small)

lemma addSenderMessageKey_window:
  assumes "length (sks_messageKeys st) \<le> GROUP_MAX_MESSAGE_KEYS"
  shows "addSenderMessageKey mk st = st\<lparr>sks_messageKeys := window (sks_messageKeys st @ [(smk_iteration mk, smk_seed mk)])\<rparr>"
proof (cases "length (sks_messageKeys st) = GROUP_MAX_MESSAGE_KEYS")
  case True
  then show ?thesis
    by (cases "sks_messageKeys st") (simp_all add: addSenderMessageKey_def Let_def window_def drop_Suc GROUP_MAX_MESSAGE_KEYS_def)
next
  case False
  then show ?thesis using assms by (simp add: addSenderMessageKey_def Let_def window_def)
qed

definition chain_keys :: "prims \<Rightarrow> bytes \<Rightarrow> nat \<Rightarrow> nat \<Rightarrow> nat \<Rightarrow> (nat \<times> bytes) list" where
  "chain_keys P k base m j = map (\<lambda>i. (base + i, message_key_at P k i)) [m..<m + j]"

lemma skip_keys_eq:
  assumes "hmac_ok P" "length (sks_messageKeys st) \<le> GROUP_MAX_MESSAGE_KEYS"
  shows "skip_keys P (base + (m + j)) \<lparr>sck_iteration = base + m, sck_chainKey = chain_key_at P k m\<rparr> st =
     Inr (\<lparr>sck_iteration = base + (m + j), sck_chainKey = chain_key_at P k (m + j)\<rparr>,
          st\<lparr>sks_messageKeys := window (sks_messageKeys st @ chain_keys P k base m j)\<rparr>)"
  using assms(2)
proof (induction j arbitrary: m st)
  case 0
  then show ?case by (subst skip_keys.simps) (simp add: chain_keys_def window_small)
next
  case (Suc j)
  let ?st = "st\<lparr>sks_messageKeys := window (sks_messageKeys st @ [(base + m, message_key_at P k m)])\<rparr>"
  have "chain_keys P k base m (Suc j) = (base + m, message_key_at P k m) # chain_keys P k base (Suc m) j"
    unfolding chain_keys_def by (subst upt_conv_Cons) simp_all
  moreover have "skip_keys P (base + (m + Suc j)) \<lparr>sck_iteration = base + m, sck_chainKey = chain_key_at P k m\<rparr> st =
      skip_keys P (base + (Suc m + j)) \<lparr>sck_iteration = base + Suc m, sck_chainKey = chain_key_at P k (Suc m)\<rparr> ?st"
    using Suc.prems
    by (subst skip_keys.simps)
      (simp add: getSenderMessageKey_eq [OF assms(1)] getNext_eq addSenderMessageKey_window smk_of_def Let_def del: chain_key_at.simps)
  ultimately show ?case
    using Suc.IH [of ?st "Suc m"] window_append [of "sks_messageKeys st @ [(base + m, message_key_at P k m)]"]
    by (simp add: window_length del: chain_key_at.simps)
qed

section \<open>getSenderKey\<close>

text \<open>
  The state belongs to the chain that had the seed \<open>k\<close> at iteration \<open>base\<close>; \<open>state_from\<close> also says
  that the keys it stores are keys of that chain.
\<close>

definition chain_from :: "prims \<Rightarrow> bytes \<Rightarrow> nat \<Rightarrow> sender_key_state \<Rightarrow> bool" where
  "chain_from P k base st \<longleftrightarrow> sender_state_wf st \<and> base \<le> sck_iteration (sks_chain st) \<and>
     sck_chainKey (sks_chain st) = chain_key_at P k (sck_iteration (sks_chain st) - base)"

definition state_from :: "prims \<Rightarrow> bytes \<Rightarrow> nat \<Rightarrow> sender_key_state \<Rightarrow> bool" where
  "state_from P k base st \<longleftrightarrow> chain_from P k base st \<and>
     (\<forall>(i, seed)\<in>set (sks_messageKeys st). base \<le> i \<and> seed = message_key_at P k (i - base))"

lemma state_fromD: "state_from P k base st \<Longrightarrow> chain_from P k base st"
  by (simp add: state_from_def)

lemma chain_fromD:
  assumes "chain_from P k base st"
  shows "sender_state_wf st" "base \<le> sck_iteration (sks_chain st)" "obj_wf (sks_messageKeys st)"
    "length (sks_messageKeys st) \<le> GROUP_MAX_MESSAGE_KEYS"
    "\<forall>j\<in>set (map fst (sks_messageKeys st)). j < sck_iteration (sks_chain st)"
  using assms by (simp_all add: chain_from_def sender_state_wf_def)

text \<open>Every well-formed state belongs to the chain that starts where it is.\<close>

lemma chain_from_self: "sender_state_wf st \<Longrightarrow> chain_from P (sck_chainKey (sks_chain st)) (sck_iteration (sks_chain st)) st"
  by (simp add: chain_from_def)

text \<open>A chain that was entered later is the same chain.\<close>

lemma state_from_rebase:
  assumes "state_from P (chain_key_at P k d) (base + d) st"
  shows "state_from P k base st"
  using assms
  by (fastforce simp: state_from_def chain_from_def message_key_at_def chain_key_at_add add.commute)

definition skip_to :: "prims \<Rightarrow> bytes \<Rightarrow> nat \<Rightarrow> nat \<Rightarrow> sender_key_state \<Rightarrow> sender_key_state" where
  "skip_to P k base i st =
     st\<lparr>sks_messageKeys := window (sks_messageKeys st @
          chain_keys P k base (sck_iteration (sks_chain st) - base) (i - sck_iteration (sks_chain st))),
        sks_chain := \<lparr>sck_iteration = Suc i, sck_chainKey = chain_key_at P k (Suc i - base)\<rparr>\<rparr>"

lemma getSenderKey_new:
  assumes "hmac_ok P" "chain_from P k base st" "sck_iteration (sks_chain st) \<le> i" "i - sck_iteration (sks_chain st) \<le> MAX_JUMP"
  shows "getSenderKey P st i = Inr (smk_of P i (message_key_at P k (i - base)), skip_to P k base i st)"
proof -
  let ?n = "sck_iteration (sks_chain st)"
  have b: "base \<le> ?n" and seed: "sck_chainKey (sks_chain st) = chain_key_at P k (?n - base)"
    and len: "length (sks_messageKeys st) \<le> GROUP_MAX_MESSAGE_KEYS"
    using assms(2) by (simp_all add: chain_from_def sender_state_wf_def)
  have chain: "sks_chain st = \<lparr>sck_iteration = base + (?n - base), sck_chainKey = chain_key_at P k (?n - base)\<rparr>"
    using b seed by (simp add: sender_chain_key.equality)
  have i: "i = base + ((?n - base) + (i - ?n))" "i - base = (?n - base) + (i - ?n)" using b assms(3) by simp_all
  have "skip_keys P i (sks_chain st) st =
      Inr (\<lparr>sck_iteration = i, sck_chainKey = chain_key_at P k (i - base)\<rparr>,
           st\<lparr>sks_messageKeys := window (sks_messageKeys st @ chain_keys P k base (?n - base) (i - ?n))\<rparr>)"
    using skip_keys_eq [OF assms(1) len, of base "?n - base" "i - ?n" k] chain i by metis
  moreover have "Suc i - base = Suc (i - base)" using b assms(3) by simp
  ultimately show ?thesis
    using assms(3,4) getSenderMessageKey_eq [OF assms(1), of i k "i - base"] getNext_eq [of P i k "i - base"]
    by (simp add: getSenderKey_def Let_def skip_to_def del: chain_key_at.simps)
qed

lemma getSenderKey_old:
  assumes "hmac_ok P" "sender_state_wf st" "i < sck_iteration (sks_chain st)" "obj_get (sks_messageKeys st) i = Some seed"
  shows "getSenderKey P st i = Inr (smk_of P i seed, st\<lparr>sks_messageKeys := obj_del i (sks_messageKeys st)\<rparr>)"
proof -
  have "hasSenderMessageKey i st" using assms(4) by (simp add: hasSenderMessageKey_iff)
  moreover have "take_key i (sks_messageKeys st) = Some (seed, obj_del i (sks_messageKeys st))"
    using assms(2,4) by (simp add: take_key_spec sender_state_wf_def)
  ultimately show ?thesis
    using assms(3) by (simp add: getSenderKey_def Let_def removeSenderMessageKey_def new_SenderMessageKey_eq [OF assms(1)])
qed

lemma getSenderKey_used:
  assumes "i < sck_iteration (sks_chain st)" "obj_get (sks_messageKeys st) i = None"
  shows "getSenderKey P st i = Inl (SenderKeyError ''Received message with old counter'')"
  using assms by (simp add: getSenderKey_def Let_def hasSenderMessageKey_iff)

lemma getSenderKey_far:
  assumes "MAX_JUMP < i - sck_iteration (sks_chain st)"
  shows "getSenderKey P st i = Inl (SenderKeyError ''Over 2000 messages into the future!'')"
proof -
  have "\<not> i < sck_iteration (sks_chain st)" using assms by simp
  then show ?thesis using assms by (simp add: getSenderKey_def Let_def)
qed

lemma state_from_get: "state_from P k base st \<Longrightarrow> obj_get (sks_messageKeys st) i = Some seed \<Longrightarrow>
    base \<le> i \<and> seed = message_key_at P k (i - base)"
  by (auto simp: state_from_def dest!: obj_get_Some_in)

lemma skip_to_keys:
  assumes "chain_from P k base st" "sck_iteration (sks_chain st) \<le> i"
  shows "map fst (chain_keys P k base (sck_iteration (sks_chain st) - base) (i - sck_iteration (sks_chain st))) =
    [sck_iteration (sks_chain st)..<i]"
  by (rule nth_equalityI) (use chain_fromD(2) [OF assms(1)] assms(2) in \<open>simp_all add: chain_keys_def\<close>)

lemma skip_to_chain_from:
  assumes "chain_from P k base st" "sck_iteration (sks_chain st) \<le> i"
  shows "chain_from P k base (skip_to P k base i st)" "obj_get (sks_messageKeys (skip_to P k base i st)) i = None"
proof -
  let ?n = "sck_iteration (sks_chain st)"
  let ?all = "sks_messageKeys st @ chain_keys P k base (?n - base) (i - ?n)"
  note keys = skip_to_keys [OF assms] and st = chain_fromD [OF assms(1)]
  have "obj_wf ?all" using st(3,5) by (auto simp: keys)
  then have wf: "obj_wf (window ?all)" unfolding window_def drop_map [symmetric] by (rule distinct_drop)
  have "\<forall>j\<in>set (map fst ?all). j < i" using st(5) assms(2) by (force simp: keys)
  then have below: "\<forall>j\<in>set (map fst (window ?all)). j < i"
    by (auto simp: window_def dest: in_set_dropD)
  then show "chain_from P k base (skip_to P k base i st)"
    using wf st assms(2) window_length by (auto simp: chain_from_def sender_state_wf_def skip_to_def less_Suc_eq)
  have "i \<notin> set (map fst (window ?all))" using below by blast
  then show "obj_get (sks_messageKeys (skip_to P k base i st)) i = None"
    by (simp add: obj_get_None skip_to_def)
qed

lemma skip_to_from:
  assumes "state_from P k base st" "sck_iteration (sks_chain st) \<le> i"
  shows "state_from P k base (skip_to P k base i st)"
proof -
  let ?all = "sks_messageKeys st @ chain_keys P k base (sck_iteration (sks_chain st) - base) (i - sck_iteration (sks_chain st))"
  have "\<forall>(j, seed)\<in>set ?all. base \<le> j \<and> seed = message_key_at P k (j - base)"
    using assms(1) by (auto simp: state_from_def chain_keys_def)
  then have "\<forall>(j, seed)\<in>set (window ?all). base \<le> j \<and> seed = message_key_at P k (j - base)"
    by (auto simp: window_def dest: in_set_dropD)
  with skip_to_chain_from(1) [OF state_fromD [OF assms(1)] assms(2)] show ?thesis
    by (simp add: state_from_def skip_to_def)
qed

lemma key_removed_wf: "sender_state_wf st \<Longrightarrow> sender_state_wf (st\<lparr>sks_messageKeys := obj_del i (sks_messageKeys st)\<rparr>)"
  using le_trans [OF length_filter_le] by (auto simp: sender_state_wf_def obj_del_filter obj_wf_filter)

lemma key_removed_from: "state_from P k base st \<Longrightarrow> state_from P k base (st\<lparr>sks_messageKeys := obj_del i (sks_messageKeys st)\<rparr>)"
  using key_removed_wf by (auto simp: state_from_def chain_from_def obj_del_filter)

text \<open>What \<open>getSenderKey\<close> does to any well-formed state.\<close>

lemma getSenderKey_wf:
  assumes "hmac_ok P" "sender_state_wf st" "getSenderKey P st i = Inr (mk, st')"
  shows "sender_state_wf st'" "i < sck_iteration (sks_chain st')" "obj_get (sks_messageKeys st') i = None"
    "sks_id st' = sks_id st" "sks_public st' = sks_public st" "sks_private st' = sks_private st"
    "smk_iteration mk = i"
proof -
  let ?k = "sck_chainKey (sks_chain st)" and ?n = "sck_iteration (sks_chain st)"
  note self = chain_from_self [OF assms(2), of P]
  have "sender_state_wf st' \<and> i < sck_iteration (sks_chain st') \<and> obj_get (sks_messageKeys st') i = None \<and>
      sks_id st' = sks_id st \<and> sks_public st' = sks_public st \<and> sks_private st' = sks_private st \<and> smk_iteration mk = i"
  proof (cases "i < ?n")
    case True
    then obtain seed where seed: "obj_get (sks_messageKeys st) i = Some seed"
      using getSenderKey_used [OF True, of P] assms(3) by fastforce
    from getSenderKey_old [OF assms(1,2) True seed] assms(3)
    have "mk = smk_of P i seed" "st' = st\<lparr>sks_messageKeys := obj_del i (sks_messageKeys st)\<rparr>" by simp_all
    then show ?thesis using key_removed_wf [OF assms(2)] True by (simp add: obj_get_del smk_of_def Let_def)
  next
    case False
    then have near: "i - ?n \<le> MAX_JUMP" using getSenderKey_far [of i st P] assms(3) by fastforce
    have le: "?n \<le> i" using False by simp
    from getSenderKey_new [OF assms(1) self le near] assms(3)
    have "mk = smk_of P i (message_key_at P ?k (i - ?n))" "st' = skip_to P ?k ?n i st" by simp_all
    then show ?thesis
      using skip_to_chain_from [OF self le] chain_fromD(1) by (auto simp: skip_to_def smk_of_def Let_def)
  qed
  then show "sender_state_wf st'" "i < sck_iteration (sks_chain st')" "obj_get (sks_messageKeys st') i = None"
    "sks_id st' = sks_id st" "sks_public st' = sks_public st" "sks_private st' = sks_private st"
    "smk_iteration mk = i" by simp_all
qed

text \<open>The receiver can still derive or has stored the key of iteration \<open>i\<close>.\<close>

definition group_receivable :: "sender_key_state \<Rightarrow> nat \<Rightarrow> bool" where
  "group_receivable st i \<longleftrightarrow>
     (if i < sck_iteration (sks_chain st) then obj_get (sks_messageKeys st) i \<noteq> None
      else i - sck_iteration (sks_chain st) \<le> MAX_JUMP)"

lemma getSenderKey_receivable:
  assumes "hmac_ok P" "state_from P k base st" "group_receivable st i"
  obtains st' where "getSenderKey P st i = Inr (smk_of P i (message_key_at P k (i - base)), st')"
    "state_from P k base st'" "sks_id st' = sks_id st" "sks_public st' = sks_public st" "sks_private st' = sks_private st"
    "i < sck_iteration (sks_chain st')" "obj_get (sks_messageKeys st') i = None"
proof (cases "i < sck_iteration (sks_chain st)")
  case True
  then obtain seed where seed: "obj_get (sks_messageKeys st) i = Some seed" using assms(3) by (auto simp: group_receivable_def)
  have wf: "sender_state_wf st" using chain_fromD(1) [OF state_fromD [OF assms(2)]] .
  show thesis
    by (rule that [of "st\<lparr>sks_messageKeys := obj_del i (sks_messageKeys st)\<rparr>"])
      (use True getSenderKey_old [OF assms(1) wf True seed] state_from_get [OF assms(2) seed] key_removed_from [OF assms(2)]
        in \<open>simp_all add: obj_get_del\<close>)
next
  case False
  then have le: "sck_iteration (sks_chain st) \<le> i" "i - sck_iteration (sks_chain st) \<le> MAX_JUMP"
    using assms(3) by (simp_all add: group_receivable_def)
  note cf = state_fromD [OF assms(2)]
  show thesis
    by (rule that [OF getSenderKey_new [OF assms(1) cf le] skip_to_from [OF assms(2) le(1)] _ _ _ _
          skip_to_chain_from(2) [OF cf le(1)]])
      (simp_all add: skip_to_def)
qed

end
