(* ===== verification/Group_Messages.thy ===== *)
theory Group_Messages
  imports Group_Delivery
begin

text \<open>
  Sealing and opening of group messages: the signed frame, what \<open>encrypt\<close> leaves in the sender's
  record, what \<open>decrypt\<close> leaves in a receiver's record, and that no key opens two messages.
\<close>

section \<open>The signed frame\<close>

definition group_frame :: "wire \<Rightarrow> nat \<Rightarrow> nat \<Rightarrow> bytes \<Rightarrow> bytes" where
  "group_frame W keyId i ct =
     group_version # SenderKeyMessageProto_encode W \<lparr>skm_id = keyId, skm_iteration = i, skm_ciphertext = ct\<rparr>"

lemma group_version_value: "unat (drop_bit 4 (group_version AND 0xff)) = CURRENT_VERSION"
  by (simp add: group_version_def CURRENT_VERSION_def)

lemma parse_frame:
  assumes "wire_ok W" "keyId < 2 ^ 32" "i < 2 ^ 32" "length ct < 2 ^ 32" "length sig = GROUP_SIGNATURE_LENGTH"
  shows "parse_SenderKeyMessage W (group_frame W keyId i ct @ sig) =
    Inr \<lparr>gm_messageVersion = CURRENT_VERSION, gm_keyId = keyId, gm_iteration = i, gm_ciphertext = ct,
         gm_signature = sig, gm_serialized = group_frame W keyId i ct @ sig\<rparr>"
proof -
  define m where "m = \<lparr>skm_id = keyId, skm_iteration = i, skm_ciphertext = ct\<rparr>"
  have "SenderKeyMessageProto_decode W (SenderKeyMessageProto_encode W m) = Inr m"
    by (rule SenderKeyMessageProto_decode_encode) (use assms in \<open>simp_all add: skm_fits_def fits_b_def m_def\<close>)
  then show ?thesis
    using assms(5) group_version_value
    by (simp add: parse_SenderKeyMessage_def group_frame_def Let_def flip: m_def) (simp add: m_def)
qed

lemma verify_frame:
  assumes "dh_ok P" "sign_ok P" "is_key_pair P kp" "calculateSignature P (privKey kp) fr = Inr sig"
    "gm_serialized m = fr @ sig"
  shows "gm_verifySignature P (pubKey kp) m = Inr ()"
proof -
  have "length sig = GROUP_SIGNATURE_LENGTH"
    using assms(2-4) by (auto simp: calculateSignature_def res_simps sign_ok_def is_key_pair_def GROUP_SIGNATURE_LENGTH_def)
  then show ?thesis
    using signature_verifies [OF assms(1-4)] assms(5) by (simp add: gm_verifySignature_def Let_def)
qed

section \<open>Sealing\<close>

text \<open>The sender's state after a message: the chain is one iteration further, nothing is stored.\<close>

definition sent :: "prims \<Rightarrow> sender_key_state \<Rightarrow> sender_key_state" where
  "sent P st = st\<lparr>sks_chain := getNext P (sks_chain st)\<rparr>"

lemma getSenderKey_current:
  assumes "hmac_ok P"
  shows "getSenderKey P st (sck_iteration (sks_chain st)) =
    Inr (smk_of P (sck_iteration (sks_chain st)) (message_key_at P (sck_chainKey (sks_chain st)) 0), sent P st)"
  using getSenderMessageKey_eq [OF assms, of "sck_iteration (sks_chain st)" "sck_chainKey (sks_chain st)" 0]
  by (cases "sks_chain st") (simp add: getSenderKey_def Let_def skip_keys.simps sent_def)

lemma sent_from:
  assumes "state_from P k base st"
  shows "state_from P k base (sent P st)"
  using assms
  by (auto simp: state_from_def chain_from_def sender_state_wf_def sent_def getNext_def getDerivative_def calculateMAC_def
      Suc_diff_le less_Suc_eq)

lemma group_seal_eq:
  assumes P: "hmac_ok P" "aes_ok P" "sign_ok P"
    and st: "sks_private st = Some (privKey kp)" "is_key_pair P kp"
    and n: "n = sck_iteration (sks_chain st)"
    and mk: "mk = smk_of P n (message_key_at P (sck_chainKey (sks_chain st)) 0)"
  obtains ct sig where "aes256_cbc_decrypt P (smk_cipherKey mk) (smk_iv mk) ct = Inr pt"
    "length ct = 16 * (length pt div 16 + 1)"
    "calculateSignature P (privKey kp) (group_frame W (sks_id st) n ct) = Inr sig" "length sig = GROUP_SIGNATURE_LENGTH"
    "group_seal P W (rs @ [st]) pt = Inr (group_frame W (sks_id st) n ct @ sig, rs @ [sent P st])"
proof -
  have "length (smk_cipherKey mk) = 32" "length (smk_iv mk) = 16" unfolding mk by (rule smk_of_lengths [OF P(1)])+
  from aes_okE [OF P(2) this] obtain ct where ct: "aes256_cbc_encrypt P (smk_cipherKey mk) (smk_iv mk) pt = Inr ct"
    "length ct = 16 * (length pt div 16 + 1)" "aes256_cbc_decrypt P (smk_cipherKey mk) (smk_iv mk) ct = Inr pt" by metis
  have "length (privKey kp) = 32" using st(2) by (simp add: is_key_pair_def)
  from sign_total [OF P(3) this, of "group_frame W (sks_id st) n ct"] obtain sig
    where sig: "calculateSignature P (privKey kp) (group_frame W (sks_id st) n ct) = Inr sig" "length sig = 64" by blast
  have "smk_iteration mk = n" "sks_id (sent P st) = sks_id st" by (simp_all add: mk smk_of_def Let_def sent_def)
  then have "group_seal P W (rs @ [st]) pt = Inr (group_frame W (sks_id st) n ct @ sig, rs @ [sent P st])"
    using getSenderKey_current [OF P(1), of st] ct(1) sig(1) st(1)
    by (simp add: group_seal_def getSenderKeyState_def crypto_encrypt_def build_SenderKeyMessage_def group_frame_def
        flip: n mk)
  with ct sig show thesis using that by (simp add: GROUP_SIGNATURE_LENGTH_def)
qed

section \<open>Records\<close>

lemma find_id: "getSenderKeyState (Some i) r = Some st \<Longrightarrow> sks_id st = i \<and> st \<in> set r"
  by (auto simp: getSenderKeyState_def find_Some_iff)

lemma getSenderKeyState_put:
  assumes "getSenderKeyState (Some i) r = Some st" "sks_id st' = i"
  shows "getSenderKeyState (Some j) (put_state st' r) = (if j = i then Some st' else getSenderKeyState (Some j) r)"
proof -
  have "find (\<lambda>x. sks_id x = i) r = Some st \<Longrightarrow>
      find (\<lambda>x. sks_id x = j) (put_state st' r) = (if j = i then Some st' else find (\<lambda>x. sks_id x = j) r)"
    by (induction r) (use assms(2) in \<open>auto split: if_splits\<close>)
  with assms(1) show ?thesis by (simp add: getSenderKeyState_def)
qed

lemma put_state_ids: "map sks_id (put_state st r) = map sks_id r"
  by (induction r) auto

lemma put_state_set: "set (put_state st r) \<subseteq> insert st (set r)"
  by (induction r) auto

lemma put_state_wf: "sender_record_wf r \<Longrightarrow> sender_state_wf st \<Longrightarrow> sender_record_wf (put_state st r)"
  using put_state_set [of st r] put_state_ids [of st r]
  by (auto simp: sender_record_wf_def dest: arg_cong [where f = length])

section \<open>Opening\<close>

lemma group_open_cases:
  assumes "hmac_ok P" "sender_record_wf r" "group_open P W r bs = Inr (pt, r')"
  obtains m st st' mk where "parse_SenderKeyMessage W bs = Inr m" "getSenderKeyState (Some (gm_keyId m)) r = Some st"
    "gm_verifySignature P (sks_public st) m = Inr ()" "getSenderKey P st (gm_iteration m) = Inr (mk, st')"
    "crypto_decrypt P (smk_cipherKey mk) (gm_ciphertext m) (smk_iv mk) = Inr pt" "r' = put_state st' r"
    "getSenderKeyState (Some (gm_keyId m)) r' = Some st'" "sender_state_wf st'" "sks_id st' = gm_keyId m"
    "gm_iteration m < sck_iteration (sks_chain st')" "obj_get (sks_messageKeys st') (gm_iteration m) = None"
    "sks_public st' = sks_public st"
proof -
  from assms(3) obtain m st mk st' where m: "parse_SenderKeyMessage W bs = Inr m"
    "getSenderKeyState (Some (gm_keyId m)) r = Some st" "gm_verifySignature P (sks_public st) m = Inr ()"
    "getSenderKey P st (gm_iteration m) = Inr (mk, st')"
    "crypto_decrypt P (smk_cipherKey mk) (gm_ciphertext m) (smk_iv mk) = Inr pt" "r' = put_state st' r"
    unfolding group_open_def by (fastforce simp: res_simps split: option.splits)
  from find_id [OF m(2)] assms(2) have st: "sender_state_wf st" "sks_id st = gm_keyId m"
    by (auto simp: sender_record_wf_def)
  note st' = getSenderKey_wf [OF assms(1) st(1) m(4)]
  then show thesis using that m st(2) getSenderKeyState_put [OF m(2), of st'] by simp
qed

lemma group_open_used:
  assumes "parse_SenderKeyMessage W bs = Inr m" "getSenderKeyState (Some (gm_keyId m)) r = Some st"
    "gm_iteration m < sck_iteration (sks_chain st)" "obj_get (sks_messageKeys st) (gm_iteration m) = None"
  shows "\<exists>e. group_open P W r bs = Inl e"
  using assms getSenderKey_used [OF assms(3,4), of P]
  by (cases "gm_verifySignature P (sks_public st) m") (simp_all add: group_open_def)

lemma group_open_keeps_wf:
  assumes "hmac_ok P" "sender_record_wf r" "group_open P W r bs = Inr (pt, r')"
  shows "sender_record_wf r'"
  by (rule group_open_cases [OF assms]) (simp add: put_state_wf [OF assms(2)])

lemma group_seal_keeps_wf:
  assumes "hmac_ok P" "sender_record_wf r" "group_seal P W r pt = Inr (out, r')"
  shows "sender_record_wf r'"
proof -
  from assms(3) obtain st mk st' where st: "getSenderKeyState None r = Some st"
    "getSenderKey P st (sck_iteration (sks_chain st)) = Inr (mk, st')" "r' = butlast r @ [st']"
    unfolding group_seal_def by (fastforce simp: res_simps split: option.splits)
  from st(1) have r: "r = butlast r @ [st]" by (auto simp: getSenderKeyState_def split: if_splits)
  then have "sender_state_wf st" using assms(2) by (metis in_set_conv_decomp sender_record_wf_def)
  note st' = getSenderKey_wf [OF assms(1) this st(2)]
  have "sender_record_wf (butlast r @ [st])" using r assms(2) by simp
  then show ?thesis using st' unfolding st(3) sender_record_wf_def by simp
qed

end
