(* ===== verification/Group_Store.thy ===== *)
theory Group_Store
  imports Group_Messages
begin

text \<open>
  What group messaging needs of a \<open>SenderKeyStore\<close>, as the locale \<open>group_store\<close>, and what it then
  guarantees: stored records stay within their bounds, a failed operation changes nothing, and a
  distribution message lets a member read what the sender encrypts from then on, in any order.
\<close>

section \<open>Messages in flight\<close>

text \<open>The message \<open>m\<close> of iteration \<open>n\<close> on the chain with seed \<open>k\<close> at \<open>base\<close>, signed with \<open>kp\<close>.\<close>

definition seals :: "prims \<Rightarrow> wire \<Rightarrow> key_pair \<Rightarrow> bytes \<Rightarrow> nat \<Rightarrow> nat \<Rightarrow> nat \<Rightarrow> bytes \<Rightarrow> bytes \<Rightarrow> bool" where
  "seals P W kp k base keyId n pt m \<longleftrightarrow>
     (\<exists>ct sig. m = group_frame W keyId n ct @ sig \<and> length ct < 2 ^ 32 \<and> keyId < 2 ^ 32 \<and> n < 2 ^ 32 \<and>
        calculateSignature P (privKey kp) (group_frame W keyId n ct) = Inr sig \<and>
        length sig = GROUP_SIGNATURE_LENGTH \<and>
        (let mk = smk_of P n (message_key_at P k (n - base))
         in aes256_cbc_decrypt P (smk_cipherKey mk) (smk_iv mk) ct = Inr pt))"

definition group_crypto_ok :: "prims \<Rightarrow> wire \<Rightarrow> bool" where
  "group_crypto_ok P W \<longleftrightarrow> hmac_ok P \<and> aes_ok P \<and> dh_ok P \<and> sign_ok P \<and> wire_ok W"

definition plaintext_fits :: "bytes \<Rightarrow> bool" where
  "plaintext_fits pt \<longleftrightarrow> length pt + 16 < 2 ^ 32"

lemma seal_step:
  assumes "group_crypto_ok P W" "is_key_pair P kp" "state_from P k base st" "sks_private st = Some (privKey kp)"
    "sks_id st < 2 ^ 32" "sck_iteration (sks_chain st) < 2 ^ 32" "plaintext_fits pt"
  obtains m where "group_seal P W (rs @ [st]) pt = Inr (m, rs @ [sent P st])"
    "seals P W kp k base (sks_id st) (sck_iteration (sks_chain st)) pt m"
proof -
  let ?n = "sck_iteration (sks_chain st)"
  have P: "hmac_ok P" "aes_ok P" "sign_ok P" using assms(1) by (simp_all add: group_crypto_ok_def)
  have "sck_chainKey (sks_chain st) = chain_key_at P k (?n - base)" using state_fromD [OF assms(3)] by (simp add: chain_from_def)
  then have key: "message_key_at P (sck_chainKey (sks_chain st)) 0 = message_key_at P k (?n - base)"
    by (simp add: message_key_at_add)
  obtain ct sig where ct: "aes256_cbc_decrypt P (smk_cipherKey (smk_of P ?n (message_key_at P k (?n - base))))
      (smk_iv (smk_of P ?n (message_key_at P k (?n - base)))) ct = Inr pt" "length ct = 16 * (length pt div 16 + 1)"
    "calculateSignature P (privKey kp) (group_frame W (sks_id st) ?n ct) = Inr sig" "length sig = GROUP_SIGNATURE_LENGTH"
    "group_seal P W (rs @ [st]) pt = Inr (group_frame W (sks_id st) ?n ct @ sig, rs @ [sent P st])"
    by (rule group_seal_eq [OF P assms(4,2) refl refl, of pt W rs, unfolded key])
  have "length ct \<le> length pt + 16" using ct(2) by simp
  then have "length ct < 2 ^ 32" using assms(7) unfolding plaintext_fits_def by (rule le_less_trans)
  then have "seals P W kp k base (sks_id st) ?n pt (group_frame W (sks_id st) ?n ct @ sig)"
    using ct assms(5,6) unfolding seals_def Let_def by blast
  with ct(5) show thesis by (rule that)
qed

lemma open_step:
  assumes "group_crypto_ok P W" "is_key_pair P kp" "seals P W kp k base keyId n pt m"
    "getSenderKeyState (Some keyId) r = Some st" "sks_public st = pubKey kp" "state_from P k base st" "group_receivable st n"
  obtains st' mk where "group_open P W r m = Inr (pt, put_state st' r)" "getSenderKey P st n = Inr (mk, st')"
    "state_from P k base st'" "sks_public st' = pubKey kp" "getSenderKeyState (Some keyId) (put_state st' r) = Some st'"
proof -
  have P: "hmac_ok P" "dh_ok P" "sign_ok P" "wire_ok W" using assms(1) by (simp_all add: group_crypto_ok_def)
  from assms(3) obtain ct sig where m: "m = group_frame W keyId n ct @ sig" "length ct < 2 ^ 32" "keyId < 2 ^ 32" "n < 2 ^ 32"
    "calculateSignature P (privKey kp) (group_frame W keyId n ct) = Inr sig" "length sig = GROUP_SIGNATURE_LENGTH"
    "aes256_cbc_decrypt P (smk_cipherKey (smk_of P n (message_key_at P k (n - base))))
       (smk_iv (smk_of P n (message_key_at P k (n - base)))) ct = Inr pt"
    by (auto simp: seals_def Let_def)
  from getSenderKey_receivable [OF P(1) assms(6,7)] obtain st' where
    st': "getSenderKey P st n = Inr (smk_of P n (message_key_at P k (n - base)), st')" "state_from P k base st'"
      "sks_id st' = sks_id st" "sks_public st' = sks_public st" by metis
  have parse: "parse_SenderKeyMessage W m = Inr \<lparr>gm_messageVersion = CURRENT_VERSION, gm_keyId = keyId, gm_iteration = n,
      gm_ciphertext = ct, gm_signature = sig, gm_serialized = m\<rparr>"
    unfolding m(1) by (rule parse_frame [OF P(4) m(3,4,2,6)])
  have open_eq: "group_open P W r m = Inr (pt, put_state st' r)"
    using assms(4,5) st'(1) m(7) verify_frame [OF P(2,3) assms(2) m(5)]
    by (simp add: group_open_def parse crypto_decrypt_def) (simp add: m(1))
  have "sks_id st' = keyId" using st'(3) find_id [OF assms(4)] by simp
  then have "getSenderKeyState (Some keyId) (put_state st' r) = Some st'" using getSenderKeyState_put [OF assms(4)] by simp
  with open_eq st' assms(5) show thesis by (intro that) simp_all
qed

section \<open>Which messages a member can still read\<close>

text \<open>
  Of the messages \<open>n0, ..., n0 + m - 1\<close> those in \<open>D\<close> were read; the state stores the keys of the
  others up to its own iteration.
\<close>

definition pending :: "nat \<Rightarrow> nat \<Rightarrow> nat set \<Rightarrow> sender_key_state \<Rightarrow> bool" where
  "pending n0 m D st \<longleftrightarrow> n0 \<le> sck_iteration (sks_chain st) \<and> sck_iteration (sks_chain st) \<le> n0 + m \<and>
     D \<subseteq> {n0..<sck_iteration (sks_chain st)} \<and>
     set (map fst (sks_messageKeys st)) = {n0..<sck_iteration (sks_chain st)} - D"

lemma pending_new: "pending n0 m {} (new_SenderKeyState i n0 k pub priv)"
  by (simp add: pending_def new_SenderKeyState_def)

lemma pending_receivable:
  assumes "pending n0 m D st" "m \<le> MAX_JUMP" "n0 \<le> i" "i < n0 + m" "i \<notin> D"
  shows "group_receivable st i"
  using assms unfolding group_receivable_def obj_get_None pending_def by auto

lemma pending_step:
  assumes "hmac_ok P" "sender_state_wf st" "getSenderKey P st i = Inr (mk, st')"
    and pend: "pending n0 m D st" "m \<le> GROUP_MAX_MESSAGE_KEYS" and i: "n0 \<le> i" "i < n0 + m"
  shows "pending n0 m (insert i D) st'"
proof -
  let ?k = "sck_chainKey (sks_chain st)" and ?n = "sck_iteration (sks_chain st)"
  note self = chain_from_self [OF assms(2), of P]
  show ?thesis
  proof (cases "i < ?n")
    case True
    then obtain seed where seed: "obj_get (sks_messageKeys st) i = Some seed"
      using getSenderKey_used [OF True, of P] assms(3) by fastforce
    from getSenderKey_old [OF assms(1,2) True seed] assms(3)
    have st': "st' = st\<lparr>sks_messageKeys := obj_del i (sks_messageKeys st)\<rparr>" by simp
    have "set (obj_keys (obj_del i (sks_messageKeys st))) = set (obj_keys (sks_messageKeys st)) - {i}"
      unfolding obj_keys_del by auto
    then show ?thesis using pend(1) True i(1) unfolding pending_def st' by auto
  next
    case False
    then have near: "i - ?n \<le> MAX_JUMP" using getSenderKey_far [of i st P] assms(3) by fastforce
    have le: "?n \<le> i" using False by simp
    let ?all = "sks_messageKeys st @ chain_keys P ?k ?n (?n - ?n) (i - ?n)"
    from getSenderKey_new [OF assms(1) self le near] assms(3) have st': "st' = skip_to P ?k ?n i st" by simp
    have keys: "obj_keys ?all = obj_keys (sks_messageKeys st) @ [?n..<i]" using skip_to_keys [OF self le] by simp
    then have set_all: "set (obj_keys ?all) = {n0..<?n} - D \<union> {?n..<i}" using pend(1) by (simp add: pending_def)
    have "distinct (obj_keys ?all)" unfolding keys using chain_fromD(3,5) [OF self] by auto
    from distinct_card [OF this] have "length ?all = card (set (obj_keys ?all))" by (simp only: length_map)
    also have "\<dots> \<le> card {n0..<n0 + m}" unfolding set_all by (rule card_mono) (use i pend(1) in \<open>auto simp: pending_def\<close>)
    finally have "window ?all = ?all" using pend(2) by (simp add: window_small)
    then have "set (obj_keys (sks_messageKeys st')) = {n0..<?n} - D \<union> {?n..<i}" using set_all by (simp add: st' skip_to_def)
    moreover have "sck_iteration (sks_chain st') = Suc i" by (simp add: st' skip_to_def)
    moreover have "D \<inter> {?n..<i} = {}" using pend(1) by (auto simp: pending_def)
    ultimately show ?thesis using pend(1) i le unfolding pending_def by auto
  qed
qed


section \<open>The contract of a sender key store\<close>

locale group_store =
  fixes G :: "'s sender_key_store" and good :: "'s \<Rightarrow> bool"
  assumes load_key_total: "good s \<Longrightarrow> \<exists>r. loadSenderKey G name s = Inr r"
    and load_key_ok: "good s \<Longrightarrow> loadSenderKey G name s = Inr (Some r) \<Longrightarrow> sender_record_wf r"
    and store_key_good: "good s \<Longrightarrow> sender_record_wf r \<Longrightarrow> good (snd (storeSenderKey G name r s))"
    and store_key_total: "fst (storeSenderKey G name r s) = Inr ()"
    and load_store_key: "good s \<Longrightarrow> sender_record_wf r \<Longrightarrow>
      loadSenderKey G name' (snd (storeSenderKey G name r s)) =
        (if SenderKeyName_serialize name' = SenderKeyName_serialize name then Inr (Some r) else loadSenderKey G name' s)"

text \<open>A member with the signing key, at iteration \<open>n\<close> of the chain; a member who reads that chain.\<close>

definition sender_at :: "prims \<Rightarrow> 's sender_key_store \<Rightarrow> sender_key_name \<Rightarrow> key_pair \<Rightarrow> bytes \<Rightarrow> nat \<Rightarrow> nat \<Rightarrow> nat \<Rightarrow> 's \<Rightarrow> bool" where
  "sender_at P G name kp k base keyId n s \<longleftrightarrow>
     (\<exists>rs st. loadSenderKey G name s = Inr (Some (rs @ [st])) \<and> state_from P k base st \<and> sks_id st = keyId \<and>
        sks_public st = pubKey kp \<and> sks_private st = Some (privKey kp) \<and> sck_iteration (sks_chain st) = n)"

definition reader_at :: "prims \<Rightarrow> 's sender_key_store \<Rightarrow> sender_key_name \<Rightarrow> key_pair \<Rightarrow> bytes \<Rightarrow> nat \<Rightarrow> nat \<Rightarrow> sender_key_state \<Rightarrow> 's \<Rightarrow> bool" where
  "reader_at P G name kp k base keyId st s \<longleftrightarrow>
     (\<exists>r. loadSenderKey G name s = Inr (Some r) \<and> getSenderKeyState (Some keyId) r = Some st \<and>
        state_from P k base st \<and> sks_public st = pubKey kp)"

text \<open>An operation for each element of a list, in order; the first error ends the run.\<close>

primrec smap :: "('a \<Rightarrow> ('s, 'b) op) \<Rightarrow> 'a list \<Rightarrow> ('s, 'b list) op" where
  "smap f [] = sret []"
| "smap f (x # xs) = sbind (f x) (\<lambda>y. sbind (smap f xs) (\<lambda>ys. sret (y # ys)))"

context group_store
begin

lemma stored:
  assumes "good s" "sender_record_wf r"
  obtains s' where "storeSenderKey G name r s = (Inr (), s')" "good s'"
    "\<And>name'. loadSenderKey G name' s' =
       (if SenderKeyName_serialize name' = SenderKeyName_serialize name then Inr (Some r) else loadSenderKey G name' s)"
  using store_key_total [of name r s] store_key_good [OF assms, of name] load_store_key [OF assms, of _ name] that
  by (cases "storeSenderKey G name r s") simp

lemma sent_wf:
  assumes "sender_record_wf (rs @ [st])" "state_from P k base st"
  shows "sender_record_wf (rs @ [sent P st])"
  using assms chain_fromD(1) [OF state_fromD [OF sent_from [OF assms(2)]]] by (simp add: sender_record_wf_def sent_def)

lemma encrypt_step:
  assumes "group_crypto_ok P W" "good s" "is_key_pair P kp" "sender_at P G name kp k base keyId n s"
    "keyId < 2 ^ 32" "n < 2 ^ 32" "plaintext_fits pt"
  obtains m s' where "group_encrypt P W G name pt s = (Inr m, s')" "good s'" "seals P W kp k base keyId n pt m"
    "sender_at P G name kp k base keyId (Suc n) s'"
proof -
  from assms(4) obtain rs st where st: "loadSenderKey G name s = Inr (Some (rs @ [st]))" "state_from P k base st" "sks_id st = keyId"
    "sks_public st = pubKey kp" "sks_private st = Some (privKey kp)" "sck_iteration (sks_chain st) = n"
    by (auto simp: sender_at_def)
  from seal_step [OF assms(1,3) st(2,5) _ _ assms(7), of rs] assms(5,6) st(3,6) obtain m where
    m: "group_seal P W (rs @ [st]) pt = Inr (m, rs @ [sent P st])" "seals P W kp k base keyId n pt m" by metis
  from stored [OF assms(2) sent_wf [OF load_key_ok [OF assms(2) st(1)] st(2)], of name] obtain s' where
    s': "storeSenderKey G name (rs @ [sent P st]) s = (Inr (), s')" "good s'"
      "loadSenderKey G name s' = Inr (Some (rs @ [sent P st]))" by metis
  have "group_encrypt P W G name pt s = (Inr m, s')"
    using st(1) m(1) s'(1) by (simp add: group_encrypt_def sbind_def sread_def slift_def sret_def)
  moreover have "sender_at P G name kp k base keyId (Suc n) s'"
    using s'(3) sent_from [OF st(2)] st(3-6) by (auto simp: sender_at_def sent_def getNext_def)
  ultimately show thesis using s'(2) m(2) by (intro that)
qed

lemma decrypt_step:
  assumes "group_crypto_ok P W" "good s" "is_key_pair P kp" "reader_at P G name kp k base keyId st s"
    "seals P W kp k base keyId n pt m" "group_receivable st n"
  obtains s' st' mk where "group_decrypt P W G name m s = (Inr pt, s')" "good s'" "getSenderKey P st n = Inr (mk, st')"
    "reader_at P G name kp k base keyId st' s'"
proof -
  from assms(4) obtain r where st: "loadSenderKey G name s = Inr (Some r)" "getSenderKeyState (Some keyId) r = Some st"
    "state_from P k base st" "sks_public st = pubKey kp"
    by (auto simp: reader_at_def)
  have hm: "hmac_ok P" using assms(1) by (simp add: group_crypto_ok_def)
  from open_step [OF assms(1,3,5) st(2,4,3) assms(6)] obtain st' mk where
    st': "group_open P W r m = Inr (pt, put_state st' r)" "getSenderKey P st n = Inr (mk, st')"
    "state_from P k base st'" "sks_public st' = pubKey kp" "getSenderKeyState (Some keyId) (put_state st' r) = Some st'" .
  from stored [OF assms(2) group_open_keeps_wf [OF hm load_key_ok [OF assms(2) st(1)] st'(1)], of name] obtain s' where
    s': "storeSenderKey G name (put_state st' r) s = (Inr (), s')" "good s'"
      "loadSenderKey G name s' = Inr (Some (put_state st' r))" by metis
  have "group_decrypt P W G name m s = (Inr pt, s')"
    using st(1) st'(1) s'(1) by (simp add: group_decrypt_def sbind_def sread_def slift_def sret_def)
  moreover have "reader_at P G name kp k base keyId st' s'" using s'(3) st'(3-5) by (auto simp: reader_at_def)
  ultimately show thesis using s'(2) st'(2) by (intro that)
qed

end

end
