(* ===== verification/Group_Conversation.thy ===== *)
theory Group_Conversation
  imports Group_Store
begin

text \<open>
  The operations of group messaging over any store that meets \<open>group_store\<close>: what they keep, what a
  failure leaves, and a conversation from \<open>create\<close> or \<open>rotate\<close> through the distribution message to
  messages that are read in any order.
\<close>

lemma distribution_roundtrip:
  assumes "wire_ok W" "i < 2 ^ 32" "n < 2 ^ 32" "length k = 32" "length pub < 2 ^ 32"
  shows "parse_SenderKeyDistributionMessage W (dm_serialized (build_SenderKeyDistributionMessage W i n k pub)) =
    Inr (build_SenderKeyDistributionMessage W i n k pub)"
proof -
  have "skd_fits \<lparr>skd_id = i, skd_iteration = n, skd_chainKey = k, skd_signingKey = pub\<rparr>"
    using assms by (simp add: skd_fits_def fits_b_def)
  from SenderKeyDistributionMessageProto_decode_encode [OF assms(1) this] show ?thesis
    by (simp add: parse_SenderKeyDistributionMessage_def build_SenderKeyDistributionMessage_def)
qed

lemma generateSenderKeyId_range: "generateSenderKeyId rnd < 2 ^ 31"
proof -
  have "(word_rcat (take 4 rnd) :: 32 word) AND 0x7fffffff \<le> 0x7fffffff" by (rule word_and_le1)
  then have "unat ((word_rcat (take 4 rnd) :: 32 word) AND 0x7fffffff) \<le> unat (0x7fffffff :: 32 word)"
    by (simp add: word_le_nat_alt)
  then show ?thesis by (simp add: generateSenderKeyId_def)
qed

context group_store
begin

section \<open>What every operation keeps\<close>

lemma keeps_store: "sender_record_wf r \<Longrightarrow> keeps good (storeSenderKey G name r) (\<lambda>_. True)"
  unfolding keeps_def using store_key_good by (metis snd_conv)

lemma keeps_load: "keeps good (sread (loadSenderKey G name)) (\<lambda>r. \<forall>x. r = Some x \<longrightarrow> sender_record_wf x)"
  by (rule keeps_sread) (auto dest: load_key_ok)

theorem group_encrypt_good: "hmac_ok P \<Longrightarrow> keeps good (group_encrypt P W G name pt) (\<lambda>_. True)"
  unfolding group_encrypt_def
  by (intro keeps_sbind [OF keeps_load] keeps_option keeps_slift keeps_slift_bind)
    (auto intro!: keeps_step keeps_store keeps_sret dest: group_seal_keeps_wf split: prod.splits)

theorem group_decrypt_good: "hmac_ok P \<Longrightarrow> keeps good (group_decrypt P W G name bs) (\<lambda>_. True)"
  unfolding group_decrypt_def
  by (intro keeps_sbind [OF keeps_load] keeps_option keeps_slift keeps_slift_bind)
    (auto intro!: keeps_step keeps_store keeps_sret dest: group_open_keeps_wf split: prod.splits)

lemma loaded_wf: "(\<forall>x. r = Some x \<longrightarrow> sender_record_wf x) \<Longrightarrow> sender_record_wf (case r of None \<Rightarrow> [] | Some r \<Rightarrow> r)"
  by (auto simp: sender_record_wf_def split: option.splits)

theorem group_process_good: "keeps good (group_process G name m) (\<lambda>_. True)"
  unfolding group_process_def Let_def
  by (intro keeps_if keeps_slift keeps_sbind [OF keeps_load] TrueI keeps_store addSenderKeyState_wf [OF loaded_wf]) simp_all

theorem group_create_good:
  assumes "privKey (gr_signingKey rnd) \<noteq> []"
  shows "keeps good (group_create W rnd G name) (\<lambda>_. True)"
proof -
  have "sender_record_wf (addSenderKeyState i n k pub (Some (privKey (gr_signingKey rnd))) (case r of None \<Rightarrow> [] | Some r \<Rightarrow> r))"
    if "\<forall>x. r = Some x \<longrightarrow> sender_record_wf x" for i n k pub r
    using addSenderKeyState_wf [OF loaded_wf [OF that]] assms by simp
  then show ?thesis
    unfolding group_create_def Let_def generateSenderSigningKey_def
    by (intro keeps_sbind [OF keeps_load] keeps_step [OF keeps_store] keeps_option keeps_slift keeps_sret TrueI)
      (simp_all add: loaded_wf)
qed

theorem group_rotate_good:
  assumes "privKey (gr_signingKey rnd) \<noteq> []"
  shows "keeps good (group_rotate W rnd G name) (\<lambda>_. True)"
proof -
  have "sender_record_wf (setSenderKeyState i n k pub (Some (privKey (gr_signingKey rnd))) r)" for i n k pub r
    using assms new_state_wf [of "Some (privKey (gr_signingKey rnd))"]
    by (simp add: sender_record_wf_def setSenderKeyState_def MAX_STATES_def)
  then show ?thesis
    unfolding group_rotate_def Let_def generateSenderSigningKey_def
    by (intro keeps_step [OF keeps_store] keeps_option keeps_slift keeps_sret TrueI) simp_all
qed

text \<open>The only write of \<open>encrypt\<close> and \<open>decrypt\<close> is their last step.\<close>

lemma load_store_clean:
  "sbind (sread f) (\<lambda>x. case x of None \<Rightarrow> slift (Inl e0) | Some y \<Rightarrow>
     sbind (slift (g y)) (\<lambda>(out, r'). sbind (storeSenderKey G name r') (\<lambda>_. sret out))) s = (Inl e, s') \<Longrightarrow> s' = s"
  using store_key_total [of name]
  by (auto simp: sbind_def sread_def slift_def sret_def split: sum.splits option.splits prod.splits)
    (metis fst_conv Inl_not_Inr)+

theorem group_decrypt_clean: "group_decrypt P W G name bs s = (Inl e, s') \<Longrightarrow> s' = s"
  unfolding group_decrypt_def by (rule load_store_clean)

theorem group_encrypt_clean: "group_encrypt P W G name pt s = (Inl e, s') \<Longrightarrow> s' = s"
  unfolding group_encrypt_def by (rule load_store_clean)

section \<open>A conversation\<close>

lemma encrypt_all:
  assumes "group_crypto_ok P W" "is_key_pair P kp" "keyId < 2 ^ 32"
  shows "good s \<Longrightarrow> sender_at P G name kp k base keyId n s \<Longrightarrow> n + length pts \<le> 2 ^ 32 \<Longrightarrow> \<forall>pt\<in>set pts. plaintext_fits pt \<Longrightarrow>
    \<exists>ms s'. smap (group_encrypt P W G name) pts s = (Inr ms, s') \<and> good s' \<and> length ms = length pts \<and>
      (\<forall>i<length pts. seals P W kp k base keyId (n + i) (pts ! i) (ms ! i)) \<and> sender_at P G name kp k base keyId (n + length pts) s'"
proof (induction pts arbitrary: n s)
  case Nil
  then show ?case by (simp add: sret_def)
next
  case (Cons pt pts)
  then have "n < 2 ^ 32" "plaintext_fits pt" by simp_all
  from encrypt_step [OF assms(1) Cons.prems(1) assms(2) Cons.prems(2) assms(3) this] obtain m s1 where
    m: "group_encrypt P W G name pt s = (Inr m, s1)" "good s1" "seals P W kp k base keyId n pt m"
      "sender_at P G name kp k base keyId (Suc n) s1" .
  from Cons.IH [OF m(2,4)] Cons.prems obtain ms s2 where
    ms: "smap (group_encrypt P W G name) pts s1 = (Inr ms, s2)" "good s2" "length ms = length pts"
      "\<forall>i<length pts. seals P W kp k base keyId (Suc n + i) (pts ! i) (ms ! i)"
      "sender_at P G name kp k base keyId (Suc n + length pts) s2" by auto
  have "seals P W kp k base keyId (n + i) ((pt # pts) ! i) ((m # ms) ! i)" if "i < length (pt # pts)" for i
    using that m(3) ms(4) by (cases i) auto
  with m ms show ?case by (auto simp: sbind_def sret_def)
qed

lemma decrypt_all:
  assumes "group_crypto_ok P W" "is_key_pair P kp" "\<forall>i<length pts. seals P W kp k base keyId (n + i) (pts ! i) (ms ! i)"
    "length pts \<le> GROUP_MAX_MESSAGE_KEYS" "base \<le> n"
  shows "good s \<Longrightarrow> reader_at P G name kp k base keyId st s \<Longrightarrow> pending n (length pts) ((+) n ` D) st \<Longrightarrow>
    distinct js \<Longrightarrow> set js \<subseteq> {..<length pts} - D \<Longrightarrow>
    \<exists>s' st'. smap (group_decrypt P W G name) (map ((!) ms) js) s = (Inr (map ((!) pts) js), s') \<and> good s' \<and>
      reader_at P G name kp k base keyId st' s' \<and> pending n (length pts) ((+) n ` (D \<union> set js)) st'"
proof (induction js arbitrary: D s st)
  case Nil
  then show ?case by (auto simp: sret_def)
next
  case (Cons j js)
  have hm: "hmac_ok P" using assms(1) by (simp add: group_crypto_ok_def)
  have jump: "length pts \<le> MAX_JUMP" using assms(4) by (simp add: MAX_JUMP_def GROUP_MAX_MESSAGE_KEYS_def)
  have j: "j < length pts" "j \<notin> D" using Cons.prems(5) by auto
  have "group_receivable st (n + j)"
    by (rule pending_receivable [OF Cons.prems(3) jump]) (use j in \<open>simp_all add: image_iff\<close>)
  from decrypt_step [OF assms(1) Cons.prems(1) assms(2) Cons.prems(2) assms(3) [rule_format, OF j(1)] this] obtain s1 st1 mk where
    s1: "group_decrypt P W G name (ms ! j) s = (Inr (pts ! j), s1)" "good s1" "getSenderKey P st (n + j) = Inr (mk, st1)"
      "reader_at P G name kp k base keyId st1 s1" .
  have "sender_state_wf st" using Cons.prems(2) by (auto simp: reader_at_def intro!: chain_fromD(1) state_fromD)
  from pending_step [OF hm this s1(3) Cons.prems(3) assms(4)] j(1)
  have "pending n (length pts) ((+) n ` insert j D) st1" by simp
  from Cons.IH [OF s1(2,4) this] Cons.prems j obtain s2 st2 where
    "smap (group_decrypt P W G name) (map ((!) ms) js) s1 = (Inr (map ((!) pts) js), s2)" "good s2"
    "reader_at P G name kp k base keyId st2 s2" "pending n (length pts) ((+) n ` (insert j D \<union> set js)) st2"
    by (auto simp: subset_iff)
  with s1(1) show ?case by (auto simp: sbind_def sret_def)
qed

text \<open>A distribution message makes a member a reader of the chain from its iteration on.\<close>

lemma process_step:
  fixes W :: wire and keyId :: nat
  assumes "good s" "length (chain_key_at P k (n - base)) = 32" "base \<le> n" "length pub = 33"
  defines "dm \<equiv> build_SenderKeyDistributionMessage W keyId n (chain_key_at P k (n - base)) pub"
  obtains s' where "group_process G name dm s = (Inr (), s')" "good s'"
    "\<And>kp. pubKey kp = pub \<Longrightarrow>
       reader_at P G name kp k base keyId (new_SenderKeyState keyId n (chain_key_at P k (n - base)) pub None) s'"
proof -
  from load_key_total [OF assms(1)] obtain loaded where l: "loadSenderKey G name s = Inr loaded" by blast
  define r where "r = (case loaded of None \<Rightarrow> [] | Some r \<Rightarrow> r)"
  define st where "st = new_SenderKeyState keyId n (chain_key_at P k (n - base)) pub None"
  have wf: "sender_record_wf r" unfolding r_def by (rule loaded_wf) (use load_key_ok [OF assms(1)] l in blast)
  define r' where "r' = addSenderKeyState keyId n (chain_key_at P k (n - base)) pub None r"
  have "sender_record_wf r'" unfolding r'_def by (rule addSenderKeyState_wf [OF wf]) simp
  from stored [OF assms(1) this, of name] obtain s' where s': "storeSenderKey G name r' s = (Inr (), s')" "good s'"
    "loadSenderKey G name s' = Inr (Some r')" by metis
  have "group_process G name dm s = (Inr (), s')"
    using s'(1) l assms(2,4)
    by (simp add: group_process_def dm_def build_SenderKeyDistributionMessage_def sbind_def sread_def Let_def r'_def r_def)
  moreover have "state_from P k base st"
    using assms(3) by (simp add: state_from_def chain_from_def st_def sender_state_wf_def new_SenderKeyState_def)
  moreover have "getSenderKeyState (Some keyId) r' = Some st"
    unfolding r'_def st_def by (rule getSenderKeyState_add [OF wf])
  ultimately show thesis using s' that by (auto simp: reader_at_def st_def new_SenderKeyState_def)
qed

text \<open>\<open>rotate\<close>, and \<open>create\<close> on an empty record, start a new chain.\<close>

lemma start_step:
  assumes "good s" "is_key_pair P (gr_signingKey rnd)"
    "op = group_rotate W rnd G name \<or> op = group_create W rnd G name \<and> loadSenderKey G name s \<in> {Inr None, Inr (Some [])}"
  obtains s' where
    "op s = (Inr (build_SenderKeyDistributionMessage W (generateSenderKeyId (gr_idBytes rnd)) 0 (gr_senderKey rnd)
        (pubKey (gr_signingKey rnd))), s')" "good s'"
    "sender_at P G name (gr_signingKey rnd) (gr_senderKey rnd) 0 (generateSenderKeyId (gr_idBytes rnd)) 0 s'"
proof -
  define st where "st = new_SenderKeyState (generateSenderKeyId (gr_idBytes rnd)) 0 (gr_senderKey rnd) (pubKey (gr_signingKey rnd))
     (Some (privKey (gr_signingKey rnd)))"
  have priv: "privKey (gr_signingKey rnd) \<noteq> []" using assms(2) by (auto simp: is_key_pair_def)
  have wf: "sender_record_wf [st]"
    using new_state_wf priv by (simp add: sender_record_wf_def st_def MAX_STATES_def)
  from stored [OF assms(1) wf, of name] obtain s' where s': "storeSenderKey G name [st] s = (Inr (), s')" "good s'"
    "loadSenderKey G name s' = Inr (Some ([] @ [st]))" by (metis append_Nil)
  have get: "getSenderKeyState None [st] = Some st" by (simp add: getSenderKeyState_def)
  have "op s = (Inr (state_distribution W st), s')"
    using assms(3)
  proof
    assume "op = group_rotate W rnd G name"
    then show ?thesis using s'(1) get
      by (simp add: group_rotate_def Let_def generateSenderSigningKey_def setSenderKeyState_def sbind_def sret_def flip: st_def)
  next
    assume "op = group_create W rnd G name \<and> loadSenderKey G name s \<in> {Inr None, Inr (Some [])}"
    then show ?thesis using s'(1) get
      by (auto simp: group_create_def Let_def generateSenderSigningKey_def addSenderKeyState_def record_isEmpty_def MAX_STATES_def
          sbind_def sread_def sret_def simp flip: st_def)
  qed
  moreover have "sender_at P G name (gr_signingKey rnd) (gr_senderKey rnd) 0 (generateSenderKeyId (gr_idBytes rnd)) 0 s'"
    using s'(3) priv by (auto simp: sender_at_def st_def new_SenderKeyState_def state_from_def chain_from_def sender_state_wf_def)
  ultimately show thesis using s'(2) by (intro that) (simp_all add: state_distribution_def st_def new_SenderKeyState_def)
qed

end

end
