(* ===== verification/Key_Helper.thy ===== *)
theory Key_Helper
  imports Curve Prekey_Validator
begin

text \<open>
  \<open>src/keyhelper.ts\<close>: prekey ids, registration ids, signed prekeys, prekeys, and the batch generator,
  whose workers share one counter. A generated key pair and the clock are inputs. The asynchronous
  generators differ from the synchronous ones in how they wait for the key pair.
\<close>

section \<open>Ids and ages\<close>

definition kh_isNonNegativeInteger :: "int \<Rightarrow> bool" where
  "kh_isNonNegativeInteger n \<longleftrightarrow> n mod 1 = 0 \<and> n \<ge> 0"

text \<open>The remainder of JavaScript has the sign of the dividend.\<close>

definition js_rem :: "int \<Rightarrow> int \<Rightarrow> int" where
  "js_rem a m = (if 0 \<le> a then a mod m else - ((- a) mod m))"

definition wrapPreKeyId :: "int \<Rightarrow> int" where
  "wrapPreKeyId i = js_rem (js_rem (i - 1) MAX_KEY_ID + MAX_KEY_ID) MAX_KEY_ID + 1"

record signed_pre_key =
  spk_id :: nat
  spk_keyPair :: key_pair
  spk_sig :: bytes
  spk_createdAt :: int

record pre_key =
  prk_id :: nat
  prk_keyPair :: key_pair

definition DEFAULT_SIGNED_PRE_KEY_MAX_AGE_MS :: int where
  "DEFAULT_SIGNED_PRE_KEY_MAX_AGE_MS = 7 * 24 * 60 * 60 * 1000"

definition shouldRotateSignedPreKey :: "int \<Rightarrow> int \<Rightarrow> int \<Rightarrow> error + bool" where
  "shouldRotateSignedPreKey now createdAt maxAgeMs =
     (if \<not> kh_isNonNegativeInteger createdAt then Inl (TypeError ''Invalid argument for createdAt'')
      else if \<not> kh_isNonNegativeInteger maxAgeMs then Inl (TypeError ''Invalid argument for maxAgeMs'')
      else Inr (now - createdAt \<ge> maxAgeMs))"

section \<open>Registration ids\<close>

text \<open>
  The loop draws two random bytes until the 14-bit value is not zero; \<open>rnd i\<close> is the \<open>i\<close>-th draw.
  It may run for ever, so the value is \<open>None\<close> when it does.
\<close>

definition draw14 :: "bytes \<Rightarrow> nat" where
  "draw14 b = unat ((push_bit 8 (ucast (b ! 0)) OR ucast (b ! 1) :: 16 word) AND 0x3fff)"

partial_function (option) generateRegistrationId :: "(nat \<Rightarrow> bytes) \<Rightarrow> nat \<Rightarrow> nat option" where
  "generateRegistrationId rnd i =
     (let registrationId = draw14 (rnd i)
      in if registrationId = 0 then generateRegistrationId rnd (i + 1) else Some registrationId)"

section \<open>Key generation\<close>

definition identity_lengths :: "key_pair \<Rightarrow> bool" where
  "identity_lengths kp \<longleftrightarrow> length (privKey kp) = 32 \<and> length (pubKey kp) = 33"

definition generateSignedPreKey :: "prims \<Rightarrow> int \<Rightarrow> key_pair \<Rightarrow> key_pair \<Rightarrow> int \<Rightarrow> error + signed_pre_key" where
  "generateSignedPreKey P now generated identity signedKeyId =
     (if \<not> identity_lengths identity then Inl (TypeError ''Invalid argument for identityKeyPair'')
      else if \<not> kh_isNonNegativeInteger signedKeyId then Inl (TypeError ''Invalid argument for signedKeyId'')
      else rbind (calculateSignature P (privKey identity) (pubKey generated)) (\<lambda>sig.
        Inr \<lparr>spk_id = nat signedKeyId, spk_keyPair = generated, spk_sig = sig, spk_createdAt = now\<rparr>))"

definition generateSignedPreKeyAsync :: "prims \<Rightarrow> int \<Rightarrow> key_pair \<Rightarrow> key_pair \<Rightarrow> int \<Rightarrow> error + signed_pre_key" where
  "generateSignedPreKeyAsync P now generated identity signedKeyId =
     (if \<not> identity_lengths identity then Inl (TypeError ''Invalid argument for identityKeyPair'')
      else if \<not> kh_isNonNegativeInteger signedKeyId then Inl (TypeError ''Invalid argument for signedKeyId'')
      else rbind (calculateSignature P (privKey identity) (pubKey generated)) (\<lambda>sig.
        Inr \<lparr>spk_id = nat signedKeyId, spk_keyPair = generated, spk_sig = sig, spk_createdAt = now\<rparr>))"

definition generatePreKey :: "key_pair \<Rightarrow> int \<Rightarrow> error + pre_key" where
  "generatePreKey generated keyId =
     (if \<not> kh_isNonNegativeInteger keyId then Inl (TypeError ''Invalid argument for keyId'')
      else Inr \<lparr>prk_id = nat keyId, prk_keyPair = generated\<rparr>)"

definition generatePreKeyAsync :: "key_pair \<Rightarrow> int \<Rightarrow> error + pre_key" where
  "generatePreKeyAsync generated keyId =
     (if \<not> kh_isNonNegativeInteger keyId then Inl (TypeError ''Invalid argument for keyId'')
      else Inr \<lparr>prk_id = nat keyId, prk_keyPair = generated\<rparr>)"

section \<open>Batches\<close>

text \<open>
  A worker takes the next index, waits for a key pair, stores it under its index and starts again;
  it returns when the counter has reached the count. The workers interleave at the \<open>await\<close>.
\<close>

datatype worker = Idle | Generating nat | Returned

record batch =
  bt_next :: nat
  bt_workers :: "worker list"
  bt_results :: "pre_key option list"

definition batch_check :: "int \<Rightarrow> int \<Rightarrow> error + unit" where
  "batch_check startId count =
     (if \<not> kh_isNonNegativeInteger startId then Inl (TypeError ''Invalid argument for startId'')
      else if \<not> kh_isNonNegativeInteger count \<or> count = 0 then Inl (TypeError ''Invalid argument for count'')
      else Inr ())"

definition batch_start :: "int option \<Rightarrow> nat \<Rightarrow> batch" where
  "batch_start concurrency count =
     \<lparr>bt_next = 0,
      bt_workers = replicate (nat (max 1 (min (case concurrency of None \<Rightarrow> 8 | Some c \<Rightarrow> c) (int count)))) Idle,
      bt_results = replicate count None\<rparr>"

inductive batch_step :: "int \<Rightarrow> nat \<Rightarrow> batch \<Rightarrow> batch \<Rightarrow> bool" for startId count where
  Take: "w < length (bt_workers b) \<Longrightarrow> bt_workers b ! w = Idle \<Longrightarrow>
     batch_step startId count b
       (b\<lparr>bt_next := bt_next b + 1,
          bt_workers := (bt_workers b)[w := if bt_next b \<ge> count then Returned else Generating (bt_next b)]\<rparr>)"
| Store: "w < length (bt_workers b) \<Longrightarrow> bt_workers b ! w = Generating i \<Longrightarrow>
     generatePreKeyAsync kp (wrapPreKeyId (startId + int i)) = Inr pk \<Longrightarrow>
     batch_step startId count b
       (b\<lparr>bt_workers := (bt_workers b)[w := Idle], bt_results := (bt_results b)[i := Some pk]\<rparr>)"

inductive_cases batch_stepE: "batch_step startId count b b'"

definition batch_done :: "batch \<Rightarrow> bool" where
  "batch_done b \<longleftrightarrow> (\<forall>w\<in>set (bt_workers b). w = Returned)"

text \<open>The batch when nothing goes wrong: the \<open>i\<close>-th element has the \<open>i\<close>-th id and key pair.\<close>

definition generatePreKeysBatch :: "(nat \<Rightarrow> key_pair) \<Rightarrow> int \<Rightarrow> int \<Rightarrow> error + pre_key list" where
  "generatePreKeysBatch keys startId count =
     rbind (batch_check startId count) (\<lambda>_.
       Inr (map (\<lambda>i. \<lparr>prk_id = nat (wrapPreKeyId (startId + int i)), prk_keyPair = keys i\<rparr>) [0..<nat count]))"

section \<open>Facts\<close>

lemma MAX_KEY_ID_pos: "0 < MAX_KEY_ID"
  by (simp add: MAX_KEY_ID_def)

lemma wrapPreKeyId_eq: "wrapPreKeyId i = (i - 1) mod MAX_KEY_ID + 1"
proof -
  have rem: "js_rem a m + m \<ge> 0 \<and> (js_rem a m + m) mod m = a mod m" if "0 < m" for a m :: int
  proof -
    have "(- a) mod m < m" "0 \<le> (- a) mod m" using that by simp_all
    moreover have "(- ((- a) mod m) + m) mod m = a mod m" by (simp add: mod_minus_eq)
    ultimately show ?thesis using that by (auto simp: js_rem_def intro: less_imp_le)
  qed
  have "js_rem (js_rem (i - 1) MAX_KEY_ID + MAX_KEY_ID) MAX_KEY_ID = (js_rem (i - 1) MAX_KEY_ID + MAX_KEY_ID) mod MAX_KEY_ID"
    using rem [OF MAX_KEY_ID_pos, of "i - 1"] by (simp add: js_rem_def [of "js_rem _ _ + _"])
  then show ?thesis using rem [OF MAX_KEY_ID_pos, of "i - 1"] by (simp add: wrapPreKeyId_def)
qed

lemma wrapPreKeyId_range: "1 \<le> wrapPreKeyId i" "wrapPreKeyId i \<le> MAX_KEY_ID"
  using pos_mod_bound [OF MAX_KEY_ID_pos, of "i - 1"] pos_mod_sign [OF MAX_KEY_ID_pos, of "i - 1"]
  by (simp_all add: wrapPreKeyId_eq)

lemma wrapPreKeyId_id: "1 \<le> i \<Longrightarrow> i \<le> MAX_KEY_ID \<Longrightarrow> wrapPreKeyId i = i"
  by (simp add: wrapPreKeyId_eq)

lemma wrapPreKeyId_add: "wrapPreKeyId (wrapPreKeyId i + j) = wrapPreKeyId (i + j)"
proof -
  have "((i - 1) mod MAX_KEY_ID + j) mod MAX_KEY_ID = (i - 1 + j) mod MAX_KEY_ID" by (rule mod_add_left_eq)
  then show ?thesis by (simp add: wrapPreKeyId_eq algebra_simps)
qed

lemma wrapPreKeyId_inj:
  assumes "wrapPreKeyId (s + int i) = wrapPreKeyId (s + int j)" "i < nat MAX_KEY_ID" "j < nat MAX_KEY_ID"
  shows "i = j"
proof -
  have "(s + int i - 1) mod MAX_KEY_ID = (s + int j - 1) mod MAX_KEY_ID" using assms(1) by (simp add: wrapPreKeyId_eq)
  then have "(int i - int j) mod MAX_KEY_ID = 0" by (simp add: mod_eq_dvd_iff dvd_eq_mod_eq_0)
  then have "MAX_KEY_ID dvd int i - int j" by (simp add: dvd_eq_mod_eq_0)
  moreover have "\<bar>int i - int j\<bar> < MAX_KEY_ID" using assms(2,3) by linarith
  ultimately show ?thesis by (metis MAX_KEY_ID_pos abs_ge_zero dvd_imp_le_int eq_iff_diff_eq_0 linorder_not_le of_nat_eq_iff zdvd_not_zless abs_of_pos)
qed

lemma draw14_range: "draw14 b \<le> 0x3fff"
proof -
  have "(push_bit 8 (ucast (b ! 0)) OR ucast (b ! 1) :: 16 word) AND 0x3fff \<le> 0x3fff" by (rule word_and_le1)
  then show ?thesis by (simp add: draw14_def word_le_nat_alt)
qed

section \<open>Runs of the batch workers\<close>

definition batch_inv :: "int \<Rightarrow> nat \<Rightarrow> batch \<Rightarrow> bool" where
  "batch_inv startId count b \<longleftrightarrow> length (bt_results b) = count \<and>
     (\<forall>i<count. \<forall>pk. bt_results b ! i = Some pk \<longrightarrow> prk_id pk = nat (wrapPreKeyId (startId + int i))) \<and>
     (\<forall>i<count. i < bt_next b \<longrightarrow> bt_results b ! i \<noteq> None \<or> Generating i \<in> set (bt_workers b)) \<and>
     (\<forall>i. Generating i \<in> set (bt_workers b) \<longrightarrow> i < count) \<and>
     (Returned \<in> set (bt_workers b) \<longrightarrow> count \<le> bt_next b) \<and> bt_workers b \<noteq> []"

definition worker_weight :: "worker \<Rightarrow> nat" where
  "worker_weight w = (case w of Idle \<Rightarrow> 1 | Generating _ \<Rightarrow> 2 | Returned \<Rightarrow> 0)"

definition batch_measure :: "nat \<Rightarrow> batch \<Rightarrow> nat" where
  "batch_measure count b = 3 * (count - bt_next b) + sum_list (map worker_weight (bt_workers b))"

lemma batch_start_inv: "batch_inv startId count (batch_start c count)"
  by (auto simp: batch_inv_def batch_start_def)

lemma weight_update:
  assumes "w < length ws"
  shows "sum_list (map worker_weight (ws[w := x])) + worker_weight (ws ! w) = sum_list (map worker_weight ws) + worker_weight x"
  using assms by (induction ws arbitrary: w) (auto split: nat.split simp: nth_Cons')

lemma batch_step_measure:
  assumes "batch_step startId count b b'"
  shows "batch_measure count b' < batch_measure count b"
  using assms
proof (cases rule: batch_step.cases)
  case (Take w)
  then show ?thesis
    using weight_update [OF Take(2), of "if bt_next b \<ge> count then Returned else Generating (bt_next b)"]
    by (auto simp: batch_measure_def worker_weight_def split: if_splits)
next
  case (Store w i kp pk)
  then show ?thesis
    using weight_update [OF Store(2), of Idle] by (auto simp: batch_measure_def worker_weight_def)
qed

lemma set_update_other: "w < length ws \<Longrightarrow> x \<in> set ws \<Longrightarrow> x \<noteq> ws ! w \<Longrightarrow> x \<in> set (ws[w := y])"
  by (metis in_set_conv_nth length_list_update nth_list_update_neq)

lemma generatePreKeyAsync_wrap: "generatePreKeyAsync kp (wrapPreKeyId j) = Inr \<lparr>prk_id = nat (wrapPreKeyId j), prk_keyPair = kp\<rparr>"
  using wrapPreKeyId_range(1) [of j] by (simp add: generatePreKeyAsync_def kh_isNonNegativeInteger_def)

lemma batch_step_inv:
  assumes "batch_step startId count b b'" "batch_inv startId count b"
  shows "batch_inv startId count b'"
  using assms(1)
proof (cases rule: batch_step.cases)
  case (Take w)
  define x where "x = (if bt_next b \<ge> count then Returned else Generating (bt_next b))"
  have b': "b' = b\<lparr>bt_next := bt_next b + 1, bt_workers := (bt_workers b)[w := x]\<rparr>" using Take by (simp add: x_def)
  have sub: "set ((bt_workers b)[w := x]) \<subseteq> insert x (set (bt_workers b))" by (rule set_update_subset_insert)
  have keep: "Generating i \<in> set ((bt_workers b)[w := x])" if "Generating i \<in> set (bt_workers b)" for i
    using set_update_other [OF Take(2) that] Take(3) by simp
  have new: "x \<in> set ((bt_workers b)[w := x])" by (rule set_update_memI [OF Take(2)])
  show ?thesis
    unfolding batch_inv_def
  proof (intro conjI allI impI)
    fix i assume i: "i < count" "i < bt_next b'"
    show "bt_results b' ! i \<noteq> None \<or> Generating i \<in> set (bt_workers b')"
    proof (cases "i = bt_next b")
      case True
      then show ?thesis using new i by (simp add: b' x_def)
    next
      case False
      then show ?thesis using assms(2) i keep by (auto simp: batch_inv_def b')
    qed
  next
    fix i assume "Generating i \<in> set (bt_workers b')"
    then show "i < count" using sub assms(2) by (auto simp: b' batch_inv_def x_def split: if_splits)
  next
    assume "Returned \<in> set (bt_workers b')"
    then show "count \<le> bt_next b'" using sub assms(2) by (auto simp: b' batch_inv_def x_def split: if_splits)
  qed (use assms(2) in \<open>auto simp: batch_inv_def b'\<close>)
next
  case (Store w i kp pk)
  have b': "b' = b\<lparr>bt_workers := (bt_workers b)[w := Idle], bt_results := (bt_results b)[i := Some pk]\<rparr>"
    and pk: "prk_id pk = nat (wrapPreKeyId (startId + int i))"
    using Store by (auto simp: generatePreKeyAsync_wrap)
  have sub: "set ((bt_workers b)[w := Idle]) \<subseteq> insert Idle (set (bt_workers b))" by (rule set_update_subset_insert)
  have "Generating i \<in> set (bt_workers b)" using Store(2,3) by (metis nth_mem)
  then have i: "i < count" using assms(2) by (auto simp: batch_inv_def)
  have keep: "Generating j \<in> set ((bt_workers b)[w := Idle])" if "Generating j \<in> set (bt_workers b)" "j \<noteq> i" for j
    using set_update_other [OF Store(2) that(1)] Store(3) that(2) by simp
  show ?thesis
    unfolding batch_inv_def
  proof (intro conjI allI impI)
    fix j assume "j < count" "j < bt_next b'"
    then show "bt_results b' ! j \<noteq> None \<or> Generating j \<in> set (bt_workers b')"
      using assms(2) keep [of j] i by (cases "j = i") (auto simp: batch_inv_def b')
  next
    fix j qk assume "j < count" "bt_results b' ! j = Some qk"
    then show "prk_id qk = nat (wrapPreKeyId (startId + int j))"
      using assms(2) pk i by (cases "j = i") (auto simp: batch_inv_def b')
  qed (use assms(2) sub in \<open>auto simp: batch_inv_def b'\<close>)
qed

lemma batch_run_inv: "(batch_step startId count ^^ n) b b' \<Longrightarrow> batch_inv startId count b \<Longrightarrow>
    batch_inv startId count b' \<and> n + batch_measure count b' \<le> batch_measure count b"
proof (induction n arbitrary: b')
  case (Suc n)
  then obtain c where c: "(batch_step startId count ^^ n) b c" "batch_step startId count c b'" by auto
  with Suc.IH [OF c(1) Suc.prems(2)] show ?case
    using batch_step_inv [OF c(2)] batch_step_measure [OF c(2)] by auto
qed simp

lemma batch_progress:
  assumes "\<not> batch_done b"
  obtains b' where "batch_step startId count b b'"
proof -
  from assms obtain w where w: "w < length (bt_workers b)" "bt_workers b ! w \<noteq> Returned"
    by (auto simp: batch_done_def in_set_conv_nth)
  show thesis
  proof (cases "bt_workers b ! w")
    case Idle
    show thesis by (rule that) (rule batch_step.Take [OF w(1) Idle])
  next
    case (Generating i)
    show thesis
      by (rule that) (rule batch_step.Store [OF w(1) Generating generatePreKeyAsync_wrap [of undefined "startId + int i"]])
  next
    case Returned
    with w(2) show thesis by simp
  qed
qed

lemma batch_done_results:
  assumes "batch_inv startId count b" "batch_done b"
  obtains keys where "bt_results b =
    map (\<lambda>i. Some \<lparr>prk_id = nat (wrapPreKeyId (startId + int i)), prk_keyPair = keys i\<rparr>) [0..<count]"
proof -
  have "bt_workers b \<noteq> []" using assms(1) by (simp add: batch_inv_def)
  then have "Returned \<in> set (bt_workers b)" using assms(2) by (metis batch_done_def last_in_set)
  then have "count \<le> bt_next b" using assms(1) by (simp add: batch_inv_def)
  moreover have "Generating i \<notin> set (bt_workers b)" for i using assms(2) unfolding batch_done_def by blast
  ultimately have all: "bt_results b ! i \<noteq> None" if "i < count" for i
    using assms(1) that unfolding batch_inv_def by (meson less_le_trans)
  define keys where "keys i = prk_keyPair (the (bt_results b ! i))" for i
  have "bt_results b = map (\<lambda>i. Some \<lparr>prk_id = nat (wrapPreKeyId (startId + int i)), prk_keyPair = keys i\<rparr>) [0..<count]"
  proof (rule nth_equalityI)
    show "length (bt_results b) = length (map (\<lambda>i. Some \<lparr>prk_id = nat (wrapPreKeyId (startId + int i)), prk_keyPair = keys i\<rparr>) [0..<count])"
      using assms(1) by (simp add: batch_inv_def)
    fix i assume "i < length (bt_results b)"
    then have i: "i < count" using assms(1) by (simp add: batch_inv_def)
    then obtain pk where pk: "bt_results b ! i = Some pk" using all by auto
    then have "prk_id pk = nat (wrapPreKeyId (startId + int i))" using assms(1) i by (simp add: batch_inv_def)
    then have "pk = \<lparr>prk_id = nat (wrapPreKeyId (startId + int i)), prk_keyPair = keys i\<rparr>" using pk by (simp add: keys_def)
    then show "bt_results b ! i = map (\<lambda>i. Some \<lparr>prk_id = nat (wrapPreKeyId (startId + int i)), prk_keyPair = keys i\<rparr>) [0..<count] ! i"
      using i pk by simp
  qed
  then show thesis by (rule that)
qed

end
