(* ===== verification/Memory_Storage.thy ===== *)
theory Memory_Storage
  imports Session_Store Group_Conversation Key_Helper "HOL-Library.List_Lexorder" "HOL-Library.Char_ord"
begin

text \<open>
  \<open>src/memory-storage.ts\<close>: the class \<open>MemorySignalStorage\<close>, one definition per method, and the storage
  as the interfaces of the session code, of group messaging and of the pool. A \<open>Map\<close> is an association
  list in insertion order, a \<open>Set\<close> a list of distinct elements. \<open>copyKeyPair\<close> and \<open>Buffer.from\<close> copy
  and are the identity here.
\<close>

section \<open>State\<close>

datatype identity_trust_policy = Tofu | Strict

text \<open>What the storage reports to the callback and to the listeners, in order.\<close>

datatype storage_event =
    IdentityChanged string bytes bytes
  | PreKeyRemoved nat nat

record memory_storage =
  ms_identityKeyPair :: key_pair
  ms_registrationId :: nat
  ms_sessions :: "(string \<times> session_record) list"
  ms_preKeys :: "(nat \<times> key_pair) list"
  ms_published :: "nat list"
  ms_signedPreKeys :: "(nat \<times> key_pair) list"
  ms_trusted :: "(string \<times> bytes) list"
  ms_senderKeys :: "(string \<times> sender_key_record) list"
  ms_retired :: "(nat \<times> int) list"
  ms_nextPreKeyId :: nat
  ms_latest :: "signed_pre_key option"
  ms_gracePeriodMs :: int
  ms_policy :: identity_trust_policy
  ms_onIdentityChanged :: bool
  ms_listeners :: "nat list"
  ms_events :: "storage_event list"

definition DEFAULT_SIGNED_PRE_KEY_GRACE_PERIOD_MS :: int where
  "DEFAULT_SIGNED_PRE_KEY_GRACE_PERIOD_MS = 3 * 24 * 60 * 60 * 1000"

definition new_MemorySignalStorage ::
  "key_pair \<Rightarrow> nat \<Rightarrow> int option \<Rightarrow> identity_trust_policy option \<Rightarrow> bool \<Rightarrow> memory_storage" where
  "new_MemorySignalStorage identity registrationId grace policy callback =
     \<lparr>ms_identityKeyPair = identity, ms_registrationId = registrationId, ms_sessions = [], ms_preKeys = [],
      ms_published = [], ms_signedPreKeys = [], ms_trusted = [], ms_senderKeys = [], ms_retired = [],
      ms_nextPreKeyId = 1, ms_latest = None,
      ms_gracePeriodMs = (case grace of None \<Rightarrow> DEFAULT_SIGNED_PRE_KEY_GRACE_PERIOD_MS | Some g \<Rightarrow> g),
      ms_policy = (case policy of None \<Rightarrow> Tofu | Some p \<Rightarrow> p),
      ms_onIdentityChanged = callback, ms_listeners = [], ms_events = []\<rparr>"

section \<open>Sessions and sender keys\<close>

definition mem_loadSession :: "string \<Rightarrow> memory_storage \<Rightarrow> error + session_record option" where
  "mem_loadSession i s =
     (case obj_get (ms_sessions s) i of
        None \<Rightarrow> Inr None
      | Some stored \<Rightarrow> rbind (SessionRecord_deserialize (SessionRecord_serialize stored)) (\<lambda>r. Inr (Some r)))"

definition mem_storeSession :: "string \<Rightarrow> session_record \<Rightarrow> (memory_storage, unit) op" where
  "mem_storeSession i r s = (Inr (), s\<lparr>ms_sessions := obj_set i r (ms_sessions s)\<rparr>)"

definition mem_loadSenderKey :: "sender_key_name \<Rightarrow> memory_storage \<Rightarrow> error + sender_key_record option" where
  "mem_loadSenderKey name s =
     (case obj_get (ms_senderKeys s) (SenderKeyName_serialize name) of
        None \<Rightarrow> Inr None
      | Some stored \<Rightarrow> rbind (SenderKeyRecord_deserialize (SenderKeyRecord_serialize stored)) (\<lambda>r. Inr (Some r)))"

definition mem_storeSenderKey :: "sender_key_name \<Rightarrow> sender_key_record \<Rightarrow> (memory_storage, unit) op" where
  "mem_storeSenderKey name r s =
     (Inr (), s\<lparr>ms_senderKeys := obj_set (SenderKeyName_serialize name) r (ms_senderKeys s)\<rparr>)"

definition mem_removeSenderKey :: "sender_key_name \<Rightarrow> (memory_storage, unit) op" where
  "mem_removeSenderKey name s =
     (Inr (), s\<lparr>ms_senderKeys := obj_del (SenderKeyName_serialize name) (ms_senderKeys s)\<rparr>)"

definition startsWith :: "string \<Rightarrow> string \<Rightarrow> bool" where
  "startsWith s prefix = (take (length prefix) s = prefix)"

definition mem_removeGroupSessions :: "string \<Rightarrow> (memory_storage, unit) op" where
  "mem_removeGroupSessions groupId s =
     (Inr (), s\<lparr>ms_senderKeys := filter (\<lambda>(key, _). \<not> startsWith key (groupId @ ''::'')) (ms_senderKeys s)\<rparr>)"

section \<open>Identities\<close>

text \<open>The direction is not used.\<close>

definition mem_isTrustedIdentity :: "string \<Rightarrow> bytes \<Rightarrow> direction \<Rightarrow> (memory_storage, bool) op" where
  "mem_isTrustedIdentity identifier identityKey dir s =
     (case obj_get (ms_trusted s) identifier of
        None \<Rightarrow>
          if ms_policy s = Strict then (Inr False, s)
          else (Inr True, s\<lparr>ms_trusted := obj_set identifier identityKey (ms_trusted s)\<rparr>)
      | Some existing \<Rightarrow> (Inr (existing = identityKey), s))"

definition removeSessionsForIdentifier :: "string \<Rightarrow> memory_storage \<Rightarrow> memory_storage" where
  "removeSessionsForIdentifier identifier s =
     s\<lparr>ms_sessions := filter (\<lambda>(key, _). \<not> (key = identifier \<or> startsWith key (identifier @ ''.''))) (ms_sessions s)\<rparr>"

definition emitIdentityChanged :: "string \<Rightarrow> bytes \<Rightarrow> bytes \<Rightarrow> memory_storage \<Rightarrow> memory_storage" where
  "emitIdentityChanged identifier identityKey previous s =
     (if ms_onIdentityChanged s
      then s\<lparr>ms_events := ms_events s @ [IdentityChanged identifier identityKey previous]\<rparr> else s)"

definition mem_saveIdentity :: "string \<Rightarrow> bytes \<Rightarrow> (memory_storage, bool) op" where
  "mem_saveIdentity identifier identityKey s =
     (let existing = obj_get (ms_trusted s) identifier;
          changed = (existing \<noteq> Some identityKey);
          s1 = s\<lparr>ms_trusted := obj_set identifier identityKey (ms_trusted s)\<rparr>
      in (Inr changed,
          case existing of
            Some old \<Rightarrow> if changed
              then emitIdentityChanged identifier identityKey old (removeSessionsForIdentifier identifier s1) else s1
          | None \<Rightarrow> s1))"

definition mem_removeIdentity :: "string \<Rightarrow> (memory_storage, unit) op" where
  "mem_removeIdentity identifier s =
     (Inr (), removeSessionsForIdentifier identifier (s\<lparr>ms_trusted := obj_del identifier (ms_trusted s)\<rparr>))"

definition mem_loadIdentity :: "string \<Rightarrow> memory_storage \<Rightarrow> error + bytes option" where
  "mem_loadIdentity identifier s = Inr (obj_get (ms_trusted s) identifier)"

definition mem_listIdentities :: "memory_storage \<Rightarrow> string list" where
  "mem_listIdentities s = sort (obj_keys (ms_trusted s))"

section \<open>Prekeys\<close>

definition mem_loadPreKey :: "nat option \<Rightarrow> memory_storage \<Rightarrow> error + key_pair option" where
  "mem_loadPreKey i s = Inr (case i of None \<Rightarrow> None | Some n \<Rightarrow> obj_get (ms_preKeys s) n)"

definition emitPreKeyRemoved :: "nat \<Rightarrow> memory_storage \<Rightarrow> memory_storage" where
  "emitPreKeyRemoved i s = s\<lparr>ms_events := ms_events s @ map (\<lambda>l. PreKeyRemoved l i) (ms_listeners s)\<rparr>"

definition mem_removePreKey :: "nat \<Rightarrow> (memory_storage, unit) op" where
  "mem_removePreKey i s =
     (let removed = (obj_get (ms_preKeys s) i \<noteq> None);
          s1 = s\<lparr>ms_preKeys := obj_del i (ms_preKeys s), ms_published := removeAll i (ms_published s)\<rparr>
      in (Inr (), if removed then emitPreKeyRemoved i s1 else s1))"

definition mem_listAvailablePreKeyIds :: "memory_storage \<Rightarrow> nat list" where
  "mem_listAvailablePreKeyIds s = sort (filter (\<lambda>i. i \<notin> set (ms_published s)) (obj_keys (ms_preKeys s)))"

definition mem_getAvailablePreKeyCount :: "memory_storage \<Rightarrow> nat" where
  "mem_getAvailablePreKeyCount s = length (mem_listAvailablePreKeyIds s)"

definition mem_reservePreKey :: "nat \<Rightarrow> memory_storage \<Rightarrow> bool \<times> memory_storage" where
  "mem_reservePreKey i s =
     (if obj_get (ms_preKeys s) i = None \<or> i \<in> set (ms_published s) then (False, s)
      else (True, s\<lparr>ms_published := ms_published s @ [i]\<rparr>))"

definition mem_releasePreKey :: "nat \<Rightarrow> memory_storage \<Rightarrow> bool \<times> memory_storage" where
  "mem_releasePreKey i s = (i \<in> set (ms_published s), s\<lparr>ms_published := removeAll i (ms_published s)\<rparr>)"

definition mem_onPreKeyRemoved :: "nat \<Rightarrow> memory_storage \<Rightarrow> memory_storage" where
  "mem_onPreKeyRemoved l s = s\<lparr>ms_listeners := (if l \<in> set (ms_listeners s) then ms_listeners s else ms_listeners s @ [l])\<rparr>"

definition mem_unsubscribe :: "nat \<Rightarrow> memory_storage \<Rightarrow> memory_storage" where
  "mem_unsubscribe l s = s\<lparr>ms_listeners := removeAll l (ms_listeners s)\<rparr>"

definition mem_storePreKey :: "nat \<Rightarrow> key_pair \<Rightarrow> memory_storage \<Rightarrow> memory_storage" where
  "mem_storePreKey i kp s = s\<lparr>ms_preKeys := obj_set i kp (ms_preKeys s)\<rparr>"

definition mem_getPreKeyCount :: "memory_storage \<Rightarrow> nat" where
  "mem_getPreKeyCount s = length (ms_preKeys s)"

definition mem_listPreKeyIds :: "memory_storage \<Rightarrow> nat list" where
  "mem_listPreKeyIds s = sort (obj_keys (ms_preKeys s))"

definition mem_getNextPreKeyId :: "memory_storage \<Rightarrow> nat" where
  "mem_getNextPreKeyId s = ms_nextPreKeyId s"

definition mem_setNextPreKeyId :: "nat \<Rightarrow> memory_storage \<Rightarrow> memory_storage" where
  "mem_setNextPreKeyId i s = s\<lparr>ms_nextPreKeyId := i\<rparr>"

section \<open>Signed prekeys\<close>

definition mem_loadSignedPreKey :: "nat option \<Rightarrow> memory_storage \<Rightarrow> error + key_pair option" where
  "mem_loadSignedPreKey i s = Inr (case i of None \<Rightarrow> None | Some n \<Rightarrow> obj_get (ms_signedPreKeys s) n)"

definition pruneRetiredSignedPreKeys :: "int \<Rightarrow> memory_storage \<Rightarrow> memory_storage" where
  "pruneRetiredSignedPreKeys now s =
     (let expired = map fst (filter (\<lambda>(_, retiredAt). now - retiredAt \<ge> ms_gracePeriodMs s) (ms_retired s))
      in s\<lparr>ms_signedPreKeys := filter (\<lambda>(i, _). i \<notin> set expired) (ms_signedPreKeys s),
           ms_retired := filter (\<lambda>(i, _). i \<notin> set expired) (ms_retired s)\<rparr>)"

text \<open>The method takes an id and a key pair, or a whole record.\<close>

definition mem_storeSignedPreKey_id :: "nat \<Rightarrow> key_pair \<Rightarrow> memory_storage \<Rightarrow> memory_storage" where
  "mem_storeSignedPreKey_id i kp s = s\<lparr>ms_signedPreKeys := obj_set i kp (ms_signedPreKeys s)\<rparr>"

definition mem_storeSignedPreKey :: "int \<Rightarrow> signed_pre_key \<Rightarrow> memory_storage \<Rightarrow> memory_storage" where
  "mem_storeSignedPreKey now r s =
     (let s1 = (case ms_latest s of
                  None \<Rightarrow> s
                | Some l \<Rightarrow> if spk_id l \<noteq> spk_id r
                    then s\<lparr>ms_retired := obj_set (spk_id l) now (ms_retired s)\<rparr> else s)
      in pruneRetiredSignedPreKeys now
           (s1\<lparr>ms_signedPreKeys := obj_set (spk_id r) (spk_keyPair r) (ms_signedPreKeys s1), ms_latest := Some r\<rparr>))"

definition mem_removeSignedPreKey :: "nat \<Rightarrow> (memory_storage, unit) op" where
  "mem_removeSignedPreKey i s =
     (Inr (), s\<lparr>ms_signedPreKeys := obj_del i (ms_signedPreKeys s), ms_retired := obj_del i (ms_retired s)\<rparr>)"

definition mem_loadLatestSignedPreKey :: "memory_storage \<Rightarrow> signed_pre_key option" where
  "mem_loadLatestSignedPreKey s = ms_latest s"

section \<open>The interfaces it implements\<close>

definition memory_signal_storage :: "memory_storage signal_storage" where
  "memory_signal_storage =
     \<lparr>loadSession = mem_loadSession, storeSession = mem_storeSession, isTrustedIdentity = mem_isTrustedIdentity,
      loadIdentity = Some mem_loadIdentity, loadPreKey = (\<lambda>i. mem_loadPreKey (Some i)), removePreKey = mem_removePreKey,
      loadSignedPreKey = (\<lambda>i. mem_loadSignedPreKey (Some i)),
      getOurRegistrationId = (\<lambda>s. Inr (ms_registrationId s)), getOurIdentity = (\<lambda>s. Inr (ms_identityKeyPair s))\<rparr>"

definition memory_sender_key_store :: "memory_storage sender_key_store" where
  "memory_sender_key_store =
     \<lparr>loadSenderKey = mem_loadSenderKey, storeSenderKey = mem_storeSenderKey, removeSenderKey = mem_removeSenderKey\<rparr>"

end
