(* ===== verification/First_Contact.thy ===== *)
theory First_Contact
  imports Session_Store
begin

text \<open>
  First contact over two storages: one device builds a session from the other's bundle and encrypts, the
  other decrypts the prekey message, each through its own storage. The locale \<open>contact_store\<close> adds to the
  contract of a storage that its parts do not disturb one another.
\<close>

locale contact_store = session_store +
  assumes trust_prekey: "loadPreKey S n (snd (isTrustedIdentity S i k d s)) = loadPreKey S n s"
    and trust_signed: "loadSignedPreKey S n (snd (isTrustedIdentity S i k d s)) = loadSignedPreKey S n s"
    and store_registration: "getOurRegistrationId S (snd (storeSession S a r s)) = getOurRegistrationId S s"
    and trust_registration: "getOurRegistrationId S (snd (isTrustedIdentity S i k d s)) = getOurRegistrationId S s"
    and store_trust: "fst (isTrustedIdentity S i k d (snd (storeSession S a r s))) = fst (isTrustedIdentity S i k d s)"

text \<open>What a conversation needs beyond that: removing a prekey never throws and leaves the rest alone.\<close>

locale exchange_store = contact_store + signal_store +
  assumes remove_keys: "getOurIdentity S (snd (removePreKey S n s)) = getOurIdentity S s"
    and remove_registration: "getOurRegistrationId S (snd (removePreKey S n s)) = getOurRegistrationId S s"
    and remove_trust: "fst (isTrustedIdentity S i k d (snd (removePreKey S n s))) = fst (isTrustedIdentity S i k d s)"

section \<open>The open session of a record\<close>

lemma find_hd_filter: "filter P xs = [x] \<Longrightarrow> find P xs = Some x"
  by (induction xs) (auto split: if_splits)

lemma open_unique:
  assumes "record_ok r" "(k, e) \<in> set (sessions r)" "\<not> isClosed e"
  shows "getOpenSession r = Some e"
proof -
  let ?open = "filter (\<lambda>p. \<not> isClosed (snd p)) (sessions r)"
  have "(k, e) \<in> set ?open" using assms(2,3) by simp
  moreover have "length ?open \<le> 1" using assms(1) by (simp add: record_ok_def open_count_def)
  ultimately have "?open = [(k, e)]" by (cases ?open) auto
  then have "map snd ?open = [e]" by simp
  then have "filter (\<lambda>s. \<not> isClosed s) (map snd (sessions r)) = [e]" by (simp add: filter_map comp_def)
  then show ?thesis unfolding getOpenSession_def by (rule find_hd_filter)
qed

text \<open>Eviction and expiry keep the open session.\<close>

lemma removeOld_open:
  assumes "record_ok r" "(k, e) \<in> set (sessions r)" "\<not> isClosed e" "removeOldSessions r = Inr r'" "stored_ok r'"
  shows "(k, e) \<in> set (sessions r')" "getOpenSession r' = Some e"
proof -
  obtain ss' where ss': "remove_old (sessions r) = Inr ss'" "r' = r\<lparr>sessions := ss'\<rparr>"
    using assms(4) by (auto simp: removeOldSessions_def res_simps)
  have "obj_wf (sessions r)" using assms(1) by (simp add: record_ok_def record_wf_def)
  then show "(k, e) \<in> set (sessions r')" using remove_old_keeps [OF _ ss'(1) assms(2,3)] ss'(2) by simp
  then show "getOpenSession r' = Some e" using open_unique assms(3,5) by (simp add: stored_ok_def)
qed

lemma expire_open:
  assumes "record_ok r" "(k, e) \<in> set (sessions r)" "\<not> isClosed e" "expire_record now age r = Inr r'" "stored_ok r'"
  shows "getOpenSession r' = Some e"
proof -
  obtain r1 where r1: "removeOldSessions r = Inr r1" "stored_ok r1" by (rule removeOldSessions_ok [OF assms(1)])
  have "(k, e) \<in> set (sessions r1)" by (rule removeOld_open(1) [OF assms(1-3) r1])
  then have "(k, e) \<in> set (sessions r')"
    using assms(3,4) r1(1) by (auto simp: expire_record_def removeStaleSessions_def is_stale_def isClosed_def Let_def)
  then show ?thesis using open_unique assms(3,5) by (simp add: stored_ok_def)
qed

text \<open>A record with one session, which is open.\<close>

definition only_session :: "session_entry \<Rightarrow> session_record \<Rightarrow> bool" where
  "only_session e r \<longleftrightarrow> sessions r = [(b64_encode (baseKey (indexInfo e)), e)] \<and> \<not> isClosed e"

lemma only_simps:
  assumes "only_session e r"
  shows "getOpenSession r = Some e" "getSessions r = [e]" "removeOldSessions r = Inr r" "expire_record now age r = Inr r"
    "baseKeyType (indexInfo e) \<noteq> OURS \<Longrightarrow> getSession (baseKey (indexInfo e)) r = Inr (Some e)"
proof -
  have r: "sessions r = [(b64_encode (baseKey (indexInfo e)), e)]" "\<not> isClosed e" using assms by (simp_all add: only_session_def)
  then show "getOpenSession r = Some e" "getSessions r = [e]"
    "baseKeyType (indexInfo e) \<noteq> OURS \<Longrightarrow> getSession (baseKey (indexInfo e)) r = Inr (Some e)"
    by (simp_all add: getOpenSession_def getSessions_def getSession_def)
  show "removeOldSessions r = Inr r" by (simp add: removeOldSessions_def remove_old.simps r CLOSED_SESSIONS_MAX_def)
  then show "expire_record now age r = Inr r"
    using r by (cases r) (simp add: expire_record_def removeStaleSessions_def is_stale_def isClosed_def Let_def)
qed

lemma only_set:
  "only_session e r \<Longrightarrow> indexInfo e' = (indexInfo e)\<lparr>ii_used := u\<rparr> \<Longrightarrow> only_session e' (setSession e' r)"
  "sessions r = [] \<Longrightarrow> \<not> isClosed e' \<Longrightarrow> only_session e' (setSession e' r)"
  by (simp_all add: only_session_def setSession_def isClosed_def)

lemma encrypt_keeps_pending: "encryptMessage P W our data e = Inr (buf, e') \<Longrightarrow> pendingPreKey e' = pendingPreKey e"
  by (auto simp: encryptMessage_def Let_def res_simps putChain_def split: option.splits)

lemma initSession_theirs:
  assumes "initSession P now fresh our False e sk k te ts rid = Inr s'"
  shows "baseKeyType (indexInfo s') \<noteq> OURS" "se_registrationId s' = rid"
  using assms by (auto simp: initSession_def Let_def res_simps)

text \<open>What the receiver reads from a prekey message.\<close>

lemma prekey_frame:
  fixes W :: wire and rid j :: nat and pid :: "nat option" and base ik buf :: bytes
  defines "m \<equiv> \<lparr>pk_registrationId = Some rid, pk_preKeyId = pid, pk_signedPreKeyId = Some j, pk_baseKey = Some base,
          pk_identityKey = Some ik, pk_message = Some buf\<rparr>"
    and "im \<equiv> \<lparr>im_registrationId = Some rid, im_identityKey = ik, im_baseKey = base, im_preKeyId = pid,
          im_signedPreKeyId = Some j, im_message = buf\<rparr>"
  assumes W: "wire_ok W" "wire_sizes W" and body: "body = 0x33 # PreKeyWhisperMessage_encode W m"
    and ids: "1 \<le> rid" "rid < 2 ^ 32" "\<forall>i. pid = Some i \<longrightarrow> i \<le> 0xffffff" "j \<le> 0xffffff"
    and sizes: "length base = 33" "length ik = 33" "buf \<noteq> []" "length buf < 2 ^ 32"
  shows "\<not> length body < MIN_MESSAGE_LENGTH" "check_versions ''PreKeyWhisperMessage'' (body ! 0) = Inr ()"
    "decodePreKeyMessage W (drop 1 body) = Inr m" "incoming_of m = Inr im" "incoming_valid im"
proof -
  have fits: "prekey_whisper_message_fits m"
    using ids sizes by (cases pid) (auto simp: prekey_whisper_message_fits_def u32_opt_def len32_opt_def m_def)
  show "decodePreKeyMessage W (drop 1 body) = Inr m"
    using PreKeyWhisperMessage_decode_encode [OF W(1) fits] by (simp add: decodePreKeyMessage_def body)
  have "33 \<le> length (put_b W 26 (Some ik))"
    using put_sizes(2) [OF W(2), of 26 ik] sizes(2) by (simp add: len32_opt_def)
  then show "\<not> length body < MIN_MESSAGE_LENGTH"
    by (simp add: body m_def MIN_MESSAGE_LENGTH_def PreKeyWhisperMessage_encode_def)
  show "incoming_of m = Inr im" by (simp add: incoming_of_def def_b_def def_u_def m_def im_def)
  show "incoming_valid im" using ids sizes by (simp add: incoming_valid_def im_def)
  show "check_versions ''PreKeyWhisperMessage'' (body ! 0) = Inr ()" by (simp add: body)
qed

context contact_store
begin

section \<open>The sender\<close>

lemma trusted_run:
  "isTrustedIdentity S (addr_id addr) k d s = (Inr True, s1) \<Longrightarrow> isTrusted_or_throw S addr k d s = (Inr (), s1)"
  by (simp add: isTrusted_or_throw_def sbind_run sret_def)

lemma after_trust:
  assumes "isTrustedIdentity S i k d s = (Inr True, s1)"
  shows "loadSession S a s1 = loadSession S a s" "getOurIdentity S s1 = getOurIdentity S s"
    "loadPreKey S n s1 = loadPreKey S n s" "loadSignedPreKey S n s1 = loadSignedPreKey S n s"
    "getOurRegistrationId S s1 = getOurRegistrationId S s" "good s \<Longrightarrow> good s1"
    "isTrustedIdentity S i k d' s1 = (Inr True, s1)"
  using trust_load [of a i k d s] trust_keys [of i k d s] trust_prekey [of n i k d s] trust_signed [of n i k d s]
    trust_registration [of i k d s] trust_good [of s i k d] trust_pins [OF assms] assms by simp_all

lemma initOutgoing_run:
  assumes E: "env_ok E" and good: "good s" and valid: "bundle_valid b"
    and sig: "verifySignature (ev_prims E) (b_identityKey b) (spk_publicKey (b_signedPreKey b)) (spk_signature (b_signedPreKey b)) = Inr True"
    and trust: "isTrustedIdentity S (addr_id addr) (b_identityKey b) Sending_Direction s = (Inr True, s1)"
    and our: "getOurIdentity S s = Inr IA" and load: "loadSession S (address_toString addr) s = Inr loaded"
    and init: "initSession (ev_prims E) (ev_now E) (ev_fresh E 1) IA True (Some (ev_fresh E 0)) None (b_identityKey b)
      (map_option prk_publicKey (b_preKey b)) (Some (spk_publicKey (b_signedPreKey b))) (Some (b_registrationId b)) = Inr e"
  defines "e' \<equiv> e\<lparr>pendingPreKey := Some \<lparr>pp_signedKeyId = spk_keyId (b_signedPreKey b), pp_baseKey = pubKey (ev_fresh E 0),
    pp_preKeyId = map_option prk_keyId (b_preKey b)\<rparr>\<rparr>"
  obtains r where "initOutgoing E S addr b s = (Inr (), snd (storeSession S (address_toString addr) r s1))"
    "stored_ok r" "getOpenSession r = Some e'" "loaded = None \<longrightarrow> only_session e' r"
proof -
  have hm: "hmac_ok (ev_prims E)" and now: "0 \<le> ev_now E" and base: "pubKey (ev_fresh E 0) \<noteq> []"
    using E by (auto simp: env_ok_def is_key_pair_def)
  note init_ok = initSession_ok [OF hm init]
  have e': "entry_ok e'" "baseKey (indexInfo e') \<noteq> []" "\<not> isClosed e'"
    using init_ok base by (simp_all add: e'_def need_def isClosed_def)
  let ?r0 = "case loaded of None \<Rightarrow> new_session_record | Some r \<Rightarrow> closeOpenSession (ev_now E) r"
  have "record_ok (case loaded of None \<Rightarrow> new_session_record | Some r \<Rightarrow> r)"
    using stored_record [OF stored_or_new, of loaded] load_ok [OF good] load by blast
  from record_ok_fresh [OF this now e'(1,2)] have ok: "record_ok (setSession e' ?r0)"
    by (cases loaded) (simp_all add: closeOpenSession_def new_session_record_def)
  obtain r where r: "removeOldSessions (setSession e' ?r0) = Inr r" "stored_ok r" by (rule removeOldSessions_ok [OF ok])
  have "(b64_encode (baseKey (indexInfo e')), e') \<in> set (sessions (setSession e' ?r0))"
    by (simp add: setSession_def obj_set_self)
  note opened = removeOld_open(2) [OF ok this e'(3) r]
  have "assertValidDeviceKeyBundle (js_of_bundle b) = Inr ()" using valid by (simp add: assert_bundle)
  then have "initOutgoing E S addr b s = storeSession S (address_toString addr) r s1"
    using sig trusted_run [OF trust] after_trust(1,2) [OF trust] our load init r(1)
    by (simp add: initOutgoing_def Let_def sbind_slift sbind_sread sbind_run guard_that_def e'_def)
  also have "\<dots> = (Inr (), snd (storeSession S (address_toString addr) r s1))" by (rule store_run)
  moreover have "only_session e' r" if "loaded = None"
  proof -
    have "only_session e' (setSession e' ?r0)" by (rule only_set(2)) (use that e'(3) in \<open>simp_all add: new_session_record_def\<close>)
    with only_simps(3) [OF this] r(1) show ?thesis by simp
  qed
  ultimately show thesis using r(2) opened that by simp
qed

lemma encrypt_prekey_run:
  assumes good: "good s" and C: "sc_storage C = S" and hm: "hmac_ok (ev_prims E)"
    and load: "loadSession S (address_toString (sc_addr C)) s = Inr (Some r)" and opened: "getOpenSession r = Some e"
    and trust: "isTrustedIdentity S (addr_id (sc_addr C)) (remoteIdentityKey (indexInfo e)) Sending_Direction s = (Inr True, s1)"
    and our: "getOurIdentity S s = Inr IA" and reg: "getOurRegistrationId S s = Inr rid"
    and pend: "pendingPreKey e = Some p"
    and enc: "encryptMessage (ev_prims E) (ev_wire E) IA data e = Inr (buf, e')"
  obtains s' where "encrypt E C data s = (Inr \<lparr>em_type = 3,
      em_body = 0x33 # PreKeyWhisperMessage_encode (ev_wire E)
         \<lparr>pk_registrationId = Some rid, pk_preKeyId = pp_preKeyId p, pk_signedPreKeyId = Some (pp_signedKeyId p),
          pk_baseKey = Some (pp_baseKey p), pk_identityKey = Some (pubKey IA), pk_message = Some buf\<rparr>,
      em_registrationId = se_registrationId e'\<rparr>, s')"
proof -
  have stored: "stored_ok r" using load_ok [OF good load] .
  have r: "record_ok r" using stored by (rule stored_record)
  from getOpenSession_in [OF opened] obtain k where k: "(k, e) \<in> set (sessions r)" .
  note e' = encryptMessage_ok [OF hm record_ok_get(1) [OF r k] enc]
  then have idx: "indexInfo e' = indexInfo e" by (simp add: same_session_def)
  have "record_ok (setSession e' r)" using record_ok_replace [OF r k e'(1)] idx by (simp add: isClosed_def)
  then have "record_ok (r\<lparr>sessions := update_first_open e' (sessions r)\<rparr>)"
    using update_first_open_set [OF r opened, of e'] idx by simp
  from storeRecord_run [OF C this, of E] obtain r' where
    run: "\<And>s. storeRecord E C (r\<lparr>sessions := update_first_open e' (sessions r)\<rparr>) s =
      (Inr (), snd (storeSession S (address_toString (sc_addr C)) r' s))" by metis
  have reg1: "getOurRegistrationId S (snd (storeSession S a r' s1)) = Inr rid" for a
    using store_registration [of a r' s1] after_trust(5) [OF trust] reg by simp
  have pend': "pendingPreKey e' = Some p" using encrypt_keeps_pending [OF enc] pend by simp
  show thesis
    by (rule that [of "snd (storeSession S (address_toString (sc_addr C)) r' s1)"])
      (use load opened our trusted_run [OF trust] enc run reg1 pend' in
        \<open>simp add: encrypt_def Let_def getRecord_def C sbind_sread sbind_slift sbind_run wrap_prekey_def sret_def\<close>)
qed

section \<open>The receiver\<close>

lemma initIncoming_run:
  assumes valid: "incoming_valid m"
    and trust: "isTrustedIdentity S (addr_id addr) (im_identityKey m) Receiving_Direction s = (Inr True, s1)"
    and new: "getSession (im_baseKey m) r = Inr None"
    and prekey: "case im_preKeyId m of None \<Rightarrow> OB = None | Some i \<Rightarrow> loadPreKey S i s = Inr OB \<and> OB \<noteq> None"
    and signed: "im_signedPreKeyId m = Some j" "loadSignedPreKey S j s = Inr (Some SB)"
    and our: "getOurIdentity S s = Inr IB"
    and init: "initSession (ev_prims E) (ev_now E) (ev_fresh E 0) IB False OB (Some SB) (im_identityKey m) (Some (im_baseKey m)) None
      (im_registrationId m) = Inr e"
  shows "initIncoming E S addr r m s = (Inr (setSession e (closeOpenSession (ev_now E) r), im_preKeyId m), s1)"
proof -
  have "(case im_preKeyId m of None \<Rightarrow> sret None
      | Some i \<Rightarrow> sbind (sread (loadPreKey S i)) (\<lambda>kp. if kp = None then slift (Inl (PreKeyError ''Invalid PreKey ID'')) else sret kp)) s1 =
      (Inr OB, s1)"
    using prekey after_trust(3) [OF trust] by (auto simp: sbind_sread sret_def split: option.splits)
  moreover have "assertValidIncomingPreKeyMessage (js_of_incoming m) = Inr ()" using valid by (simp add: assert_incoming)
  ultimately show ?thesis
    using trusted_run [OF trust] after_trust(2,4) [OF trust] new signed our init
    by (simp add: initIncoming_def Let_def sbind_slift sbind_sread sbind_run sret_def)
qed

lemma decryptPreKey_run:
  assumes E: "env_ok E" "wire_ok (ev_wire E)" "wire_sizes (ev_wire E)" and good: "good s" and C: "sc_storage C = S"
    and body: "body = 0x33 # PreKeyWhisperMessage_encode (ev_wire E)
         \<lparr>pk_registrationId = Some rid, pk_preKeyId = pid, pk_signedPreKeyId = Some j, pk_baseKey = Some base,
          pk_identityKey = Some ik, pk_message = Some buf\<rparr>"
    and ids: "1 \<le> rid" "rid < 2 ^ 32" "\<forall>i. pid = Some i \<longrightarrow> i \<le> 0xffffff" "j \<le> 0xffffff"
    and sizes: "length base = 33" "length ik = 33" "buf \<noteq> []" "length buf < 2 ^ 32"
    and load: "loadSession S (address_toString (sc_addr C)) s = Inr loaded"
    and new: "getSession base (case loaded of None \<Rightarrow> new_session_record | Some r \<Rightarrow> r) = Inr None"
    and trust: "isTrustedIdentity S (addr_id (sc_addr C)) ik Receiving_Direction s = (Inr True, s1)"
    and prekey: "case pid of None \<Rightarrow> OB = None | Some i \<Rightarrow> loadPreKey S i s = Inr OB \<and> OB \<noteq> None"
    and signed: "loadSignedPreKey S j s = Inr (Some SB)" and our: "getOurIdentity S s = Inr IB"
    and init: "initSession (ev_prims E) (ev_now E) (ev_fresh E 0) IB False OB (Some SB) ik (Some base) None (Some rid) = Inr e"
    and dec: "doDecryptWhisperMessage (ev_prims E) (ev_wire E) (Inr IB) (ev_fresh E 0) buf e = Inr (data, e')"
  obtains r where "stored_ok r" "getOpenSession r = Some e'" "loaded = None \<longrightarrow> only_session e' r"
    "decryptPreKeyWhisperMessage E C body s =
       (let s2 = snd (storeSession S (address_toString (sc_addr C)) r s1) in
        case pid of None \<Rightarrow> (Inr data, s2)
        | Some i \<Rightarrow> (map_sum id (\<lambda>_. data) (fst (removePreKey S i s2)), snd (removePreKey S i s2)))"
proof -
  let ?m = "\<lparr>pk_registrationId = Some rid, pk_preKeyId = pid, pk_signedPreKeyId = Some j, pk_baseKey = Some base,
          pk_identityKey = Some ik, pk_message = Some buf\<rparr>"
  let ?im = "\<lparr>im_registrationId = Some rid, im_identityKey = ik, im_baseKey = base, im_preKeyId = pid,
          im_signedPreKeyId = Some j, im_message = buf\<rparr>"
  let ?r0 = "case loaded of None \<Rightarrow> new_session_record | Some r \<Rightarrow> r"
  let ?r1 = "setSession e (closeOpenSession (ev_now E) ?r0)"
  have hm: "hmac_ok (ev_prims E)" and now: "0 \<le> ev_now E" using E(1) by (simp_all add: env_ok_def)
  note frame = prekey_frame [OF E(2,3) body ids sizes]
  note init_ok = initSession_ok [OF hm init]
  have base: "baseKey (indexInfo e) = base" using init_ok(3) by (simp add: need_def)
  have key: "baseKeyType (indexInfo e) \<noteq> OURS" using init by (rule initSession_theirs(1))
  have found: "getSession base ?r1 = Inr (Some e)"
    using key by (simp add: getSession_def setSession_def base obj_get_set)
  have "record_ok ?r0" using stored_record [OF stored_or_new, of loaded] load_ok [OF good] load by blast
  moreover have "baseKey (indexInfo e) \<noteq> []" using base sizes(1) by auto
  ultimately have ok1: "record_ok ?r1" by (rule record_ok_fresh [OF _ now init_ok(1)])
  have copy: "SessionEntry_deserialize (SessionEntry_serialize e) = Inr e" by (rule entry_roundtrip [OF entry_ok_wf [OF init_ok(1)]])
  have e': "indexInfo e' = indexInfo e" using doDecrypt_ok [OF hm init_ok(1) dec] by (simp add: same_session_def)
  have ok2: "record_ok (setSession e' ?r1)" by (rule prekey_record_ok [OF hm ok1 found copy dec])
  from storeRecord_run [OF C ok2, of E] obtain r where
    r: "expire_record (ev_now E) (sc_staleSessionMaxAgeMs C) (setSession e' ?r1) = Inr r" "stored_ok r"
      "\<And>s. storeRecord E C (setSession e' ?r1) s = (Inr (), snd (storeSession S (address_toString (sc_addr C)) r s))"
    by metis
  have opened: "getOpenSession r = Some e'"
    by (rule expire_open [OF ok2 _ _ r(1,2), of "b64_encode (baseKey (indexInfo e'))"])
      (use init_ok(2) e' in \<open>simp_all add: setSession_def obj_set_self isClosed_def\<close>)
  have only: "only_session e' r" if "loaded = None"
  proof -
    have "only_session e ?r1"
      by (rule only_set(2)) (use that init_ok(2) in \<open>simp_all add: new_session_record_def closeOpenSession_def\<close>)
    then have "only_session e' (setSession e' ?r1)" by (rule only_set(1) [where u = "ii_used (indexInfo e)"]) (use e' in simp)
    with only_simps(4) [OF this] r(1) show ?thesis by simp
  qed
  have run: "initIncoming E S (sc_addr C) ?r0 ?im s = (Inr (?r1, pid), s1)"
    using initIncoming_run [OF frame(5), of "sc_addr C" s s1 ?r0 OB j SB IB E e] trust new prekey signed our init by simp
  have ours: "getOurIdentity S s1 = Inr IB" using after_trust(2) [OF trust] our by simp
  have "decryptPreKeyWhisperMessage E C body s =
      sbind (case pid of None \<Rightarrow> sret () | Some i \<Rightarrow> removePreKey S i) (\<lambda>_. sret data)
        (snd (storeSession S (address_toString (sc_addr C)) r s1))"
    using load frame(1-4) run found copy dec ours r(3)
    by (simp add: decryptPreKeyWhisperMessage_def Let_def getRecord_def C sbind_slift sbind_sread sbind_run guard_that_def)
  also have "\<dots> = (let s2 = snd (storeSession S (address_toString (sc_addr C)) r s1) in
        case pid of None \<Rightarrow> (Inr data, s2)
        | Some i \<Rightarrow> (map_sum id (\<lambda>_. data) (fst (removePreKey S i s2)), snd (removePreKey S i s2)))"
    by (cases pid) (auto simp: Let_def sbind_def sret_def split: prod.splits sum.splits)
  finally show thesis using r(2) opened only by (intro that) auto
qed

end

section \<open>Both sides\<close>

text \<open>
  \<open>B\<close>'s published bundle, as the pool builds it: the public keys of its identity and of its signed prekey
  with the signature, and a one-time prekey with its id, if any.
\<close>

definition published_bundle :: "nat \<Rightarrow> key_pair \<Rightarrow> nat \<Rightarrow> key_pair \<Rightarrow> bytes \<Rightarrow> (nat \<times> key_pair) option \<Rightarrow> device_key_bundle" where
  "published_bundle rid identity j spk sig oneTime =
     \<lparr>b_registrationId = rid, b_identityKey = pubKey identity,
      b_signedPreKey = \<lparr>spk_keyId = j, spk_publicKey = pubKey spk, spk_signature = sig\<rparr>,
      b_preKey = map_option (\<lambda>(i, kp). \<lparr>prk_keyId = i, prk_publicKey = pubKey kp\<rparr>) oneTime\<rparr>"

text \<open>What \<open>B\<close>'s storage holds for a bundle.\<close>

definition holds_bundle :: "'s signal_storage \<Rightarrow> 's \<Rightarrow> key_pair \<Rightarrow> nat \<Rightarrow> key_pair \<Rightarrow> (nat \<times> key_pair) option \<Rightarrow> bool" where
  "holds_bundle S s identity j spk oneTime \<longleftrightarrow>
     getOurIdentity S s = Inr identity \<and> loadSignedPreKey S j s = Inr (Some spk) \<and>
     (\<forall>i kp. oneTime = Some (i, kp) \<longrightarrow> loadPreKey S i s = Inr (Some kp))"

definition bundle_keys_ok :: "prims \<Rightarrow> nat \<Rightarrow> key_pair \<Rightarrow> nat \<Rightarrow> key_pair \<Rightarrow> bytes \<Rightarrow> (nat \<times> key_pair) option \<Rightarrow> bool" where
  "bundle_keys_ok P rid identity j spk sig oneTime \<longleftrightarrow>
     1 \<le> rid \<and> rid \<le> 0x3fff \<and> is_key_pair P identity \<and> j \<le> 0xffffff \<and> is_key_pair P spk \<and>
     calculateSignature P (privKey identity) (pubKey spk) = Inr sig \<and>
     (\<forall>i kp. oneTime = Some (i, kp) \<longrightarrow> i \<le> 0xffffff \<and> is_key_pair P kp)"

lemma published_bundle_valid:
  assumes "prims_ok P" "bundle_keys_ok P rid identity j spk sig oneTime"
  shows "bundle_valid (published_bundle rid identity j spk sig oneTime)"
    "verifySignature P (pubKey identity) (pubKey spk) sig = Inr True"
proof -
  note P = prims_okD [OF assms(1)]
  have kp: "is_key_pair P identity" "is_key_pair P spk" and sig: "calculateSignature P (privKey identity) (pubKey spk) = Inr sig"
    using assms(2) by (simp_all add: bundle_keys_ok_def)
  show "verifySignature P (pubKey identity) (pubKey spk) sig = Inr True"
    by (rule signature_verifies [OF P(4,5) kp(1) sig])
  have "length (privKey identity) = 32" using kp(1) by (simp add: is_key_pair_def)
  then obtain sig' where "calculateSignature P (privKey identity) (pubKey spk) = Inr sig'" "length sig' = 64"
    by (rule sign_total [OF P(5)])
  then have "length sig = 64" using sig by simp
  then show "bundle_valid (published_bundle rid identity j spk sig oneTime)"
    using assms(2) is_key_pair_lengths [OF P(4)] by (auto simp: bundle_valid_def published_bundle_def bundle_keys_ok_def)
qed

definition same_env :: "prims \<Rightarrow> wire \<Rightarrow> env \<Rightarrow> bool" where
  "same_env P W E \<longleftrightarrow> env_ok E \<and> ev_prims E = P \<and> ev_wire E = W"

lemma first_contact_core:
  assumes A: "contact_store SA goodA" and B: "contact_store SB goodB"
    and P: "prims_ok P" "wire_ok W" "wire_sizes W" and envs: "same_env P W EA" "same_env P W EA'" "same_env P W EB"
    and pub: "bundle_keys_ok P rB IB j SPK sig OPK"
    and a: "goodA sA" "getOurIdentity SA sA = Inr IA" "is_key_pair P IA" "getOurRegistrationId SA sA = Inr rA" "1 \<le> rA" "rA < 2 ^ 32"
      "loadSession SA (address_toString addrB) sA = Inr lA"
      "isTrustedIdentity SA (addr_id addrB) (pubKey IB) Sending_Direction sA = (Inr True, sA1)"
    and b: "goodB sB" "holds_bundle SB sB IB j SPK OPK" "loadSession SB (address_toString addrA) sB = Inr lB"
      "getSession (pubKey (ev_fresh EA 0)) (case lB of None \<Rightarrow> new_session_record | Some r \<Rightarrow> r) = Inr None"
      "isTrustedIdentity SB (addr_id addrA) (pubKey IA) Receiving_Direction sB = (Inr True, sB1)"
    and distinct: "pubKey (ev_fresh EA 1) \<noteq> pubKey SPK" "pubKey (ev_fresh EB 0) \<noteq> pubKey (ev_fresh EA 1)"
    and data: "length data < 2 ^ 31"
    and ciphers: "sc_storage CA = SA" "sc_addr CA = addrB" "sc_storage CB = SB" "sc_addr CB = addrA"
  obtains sA2 em sA3 r where
    "initOutgoing EA SA addrB (published_bundle rB IB j SPK sig OPK) sA = (Inr (), sA2)"
    "encrypt EA' CA data sA2 = (Inr em, sA3)" "em_type em = 3" "stored_ok r" "haveOpenSession r"
    "decryptPreKeyWhisperMessage EB CB (em_body em) sB =
       (let s2 = snd (storeSession SB (address_toString addrA) r sB1) in
        case map_option fst OPK of None \<Rightarrow> (Inr data, s2)
        | Some i \<Rightarrow> (map_sum id (\<lambda>_. data) (fst (removePreKey SB i s2)), snd (removePreKey SB i s2)))"
proof -
  let ?b = "published_bundle rB IB j SPK sig OPK" and ?O = "map_option snd OPK"
  let ?pend = "Some \<lparr>pp_signedKeyId = j, pp_baseKey = pubKey (ev_fresh EA 0), pp_preKeyId = map_option fst OPK\<rparr>"
  have env: "env_ok EA" "ev_prims EA = P" "env_ok EA'" "ev_prims EA' = P" "ev_wire EA' = W" "env_ok EB" "ev_prims EB = P" "ev_wire EB = W"
    using envs by (simp_all add: same_env_def)
  have hm: "hmac_ok P" and dh: "dh_ok P" using P(1) by (simp_all add: prims_okD)
  have kp: "is_key_pair P IB" "is_key_pair P SPK" "\<forall>x. ?O = Some x \<longrightarrow> is_key_pair P x"
    using pub by (auto simp: bundle_keys_ok_def)
  have fresh: "is_key_pair P (ev_fresh EA i)" "is_key_pair P (ev_fresh EB i)" for i using env by (auto simp: env_ok_def)
  obtain eA eB buf eA' eB' where msg:
    "initSession P (ev_now EA) (ev_fresh EA 1) IA True (Some (ev_fresh EA 0)) None (pubKey IB) (map_option pubKey ?O) (Some (pubKey SPK)) (Some rB) = Inr eA"
    "initSession P (ev_now EB) (ev_fresh EB 0) IB False ?O (Some SPK) (pubKey IA) (Some (pubKey (ev_fresh EA 0))) None (Some rA) = Inr eB"
    "encryptMessage P W IA data (eA\<lparr>pendingPreKey := ?pend\<rparr>) = Inr (buf, eA')"
    "doDecryptWhisperMessage P W (Inr IB) (ev_fresh EB 0) buf eB = Inr (data, eB')" "wire_sizes W \<Longrightarrow> length buf < 2 ^ 32" "buf \<noteq> []"
    using first_message_core [OF P(1,2) a(3) fresh(1) [of 0] fresh(1) [of 1] kp fresh(2) [of 0] distinct data, of "ev_now EA" "Some rB"
        "ev_now EB" "ev_fresh EB 0" "Some rA" ?pend] by blast
  have pre: "map_option prk_publicKey (b_preKey ?b) = map_option pubKey ?O" "map_option prk_keyId (b_preKey ?b) = map_option fst OPK"
    "b_identityKey ?b = pubKey IB" "b_signedPreKey ?b = \<lparr>spk_keyId = j, spk_publicKey = pubKey SPK, spk_signature = sig\<rparr>"
    "b_registrationId ?b = rB"
    by (cases OPK; auto simp: published_bundle_def)+
  note valid = published_bundle_valid [OF P(1) pub]
  obtain r where out: "initOutgoing EA SA addrB ?b sA = (Inr (), snd (storeSession SA (address_toString addrB) r sA1))"
    and r: "stored_ok r" "getOpenSession r = Some (eA\<lparr>pendingPreKey := ?pend\<rparr>)"
  proof (rule contact_store.initOutgoing_run [OF A env(1) a(1) valid(1), of addrB sA1 IA lA eA])
    show "verifySignature (ev_prims EA) (b_identityKey ?b) (spk_publicKey (b_signedPreKey ?b)) (spk_signature (b_signedPreKey ?b)) = Inr True"
      using valid(2) by (simp add: pre env(2))
    show "initSession (ev_prims EA) (ev_now EA) (ev_fresh EA 1) IA True (Some (ev_fresh EA 0)) None (b_identityKey ?b)
      (map_option prk_publicKey (b_preKey ?b)) (Some (spk_publicKey (b_signedPreKey ?b))) (Some (b_registrationId ?b)) = Inr eA"
      using msg(1) by (simp only: pre env(2) signed_pre_key_pub.select_convs)
  qed (use that a pre in simp_all)
  let ?sA2 = "snd (storeSession SA (address_toString addrB) r sA1)"
  note t = contact_store.after_trust [OF A a(8)] and sess = contact_store.axioms(1) [OF A]
  have good2: "goodA ?sA2" by (rule session_store.store_good [OF sess t(6) [OF a(1)] r(1)])
  have load2: "loadSession SA (address_toString addrB) ?sA2 = Inr (Some r)"
    using session_store.load_store [OF sess t(6) [OF a(1)] r(1)] by simp
  have keys2: "getOurIdentity SA ?sA2 = Inr IA" using session_store.store_keys [OF sess] t(2) a(2) by simp
  have reg2: "getOurRegistrationId SA ?sA2 = Inr rA" using contact_store.store_registration [OF A] t(5) a(4) by simp
  have remote: "remoteIdentityKey (indexInfo (eA\<lparr>pendingPreKey := ?pend\<rparr>)) = pubKey IB" using initSession_ok(4) [OF hm msg(1)] by simp
  obtain sA2' where trust2: "isTrustedIdentity SA (addr_id addrB) (pubKey IB) Sending_Direction ?sA2 = (Inr True, sA2')"
    using contact_store.store_trust [OF A, of "addr_id addrB" "pubKey IB" Sending_Direction "address_toString addrB" r sA1]
      t(7) [of Sending_Direction]
    by (cases "isTrustedIdentity SA (addr_id addrB) (pubKey IB) Sending_Direction ?sA2") simp
  obtain sA3 where enc: "encrypt EA' CA data ?sA2 = (Inr \<lparr>em_type = 3,
      em_body = 0x33 # PreKeyWhisperMessage_encode W
         \<lparr>pk_registrationId = Some rA, pk_preKeyId = map_option fst OPK, pk_signedPreKeyId = Some j,
          pk_baseKey = Some (pubKey (ev_fresh EA 0)), pk_identityKey = Some (pubKey IA), pk_message = Some buf\<rparr>,
      em_registrationId = se_registrationId eA'\<rparr>, sA3)"
    by (rule contact_store.encrypt_prekey_run [OF A good2 ciphers(1), where E = EA' and r = r and e = "eA\<lparr>pendingPreKey := ?pend\<rparr>"
          and p = "\<lparr>pp_signedKeyId = j, pp_baseKey = pubKey (ev_fresh EA 0), pp_preKeyId = map_option fst OPK\<rparr>"
          and buf = buf and e' = eA' and data = data])
      (use that env hm load2 r(2) trust2 keys2 reg2 msg(3) remote ciphers(2) in simp_all)
  let ?em = "\<lparr>em_type = 3, em_body = 0x33 # PreKeyWhisperMessage_encode W
         \<lparr>pk_registrationId = Some rA, pk_preKeyId = map_option fst OPK, pk_signedPreKeyId = Some j,
          pk_baseKey = Some (pubKey (ev_fresh EA 0)), pk_identityKey = Some (pubKey IA), pk_message = Some buf\<rparr>,
      em_registrationId = se_registrationId eA'\<rparr>"
  have holds: "getOurIdentity SB sB = Inr IB" "loadSignedPreKey SB j sB = Inr (Some SPK)"
    "case map_option fst OPK of None \<Rightarrow> ?O = None | Some i \<Rightarrow> loadPreKey SB i sB = Inr ?O \<and> ?O \<noteq> None"
    using b(2) by (cases OPK; auto simp: holds_bundle_def)+
  have ids: "\<forall>i. map_option fst OPK = Some i \<longrightarrow> i \<le> 0xffffff" "j \<le> 0xffffff" using pub by (auto simp: bundle_keys_ok_def)
  have len: "length (pubKey (ev_fresh EA 0)) = 33" "length (pubKey IA) = 33" using is_key_pair_lengths [OF dh] fresh a(3) by blast+
  obtain r' where r': "stored_ok r'" "getOpenSession r' = Some eB'"
    and dec: "decryptPreKeyWhisperMessage EB CB (em_body ?em) sB =
       (let s2 = snd (storeSession SB (address_toString (sc_addr CB)) r' sB1) in
        case map_option fst OPK of None \<Rightarrow> (Inr data, s2)
        | Some i \<Rightarrow> (map_sum id (\<lambda>_. data) (fst (removePreKey SB i s2)), snd (removePreKey SB i s2)))"
    by (rule contact_store.decryptPreKey_run [OF B env(6) _ _ b(1) ciphers(3), of "em_body ?em" rA "map_option fst OPK" j
          "pubKey (ev_fresh EA 0)" "pubKey IA" buf lB sB1 ?O SPK IB eB data eB'])
      (use env P a b holds ids len msg ciphers(4) in simp_all)
  have "se_registrationId eB' = Some rA"
    using doDecrypt_ok [OF hm initSession_ok(1) [OF hm msg(2)] msg(4)] initSession_theirs(2) [OF msg(2)] by (simp add: same_session_def)
  then have "haveOpenSession r'" using r'(2) by (simp add: haveOpenSession_def)
  with out enc r'(1) dec show thesis using that ciphers(4) by simp
qed

end
