(* ===== verification/Memory_Invariant.thy ===== *)
theory Memory_Invariant
  imports Memory_Storage First_Contact
begin

text \<open>
  The in-memory storage keeps its invariant under every method, meets the contracts of the session
  code and of group messaging, and rotates signed prekeys without losing one too early.
\<close>

section \<open>The invariant\<close>

definition mem_ok :: "memory_storage \<Rightarrow> bool" where
  "mem_ok s \<longleftrightarrow> (\<forall>r\<in>snd ` set (ms_sessions s). stored_ok r) \<and> (\<forall>r\<in>snd ` set (ms_senderKeys s). sender_record_wf r) \<and>
     obj_wf (ms_sessions s) \<and> obj_wf (ms_senderKeys s) \<and> obj_wf (ms_preKeys s) \<and> obj_wf (ms_signedPreKeys s) \<and>
     obj_wf (ms_trusted s) \<and> obj_wf (ms_retired s) \<and>
     distinct (ms_published s) \<and> set (ms_published s) \<subseteq> set (obj_keys (ms_preKeys s))"

named_theorems mem_defs "the methods of the in-memory storage"

lemmas [mem_defs] = mem_loadSession_def mem_storeSession_def mem_loadSenderKey_def mem_storeSenderKey_def
  mem_removeSenderKey_def mem_removeGroupSessions_def mem_isTrustedIdentity_def mem_loadIdentity_def
  mem_loadPreKey_def mem_removePreKey_def mem_loadSignedPreKey_def emitPreKeyRemoved_def
  mem_reservePreKey_def mem_releasePreKey_def mem_onPreKeyRemoved_def mem_unsubscribe_def mem_storePreKey_def
  mem_setNextPreKeyId_def mem_storeSignedPreKey_id_def mem_removeSignedPreKey_def

lemma obj_set_values: "\<forall>r\<in>snd ` set m. Q r \<Longrightarrow> Q v \<Longrightarrow> \<forall>r\<in>snd ` set (obj_set k v m). Q r"
  by (induction m) auto

lemma obj_filter_values: "\<forall>r\<in>snd ` set m. Q r \<Longrightarrow> \<forall>r\<in>snd ` set (filter p m). Q r"
  by auto

lemma obj_del_values: "\<forall>r\<in>snd ` set m. Q r \<Longrightarrow> \<forall>r\<in>snd ` set (obj_del k m). Q r"
  unfolding obj_del_filter by (rule obj_filter_values)

lemma keys_set: "set (obj_keys (obj_set k v m)) = insert k (set (obj_keys m))"
  by (induction m) auto

lemma keys_del: "set (obj_keys (obj_del k m)) = set (obj_keys m) - {k}"
  unfolding obj_keys_del by auto

lemma new_storage_ok: "mem_ok (new_MemorySignalStorage identity rid grace policy cb)"
  by (simp add: mem_ok_def new_MemorySignalStorage_def)

lemma mem_okD:
  assumes "mem_ok s"
  shows "\<forall>r\<in>snd ` set (ms_sessions s). stored_ok r" "\<forall>r\<in>snd ` set (ms_senderKeys s). sender_record_wf r"
    "obj_wf (ms_sessions s)" "obj_wf (ms_senderKeys s)" "obj_wf (ms_preKeys s)" "obj_wf (ms_signedPreKeys s)"
    "obj_wf (ms_trusted s)" "obj_wf (ms_retired s)" "distinct (ms_published s)"
    "set (ms_published s) \<subseteq> set (obj_keys (ms_preKeys s))"
  using assms by (simp_all add: mem_ok_def)

lemma mem_ok_session_map:
  "mem_ok s \<Longrightarrow> obj_wf m \<Longrightarrow> \<forall>r\<in>snd ` set m. stored_ok r \<Longrightarrow> mem_ok (s\<lparr>ms_sessions := m\<rparr>)"
  by (auto simp: mem_ok_def)

lemma mem_ok_sender_map:
  "mem_ok s \<Longrightarrow> obj_wf m \<Longrightarrow> \<forall>r\<in>snd ` set m. sender_record_wf r \<Longrightarrow> mem_ok (s\<lparr>ms_senderKeys := m\<rparr>)"
  by (auto simp: mem_ok_def)

lemma mem_ok_trusted_map: "mem_ok s \<Longrightarrow> obj_wf m \<Longrightarrow> mem_ok (s\<lparr>ms_trusted := m\<rparr>)"
  by (simp add: mem_ok_def)

lemma mem_ok_prekey_map:
  "mem_ok s \<Longrightarrow> obj_wf m \<Longrightarrow> distinct pub \<Longrightarrow> set pub \<subseteq> set (obj_keys m) \<Longrightarrow>
     mem_ok (s\<lparr>ms_preKeys := m, ms_published := pub\<rparr>)"
  by (simp add: mem_ok_def)

lemma mem_ok_signed_map: "mem_ok s \<Longrightarrow> obj_wf m \<Longrightarrow> mem_ok (s\<lparr>ms_signedPreKeys := m\<rparr>)"
  by (simp add: mem_ok_def)

lemma mem_ok_irrelevant:
  "mem_ok (s\<lparr>ms_events := e\<rparr>) = mem_ok s" "mem_ok (s\<lparr>ms_listeners := l\<rparr>) = mem_ok s"
  "mem_ok (s\<lparr>ms_nextPreKeyId := n\<rparr>) = mem_ok s" "mem_ok (s\<lparr>ms_latest := x\<rparr>) = mem_ok s"
  by (simp_all add: mem_ok_def)

lemma mem_storeSession_ok: "mem_ok s \<Longrightarrow> stored_ok r \<Longrightarrow> mem_ok (snd (mem_storeSession i r s))"
  unfolding mem_storeSession_def snd_conv by (intro mem_ok_session_map obj_wf_set obj_set_values mem_okD)

lemma mem_storeSenderKey_ok: "mem_ok s \<Longrightarrow> sender_record_wf r \<Longrightarrow> mem_ok (snd (mem_storeSenderKey name r s))"
  unfolding mem_storeSenderKey_def snd_conv by (intro mem_ok_sender_map obj_wf_set obj_set_values mem_okD)

lemma mem_removeSenderKey_ok: "mem_ok s \<Longrightarrow> mem_ok (snd (mem_removeSenderKey name s))"
  unfolding mem_removeSenderKey_def snd_conv by (intro mem_ok_sender_map obj_wf_del obj_del_values mem_okD)

lemma mem_removeGroupSessions_ok: "mem_ok s \<Longrightarrow> mem_ok (snd (mem_removeGroupSessions g s))"
  unfolding mem_removeGroupSessions_def snd_conv by (intro mem_ok_sender_map obj_wf_filter obj_filter_values mem_okD)

lemma removeSessionsForIdentifier_ok: "mem_ok s \<Longrightarrow> mem_ok (removeSessionsForIdentifier i s)"
  unfolding removeSessionsForIdentifier_def by (intro mem_ok_session_map obj_wf_filter obj_filter_values mem_okD)

lemma mem_isTrustedIdentity_ok: "mem_ok s \<Longrightarrow> mem_ok (snd (mem_isTrustedIdentity i k d s))"
  by (auto simp: mem_isTrustedIdentity_def mem_ok_def split: option.splits)

lemma mem_ok_set_trusted: "mem_ok s \<Longrightarrow> mem_ok (s\<lparr>ms_trusted := obj_set i k (ms_trusted s)\<rparr>)"
  by (rule mem_ok_trusted_map) (auto simp: mem_ok_def)

lemma mem_saveIdentity_ok: "mem_ok s \<Longrightarrow> mem_ok (snd (mem_saveIdentity i k s))"
  using removeSessionsForIdentifier_ok [OF mem_ok_set_trusted]
  by (auto simp: mem_saveIdentity_def Let_def emitIdentityChanged_def mem_ok_irrelevant mem_ok_set_trusted split: option.split)

lemma mem_removeIdentity_ok: "mem_ok s \<Longrightarrow> mem_ok (snd (mem_removeIdentity i s))"
  unfolding mem_removeIdentity_def snd_conv
  by (intro removeSessionsForIdentifier_ok mem_ok_trusted_map) (auto simp: mem_ok_def)

lemma mem_ok_drop_prekey:
  assumes "mem_ok s"
  shows "mem_ok (s\<lparr>ms_preKeys := obj_del i (ms_preKeys s), ms_published := removeAll i (ms_published s)\<rparr>)"
proof (rule mem_ok_prekey_map [OF assms obj_wf_del [OF mem_okD(5) [OF assms]] distinct_removeAll [OF mem_okD(9) [OF assms]]])
  show "set (removeAll i (ms_published s)) \<subseteq> set (obj_keys (obj_del i (ms_preKeys s)))"
    unfolding keys_del using mem_okD(10) [OF assms] by auto
qed

lemma mem_removePreKey_ok: "mem_ok s \<Longrightarrow> mem_ok (snd (mem_removePreKey i s))"
  by (simp add: mem_removePreKey_def Let_def emitPreKeyRemoved_def mem_ok_irrelevant mem_ok_drop_prekey)

lemma mem_ok_published: "mem_ok s \<Longrightarrow> distinct pub \<Longrightarrow> set pub \<subseteq> set (obj_keys (ms_preKeys s)) \<Longrightarrow> mem_ok (s\<lparr>ms_published := pub\<rparr>)"
  by (simp add: mem_ok_def)

lemma mem_reservePreKey_ok: "mem_ok s \<Longrightarrow> mem_ok (snd (mem_reservePreKey i s))"
  using mem_okD(9,10) [of s] mem_ok_published [of s "ms_published s @ [i]"]
  by (simp add: mem_reservePreKey_def obj_get_None)

lemma mem_releasePreKey_ok: "mem_ok s \<Longrightarrow> mem_ok (snd (mem_releasePreKey i s))"
  unfolding mem_releasePreKey_def snd_conv using mem_okD(9,10)
  by (intro mem_ok_published distinct_removeAll) auto

lemma mem_storePreKey_ok:
  assumes "mem_ok s"
  shows "mem_ok (mem_storePreKey i kp s)"
proof -
  have "mem_ok (s\<lparr>ms_preKeys := obj_set i kp (ms_preKeys s), ms_published := ms_published s\<rparr>)"
    using mem_okD [OF assms] by (intro mem_ok_prekey_map assms obj_wf_set) (auto simp only: keys_set)
  then show ?thesis by (simp add: mem_storePreKey_def)
qed

lemma prune_ok: "mem_ok s \<Longrightarrow> mem_ok (pruneRetiredSignedPreKeys now s)"
  by (simp add: pruneRetiredSignedPreKeys_def Let_def mem_ok_def obj_wf_filter)

lemma mem_storeSignedPreKey_ok: "mem_ok s \<Longrightarrow> mem_ok (mem_storeSignedPreKey now r s)"
  unfolding mem_storeSignedPreKey_def Let_def
  by (rule prune_ok) (auto simp: mem_ok_def split: option.split)

lemma mem_storeSignedPreKey_id_ok: "mem_ok s \<Longrightarrow> mem_ok (mem_storeSignedPreKey_id i kp s)"
  unfolding mem_storeSignedPreKey_id_def by (intro mem_ok_signed_map) (auto simp: mem_ok_def)

lemma mem_removeSignedPreKey_ok: "mem_ok s \<Longrightarrow> mem_ok (snd (mem_removeSignedPreKey i s))"
  by (auto simp: mem_removeSignedPreKey_def mem_ok_def)

lemma mem_registry_ok:
  "mem_ok s \<Longrightarrow> mem_ok (mem_onPreKeyRemoved l s)" "mem_ok s \<Longrightarrow> mem_ok (mem_unsubscribe l s)"
  "mem_ok s \<Longrightarrow> mem_ok (mem_setNextPreKeyId n s)"
  by (simp_all add: mem_onPreKeyRemoved_def mem_unsubscribe_def mem_setNextPreKeyId_def mem_ok_irrelevant)

section \<open>Signed prekeys\<close>

lemma obj_get_filter_key: "obj_get (filter (\<lambda>(i, _). Q i) m) i = (if Q i then obj_get m i else None)"
  by (induction m) auto

lemma expired_ids:
  "obj_wf m \<Longrightarrow> i \<in> set (map fst (filter (\<lambda>(_, t). now - t \<ge> g) m)) \<longleftrightarrow> (\<exists>t. obj_get m i = Some t \<and> g \<le> now - (t :: int))"
  by (force dest: obj_get_Some_in simp: image_iff)

definition expired :: "int \<Rightarrow> memory_storage \<Rightarrow> nat \<Rightarrow> bool" where
  "expired now s i \<longleftrightarrow> (\<exists>t. obj_get (ms_retired s) i = Some t \<and> ms_gracePeriodMs s \<le> now - t)"

lemma expired_update [simp]: "expired now (s\<lparr>ms_signedPreKeys := m\<rparr>) = expired now s" "expired now (s\<lparr>ms_latest := l\<rparr>) = expired now s"
  by (simp_all add: fun_eq_iff expired_def)

lemma prune_get:
  assumes "obj_wf (ms_retired s)"
  shows "obj_get (ms_signedPreKeys (pruneRetiredSignedPreKeys now s)) i = (if expired now s i then None else obj_get (ms_signedPreKeys s) i)"
    "obj_get (ms_retired (pruneRetiredSignedPreKeys now s)) i = (if expired now s i then None else obj_get (ms_retired s) i)"
  unfolding pruneRetiredSignedPreKeys_def Let_def expired_def expired_ids [OF assms] by (auto simp: obj_get_filter_key)

lemma prune_rest [simp]: "ms_latest (pruneRetiredSignedPreKeys now s) = ms_latest s"
  "ms_gracePeriodMs (pruneRetiredSignedPreKeys now s) = ms_gracePeriodMs s"
  by (simp_all add: pruneRetiredSignedPreKeys_def Let_def)

text \<open>A new latest signed prekey after \<open>l\<close>.\<close>

lemma store_signed_get:
  assumes "mem_ok s" "ms_latest s = Some l" "spk_id r \<noteq> spk_id l"
  shows "obj_get (ms_signedPreKeys (mem_storeSignedPreKey now r s)) i =
      (if expired now (s\<lparr>ms_retired := obj_set (spk_id l) now (ms_retired s)\<rparr>) i then None
       else if i = spk_id r then Some (spk_keyPair r) else obj_get (ms_signedPreKeys s) i)"
    "obj_get (ms_retired (mem_storeSignedPreKey now r s)) i =
      (if expired now (s\<lparr>ms_retired := obj_set (spk_id l) now (ms_retired s)\<rparr>) i then None
       else if i = spk_id l then Some now else obj_get (ms_retired s) i)"
    "ms_latest (mem_storeSignedPreKey now r s) = Some r" "ms_gracePeriodMs (mem_storeSignedPreKey now r s) = ms_gracePeriodMs s"
  using assms(2,3) mem_okD(8) [OF assms(1)]
  by (simp_all add: mem_storeSignedPreKey_def Let_def prune_get obj_wf_set obj_get_set)

section \<open>The contracts\<close>

lemma mem_load_get:
  assumes "mem_ok s"
  shows "mem_loadSession i s = Inr (obj_get (ms_sessions s) i)"
proof (cases "obj_get (ms_sessions s) i")
  case (Some r)
  then have "r \<in> snd ` set (ms_sessions s)" by (metis image_eqI obj_get_Some_in snd_conv)
  then have "record_wf r" using assms by (auto simp: mem_ok_def stored_ok_def record_ok_def)
  with Some show ?thesis by (simp add: mem_loadSession_def record_roundtrip)
qed (simp add: mem_loadSession_def)

lemma mem_load_sender_get:
  assumes "mem_ok s"
  shows "mem_loadSenderKey name s = Inr (obj_get (ms_senderKeys s) (SenderKeyName_serialize name))"
proof (cases "obj_get (ms_senderKeys s) (SenderKeyName_serialize name)")
  case (Some r)
  then have "r \<in> snd ` set (ms_senderKeys s)" by (metis image_eqI obj_get_Some_in snd_conv)
  then have "\<forall>st\<in>set r. sks_private st \<noteq> Some []" using assms by (auto simp: mem_ok_def sender_record_wf_def sender_state_wf_def)
  with Some show ?thesis by (simp add: mem_loadSenderKey_def sender_record_roundtrip)
qed (simp add: mem_loadSenderKey_def)

text \<open>The invariant together with an identity that is pinned, if any.\<close>

definition pins :: "(string \<times> bytes) option \<Rightarrow> memory_storage \<Rightarrow> bool" where
  "pins p s \<longleftrightarrow> (\<forall>i k. p = Some (i, k) \<longrightarrow> obj_get (ms_trusted s) i = Some k)"

definition mem_good :: "(string \<times> bytes) option \<Rightarrow> memory_storage \<Rightarrow> bool" where
  "mem_good p s \<longleftrightarrow> mem_ok s \<and> pins p s"

lemma mem_good_None [simp]: "mem_good None = mem_ok"
  by (simp add: mem_good_def pins_def fun_eq_iff)

lemma mem_goodD: "mem_good p s \<Longrightarrow> mem_ok s"
  by (simp add: mem_good_def)

lemma mem_goodI: "mem_good p s \<Longrightarrow> mem_ok s' \<Longrightarrow> ms_trusted s' = ms_trusted s \<Longrightarrow> mem_good p s'"
  by (simp add: mem_good_def pins_def)

interpretation mem: signal_store memory_signal_storage "mem_good p" for p
proof
  note mss = memory_signal_storage_def
  fix s :: memory_storage and s' i k d d' a b r n
  show "stored_ok r" if "mem_good p s" "loadSession memory_signal_storage a s = Inr (Some r)"
    using mem_goodD [OF that(1)] that(2) by (auto simp: mss mem_load_get mem_ok_def dest!: obj_get_Some_in)
  show "mem_good p (snd (storeSession memory_signal_storage a r s))" if "mem_good p s" "stored_ok r"
    using mem_goodI [OF that(1) mem_storeSession_ok [OF mem_goodD [OF that(1)] that(2)]] by (simp add: mss mem_storeSession_def)
  show "fst (storeSession memory_signal_storage a r s) = Inr ()" by (simp add: mss mem_storeSession_def)
  show "loadSession memory_signal_storage b (snd (storeSession memory_signal_storage a r s)) =
      (if b = a then Inr (Some r) else loadSession memory_signal_storage b s)" if "mem_good p s" "stored_ok r"
    using mem_load_get [OF mem_storeSession_ok] mem_goodD [OF that(1)] that(2) mem_load_get
    by (simp add: mss mem_storeSession_def obj_get_set)
  show "getOurIdentity memory_signal_storage (snd (storeSession memory_signal_storage a r s)) = getOurIdentity memory_signal_storage s"
    by (simp add: mss mem_storeSession_def)
  show "mem_good p (snd (isTrustedIdentity memory_signal_storage i k d s))" if "mem_good p s"
    using mem_isTrustedIdentity_ok [OF mem_goodD [OF that], of i k d] that
    by (auto simp: mss mem_isTrustedIdentity_def mem_good_def pins_def obj_get_set split: option.splits)
  show "loadSession memory_signal_storage a (snd (isTrustedIdentity memory_signal_storage i k d s)) = loadSession memory_signal_storage a s"
    by (simp add: mss mem_isTrustedIdentity_def mem_loadSession_def split: option.split)
  show "getOurIdentity memory_signal_storage (snd (isTrustedIdentity memory_signal_storage i k d s)) = getOurIdentity memory_signal_storage s"
    by (simp add: mss mem_isTrustedIdentity_def split: option.split)
  show "isTrustedIdentity memory_signal_storage i k d' s' = (Inr True, s')"
    if "isTrustedIdentity memory_signal_storage i k d s = (Inr True, s')"
    using that by (auto simp: mss mem_isTrustedIdentity_def obj_get_set split: option.splits if_splits)
  show "mem_good p (snd (removePreKey memory_signal_storage n s))" if "mem_good p s"
    using mem_goodI [OF that mem_removePreKey_ok [OF mem_goodD [OF that], of n]]
    by (simp add: mss mem_removePreKey_def Let_def emitPreKeyRemoved_def)
  show "loadSession memory_signal_storage a (snd (removePreKey memory_signal_storage n s)) = loadSession memory_signal_storage a s"
    by (simp add: mss mem_removePreKey_def Let_def emitPreKeyRemoved_def mem_loadSession_def)
  show "fst (removePreKey memory_signal_storage n s) = Inr ()" by (simp add: mss mem_removePreKey_def Let_def)
qed

interpretation mem_contact: contact_store memory_signal_storage "mem_good p" for p
proof (rule contact_store.intro [OF mem.session_store_axioms], unfold_locales)
  note mss = memory_signal_storage_def
  fix s :: memory_storage and i k d a r n
  show "loadPreKey memory_signal_storage n (snd (isTrustedIdentity memory_signal_storage i k d s)) = loadPreKey memory_signal_storage n s"
    "loadSignedPreKey memory_signal_storage n (snd (isTrustedIdentity memory_signal_storage i k d s)) = loadSignedPreKey memory_signal_storage n s"
    "getOurRegistrationId memory_signal_storage (snd (isTrustedIdentity memory_signal_storage i k d s)) = getOurRegistrationId memory_signal_storage s"
    by (simp_all add: mss mem_isTrustedIdentity_def mem_loadPreKey_def mem_loadSignedPreKey_def split: option.split)
  show "getOurRegistrationId memory_signal_storage (snd (storeSession memory_signal_storage a r s)) = getOurRegistrationId memory_signal_storage s"
    "fst (isTrustedIdentity memory_signal_storage i k d (snd (storeSession memory_signal_storage a r s))) =
     fst (isTrustedIdentity memory_signal_storage i k d s)"
    by (simp_all add: mss mem_storeSession_def mem_isTrustedIdentity_def split: option.split)
qed

interpretation mem_exchange: exchange_store memory_signal_storage "mem_good p" for p
proof (rule exchange_store.intro [OF mem_contact.contact_store_axioms mem.signal_store_axioms], unfold_locales)
  fix s :: memory_storage and i k d n
  show "getOurIdentity memory_signal_storage (snd (removePreKey memory_signal_storage n s)) = getOurIdentity memory_signal_storage s"
    "getOurRegistrationId memory_signal_storage (snd (removePreKey memory_signal_storage n s)) = getOurRegistrationId memory_signal_storage s"
    "fst (isTrustedIdentity memory_signal_storage i k d (snd (removePreKey memory_signal_storage n s))) =
     fst (isTrustedIdentity memory_signal_storage i k d s)"
    by (simp_all add: memory_signal_storage_def mem_removePreKey_def mem_isTrustedIdentity_def emitPreKeyRemoved_def Let_def split: option.split)
qed

interpretation mem_group: group_store memory_sender_key_store "mem_good p" for p
proof
  note mgs = memory_sender_key_store_def
  fix s :: memory_storage and name name' r
  show "\<exists>r. loadSenderKey memory_sender_key_store name s = Inr r" if "mem_good p s"
    using mem_goodD [OF that] by (simp add: mgs mem_load_sender_get)
  show "sender_record_wf r" if "mem_good p s" "loadSenderKey memory_sender_key_store name s = Inr (Some r)"
    using mem_goodD [OF that(1)] that(2) by (auto simp: mgs mem_load_sender_get mem_ok_def dest!: obj_get_Some_in)
  show "mem_good p (snd (storeSenderKey memory_sender_key_store name r s))" if "mem_good p s" "sender_record_wf r"
    using mem_goodI [OF that(1) mem_storeSenderKey_ok [OF mem_goodD [OF that(1)] that(2)]] by (simp add: mgs mem_storeSenderKey_def)
  show "fst (storeSenderKey memory_sender_key_store name r s) = Inr ()" by (simp add: mgs mem_storeSenderKey_def)
  show "loadSenderKey memory_sender_key_store name' (snd (storeSenderKey memory_sender_key_store name r s)) =
      (if SenderKeyName_serialize name' = SenderKeyName_serialize name then Inr (Some r) else loadSenderKey memory_sender_key_store name' s)"
    if "mem_good p s" "sender_record_wf r"
    using mem_load_sender_get [OF mem_storeSenderKey_ok [OF mem_goodD [OF that(1)] that(2)]] mem_goodD [OF that(1)] mem_load_sender_get
    by (simp add: mgs mem_storeSenderKey_def obj_get_set)
qed

end
