(* ===== verification/PreKey_Pool.thy ===== *)
theory PreKey_Pool
  imports Signal_Storage Key_Helper
begin

text \<open>
  \<open>src/prekey-pool.ts\<close>: the manager that keeps enough prekeys in a storage, rotates the signed
  prekey and builds the bundles that are published. The storage is the record \<open>pool_storage\<close>, with
  \<open>option\<close> for the methods of the interface that are optional. An operation runs without another
  one in between; for the two operations that join one already under way, \<open>inflight\<close> is the outcome
  of that one. \<open>pe_keys r i\<close> is the \<open>i\<close>-th key pair of the \<open>r\<close>-th batch an operation generates.
\<close>

section \<open>Interface and options\<close>

record 's pool_storage =
  ps_storePreKey :: "nat \<Rightarrow> key_pair \<Rightarrow> ('s, unit) op"
  ps_getPreKeyCount :: "'s \<Rightarrow> error + nat"
  ps_getNextPreKeyId :: "'s \<Rightarrow> error + nat"
  ps_setNextPreKeyId :: "nat \<Rightarrow> ('s, unit) op"
  ps_storeSignedPreKey :: "signed_pre_key \<Rightarrow> ('s, unit) op"
  ps_loadLatestSignedPreKey :: "'s \<Rightarrow> error + signed_pre_key option"
  ps_loadPreKey :: "(nat \<Rightarrow> 's \<Rightarrow> error + key_pair option) option"
  ps_listPreKeyIds :: "('s \<Rightarrow> error + nat list) option"
  ps_getOurRegistrationId :: "('s \<Rightarrow> error + nat) option"
  ps_getAvailablePreKeyCount :: "('s \<Rightarrow> error + nat) option"
  ps_listAvailablePreKeyIds :: "('s \<Rightarrow> error + nat list) option"
  ps_reservePreKey :: "(nat \<Rightarrow> ('s, bool) op) option"
  ps_releasePreKey :: "(nat \<Rightarrow> ('s, bool) op) option"

definition DEFAULT_MIN_COUNT :: int where "DEFAULT_MIN_COUNT = 20"
definition DEFAULT_REPLENISH_COUNT :: int where "DEFAULT_REPLENISH_COUNT = 100"

record 's pre_key_pool =
  pp_storage :: "'s pool_storage"
  pp_identityKeyPair :: key_pair
  pp_minCount :: int
  pp_replenishCount :: int
  pp_signedPreKeyMaxAgeMs :: int

definition new_PreKeyPoolManager ::
  "'s pool_storage \<Rightarrow> key_pair \<Rightarrow> int option \<Rightarrow> int option \<Rightarrow> int option \<Rightarrow> 's pre_key_pool" where
  "new_PreKeyPoolManager S identity mn rc age =
     \<lparr>pp_storage = S, pp_identityKeyPair = identity,
      pp_minCount = (case mn of None \<Rightarrow> DEFAULT_MIN_COUNT | Some n \<Rightarrow> n),
      pp_replenishCount = (case rc of None \<Rightarrow> DEFAULT_REPLENISH_COUNT | Some n \<Rightarrow> n),
      pp_signedPreKeyMaxAgeMs = (case age of None \<Rightarrow> DEFAULT_SIGNED_PRE_KEY_MAX_AGE_MS | Some a \<Rightarrow> a)\<rparr>"

record pool_env =
  pe_prims :: prims
  pe_now :: int
  pe_keys :: "nat \<Rightarrow> nat \<Rightarrow> key_pair"
  pe_signedKey :: key_pair

section \<open>Replenishing\<close>

fun store_all :: "'s pool_storage \<Rightarrow> pre_key list \<Rightarrow> ('s, unit) op" where
  "store_all S [] = sret ()"
| "store_all S (k # ks) = sbind (ps_storePreKey S (prk_id k) (prk_keyPair k)) (\<lambda>_. store_all S ks)"

definition replenish_run :: "pool_env \<Rightarrow> 's pre_key_pool \<Rightarrow> nat \<Rightarrow> int \<Rightarrow> ('s, pre_key list) op" where
  "replenish_run E pool r count =
     (let S = pp_storage pool in
      sbind (sread (ps_getNextPreKeyId S)) (\<lambda>startId.
      sbind (ps_setNextPreKeyId S (nat (wrapPreKeyId (int startId + count)))) (\<lambda>_.
      sbind (slift (generatePreKeysBatch (pe_keys E r) (int startId) count)) (\<lambda>generated.
      sbind (store_all S generated) (\<lambda>_. sret generated)))))"

definition replenishPreKeys ::
  "pool_env \<Rightarrow> 's pre_key_pool \<Rightarrow> nat \<Rightarrow> (error + pre_key list) option \<Rightarrow> int option \<Rightarrow> ('s, pre_key list) op" where
  "replenishPreKeys E pool r inflight count =
     (case inflight of
        Some outcome \<Rightarrow> slift outcome
      | None \<Rightarrow> replenish_run E pool r (case count of None \<Rightarrow> pp_replenishCount pool | Some c \<Rightarrow> c))"

definition ensurePreKeys :: "pool_env \<Rightarrow> 's pre_key_pool \<Rightarrow> nat \<Rightarrow> ('s, unit) op" where
  "ensurePreKeys E pool r =
     (let S = pp_storage pool in
      sbind (sread (case ps_getAvailablePreKeyCount S of Some f \<Rightarrow> f | None \<Rightarrow> ps_getPreKeyCount S)) (\<lambda>count.
        if int count \<ge> pp_minCount pool then sret ()
        else sbind (replenishPreKeys E pool r None None) (\<lambda>_. sret ())))"

section \<open>The signed prekey\<close>

definition rotate_run :: "pool_env \<Rightarrow> 's pre_key_pool \<Rightarrow> int \<Rightarrow> ('s, signed_pre_key) op" where
  "rotate_run E pool keyId =
     sbind (slift (generateSignedPreKeyAsync (pe_prims E) (pe_now E) (pe_signedKey E) (pp_identityKeyPair pool) keyId)) (\<lambda>r.
     sbind (ps_storeSignedPreKey (pp_storage pool) r) (\<lambda>_. sret r))"

definition rotateSignedPreKey ::
  "pool_env \<Rightarrow> 's pre_key_pool \<Rightarrow> (error + signed_pre_key) option \<Rightarrow> int \<Rightarrow> ('s, signed_pre_key) op" where
  "rotateSignedPreKey E pool inflight keyId =
     (case inflight of Some outcome \<Rightarrow> slift outcome | None \<Rightarrow> rotate_run E pool keyId)"

definition ensureSignedPreKey :: "pool_env \<Rightarrow> 's pre_key_pool \<Rightarrow> ('s, signed_pre_key) op" where
  "ensureSignedPreKey E pool =
     sbind (sread (ps_loadLatestSignedPreKey (pp_storage pool))) (\<lambda>latest.
       case latest of
         None \<Rightarrow> rotateSignedPreKey E pool None 1
       | Some l \<Rightarrow>
           sbind (slift (shouldRotateSignedPreKey (pe_now E) (spk_createdAt l) (pp_signedPreKeyMaxAgeMs pool))) (\<lambda>due.
             if \<not> due then sret l
             else rotateSignedPreKey E pool None (wrapPreKeyId (int (spk_id l) + 1))))"

section \<open>Bundles\<close>

record bundle_options =
  bo_registrationId :: "nat option"
  bo_preKeyId :: "nat option"
  bo_reserve :: "bool option"

definition buildBundle ::
  "'s pre_key_pool \<Rightarrow> (nat \<Rightarrow> 's \<Rightarrow> error + key_pair option) \<Rightarrow> nat \<Rightarrow> signed_pre_key \<Rightarrow> nat \<Rightarrow> ('s, device_key_bundle) op" where
  "buildBundle pool load preKeyId signedPreKey registrationId =
     sbind (sread (load preKeyId)) (\<lambda>found.
       case found of
         None \<Rightarrow> slift (Inl (Error ''No prekey found''))
       | Some preKeyPair \<Rightarrow>
           let bundle = \<lparr>b_registrationId = registrationId, b_identityKey = pubKey (pp_identityKeyPair pool),
                 b_signedPreKey = \<lparr>spk_keyId = spk_id signedPreKey, spk_publicKey = pubKey (spk_keyPair signedPreKey),
                                   spk_signature = spk_sig signedPreKey\<rparr>,
                 b_preKey = Some \<lparr>prk_keyId = preKeyId, prk_publicKey = pubKey preKeyPair\<rparr>\<rparr>
           in sbind (slift (assertValidDeviceKeyBundle (js_of_bundle bundle))) (\<lambda>_. sret bundle))"

definition listCandidatePreKeyIds :: "'s pre_key_pool \<Rightarrow> bool \<Rightarrow> ('s, nat list) op" where
  "listCandidatePreKeyIds pool availableOnly =
     (let S = pp_storage pool;
          source = (if availableOnly \<and> ps_listAvailablePreKeyIds S \<noteq> None then ps_listAvailablePreKeyIds S
                    else ps_listPreKeyIds S)
      in case source of
           None \<Rightarrow> slift (Inl (Error ''No prekeys available to create a bundle''))
         | Some f \<Rightarrow> sbind (sread f) (\<lambda>ids. sret (sort ids)))"

text \<open>One round over the candidates; \<open>attempted\<close> are the ids that were tried before.\<close>

fun try_candidates ::
  "'s pre_key_pool \<Rightarrow> (nat \<Rightarrow> 's \<Rightarrow> error + key_pair option) \<Rightarrow> (nat \<Rightarrow> ('s, bool) op) option \<Rightarrow>
   signed_pre_key \<Rightarrow> nat \<Rightarrow> nat list \<Rightarrow> nat list \<Rightarrow> ('s, device_key_bundle option \<times> nat list) op" where
  "try_candidates pool load reserve spk rid [] attempted = sret (None, attempted)"
| "try_candidates pool load reserve spk rid (i # ids) attempted =
     (if i \<in> set attempted then try_candidates pool load reserve spk rid ids attempted
      else
        sbind (buildBundle pool load i spk rid) (\<lambda>bundle.
          case reserve of
            None \<Rightarrow> sret (Some bundle, i # attempted)
          | Some f \<Rightarrow> sbind (f i) (\<lambda>ok.
              if ok then sret (Some bundle, i # attempted)
              else try_candidates pool load reserve spk rid ids (i # attempted))))"

definition createBundle :: "pool_env \<Rightarrow> 's pre_key_pool \<Rightarrow> bundle_options \<Rightarrow> ('s, device_key_bundle) op" where
  "createBundle E pool opts =
     (let S = pp_storage pool in
      sbind (ensurePreKeys E pool 0) (\<lambda>_.
      case ps_loadPreKey S of
        None \<Rightarrow> slift (Inl (Error ''PreKeyPoolStorage must implement loadPreKey() to create bundles''))
      | Some load \<Rightarrow>
          sbind (ensureSignedPreKey E pool) (\<lambda>signedPreKey.
          sbind (case bo_registrationId opts of
                   Some r \<Rightarrow> sret (Some r)
                 | None \<Rightarrow> (case ps_getOurRegistrationId S of
                              None \<Rightarrow> sret None
                            | Some f \<Rightarrow> sbind (sread f) (\<lambda>r. sret (Some r)))) (\<lambda>rid.
          case rid of
            None \<Rightarrow> slift (Inl (Error ''registrationId is required to create a bundle''))
          | Some registrationId \<Rightarrow>
              let reserve = (if bo_reserve opts \<noteq> Some False then ps_reservePreKey S else None) in
              (case bo_preKeyId opts of
                 Some preKeyId \<Rightarrow>
                   sbind (buildBundle pool load preKeyId signedPreKey registrationId) (\<lambda>bundle.
                     case reserve of
                       None \<Rightarrow> sret bundle
                     | Some f \<Rightarrow> sbind (f preKeyId) (\<lambda>ok.
                         if ok then sret bundle else slift (Inl (Error ''Prekey has already been published''))))
               | None \<Rightarrow>
                   sbind (listCandidatePreKeyIds pool (reserve \<noteq> None)) (\<lambda>ids.
                   sbind (try_candidates pool load reserve signedPreKey registrationId ids []) (\<lambda>(found, attempted).
                   case found of
                     Some bundle \<Rightarrow> sret bundle
                   | None \<Rightarrow>
                       sbind (replenishPreKeys E pool 1 None None) (\<lambda>_.
                       sbind (listCandidatePreKeyIds pool (reserve \<noteq> None)) (\<lambda>ids'.
                       sbind (try_candidates pool load reserve signedPreKey registrationId ids' attempted) (\<lambda>(found', _).
                       case found' of
                         Some bundle \<Rightarrow> sret bundle
                       | None \<Rightarrow> slift (Inl (Error ''No available prekeys to create a bundle'')))))))))))) "

definition pool_releasePreKey :: "'s pre_key_pool \<Rightarrow> nat \<Rightarrow> ('s, bool) op" where
  "pool_releasePreKey pool i =
     (case ps_releasePreKey (pp_storage pool) of
        None \<Rightarrow> slift (Inl (Error ''PreKeyPoolStorage must implement releasePreKey() to release published prekeys''))
      | Some f \<Rightarrow> f i)"

section \<open>Status\<close>

record pool_status =
  st_preKeyCount :: nat
  st_availablePreKeyCount :: "nat option"
  st_publishedPreKeyCount :: "nat option"
  st_nextPreKeyId :: nat
  st_signedPreKeyId :: "nat option"
  st_signedPreKeyAgeMs :: "int option"

definition getStatus :: "pool_env \<Rightarrow> 's pre_key_pool \<Rightarrow> ('s, pool_status) op" where
  "getStatus E pool =
     (let S = pp_storage pool in
      sbind (sread (ps_getPreKeyCount S)) (\<lambda>count.
      sbind (case ps_getAvailablePreKeyCount S of
               None \<Rightarrow> sret None | Some f \<Rightarrow> sbind (sread f) (\<lambda>n. sret (Some n))) (\<lambda>available.
      sbind (sread (ps_getNextPreKeyId S)) (\<lambda>nextId.
      sbind (sread (ps_loadLatestSignedPreKey S)) (\<lambda>latest.
        sret \<lparr>st_preKeyCount = count, st_availablePreKeyCount = available,
              st_publishedPreKeyCount = map_option (\<lambda>a. nat (max 0 (int count - int a))) available,
              st_nextPreKeyId = nextId, st_signedPreKeyId = map_option spk_id latest,
              st_signedPreKeyAgeMs = map_option (\<lambda>l. pe_now E - spk_createdAt l) latest\<rparr>)))))"

section \<open>Automatic maintenance\<close>

text \<open>
  \<open>startAutoMaintenance\<close> runs both \<open>ensure\<close> operations at once and then at every tick of a timer, and
  replenishes when the storage reports a consumed prekey; the caught errors only reach the logger.
  The timer and the subscription are the state of one call, the function it returns ends both.
\<close>

record maintenance =
  mt_timer :: bool
  mt_subscribed :: bool

datatype maintenance_event = Timer_Tick | PreKey_Removed

definition caught :: "('s, 'a) op \<Rightarrow> 's \<Rightarrow> 's" where
  "caught f s = snd (f s)"

definition maintenance_run :: "pool_env \<Rightarrow> 's pre_key_pool \<Rightarrow> nat \<Rightarrow> 's \<Rightarrow> 's" where
  "maintenance_run E pool r s = caught (ensureSignedPreKey E pool) (caught (ensurePreKeys E pool r) s)"

definition startAutoMaintenance :: "pool_env \<Rightarrow> 's pre_key_pool \<Rightarrow> nat \<Rightarrow> bool \<Rightarrow> 's \<Rightarrow> maintenance \<times> 's" where
  "startAutoMaintenance E pool r hasOnPreKeyRemoved s =
     (\<lparr>mt_timer = True, mt_subscribed = hasOnPreKeyRemoved\<rparr>, maintenance_run E pool r s)"

definition maintenance_event :: "pool_env \<Rightarrow> 's pre_key_pool \<Rightarrow> nat \<Rightarrow> maintenance_event \<Rightarrow> maintenance \<Rightarrow> 's \<Rightarrow> 's" where
  "maintenance_event E pool r ev m s =
     (case ev of
        Timer_Tick \<Rightarrow> if mt_timer m then maintenance_run E pool r s else s
      | PreKey_Removed \<Rightarrow> if mt_subscribed m then caught (ensurePreKeys E pool r) s else s)"

definition stopAutoMaintenance :: "maintenance \<Rightarrow> maintenance" where
  "stopAutoMaintenance m = m\<lparr>mt_timer := False, mt_subscribed := False\<rparr>"

end
