(* ===== verification/Pool_Contract.thy ===== *)
theory Pool_Contract
  imports PreKey_Pool
begin

text \<open>
  What the prekey pool needs of its storage: an abstract state of prekeys, published ids, next id and
  signed prekey, which every method changes as specified (the locale \<open>pool_store\<close>). Over it, what
  \<open>replenishPreKeys\<close>, \<open>ensureSignedPreKey\<close> and \<open>createBundle\<close> do.
\<close>

section \<open>The abstract state\<close>

record pool_view =
  pv_keys :: "nat \<Rightarrow> key_pair option"
  pv_published :: "nat set"
  pv_next :: nat
  pv_latest :: "signed_pre_key option"
  pv_registrationId :: nat

definition available :: "pool_view \<Rightarrow> nat set" where
  "available v = dom (pv_keys v) - pv_published v"

text \<open>All a bundle needs of the state: keys of the right length, ids in range, a signature that verifies.\<close>

definition view_ok :: "prims \<Rightarrow> key_pair \<Rightarrow> pool_view \<Rightarrow> bool" where
  "view_ok P identity v \<longleftrightarrow>
     (\<forall>i kp. pv_keys v i = Some kp \<longrightarrow> length (pubKey kp) = 33 \<and> i \<le> 0xffffff) \<and>
     1 \<le> pv_registrationId v \<and> pv_registrationId v \<le> 0x3fff \<and>
     (\<forall>l. pv_latest v = Some l \<longrightarrow> spk_id l \<le> 0xffffff \<and> length (pubKey (spk_keyPair l)) = 33 \<and> length (spk_sig l) = 64 \<and>
        0 \<le> spk_createdAt l \<and> verifySignature P (pubKey identity) (pubKey (spk_keyPair l)) (spk_sig l) = Inr True)"

definition pool_env_ok :: "pool_env \<Rightarrow> 's pre_key_pool \<Rightarrow> bool" where
  "pool_env_ok E pool \<longleftrightarrow> dh_ok (pe_prims E) \<and> sign_ok (pe_prims E) \<and> 0 \<le> pe_now E \<and>
     is_key_pair (pe_prims E) (pp_identityKeyPair pool) \<and> is_key_pair (pe_prims E) (pe_signedKey E) \<and>
     (\<forall>r i. is_key_pair (pe_prims E) (pe_keys E r i)) \<and> 0 \<le> pp_signedPreKeyMaxAgeMs pool"

text \<open>The ids of a batch of \<open>c\<close> prekeys that starts at \<open>n\<close>.\<close>

definition batch_ids :: "nat \<Rightarrow> nat \<Rightarrow> nat set" where
  "batch_ids n c = (\<lambda>i. nat (wrapPreKeyId (int n + int i))) ` {..<c}"

definition add_keys :: "pre_key list \<Rightarrow> pool_view \<Rightarrow> pool_view" where
  "add_keys ks v = v\<lparr>pv_keys := pv_keys v ++ map_of (rev (map (\<lambda>k. (prk_id k, prk_keyPair k)) ks))\<rparr>"

section \<open>The contract\<close>

locale pool_store =
  fixes S :: "'s pool_storage" and good :: "'s \<Rightarrow> bool" and view :: "'s \<Rightarrow> pool_view"
    and load :: "nat \<Rightarrow> 's \<Rightarrow> error + key_pair option" and list_available :: "'s \<Rightarrow> error + nat list"
    and count_available :: "'s \<Rightarrow> error + nat" and reserve :: "nat \<Rightarrow> ('s, bool) op" and release :: "nat \<Rightarrow> ('s, bool) op"
  assumes optional: "ps_loadPreKey S = Some load" "ps_listAvailablePreKeyIds S = Some list_available"
      "ps_getAvailablePreKeyCount S = Some count_available" "ps_reservePreKey S = Some reserve" "ps_releasePreKey S = Some release"
    and rid: "good s \<Longrightarrow> \<exists>f. ps_getOurRegistrationId S = Some f \<and> f s = Inr (pv_registrationId (view s))"
    and store_prekey: "good s \<Longrightarrow> \<exists>s'. ps_storePreKey S i kp s = (Inr (), s') \<and> good s' \<and>
      view s' = (view s)\<lparr>pv_keys := (pv_keys (view s))(i \<mapsto> kp)\<rparr>"
    and next_id: "good s \<Longrightarrow> ps_getNextPreKeyId S s = Inr (pv_next (view s))"
    and set_next: "good s \<Longrightarrow> \<exists>s'. ps_setNextPreKeyId S n s = (Inr (), s') \<and> good s' \<and> view s' = (view s)\<lparr>pv_next := n\<rparr>"
    and latest: "good s \<Longrightarrow> ps_loadLatestSignedPreKey S s = Inr (pv_latest (view s))"
    and store_signed: "good s \<Longrightarrow> \<exists>s'. ps_storeSignedPreKey S l s = (Inr (), s') \<and> good s' \<and> view s' = (view s)\<lparr>pv_latest := Some l\<rparr>"
    and load: "good s \<Longrightarrow> load i s = Inr (pv_keys (view s) i)"
    and list_available: "good s \<Longrightarrow> \<exists>is. list_available s = Inr is \<and> distinct is \<and> set is = available (view s)"
    and count_available: "good s \<Longrightarrow> count_available s = Inr (card (available (view s)))"
    and reserve: "good s \<Longrightarrow> \<exists>s'. reserve i s = (Inr (i \<in> available (view s)), s') \<and> good s' \<and>
      view s' = (if i \<in> available (view s) then (view s)\<lparr>pv_published := insert i (pv_published (view s))\<rparr> else view s)"
    and release: "good s \<Longrightarrow> \<exists>s'. release i s = (Inr (i \<in> pv_published (view s)), s') \<and> good s' \<and>
      view s' = (view s)\<lparr>pv_published := pv_published (view s) - {i}\<rparr>"

section \<open>Facts about views\<close>

lemma add_keys_Cons: "add_keys ks (v\<lparr>pv_keys := (pv_keys v)(prk_id k \<mapsto> prk_keyPair k)\<rparr>) = add_keys (k # ks) v"
  by (simp add: add_keys_def map_add_def fun_eq_iff split: option.split)

lemma generated_batch:
  assumes "0 < c"
  obtains ks where "generatePreKeysBatch keys (int n) (int c) = Inr ks" "prk_id ` set ks = batch_ids n c"
    "\<forall>k\<in>set ks. \<exists>i. prk_keyPair k = keys i"
proof -
  let ?ks = "map (\<lambda>i. \<lparr>prk_id = nat (wrapPreKeyId (int n + int i)), prk_keyPair = keys i\<rparr>) [0..<c]"
  have "generatePreKeysBatch keys (int n) (int c) = Inr ?ks"
    using assms by (simp add: generatePreKeysBatch_def batch_check_def kh_isNonNegativeInteger_def)
  moreover have "prk_id ` set ?ks = batch_ids n c" by (simp add: batch_ids_def image_image atLeast0LessThan)
  ultimately show thesis by (rule that) auto
qed

lemma batch_ids_le: "i \<in> batch_ids n c \<Longrightarrow> i \<le> 0xffffff"
  using wrapPreKeyId_range(2) by (auto simp: batch_ids_def MAX_KEY_ID_def nat_le_iff)

lemma add_keys_dom: "dom (pv_keys (add_keys ks v)) = dom (pv_keys v) \<union> prk_id ` set ks"
  by (auto simp: add_keys_def dom_map_of_conv_image_fst image_image)

lemma add_keys_rest [simp]: "pv_published (add_keys ks v) = pv_published v" "pv_next (add_keys ks v) = pv_next v"
  "pv_latest (add_keys ks v) = pv_latest v" "pv_registrationId (add_keys ks v) = pv_registrationId v"
  by (simp_all add: add_keys_def)

lemma add_keys_ok:
  assumes "view_ok P identity v" "\<forall>k\<in>set ks. length (pubKey (prk_keyPair k)) = 33 \<and> prk_id k \<le> 0xffffff"
  shows "view_ok P identity (add_keys ks v)"
proof -
  have "length (pubKey kp) = 33 \<and> i \<le> 0xffffff" if "pv_keys (add_keys ks v) i = Some kp" for i kp
  proof (cases "map_of (rev (map (\<lambda>k. (prk_id k, prk_keyPair k)) ks)) i")
    case None
    then show ?thesis using that assms(1) by (simp add: add_keys_def view_ok_def map_add_def)
  next
    case (Some kp')
    from map_of_SomeD [OF Some] assms(2) that Some show ?thesis by (auto simp: add_keys_def)
  qed
  then show ?thesis using assms(1) by (simp add: view_ok_def)
qed

lemma publish_ok: "view_ok P identity (v\<lparr>pv_published := p\<rparr>) = view_ok P identity v"
  "view_ok P identity (v\<lparr>pv_next := n\<rparr>) = view_ok P identity v"
  by (simp_all add: view_ok_def)

section \<open>The manager\<close>

context pool_store
begin

lemma store_all_spec: "good s \<Longrightarrow> \<exists>s'. store_all S ks s = (Inr (), s') \<and> good s' \<and> view s' = add_keys ks (view s)"
proof (induction ks arbitrary: s)
  case Nil
  then show ?case by (simp add: sret_def add_keys_def)
next
  case (Cons k ks)
  from store_prekey [OF Cons.prems] obtain s1 where s1: "ps_storePreKey S (prk_id k) (prk_keyPair k) s = (Inr (), s1)" "good s1"
    "view s1 = (view s)\<lparr>pv_keys := (pv_keys (view s))(prk_id k \<mapsto> prk_keyPair k)\<rparr>" by blast
  from Cons.IH [OF s1(2)] s1 show ?case by (auto simp: sbind_def add_keys_Cons)
qed

text \<open>Replenishing reserves the ids of the batch and then stores its keys.\<close>

lemma replenish_spec:
  assumes "good s" "pp_storage pool = S" "0 < c" "pool_env_ok E pool" "view_ok P identity (view s)"
  obtains ks s' where "replenish_run E pool r (int c) s = (Inr ks, s')" "good s'"
    "prk_id ` set ks = batch_ids (pv_next (view s)) c"
    "view s' = add_keys ks ((view s)\<lparr>pv_next := nat (wrapPreKeyId (int (pv_next (view s)) + int c))\<rparr>)"
    "view_ok P identity (view s')"
proof -
  let ?n = "pv_next (view s)"
  from set_next [OF assms(1)] obtain s1 where s1: "ps_setNextPreKeyId S (nat (wrapPreKeyId (int ?n + int c))) s = (Inr (), s1)"
    "good s1" "view s1 = (view s)\<lparr>pv_next := nat (wrapPreKeyId (int ?n + int c))\<rparr>" by blast
  from generated_batch [OF assms(3)] obtain ks where ks: "generatePreKeysBatch (pe_keys E r) (int ?n) (int c) = Inr ks"
    "prk_id ` set ks = batch_ids ?n c" "\<forall>k\<in>set ks. \<exists>i. prk_keyPair k = pe_keys E r i" .
  from store_all_spec [OF s1(2)] obtain s2 where s2: "store_all S ks s1 = (Inr (), s2)" "good s2" "view s2 = add_keys ks (view s1)" by blast
  have "length (pubKey (prk_keyPair k)) = 33 \<and> prk_id k \<le> 0xffffff" if "k \<in> set ks" for k
  proof
    show "length (pubKey (prk_keyPair k)) = 33"
      using ks(3) that is_key_pair_lengths(2) assms(4) unfolding pool_env_ok_def by metis
    show "prk_id k \<le> 0xffffff" using ks(2) that batch_ids_le by blast
  qed
  then have "view_ok P identity (view s2)" using assms(5) by (simp add: s2(3) s1(3) add_keys_ok publish_ok)
  moreover have "replenish_run E pool r (int c) s = (Inr ks, s2)"
    using assms(2) s1(1) ks(1) s2(1) next_id [OF assms(1)]
    by (simp add: replenish_run_def sbind_def sread_def slift_def sret_def)
  ultimately show thesis using s1(3) s2(2,3) ks(2) that by simp
qed

text \<open>After \<open>ensurePreKeys\<close> there is a prekey to publish.\<close>

lemma ensurePreKeys_spec:
  assumes "good s" "pp_storage pool = S" "pool_env_ok E pool" "view_ok P identity (view s)"
    "0 < pp_minCount pool" "0 < pp_replenishCount pool"
    "batch_ids (pv_next (view s)) (nat (pp_replenishCount pool)) \<inter> pv_published (view s) = {}"
  obtains s' where "ensurePreKeys E pool r s = (Inr (), s')" "good s'" "view_ok P identity (view s')"
    "available (view s') \<noteq> {}" "pv_published (view s') = pv_published (view s)" "pv_latest (view s') = pv_latest (view s)"
proof (cases "int (card (available (view s))) \<ge> pp_minCount pool")
  case True
  then have "ensurePreKeys E pool r s = (Inr (), s)"
    using assms(2) optional(3) count_available [OF assms(1)]
    by (simp add: ensurePreKeys_def sbind_def sread_def sret_def)
  moreover have "available (view s) \<noteq> {}" using True assms(5) by auto
  ultimately show thesis using assms(1,4) by (intro that) simp_all
next
  case False
  define c where "c = nat (pp_replenishCount pool)"
  have c: "0 < c" "int c = pp_replenishCount pool" using assms(6) by (simp_all add: c_def)
  from replenish_spec [OF assms(1,2) c(1) assms(3,4)] obtain ks s' where
    ks: "replenish_run E pool r (int c) s = (Inr ks, s')" "good s'" "prk_id ` set ks = batch_ids (pv_next (view s)) c"
      "view s' = add_keys ks ((view s)\<lparr>pv_next := nat (wrapPreKeyId (int (pv_next (view s)) + int c))\<rparr>)"
      "view_ok P identity (view s')" by metis
  have "batch_ids (pv_next (view s)) c \<noteq> {}" using c(1) by (auto simp: batch_ids_def)
  then have "available (view s') \<noteq> {}"
    using assms(7) ks(3) by (auto simp: available_def ks(4) add_keys_dom c_def)
  moreover have "ensurePreKeys E pool r s = (Inr (), s')"
    using False assms(2) optional(3) count_available [OF assms(1)] ks(1)
    by (simp add: ensurePreKeys_def sbind_def sread_def sret_def replenishPreKeys_def c(2))
  ultimately show thesis using ks by (intro that [of s']) simp_all
qed

text \<open>The signed prekey that is in use afterwards verifies under the identity key.\<close>

lemma ensureSignedPreKey_spec:
  assumes "good s" "pp_storage pool = S" "pool_env_ok E pool" "view_ok (pe_prims E) (pp_identityKeyPair pool) (view s)"
  obtains l s' where "ensureSignedPreKey E pool s = (Inr l, s')" "good s'" "view s' = (view s)\<lparr>pv_latest := Some l\<rparr>"
    "view_ok (pe_prims E) (pp_identityKeyPair pool) (view s')"
proof -
  let ?P = "pe_prims E" and ?id = "pp_identityKeyPair pool"
  have env: "dh_ok ?P" "sign_ok ?P" "is_key_pair ?P ?id" "is_key_pair ?P (pe_signedKey E)" "0 \<le> pe_now E" "0 \<le> pp_signedPreKeyMaxAgeMs pool"
    using assms(3) by (simp_all add: pool_env_ok_def)
  note len = is_key_pair_lengths [OF env(1)]
  have rotate: "\<exists>l s'. rotate_run E pool n s = (Inr l, s') \<and> good s' \<and> view s' = (view s)\<lparr>pv_latest := Some l\<rparr> \<and> view_ok ?P ?id (view s')"
    if n: "0 \<le> n" "n \<le> 0xffffff" for n
  proof -
    from sign_total [OF env(2) len(1) [OF env(3)]] obtain sig
      where sig: "calculateSignature ?P (privKey ?id) (pubKey (pe_signedKey E)) = Inr sig" "length sig = 64" .
    define l where "l = \<lparr>spk_id = nat n, spk_keyPair = pe_signedKey E, spk_sig = sig, spk_createdAt = pe_now E\<rparr>"
    have gen: "generateSignedPreKeyAsync ?P (pe_now E) (pe_signedKey E) ?id n = Inr l"
      using sig(1) len env(3) n by (simp add: generateSignedPreKeyAsync_def identity_lengths_def kh_isNonNegativeInteger_def l_def)
    from store_signed [OF assms(1), of l] obtain s' where s': "ps_storeSignedPreKey S l s = (Inr (), s')" "good s'"
      "view s' = (view s)\<lparr>pv_latest := Some l\<rparr>" by blast
    have "view_ok ?P ?id (view s')"
      using assms(4) n sig(2) len(2) [OF env(4)] env(5) signature_verifies [OF env(1,2,3) sig(1)]
      by (simp add: s'(3) view_ok_def l_def nat_le_iff)
    then show ?thesis
      using s' gen assms(2) by (auto simp: rotate_run_def sbind_def slift_def sret_def)
  qed
  show thesis
  proof (cases "pv_latest (view s)")
    case None
    then show thesis
      using rotate [of 1] latest [OF assms(1)] assms(2) that
      by (auto simp: ensureSignedPreKey_def sbind_def sread_def rotateSignedPreKey_def)
  next
    case (Some l)
    then have "0 \<le> spk_createdAt l" using assms(4) by (simp add: view_ok_def)
    then have due: "shouldRotateSignedPreKey (pe_now E) (spk_createdAt l) (pp_signedPreKeyMaxAgeMs pool) =
        Inr (pe_now E - spk_createdAt l \<ge> pp_signedPreKeyMaxAgeMs pool)"
      using env(6) by (simp add: shouldRotateSignedPreKey_def kh_isNonNegativeInteger_def)
    show thesis
    proof (cases "pe_now E - spk_createdAt l \<ge> pp_signedPreKeyMaxAgeMs pool")
      case True
      have "0 \<le> wrapPreKeyId (int (spk_id l) + 1)" "wrapPreKeyId (int (spk_id l) + 1) \<le> 0xffffff"
        using wrapPreKeyId_range [of "int (spk_id l) + 1"] by (simp_all add: MAX_KEY_ID_def)
      from rotate [OF this] True due Some latest [OF assms(1)] assms(2) that show thesis
        by (auto simp: ensureSignedPreKey_def sbind_def sread_def slift_def rotateSignedPreKey_def)
    next
      case False
      then have "ensureSignedPreKey E pool s = (Inr l, s)"
        using due Some latest [OF assms(1)] assms(2)
        by (simp add: ensureSignedPreKey_def sbind_def sread_def slift_def sret_def)
      then show thesis using assms(1,4) Some that by simp
    qed
  qed
qed

text \<open>Building a bundle from an available prekey succeeds.\<close>

lemma buildBundle_spec:
  assumes "good s" "view_ok P (pp_identityKeyPair pool) (view s)" "pv_keys (view s) i = Some kp" "pv_latest (view s) = Some l"
    "length (pubKey (pp_identityKeyPair pool)) = 33"
  shows "buildBundle pool load i l (pv_registrationId (view s)) s =
    (Inr \<lparr>b_registrationId = pv_registrationId (view s), b_identityKey = pubKey (pp_identityKeyPair pool),
          b_signedPreKey = \<lparr>spk_keyId = spk_id l, spk_publicKey = pubKey (spk_keyPair l), spk_signature = spk_sig l\<rparr>,
          b_preKey = Some \<lparr>prk_keyId = i, prk_publicKey = pubKey kp\<rparr>\<rparr>, s)" (is "_ = (Inr ?b, s)")
proof -
  have "bundle_valid ?b" using assms(2-5) by (auto simp: bundle_valid_def view_ok_def)
  then have "assertValidDeviceKeyBundle (js_of_bundle ?b) = Inr ()" by (simp add: assert_bundle)
  then show ?thesis using load [OF assms(1), of i] assms(3) by (simp add: buildBundle_def sbind_def sread_def slift_def sret_def)
qed

theorem createBundle_spec:
  assumes "good s" "pp_storage pool = S" "pool_env_ok E pool" "view_ok (pe_prims E) (pp_identityKeyPair pool) (view s)"
    "0 < pp_minCount pool" "0 < pp_replenishCount pool"
    "batch_ids (pv_next (view s)) (nat (pp_replenishCount pool)) \<inter> pv_published (view s) = {}"
    "bo_registrationId opts = None" "bo_preKeyId opts = None" "bo_reserve opts \<noteq> Some False"
  obtains b s' i kp where "createBundle E pool opts s = (Inr b, s')" "good s'" "bundle_valid b"
    "b_identityKey b = pubKey (pp_identityKeyPair pool)" "b_preKey b = Some \<lparr>prk_keyId = i, prk_publicKey = pubKey kp\<rparr>"
    "verifySignature (pe_prims E) (b_identityKey b) (spk_publicKey (b_signedPreKey b)) (spk_signature (b_signedPreKey b)) = Inr True"
    "pv_keys (view s') i = Some kp" "i \<notin> pv_published (view s)" "pv_published (view s') = insert i (pv_published (view s))"
    "view_ok (pe_prims E) (pp_identityKeyPair pool) (view s')"
proof -
  let ?P = "pe_prims E" and ?id = "pp_identityKeyPair pool"
  have id33: "length (pubKey ?id) = 33" using assms(3) is_key_pair_lengths(2) unfolding pool_env_ok_def by blast
  from ensurePreKeys_spec [OF assms(1-7), of 0] obtain s1 where s1: "ensurePreKeys E pool 0 s = (Inr (), s1)" "good s1"
    "view_ok ?P ?id (view s1)" "available (view s1) \<noteq> {}" "pv_published (view s1) = pv_published (view s)" by metis
  from ensureSignedPreKey_spec [OF s1(2) assms(2,3) s1(3)] obtain l s2 where
    s2: "ensureSignedPreKey E pool s1 = (Inr l, s2)" "good s2" "view s2 = (view s1)\<lparr>pv_latest := Some l\<rparr>" "view_ok ?P ?id (view s2)" .
  from rid [OF s2(2)] obtain f where f: "ps_getOurRegistrationId S = Some f" "f s2 = Inr (pv_registrationId (view s2))" by blast
  from list_available [OF s2(2)] obtain ids where ids: "list_available s2 = Inr ids" "set ids = available (view s2)" by blast
  have avail: "available (view s2) = available (view s1)" by (simp add: available_def s2(3))
  then have "sort ids \<noteq> []" using s1(4) ids(2) by (metis set_empty set_sort)
  then obtain i rest where rest: "sort ids = i # rest" by (cases "sort ids") auto
  have "i \<in> set (sort ids)" by (simp add: rest)
  then have i: "i \<in> available (view s2)" using ids(2) by simp
  then obtain kp where kp: "pv_keys (view s2) i = Some kp" "i \<notin> pv_published (view s2)" by (auto simp: available_def)
  define b where "b = \<lparr>b_registrationId = pv_registrationId (view s2), b_identityKey = pubKey ?id,
          b_signedPreKey = \<lparr>spk_keyId = spk_id l, spk_publicKey = pubKey (spk_keyPair l), spk_signature = spk_sig l\<rparr>,
          b_preKey = Some \<lparr>prk_keyId = i, prk_publicKey = pubKey kp\<rparr>\<rparr>"
  have build: "buildBundle pool load i l (pv_registrationId (view s2)) s2 = (Inr b, s2)"
    unfolding b_def by (rule buildBundle_spec [OF s2(2,4) kp(1) _ id33]) (simp add: s2(3))
  from reserve [OF s2(2), of i] i obtain s3 where s3: "reserve i s2 = (Inr True, s3)" "good s3"
    "view s3 = (view s2)\<lparr>pv_published := insert i (pv_published (view s2))\<rparr>" by auto
  have cand: "listCandidatePreKeyIds pool True s2 = (Inr (i # rest), s2)"
    using optional(2) assms(2) ids(1) rest by (simp add: listCandidatePreKeyIds_def sbind_def sread_def sret_def)
  have try_first: "try_candidates pool load (Some reserve) l (pv_registrationId (view s2)) (i # rest) [] s2 = (Inr (Some b, [i]), s3)"
    using build s3(1) by (simp add: sbind_def sret_def)
  have "createBundle E pool opts s = (Inr b, s3)"
    using s1(1) s2(1) f cand try_first optional(1,4) assms(2,8-10)
    by (simp add: createBundle_def Let_def sbind_def sread_def sret_def del: try_candidates.simps)
  moreover have "bundle_valid b" using s2(3,4) kp(1) id33 by (auto simp: bundle_valid_def view_ok_def b_def)
  moreover have "view_ok ?P ?id (view s3)" using s2(4) by (simp add: s3(3) publish_ok)
  ultimately show thesis
    using s2(3,4) s3 kp s1(5) by (intro that [of b s3 i kp]) (simp_all add: b_def view_ok_def)
qed

text \<open>No operation of the manager leaves the contract, also when it throws.\<close>

lemma keeps_law: "(\<And>s. good s \<Longrightarrow> \<exists>s'. m s = (x s, s') \<and> good s' \<and> R s s') \<Longrightarrow> keeps good m (\<lambda>_. True)"
  unfolding keeps_def by (metis prod.inject)

lemma keeps_storage:
  "keeps good (ps_storePreKey S i kp) (\<lambda>_. True)" "keeps good (ps_setNextPreKeyId S n) (\<lambda>_. True)"
  "keeps good (ps_storeSignedPreKey S l) (\<lambda>_. True)" "keeps good (reserve i) (\<lambda>_. True)" "keeps good (release i) (\<lambda>_. True)"
  by (rule keeps_law, erule store_prekey set_next store_signed reserve release)+

lemma keeps_any_read: "keeps good (sread f) (\<lambda>_. True)"
  by (rule keeps_sread) simp

lemma store_all_good: "keeps good (store_all S ks) (\<lambda>_. True)"
  by (induction ks) (simp_all add: keeps_sret keeps_step keeps_storage)

lemma replenish_good: "pp_storage pool = S \<Longrightarrow> keeps good (replenishPreKeys E pool r inflight count) (\<lambda>_. True)"
  unfolding replenishPreKeys_def replenish_run_def Let_def
  by (intro keeps_option keeps_slift keeps_step keeps_any_read keeps_sret)
    (simp_all add: keeps_storage store_all_good)

lemma ensurePreKeys_good: "pp_storage pool = S \<Longrightarrow> keeps good (ensurePreKeys E pool r) (\<lambda>_. True)"
  unfolding ensurePreKeys_def Let_def
  by (intro keeps_step keeps_if keeps_any_read keeps_sret TrueI replenish_good)

lemma rotate_good: "pp_storage pool = S \<Longrightarrow> keeps good (rotateSignedPreKey E pool inflight n) (\<lambda>_. True)"
  unfolding rotateSignedPreKey_def rotate_run_def
  by (intro keeps_option keeps_slift keeps_step keeps_sret) (simp_all add: keeps_storage)

lemma ensureSignedPreKey_good: "pp_storage pool = S \<Longrightarrow> keeps good (ensureSignedPreKey E pool) (\<lambda>_. True)"
  unfolding ensureSignedPreKey_def
  by (intro keeps_step keeps_any_read keeps_option keeps_if keeps_slift keeps_sret TrueI rotate_good)

lemma release_good: "pp_storage pool = S \<Longrightarrow> keeps good (pool_releasePreKey pool i) (\<lambda>_. True)"
  by (simp add: pool_releasePreKey_def optional keeps_storage)

lemma buildBundle_good: "keeps good (buildBundle pool f i l n) (\<lambda>_. True)"
  unfolding buildBundle_def Let_def
  by (intro keeps_step keeps_any_read keeps_option keeps_slift keeps_sret TrueI)

lemma try_candidates_good:
  "keeps good (try_candidates pool f None l n ids att) (\<lambda>_. True)"
  "keeps good (try_candidates pool f (Some reserve) l n ids att) (\<lambda>_. True)"
proof (induction ids arbitrary: att)
  case (Cons i ids)
  {
    case 1
    show ?case unfolding try_candidates.simps option.case
      by (intro keeps_if Cons.IH keeps_step buildBundle_good keeps_sret TrueI)
  next
    case 2
    show ?case unfolding try_candidates.simps option.case
      by (intro keeps_if Cons.IH keeps_step buildBundle_good keeps_sret TrueI keeps_storage)
  }
qed (simp_all add: keeps_sret)

lemma candidates_good: "keeps good (listCandidatePreKeyIds pool b) (\<lambda>_. True)"
  unfolding listCandidatePreKeyIds_def Let_def
  by (intro keeps_option keeps_slift keeps_step keeps_any_read keeps_sret TrueI)

theorem createBundle_good:
  assumes "pp_storage pool = S"
  shows "keeps good (createBundle E pool opts) (\<lambda>_. True)"
proof -
  have res: "(if bo_reserve opts \<noteq> Some False then ps_reservePreKey S else None) = (if bo_reserve opts \<noteq> Some False then Some reserve else None)"
    by (simp add: optional)
  show ?thesis
    unfolding createBundle_def Let_def assms res
    apply (intro keeps_step keeps_option keeps_slift keeps_any_read keeps_sret TrueI ensurePreKeys_good ensureSignedPreKey_good
        replenish_good assms candidates_good try_candidates_good buildBundle_good keeps_if)
    apply (auto split: if_splits prod.split option.split
        intro!: keeps_storage keeps_step keeps_slift keeps_sret replenish_good assms candidates_good try_candidates_good)
    done
qed

text \<open>
  Automatic maintenance keeps the storage good whatever events come in whatever order, changes nothing
  once it is stopped, and after each of its runs there is a prekey to publish and a signed prekey that
  verifies.
\<close>

lemma caught_good: "keeps good f (\<lambda>_. True) \<Longrightarrow> good s \<Longrightarrow> good (caught f s)"
  by (metis caught_def keepsD prod.collapse)

lemma maintenance_good:
  assumes "pp_storage pool = S" "good s"
  shows "good (snd (startAutoMaintenance E pool r h s))" "good (maintenance_event E pool r ev m s)"
  using assms by (auto simp: startAutoMaintenance_def maintenance_event_def maintenance_run_def split: maintenance_event.split
      intro!: caught_good ensurePreKeys_good ensureSignedPreKey_good)

lemma maintenance_run_supplies:
  assumes "good s" "pp_storage pool = S" "pool_env_ok E pool" "view_ok (pe_prims E) (pp_identityKeyPair pool) (view s)"
    "0 < pp_minCount pool" "0 < pp_replenishCount pool"
    "batch_ids (pv_next (view s)) (nat (pp_replenishCount pool)) \<inter> pv_published (view s) = {}"
  shows "available (view (maintenance_run E pool r s)) \<noteq> {}" "pv_latest (view (maintenance_run E pool r s)) \<noteq> None"
    "view_ok (pe_prims E) (pp_identityKeyPair pool) (view (maintenance_run E pool r s))"
    "pv_published (view (maintenance_run E pool r s)) = pv_published (view s)"
proof -
  obtain s1 where s1: "ensurePreKeys E pool r s = (Inr (), s1)" "good s1" "view_ok (pe_prims E) (pp_identityKeyPair pool) (view s1)"
    "available (view s1) \<noteq> {}" "pv_published (view s1) = pv_published (view s)"
    using ensurePreKeys_spec [OF assms(1-7)] by metis
  obtain l s2 where s2: "ensureSignedPreKey E pool s1 = (Inr l, s2)" "view s2 = (view s1)\<lparr>pv_latest := Some l\<rparr>"
    "view_ok (pe_prims E) (pp_identityKeyPair pool) (view s2)"
    using ensureSignedPreKey_spec [OF s1(2) assms(2,3) s1(3)] by metis
  have "maintenance_run E pool r s = s2" by (simp add: maintenance_run_def caught_def s1(1) s2(1))
  then show "available (view (maintenance_run E pool r s)) \<noteq> {}" "pv_latest (view (maintenance_run E pool r s)) \<noteq> None"
    "view_ok (pe_prims E) (pp_identityKeyPair pool) (view (maintenance_run E pool r s))"
    "pv_published (view (maintenance_run E pool r s)) = pv_published (view s)"
    using s1 s2 by (simp_all add: available_def)
qed

end

lemma maintenance_stopped: "maintenance_event E pool r ev (stopAutoMaintenance m) s = s"
  by (cases ev) (simp_all add: maintenance_event_def stopAutoMaintenance_def)

end
