(* ===== verification/Memory_Pool.thy ===== *)
theory Memory_Pool
  imports Memory_Invariant Pool_Contract
begin

text \<open>
  The in-memory storage as a \<open>PreKeyPoolStorage\<close>: its abstract state and the interpretation of
  \<open>pool_store\<close>; every step of the storage, and the states that are reachable by them.
\<close>

section \<open>The pool interface\<close>

definition memory_pool_storage :: "int \<Rightarrow> memory_storage pool_storage" where
  "memory_pool_storage now =
     \<lparr>ps_storePreKey = (\<lambda>i kp s. (Inr (), mem_storePreKey i kp s)),
      ps_getPreKeyCount = (\<lambda>s. Inr (mem_getPreKeyCount s)),
      ps_getNextPreKeyId = (\<lambda>s. Inr (mem_getNextPreKeyId s)),
      ps_setNextPreKeyId = (\<lambda>n s. (Inr (), mem_setNextPreKeyId n s)),
      ps_storeSignedPreKey = (\<lambda>r s. (Inr (), mem_storeSignedPreKey now r s)),
      ps_loadLatestSignedPreKey = (\<lambda>s. Inr (mem_loadLatestSignedPreKey s)),
      ps_loadPreKey = Some (\<lambda>i. mem_loadPreKey (Some i)),
      ps_listPreKeyIds = Some (\<lambda>s. Inr (mem_listPreKeyIds s)),
      ps_getOurRegistrationId = Some (\<lambda>s. Inr (ms_registrationId s)),
      ps_getAvailablePreKeyCount = Some (\<lambda>s. Inr (mem_getAvailablePreKeyCount s)),
      ps_listAvailablePreKeyIds = Some (\<lambda>s. Inr (mem_listAvailablePreKeyIds s)),
      ps_reservePreKey = Some (\<lambda>i s. let (ok, s') = mem_reservePreKey i s in (Inr ok, s')),
      ps_releasePreKey = Some (\<lambda>i s. let (ok, s') = mem_releasePreKey i s in (Inr ok, s'))\<rparr>"

definition pool_of :: "memory_storage \<Rightarrow> pool_view" where
  "pool_of s = \<lparr>pv_keys = obj_get (ms_preKeys s), pv_published = set (ms_published s), pv_next = ms_nextPreKeyId s,
                pv_latest = ms_latest s, pv_registrationId = ms_registrationId s\<rparr>"

lemma available_list:
  assumes "mem_ok s"
  shows "distinct (mem_listAvailablePreKeyIds s)" "set (mem_listAvailablePreKeyIds s) = available (pool_of s)"
  using mem_okD(5) [OF assms]
  by (auto simp: mem_listAvailablePreKeyIds_def available_def pool_of_def dom_map_of_conv_image_fst)

lemma prune_pool [simp]: "pool_of (pruneRetiredSignedPreKeys now s) = pool_of s"
  by (simp add: pruneRetiredSignedPreKeys_def pool_of_def Let_def)

lemma prune_trusted [simp]: "ms_trusted (pruneRetiredSignedPreKeys now s) = ms_trusted s"
  by (simp add: pruneRetiredSignedPreKeys_def Let_def)

interpretation mem_pool: pool_store "memory_pool_storage now" "mem_good p" pool_of
  "\<lambda>i. mem_loadPreKey (Some i)" "\<lambda>s. Inr (mem_listAvailablePreKeyIds s)" "\<lambda>s. Inr (mem_getAvailablePreKeyCount s)"
  "\<lambda>i s. let (ok, s') = mem_reservePreKey i s in (Inr ok, s')" "\<lambda>i s. let (ok, s') = mem_releasePreKey i s in (Inr ok, s')"
  for now p
proof
  note mps = memory_pool_storage_def
  fix s :: memory_storage and i n kp l
  show "ps_loadPreKey (memory_pool_storage now) = Some (\<lambda>i. mem_loadPreKey (Some i))"
    "ps_listAvailablePreKeyIds (memory_pool_storage now) = Some (\<lambda>s. Inr (mem_listAvailablePreKeyIds s))"
    "ps_getAvailablePreKeyCount (memory_pool_storage now) = Some (\<lambda>s. Inr (mem_getAvailablePreKeyCount s))"
    "ps_reservePreKey (memory_pool_storage now) = Some (\<lambda>i s. let (ok, s') = mem_reservePreKey i s in (Inr ok, s'))"
    "ps_releasePreKey (memory_pool_storage now) = Some (\<lambda>i s. let (ok, s') = mem_releasePreKey i s in (Inr ok, s'))"
    by (simp_all add: mps)
  assume good: "mem_good p s"
  note ok = mem_goodD [OF good] and keep = mem_goodI [OF good]
  show "\<exists>f. ps_getOurRegistrationId (memory_pool_storage now) = Some f \<and> f s = Inr (pv_registrationId (pool_of s))"
    by (simp add: mps pool_of_def)
  show "\<exists>s'. ps_storePreKey (memory_pool_storage now) i kp s = (Inr (), s') \<and> mem_good p s' \<and>
      pool_of s' = (pool_of s)\<lparr>pv_keys := (pv_keys (pool_of s))(i \<mapsto> kp)\<rparr>"
    using keep [OF mem_storePreKey_ok [OF ok]] by (simp add: mps mem_storePreKey_def pool_of_def update_conv')
  show "ps_getNextPreKeyId (memory_pool_storage now) s = Inr (pv_next (pool_of s))"
    by (simp add: mps pool_of_def mem_getNextPreKeyId_def)
  show "\<exists>s'. ps_setNextPreKeyId (memory_pool_storage now) n s = (Inr (), s') \<and> mem_good p s' \<and> pool_of s' = (pool_of s)\<lparr>pv_next := n\<rparr>"
    using keep [OF mem_registry_ok(3) [OF ok]] by (simp add: mps pool_of_def mem_setNextPreKeyId_def)
  show "ps_loadLatestSignedPreKey (memory_pool_storage now) s = Inr (pv_latest (pool_of s))"
    by (simp add: mps pool_of_def mem_loadLatestSignedPreKey_def)
  show "\<exists>s'. ps_storeSignedPreKey (memory_pool_storage now) l s = (Inr (), s') \<and> mem_good p s' \<and> pool_of s' = (pool_of s)\<lparr>pv_latest := Some l\<rparr>"
    using keep [OF mem_storeSignedPreKey_ok [OF ok, of now l]]
    by (simp add: mps mem_storeSignedPreKey_def Let_def prune_trusted split: option.split) (simp add: pool_of_def)
  show "mem_loadPreKey (Some i) s = Inr (pv_keys (pool_of s) i)" by (simp add: mem_loadPreKey_def pool_of_def)
  show "\<exists>is. Inr (mem_listAvailablePreKeyIds s) = Inr is \<and> distinct is \<and> set is = available (pool_of s)"
    using available_list [OF ok] by simp
  show "Inr (mem_getAvailablePreKeyCount s) = Inr (card (available (pool_of s)))"
    using available_list [OF ok] by (metis distinct_card mem_getAvailablePreKeyCount_def)
  show "\<exists>s'. (let (ok, s') = mem_reservePreKey i s in (Inr ok, s')) = (Inr (i \<in> available (pool_of s)), s') \<and> mem_good p s' \<and>
      pool_of s' = (if i \<in> available (pool_of s) then (pool_of s)\<lparr>pv_published := insert i (pv_published (pool_of s))\<rparr> else pool_of s)"
    using keep [OF mem_reservePreKey_ok [OF ok, of i]]
    by (auto simp: mem_reservePreKey_def available_def pool_of_def split: if_splits)
  show "\<exists>s'. (let (ok, s') = mem_releasePreKey i s in (Inr ok, s')) = (Inr (i \<in> pv_published (pool_of s)), s') \<and> mem_good p s' \<and>
      pool_of s' = (pool_of s)\<lparr>pv_published := pv_published (pool_of s) - {i}\<rparr>"
    using keep [OF mem_releasePreKey_ok [OF ok, of i]] by (simp add: mem_releasePreKey_def pool_of_def)
qed

end
