(* ===== verification/Memory_System.thy ===== *)
theory Memory_System
  imports Memory_Pool
begin

text \<open>
  A device on the in-memory storage: its state changes by the operations of the session cipher, the
  session builder, the group cipher and builder, the prekey pool, and the methods of the storage
  itself. Operations run one after the other, each to its end, successfully or with an error.
\<close>

section \<open>Steps\<close>

inductive storage_step :: "memory_storage \<Rightarrow> memory_storage \<Rightarrow> bool" where
  Encrypt: "env_ok E \<Longrightarrow> sc_storage C = memory_signal_storage \<Longrightarrow> encrypt E C data s = (r1, s') \<Longrightarrow> storage_step s s'"
| DecryptWhisper: "env_ok E \<Longrightarrow> sc_storage C = memory_signal_storage \<Longrightarrow> decryptWhisperMessage E C data s = (r2, s') \<Longrightarrow> storage_step s s'"
| DecryptPreKey: "env_ok E \<Longrightarrow> sc_storage C = memory_signal_storage \<Longrightarrow> decryptPreKeyWhisperMessage E C data s = (r2, s') \<Longrightarrow> storage_step s s'"
| InitOutgoing: "env_ok E \<Longrightarrow> initOutgoing E memory_signal_storage addr device s = (r3, s') \<Longrightarrow> storage_step s s'"
| CloseSession: "env_ok E \<Longrightarrow> sc_storage C = memory_signal_storage \<Longrightarrow> cipher_closeOpenSession E C s = (r3, s') \<Longrightarrow> storage_step s s'"
| GroupEncrypt: "hmac_ok P \<Longrightarrow> group_encrypt P W memory_sender_key_store name data s = (r2, s') \<Longrightarrow> storage_step s s'"
| GroupDecrypt: "hmac_ok P \<Longrightarrow> group_decrypt P W memory_sender_key_store name data s = (r2, s') \<Longrightarrow> storage_step s s'"
| GroupProcess: "group_process memory_sender_key_store name dm s = (r3, s') \<Longrightarrow> storage_step s s'"
| GroupCreate: "privKey (gr_signingKey rnd) \<noteq> [] \<Longrightarrow> group_create W rnd memory_sender_key_store name s = (r4, s') \<Longrightarrow> storage_step s s'"
| GroupRotate: "privKey (gr_signingKey rnd) \<noteq> [] \<Longrightarrow> group_rotate W rnd memory_sender_key_store name s = (r4, s') \<Longrightarrow> storage_step s s'"
| RemoveSenderKey: "storage_step s (snd (mem_removeSenderKey name s))"
| RemoveGroup: "storage_step s (snd (mem_removeGroupSessions g s))"
| EnsurePreKeys: "pp_storage pool = memory_pool_storage now \<Longrightarrow> ensurePreKeys F pool n s = (r3, s') \<Longrightarrow> storage_step s s'"
| Replenish: "pp_storage pool = memory_pool_storage now \<Longrightarrow> replenishPreKeys F pool n fl c s = (r5, s') \<Longrightarrow> storage_step s s'"
| EnsureSigned: "pp_storage pool = memory_pool_storage now \<Longrightarrow> ensureSignedPreKey F pool s = (r6, s') \<Longrightarrow> storage_step s s'"
| RotateSigned: "pp_storage pool = memory_pool_storage now \<Longrightarrow> rotateSignedPreKey F pool fr i s = (r6, s') \<Longrightarrow> storage_step s s'"
| CreateBundle: "pp_storage pool = memory_pool_storage now \<Longrightarrow> createBundle F pool opts s = (r7, s') \<Longrightarrow> storage_step s s'"
| Release: "storage_step s (snd (mem_releasePreKey n s))"
| Reserve: "storage_step s (snd (mem_reservePreKey n s))"
| RemovePreKey: "storage_step s (snd (mem_removePreKey n s))"
| StorePreKey: "storage_step s (mem_storePreKey n kp s)"
| StoreSignedId: "storage_step s (mem_storeSignedPreKey_id n kp s)"
| StoreSigned: "storage_step s (mem_storeSignedPreKey now l s)"
| RemoveSigned: "storage_step s (snd (mem_removeSignedPreKey n s))"
| SetNext: "storage_step s (mem_setNextPreKeyId n s)"
| Subscribe: "storage_step s (mem_onPreKeyRemoved listener s)"
| Unsubscribe: "storage_step s (mem_unsubscribe listener s)"

inductive identity_step :: "memory_storage \<Rightarrow> memory_storage \<Rightarrow> bool" where
  Save: "identity_step s (snd (mem_saveIdentity i k s))"
| Remove: "identity_step s (snd (mem_removeIdentity i s))"

definition system_step :: "memory_storage \<Rightarrow> memory_storage \<Rightarrow> bool" where
  "system_step s s' \<longleftrightarrow> storage_step s s' \<or> identity_step s s'"

inductive_cases identity_stepE: "identity_step s s'"

section \<open>What steps keep\<close>

lemma untouched_trust:
  "ms_trusted (snd (mem_removeSenderKey name s)) = ms_trusted s" "ms_trusted (snd (mem_removeGroupSessions g s)) = ms_trusted s"
  "ms_trusted (snd (mem_releasePreKey n s)) = ms_trusted s" "ms_trusted (snd (mem_reservePreKey n s)) = ms_trusted s"
  "ms_trusted (snd (mem_removePreKey n s)) = ms_trusted s" "ms_trusted (mem_storePreKey n kp s) = ms_trusted s"
  "ms_trusted (mem_storeSignedPreKey_id n kp s) = ms_trusted s" "ms_trusted (mem_storeSignedPreKey now l s) = ms_trusted s"
  "ms_trusted (snd (mem_removeSignedPreKey n s)) = ms_trusted s" "ms_trusted (mem_setNextPreKeyId n s) = ms_trusted s"
  "ms_trusted (mem_onPreKeyRemoved x s) = ms_trusted s" "ms_trusted (mem_unsubscribe x s) = ms_trusted s"
  by (simp_all add: mem_defs mem_storeSignedPreKey_def Let_def split: option.split)

lemmas storage_method_ok = mem_removeSenderKey_ok mem_removeGroupSessions_ok mem_releasePreKey_ok mem_reservePreKey_ok
  mem_removePreKey_ok mem_storePreKey_ok mem_storeSignedPreKey_id_ok mem_storeSignedPreKey_ok mem_removeSignedPreKey_ok
  mem_registry_ok

lemma storage_step_good:
  assumes "storage_step s s'" "mem_good p s"
  shows "mem_good p s'"
  using assms
proof (induction rule: storage_step.induct)
  case (Encrypt E C data s r1 s') show ?case by (rule keepsD [OF mem.encrypt_good [OF Encrypt(1,2)] Encrypt(4,3)])
next
  case (DecryptWhisper E C data s r2 s') show ?case by (rule keepsD [OF mem.decryptWhisper_good [OF DecryptWhisper(1,2)] DecryptWhisper(4,3)])
next
  case (DecryptPreKey E C data s r2 s') show ?case by (rule keepsD [OF mem.decryptPreKey_good [OF DecryptPreKey(1,2)] DecryptPreKey(4,3)])
next
  case (InitOutgoing E addr device s r3 s') show ?case by (rule keepsD [OF mem.initOutgoing_good [OF InitOutgoing(1)] InitOutgoing(3,2)])
next
  case (CloseSession E C s r3 s') show ?case by (rule keepsD [OF mem.closeOpenSession_good [OF CloseSession(1,2)] CloseSession(4,3)])
next
  case (GroupEncrypt P W name data s r2 s') show ?case by (rule keepsD [OF mem_group.group_encrypt_good [OF GroupEncrypt(1)] GroupEncrypt(3,2)])
next
  case (GroupDecrypt P W name data s r2 s') show ?case by (rule keepsD [OF mem_group.group_decrypt_good [OF GroupDecrypt(1)] GroupDecrypt(3,2)])
next
  case (GroupProcess name dm s r3 s') show ?case by (rule keepsD [OF mem_group.group_process_good GroupProcess(2,1)])
next
  case (GroupCreate rnd W name s r4 s') show ?case by (rule keepsD [OF mem_group.group_create_good [OF GroupCreate(1)] GroupCreate(3,2)])
next
  case (GroupRotate rnd W name s r4 s') show ?case by (rule keepsD [OF mem_group.group_rotate_good [OF GroupRotate(1)] GroupRotate(3,2)])
next
  case (EnsurePreKeys pool now F n s r3 s') show ?case by (rule keepsD [OF mem_pool.ensurePreKeys_good [OF EnsurePreKeys(1)] EnsurePreKeys(3,2)])
next
  case (Replenish pool now F n fl c s r5 s') show ?case by (rule keepsD [OF mem_pool.replenish_good [OF Replenish(1)] Replenish(3,2)])
next
  case (EnsureSigned pool now F s r6 s') show ?case by (rule keepsD [OF mem_pool.ensureSignedPreKey_good [OF EnsureSigned(1)] EnsureSigned(3,2)])
next
  case (RotateSigned pool now F fr i s r6 s') show ?case by (rule keepsD [OF mem_pool.rotate_good [OF RotateSigned(1)] RotateSigned(3,2)])
next
  case (CreateBundle pool now F opts s r7 s') show ?case by (rule keepsD [OF mem_pool.createBundle_good [OF CreateBundle(1)] CreateBundle(3,2)])
qed (rule mem_goodI, assumption, rule storage_method_ok, erule mem_goodD, rule untouched_trust)+

lemma identity_step_ok: "identity_step s s' \<Longrightarrow> mem_ok s \<Longrightarrow> mem_ok s'"
  by (auto elim!: identity_stepE simp: mem_saveIdentity_ok mem_removeIdentity_ok)

lemma system_reachable_ok: "system_step\<^sup>*\<^sup>* s s' \<Longrightarrow> mem_ok s \<Longrightarrow> mem_ok s'"
proof (induction rule: rtranclp_induct)
  case (step s' s'')
  then have ok: "mem_ok s'" by simp
  from step.hyps(2) show ?case
    unfolding system_step_def using storage_step_good [of s' s'' None] identity_step_ok ok by auto
qed

lemma storage_reachable_good: "storage_step\<^sup>*\<^sup>* s s' \<Longrightarrow> mem_good p s \<Longrightarrow> mem_good p s'"
  by (induction rule: rtranclp_induct) (auto intro: storage_step_good)

end
