(* ===== verification/Group_Properties.thy ===== *)
theory Group_Properties
  imports Memory_System Instances
begin

text \<open>The properties of group messaging, on the in-memory storage where a storage is involved.\<close>

section \<open>Concrete values\<close>

definition demo_group_random :: group_random where
  "demo_group_random = \<lparr>gr_idBytes = [0, 0, 0, 7], gr_senderKey = replicate 32 9, gr_signingKey = demo_key 3\<rparr>"

definition demo_storage :: "nat \<Rightarrow> memory_storage" where
  "demo_storage n = new_MemorySignalStorage (demo_key n) 5 None None False"

definition demo_name :: sender_key_name where
  "demo_name = \<lparr>skn_groupId = ''g'', skn_sender = \<lparr>addr_id = ''alice'', deviceId = 1\<rparr>\<rparr>"

definition demo_state :: sender_key_state where
  "demo_state = new_SenderKeyState 7 0 (replicate 32 9) (pubKey (demo_key 3)) (Some (privKey (demo_key 3)))"

lemma demo_group_crypto: "group_crypto_ok demo_prims varint_wire"
  using prims_okD [OF prims_ok_demo] wire_ok_varint by (simp add: group_crypto_ok_def)

lemma demo_storage_ok: "mem_ok (demo_storage n)"
  by (simp add: demo_storage_def new_storage_ok)

lemma demo_state_from: "state_from demo_prims (replicate 32 9) 0 demo_state" "sender_record_wf [demo_state]"
proof -
  have "privKey (demo_key 3) \<noteq> []" by (auto simp: demo_key_def)
  then show "state_from demo_prims (replicate 32 9) 0 demo_state" "sender_record_wf [demo_state]"
    using new_state_wf [of "Some (privKey (demo_key 3))"]
    by (simp_all add: state_from_def chain_from_def demo_state_def sender_record_wf_def MAX_STATES_def)
      (simp_all add: new_SenderKeyState_def)
qed

text \<open>A message that the instance's member sealed, and its opening.\<close>

lemma demo_opened:
  obtains bs r' where "group_open demo_prims varint_wire [demo_state] bs = Inr ([1, 2, 3], r')"
    "group_seal demo_prims varint_wire [demo_state] [1, 2, 3] = Inr (bs, [sent demo_prims demo_state])"
proof -
  have st: "sks_private demo_state = Some (privKey (demo_key 3))" "sks_id demo_state = 7" "sks_public demo_state = pubKey (demo_key 3)"
    "sck_iteration (sks_chain demo_state) = 0" by (simp_all add: demo_state_def new_SenderKeyState_def)
  obtain bs where bs: "group_seal demo_prims varint_wire ([] @ [demo_state]) [1, 2, 3] = Inr (bs, [] @ [sent demo_prims demo_state])"
    "seals demo_prims varint_wire (demo_key 3) (replicate 32 9) 0 7 0 [1, 2, 3] bs"
    using seal_step [OF demo_group_crypto demo_key_pair [of 3] demo_state_from(1) st(1), of "[1, 2, 3]" "[]"]
    by (auto simp: st plaintext_fits_def)
  obtain r' where "group_open demo_prims varint_wire [demo_state] bs = Inr ([1, 2, 3], r')"
    using open_step [OF demo_group_crypto demo_key_pair [of 3] bs(2) _ st(3) demo_state_from(1), of "[demo_state]"]
    by (auto simp: st getSenderKeyState_def group_receivable_def MAX_JUMP_def)
  with bs(1) show thesis using that by simp
qed

section \<open>Conversations\<close>

text \<open>C9: Group delivery. A member rotates its sender key (or creates the first one) and sends the
  distribution message; another member processes it. Of up to 2000 messages that the first member then
  encrypts, the second one decrypts any selection, in any order, each to its plaintext.\<close>

theorem group_conversation_delivered:
  assumes "group_crypto_ok P W" "mem_ok alice" "mem_ok bob"
    and "is_key_pair P (gr_signingKey rnd)" "length (gr_senderKey rnd) = 32"
    and "start = group_rotate W rnd memory_sender_key_store name \<or>
      start = group_create W rnd memory_sender_key_store name \<and> mem_loadSenderKey name alice = Inr None"
    and "length pts \<le> 2000" "\<forall>pt\<in>set pts. length pt + 16 < 2 ^ 32"
    and "distinct js" "set js \<subseteq> {..<length pts}"
  shows "\<exists>dm alice1 ms alice2 bob1 bob2.
     start alice = (Inr dm, alice1) \<and>
     smap (group_encrypt P W memory_sender_key_store name) pts alice1 = (Inr ms, alice2) \<and> length ms = length pts \<and>
     (\<exists>dm'. parse_SenderKeyDistributionMessage W (dm_serialized dm) = Inr dm' \<and>
        group_process memory_sender_key_store name' dm' bob = (Inr (), bob1)) \<and>
     smap (group_decrypt P W memory_sender_key_store name') (map ((!) ms) js) bob1 = (Inr (map ((!) pts) js), bob2)"
proof -
  let ?G = memory_sender_key_store and ?kp = "gr_signingKey rnd" and ?k = "gr_senderKey rnd" and ?id = "generateSenderKeyId (gr_idBytes rnd)"
  have dh: "dh_ok P" and wire: "wire_ok W" using assms(1) by (simp_all add: group_crypto_ok_def)
  have pub: "length (pubKey ?kp) = 33" by (rule is_key_pair_lengths(2) [OF dh assms(4)])
  have keyId: "?id < 2 ^ 32" using generateSenderKeyId_range by (rule less_trans) simp
  have good: "mem_good None alice" "mem_good None bob" using assms(2,3) by simp_all
  have "start = group_rotate W rnd ?G name \<or> start = group_create W rnd ?G name \<and> loadSenderKey ?G name alice \<in> {Inr None, Inr (Some [])}"
    using assms(6) by (auto simp: memory_sender_key_store_def)
  from mem_group.start_step [OF good(1) assms(4) this] obtain alice1 where alice1:
    "start alice = (Inr (build_SenderKeyDistributionMessage W ?id 0 ?k (pubKey ?kp)), alice1)" "mem_good None alice1"
    "sender_at P ?G name ?kp ?k 0 ?id 0 alice1" .
  have fits: "0 + length pts \<le> 2 ^ 32" "\<forall>pt\<in>set pts. plaintext_fits pt" using assms(7,8) by (simp_all add: plaintext_fits_def)
  from mem_group.encrypt_all [OF assms(1,4) keyId alice1(2,3) fits] obtain ms alice2 where
    ms: "smap (group_encrypt P W ?G name) pts alice1 = (Inr ms, alice2)" "length ms = length pts"
      "\<forall>i<length pts. seals P W ?kp ?k 0 ?id (0 + i) (pts ! i) (ms ! i)" by blast
  have parse: "parse_SenderKeyDistributionMessage W (dm_serialized (build_SenderKeyDistributionMessage W ?id 0 ?k (pubKey ?kp))) =
      Inr (build_SenderKeyDistributionMessage W ?id 0 ?k (pubKey ?kp))"
    by (rule distribution_roundtrip) (use wire keyId assms(5) pub in simp_all)
  from mem_group.process_step [OF good(2), of P ?k 0 0 "pubKey ?kp" name' W ?id] assms(5) pub obtain bob1 where
    bob1: "group_process ?G name' (build_SenderKeyDistributionMessage W ?id 0 ?k (pubKey ?kp)) bob = (Inr (), bob1)" "mem_good None bob1"
      "reader_at P ?G name' ?kp ?k 0 ?id (new_SenderKeyState ?id 0 ?k (pubKey ?kp) None) bob1" by auto
  have len: "length pts \<le> GROUP_MAX_MESSAGE_KEYS" using assms(7) by (simp add: GROUP_MAX_MESSAGE_KEYS_def)
  have pend: "pending 0 (length pts) ((+) 0 ` {}) (new_SenderKeyState ?id 0 ?k (pubKey ?kp) None)"
    using pending_new by simp
  have js: "set js \<subseteq> {..<length pts} - {}" using assms(10) by simp
  from mem_group.decrypt_all [OF assms(1,4) ms(3) len _ bob1(2,3) pend assms(9) js] obtain bob2 where
    "smap (group_decrypt P W ?G name') (map ((!) ms) js) bob1 = (Inr (map ((!) pts) js), bob2)" by auto
  with alice1(1) ms(1,2) parse bob1(1) show ?thesis by blast
qed

theorem group_conversation_delivered_witness:
  "\<exists>dm alice1 ms alice2 bob1 bob2.
     group_rotate varint_wire demo_group_random memory_sender_key_store demo_name (demo_storage 1) = (Inr dm, alice1) \<and>
     smap (group_encrypt demo_prims varint_wire memory_sender_key_store demo_name) [[1], [2], [3]] alice1 = (Inr ms, alice2) \<and>
     (\<exists>dm'. parse_SenderKeyDistributionMessage varint_wire (dm_serialized dm) = Inr dm' \<and>
        group_process memory_sender_key_store demo_name dm' (demo_storage 2) = (Inr (), bob1)) \<and>
     smap (group_decrypt demo_prims varint_wire memory_sender_key_store demo_name) [ms ! 2, ms ! 0] bob1 = (Inr [[3], [1]], bob2)"
  using group_conversation_delivered [OF demo_group_crypto demo_storage_ok [of 1] demo_storage_ok [of 2], of demo_group_random
      "group_rotate varint_wire demo_group_random memory_sender_key_store demo_name" demo_name "[[1], [2], [3]]" "[2, 0]" demo_name]
    demo_key_pair [of 3]
  by (simp add: demo_group_random_def) blast



text \<open>A group message that cannot be encrypted or decrypted changes nothing: whatever the error, the
  storage is as it was.\<close>

theorem group_errors_change_nothing:
  "(\<forall>e s'. group_encrypt P W memory_sender_key_store name pt s = (Inl e, s') \<longrightarrow> s' = s) \<and>
   (\<forall>e s'. group_decrypt P W memory_sender_key_store name bs s = (Inl e, s') \<longrightarrow> s' = s)"
  using mem_group.group_encrypt_clean mem_group.group_decrypt_clean by blast

theorem group_errors_change_nothing_witness:
  "group_decrypt demo_prims varint_wire memory_sender_key_store demo_name [1, 2] (demo_storage 1) =
     (Inl (SenderKeyError ''No sender key record found for decryption''), demo_storage 1)"
proof -
  have "fst (group_decrypt demo_prims varint_wire memory_sender_key_store demo_name [1, 2] (demo_storage 1)) =
      Inl (SenderKeyError ''No sender key record found for decryption'')"
    by (simp add: group_decrypt_def sbind_def sread_def slift_def memory_sender_key_store_def mem_loadSenderKey_def
        demo_storage_def new_MemorySignalStorage_def)
  then show ?thesis using group_errors_change_nothing by (metis prod.collapse)
qed

section \<open>Records\<close>

text \<open>C37: Bounds of a sender key record. Sealing, opening and adding a state keep a record within its
  bounds: at most 5 states with different ids, each with at most 2000 stored keys of different
  iterations, all before the chain's own iteration. The state that was added is the one that is found.\<close>

theorem sender_record_bounds:
  assumes "hmac_ok P" "sender_record_wf r" "priv \<noteq> Some []"
  shows "length r \<le> 5 \<and> (\<forall>st\<in>set r. length (sks_messageKeys st) \<le> 2000) \<and>
    (\<forall>pt out r'. group_seal P W r pt = Inr (out, r') \<longrightarrow> sender_record_wf r') \<and>
    (\<forall>bs pt r'. group_open P W r bs = Inr (pt, r') \<longrightarrow> sender_record_wf r') \<and>
    sender_record_wf (addSenderKeyState i n k pub priv r) \<and>
    getSenderKeyState (Some i) (addSenderKeyState i n k pub priv r) = Some (new_SenderKeyState i n k pub priv)"
proof -
  have "length r \<le> 5 \<and> (\<forall>st\<in>set r. length (sks_messageKeys st) \<le> 2000)"
    using assms(2) by (auto simp: sender_record_wf_def sender_state_wf_def MAX_STATES_def GROUP_MAX_MESSAGE_KEYS_def)
  then show ?thesis
    using group_seal_keeps_wf [OF assms(1,2)] group_open_keeps_wf [OF assms(1,2)] addSenderKeyState_wf [OF assms(2,3)]
      getSenderKeyState_add(1) [OF assms(2)] by blast
qed

theorem sender_record_bounds_witness:
  "(\<exists>bs r1 r2. group_seal demo_prims varint_wire [demo_state] [1, 2, 3] = Inr (bs, r1) \<and> sender_record_wf r1 \<and>
      group_open demo_prims varint_wire [demo_state] bs = Inr ([1, 2, 3], r2) \<and> sender_record_wf r2) \<and>
   sender_record_wf (addSenderKeyState 8 0 [] [] None [demo_state])"
proof (rule demo_opened)
  fix bs r'
  assume b: "group_open demo_prims varint_wire [demo_state] bs = Inr ([1, 2, 3], r')"
    "group_seal demo_prims varint_wire [demo_state] [1, 2, 3] = Inr (bs, [sent demo_prims demo_state])"
  from sender_record_bounds [OF prims_okD(1) [OF prims_ok_demo] demo_state_from(2), of None varint_wire 8 0 "[]" "[]"] b
  show ?thesis by blast
qed

text \<open>Serialization of sender keys. A record within its bounds survives \<open>serialize\<close> and \<open>deserialize\<close>:
  ids, chains, signing keys and the skipped keys in their order.\<close>

theorem sender_record_serialization:
  assumes "sender_record_wf r"
  shows "SenderKeyRecord_deserialize (SenderKeyRecord_serialize r) = Inr r"
  by (rule sender_record_roundtrip) (use assms in \<open>auto simp: sender_record_wf_def sender_state_wf_def\<close>)

theorem sender_record_serialization_witness:
  "SenderKeyRecord_deserialize (SenderKeyRecord_serialize [demo_state]) = Inr [demo_state]"
  by (rule sender_record_serialization [OF demo_state_from(2)])

end
