(* ===== verification/Storage_Properties.thy ===== *)
theory Storage_Properties
  imports Group_Properties Session_Properties
begin

text \<open>The properties of the in-memory storage, of the session code over it, and of the prekey pool.\<close>

section \<open>The whole device\<close>

text \<open>C10: The storage invariant. However a device that starts with an empty storage runs its operations
  (sessions, groups, prekey pool, identities), successfully or not, every stored session record has at
  most 40 sessions, at most one of them open, and is well formed; every sender key record is within
  its bounds; and only prekeys that exist are marked as published.\<close>

theorem storage_invariant:
  assumes "system_step\<^sup>*\<^sup>* (new_MemorySignalStorage identity rid grace policy callback) s"
  shows "mem_ok s \<and>
    (\<forall>r\<in>snd ` set (ms_sessions s). length (sessions r) \<le> 40 \<and> open_count (sessions r) \<le> 1 \<and>
       (\<forall>(k, e)\<in>set (sessions r). entry_ok e)) \<and>
    (\<forall>r\<in>snd ` set (ms_senderKeys s). sender_record_wf r) \<and>
    set (ms_published s) \<subseteq> set (obj_keys (ms_preKeys s))"
proof -
  have ok: "mem_ok s" by (rule system_reachable_ok [OF assms new_storage_ok])
  from mem_okD(1) [OF this] have "\<forall>r\<in>snd ` set (ms_sessions s). length (sessions r) \<le> 40 \<and> open_count (sessions r) \<le> 1 \<and>
      (\<forall>(k, e)\<in>set (sessions r). entry_ok e)"
    unfolding stored_ok_def record_ok_def CLOSED_SESSIONS_MAX_def by blast
  with ok mem_okD(2,10) [OF ok] show ?thesis by blast
qed

theorem storage_invariant_witness:
  "mem_ok (mem_storePreKey 4 (demo_key 2) (demo_storage 1)) \<and>
   mem_ok (snd (mem_saveIdentity ''bob'' [1] (mem_storePreKey 4 (demo_key 2) (demo_storage 1))))"
proof -
  have one: "system_step\<^sup>*\<^sup>* (demo_storage 1) (mem_storePreKey 4 (demo_key 2) (demo_storage 1))"
    by (rule r_into_rtranclp) (simp add: system_step_def storage_step.StorePreKey)
  moreover have "system_step\<^sup>*\<^sup>* (demo_storage 1) (snd (mem_saveIdentity ''bob'' [1] (mem_storePreKey 4 (demo_key 2) (demo_storage 1))))"
    by (rule rtranclp.rtrancl_into_rtrancl [OF one]) (simp add: system_step_def identity_step.Save)
  ultimately show ?thesis using storage_invariant unfolding demo_storage_def by blast
qed






text \<open>C19: Trust on first use. Once an identity key is stored for a contact, no operation other than
  \<open>saveIdentity\<close> and \<open>removeIdentity\<close> replaces it, and every other key for that contact is refused.\<close>

theorem identity_pinned:
  assumes "storage_step\<^sup>*\<^sup>* s s'" "mem_ok s" "mem_loadIdentity i s = Inr (Some k)"
  shows "mem_loadIdentity i s' = Inr (Some k) \<and>
    (\<forall>k' d. mem_isTrustedIdentity i k' d s' = (Inr (k' = k), s'))"
proof -
  have "mem_good (Some (i, k)) s" using assms(2,3) by (simp add: mem_good_def pins_def mem_loadIdentity_def)
  from storage_reachable_good [OF assms(1) this] have "obj_get (ms_trusted s') i = Some k"
    by (simp add: mem_good_def pins_def)
  then show ?thesis by (auto simp: mem_loadIdentity_def mem_isTrustedIdentity_def)
qed

theorem identity_pinned_witness:
  "let s = snd (mem_saveIdentity ''bob'' [1] (demo_storage 1)) in
     mem_loadIdentity ''bob'' (mem_storePreKey 4 (demo_key 2) s) = Inr (Some [1]) \<and>
     fst (mem_isTrustedIdentity ''bob'' [2] Receiving_Direction (mem_storePreKey 4 (demo_key 2) s)) = Inr False"
proof -
  define s where "s = snd (mem_saveIdentity ''bob'' [1] (demo_storage 1))"
  have "mem_loadIdentity ''bob'' s = Inr (Some [1])"
    by (simp add: s_def mem_saveIdentity_def mem_loadIdentity_def demo_storage_def new_MemorySignalStorage_def Let_def)
  moreover have "mem_ok s" unfolding s_def by (rule mem_saveIdentity_ok [OF demo_storage_ok])
  moreover have "storage_step\<^sup>*\<^sup>* s (mem_storePreKey 4 (demo_key 2) s)" by (rule r_into_rtranclp, rule storage_step.StorePreKey)
  ultimately show ?thesis using identity_pinned [of s "mem_storePreKey 4 (demo_key 2) s" "''bob''" "[1]"]
    unfolding Let_def s_def [symmetric] by simp
qed

section \<open>Signed prekeys\<close>

text \<open>C26: Rotation of the signed prekey. When a signed prekey with a new id is stored, it is loaded under its
  id and is the latest; the one before stays loadable, for messages under way, until a later rotation
  finds that the grace period since its retirement has passed.\<close>

theorem signed_prekey_rotation:
  assumes "mem_ok s" "ms_latest s = Some l" "mem_loadSignedPreKey (Some (spk_id l)) s = Inr (Some kp)" "0 < ms_gracePeriodMs s"
    and "spk_id r \<noteq> spk_id l" "obj_get (ms_retired s) (spk_id r) = None"
    and "spk_id r2 \<noteq> spk_id l" "spk_id r2 \<noteq> spk_id r"
  shows "let s1 = mem_storeSignedPreKey now r s; s2 = mem_storeSignedPreKey later r2 s1 in
    mem_loadSignedPreKey (Some (spk_id r)) s1 = Inr (Some (spk_keyPair r)) \<and> mem_loadLatestSignedPreKey s1 = Some r \<and>
    mem_loadSignedPreKey (Some (spk_id l)) s1 = Inr (Some kp) \<and>
    mem_loadSignedPreKey (Some (spk_id l)) s2 = Inr (if later - now < ms_gracePeriodMs s then Some kp else None)"
proof -
  define s1 where "s1 = mem_storeSignedPreKey now r s"
  have ok1: "mem_ok s1" unfolding s1_def by (rule mem_storeSignedPreKey_ok [OF assms(1)])
  have kp: "obj_get (ms_signedPreKeys s) (spk_id l) = Some kp" using assms(3) by (simp add: mem_loadSignedPreKey_def)
  note get = store_signed_get [OF assms(1,2,5), of now, folded s1_def]
  have first: "obj_get (ms_signedPreKeys s1) (spk_id l) = Some kp" "obj_get (ms_signedPreKeys s1) (spk_id r) = Some (spk_keyPair r)"
    and retired: "obj_get (ms_retired s1) (spk_id l) = Some now"
    using assms(4-6) kp by (simp_all add: get expired_def obj_get_set)
  have "obj_get (ms_signedPreKeys (mem_storeSignedPreKey later r2 s1)) (spk_id l) =
      (if later - now < ms_gracePeriodMs s then Some kp else None)"
    using store_signed_get(1) [OF ok1 get(3) assms(8), of later "spk_id l"] retired first(1) assms(5,7)
    by (auto simp: expired_def obj_get_set get(4))
  then show ?thesis
    using get(3) first by (simp add: Let_def mem_loadSignedPreKey_def mem_loadLatestSignedPreKey_def flip: s1_def)
qed

definition demo_signed :: "nat \<Rightarrow> signed_pre_key" where
  "demo_signed n = \<lparr>spk_id = n, spk_keyPair = demo_key n, spk_sig = [], spk_createdAt = 0\<rparr>"

theorem signed_prekey_rotation_witness:
  "let s1 = mem_storeSignedPreKey 10 (demo_signed 2) (mem_storeSignedPreKey 0 (demo_signed 1) (demo_storage 1)) in
     mem_loadSignedPreKey (Some 1) s1 = Inr (Some (demo_key 1)) \<and>
     mem_loadSignedPreKey (Some 1) (mem_storeSignedPreKey 300000000 (demo_signed 3) s1) = Inr None"
proof -
  define s where "s = mem_storeSignedPreKey 0 (demo_signed 1) (demo_storage 1)"
  have s: "ms_latest s = Some (demo_signed 1)" "mem_loadSignedPreKey (Some 1) s = Inr (Some (demo_key 1))"
    "ms_gracePeriodMs s = 259200000" "ms_retired s = []"
    by (simp_all add: s_def mem_storeSignedPreKey_def demo_storage_def new_MemorySignalStorage_def pruneRetiredSignedPreKeys_def
        mem_loadSignedPreKey_def demo_signed_def DEFAULT_SIGNED_PRE_KEY_GRACE_PERIOD_MS_def Let_def)
  have "mem_ok s" unfolding s_def by (rule mem_storeSignedPreKey_ok [OF demo_storage_ok])
  moreover have "spk_id (demo_signed n) = n" for n by (simp add: demo_signed_def)
  ultimately show ?thesis
    using signed_prekey_rotation [of s "demo_signed 1" "demo_key 1" "demo_signed 2" "demo_signed 3" 10 300000000] s
    unfolding Let_def s_def [symmetric] by simp
qed

text \<open>When an id comes back while it is in the list of retired ids, the new signed prekey is deleted by the
  rotation that stores it, once the old retirement has expired.\<close>

lemma signed_prekey_reuse_lost:
  "let s = mem_storeSignedPreKey 300000000 (demo_signed 1)
             (mem_storeSignedPreKey 1 (demo_signed 2) (mem_storeSignedPreKey 0 (demo_signed 1) (demo_storage 1))) in
     mem_loadLatestSignedPreKey s = Some (demo_signed 1) \<and> mem_loadSignedPreKey (Some 1) s = Inr None"
  by (simp add: mem_storeSignedPreKey_def demo_storage_def new_MemorySignalStorage_def pruneRetiredSignedPreKeys_def
      mem_loadSignedPreKey_def mem_loadLatestSignedPreKey_def demo_signed_def DEFAULT_SIGNED_PRE_KEY_GRACE_PERIOD_MS_def Let_def
      del: set_map set_filter)

end
