(* ===== verification/Queue_Job.thy ===== *)
theory Queue_Job
  imports Prelude "HOL-Library.Sublist"
begin

text \<open>
  \<open>src/queue-job.ts\<close>: the jobs of a bucket run one after the other in the order they were queued.
  The event loop is a step relation: code queues a job, or the job that a bucket is running settles
  and the bucket's executor goes on to its next \<open>await\<close>. The histories of queued, started and settled
  jobs are kept beside the buckets to state what happened.
\<close>

section \<open>The executor\<close>

definition gcLimit :: nat where "gcLimit = 500"

text \<open>
  A bucket whose executor waits for the job at index \<open>q_i\<close>; \<open>q_limit\<close> is the bound of the current
  \<open>for\<close> loop.
\<close>

record 'j bucket =
  q_queue :: "'j list"
  q_i :: nat
  q_limit :: nat

text \<open>The start of the \<open>while\<close> loop with \<open>offt = 0\<close>.\<close>

definition start_loop :: "'j list \<Rightarrow> 'j bucket" where
  "start_loop queue = \<lparr>q_queue = queue, q_i = 0, q_limit = min (length queue) gcLimit\<rparr>"

text \<open>
  After the job at \<open>q_i\<close> settled: the next index; at the limit, the executed jobs are spliced off when
  more were queued, otherwise the executor ends and the bucket is deleted.
\<close>

definition next_job :: "'j bucket \<Rightarrow> 'j bucket option" where
  "next_job q =
     (if q_i q + 1 < q_limit q then Some (q\<lparr>q_i := q_i q + 1\<rparr>)
      else if q_limit q < length (q_queue q) then Some (start_loop (drop (q_limit q) (q_queue q)))
      else None)"

datatype 'v outcome = Resolved 'v | Rejected error

record ('b, 'j, 'v) queues =
  qs_buckets :: "'b \<Rightarrow> 'j bucket option"
  qs_submitted :: "'b \<Rightarrow> 'j list"
  qs_started :: "'b \<Rightarrow> 'j list"
  qs_settled :: "'b \<Rightarrow> ('j \<times> 'v outcome) list"

definition no_queues :: "('b, 'j, 'v) queues" where
  "no_queues = \<lparr>qs_buckets = (\<lambda>_. None), qs_submitted = (\<lambda>_. []), qs_started = (\<lambda>_. []), qs_settled = (\<lambda>_. [])\<rparr>"

definition current :: "'j bucket \<Rightarrow> 'j" where
  "current q = q_queue q ! q_i q"

text \<open>\<open>queueJob\<close>: a new bucket starts its executor, which calls the job at once.\<close>

definition queueJob :: "'b \<Rightarrow> 'j \<Rightarrow> ('b, 'j, 'v) queues \<Rightarrow> ('b, 'j, 'v) queues" where
  "queueJob b j s =
     (case qs_buckets s b of
        None \<Rightarrow>
          (let q = start_loop [j]
           in s\<lparr>qs_buckets := (qs_buckets s)(b \<mapsto> q), qs_submitted := (qs_submitted s)(b := qs_submitted s b @ [j]),
                qs_started := (qs_started s)(b := qs_started s b @ [current q])\<rparr>)
      | Some q \<Rightarrow>
          s\<lparr>qs_buckets := (qs_buckets s)(b \<mapsto> q\<lparr>q_queue := q_queue q @ [j]\<rparr>),
            qs_submitted := (qs_submitted s)(b := qs_submitted s b @ [j])\<rparr>)"

text \<open>\<open>_asyncQueueExecutor\<close> from one \<open>await\<close> to the next: the promise of the job takes its outcome.\<close>

definition asyncQueueExecutor :: "'b \<Rightarrow> 'v outcome \<Rightarrow> ('b, 'j, 'v) queues \<Rightarrow> ('b, 'j, 'v) queues" where
  "asyncQueueExecutor b out s =
     (case qs_buckets s b of
        None \<Rightarrow> s
      | Some q \<Rightarrow>
          s\<lparr>qs_buckets := (qs_buckets s)(b := next_job q),
            qs_settled := (qs_settled s)(b := qs_settled s b @ [(current q, out)]),
            qs_started := (qs_started s)(b := qs_started s b @ (case next_job q of None \<Rightarrow> [] | Some q' \<Rightarrow> [current q']))\<rparr>)"

inductive queue_step :: "('b, 'j, 'v) queues \<Rightarrow> ('b, 'j, 'v) queues \<Rightarrow> bool" where
  Submit: "queue_step s (queueJob b j s)"
| Settle: "qs_buckets s b \<noteq> None \<Longrightarrow> queue_step s (asyncQueueExecutor b out s)"

inductive_cases queue_stepE: "queue_step s s'"

section \<open>The invariant\<close>

definition bucket_wf :: "'j bucket \<Rightarrow> bool" where
  "bucket_wf q \<longleftrightarrow> q_i q < q_limit q \<and> q_limit q \<le> length (q_queue q)"

definition waiting :: "'j bucket option \<Rightarrow> 'j list" where
  "waiting x = (case x of None \<Rightarrow> [] | Some q \<Rightarrow> drop (q_i q) (q_queue q))"

definition running :: "'j bucket option \<Rightarrow> 'j list" where
  "running x = (case x of None \<Rightarrow> [] | Some q \<Rightarrow> [current q])"

definition queue_inv :: "('b, 'j, 'v) queues \<Rightarrow> bool" where
  "queue_inv s \<longleftrightarrow> (\<forall>b. (\<forall>q. qs_buckets s b = Some q \<longrightarrow> bucket_wf q) \<and>
     qs_submitted s b = map fst (qs_settled s b) @ waiting (qs_buckets s b) \<and>
     qs_started s b = map fst (qs_settled s b) @ running (qs_buckets s b))"

lemma start_loop_wf: "queue \<noteq> [] \<Longrightarrow> bucket_wf (start_loop queue)"
  by (simp add: bucket_wf_def start_loop_def gcLimit_def)

lemma waiting_start: "waiting (Some (start_loop queue)) = queue"
  by (simp add: waiting_def start_loop_def)

lemma next_job_wf: "bucket_wf q \<Longrightarrow> next_job q = Some q' \<Longrightarrow> bucket_wf q'"
  by (auto simp: next_job_def bucket_wf_def start_loop_def gcLimit_def split: if_splits)

lemma next_job_waiting:
  assumes "bucket_wf q"
  shows "waiting (Some q) = current q # waiting (next_job q)"
proof -
  have "waiting (Some q) = current q # drop (Suc (q_i q)) (q_queue q)"
    using assms by (simp add: waiting_def current_def bucket_wf_def Cons_nth_drop_Suc)
  moreover have "waiting (next_job q) = drop (Suc (q_i q)) (q_queue q)"
  proof (cases "q_i q + 1 < q_limit q")
    case False
    then have "q_limit q = Suc (q_i q)" using assms by (simp add: bucket_wf_def)
    then show ?thesis using False by (simp add: next_job_def waiting_def start_loop_def)
  qed (simp add: next_job_def waiting_def)
  ultimately show ?thesis by simp
qed

lemma running_waiting: "(\<forall>q. x = Some q \<longrightarrow> bucket_wf q) \<Longrightarrow> running x = take 1 (waiting x)"
  by (cases x) (auto simp: next_job_waiting running_def, simp add: waiting_def)

lemma queue_inv_init: "queue_inv no_queues"
  by (simp add: queue_inv_def no_queues_def waiting_def running_def)

lemma queueJob_inv:
  assumes "queue_inv s"
  shows "queue_inv (queueJob b j s)"
proof (cases "qs_buckets s b")
  case None
  have "bucket_wf (start_loop [j])" by (simp add: start_loop_wf)
  then show ?thesis
    using assms None waiting_start [of "[j]"] by (auto simp: queue_inv_def queueJob_def Let_def running_def waiting_def)
next
  case (Some q)
  then have q: "bucket_wf q" using assms by (simp add: queue_inv_def)
  then have "bucket_wf (q\<lparr>q_queue := q_queue q @ [j]\<rparr>)" "current (q\<lparr>q_queue := q_queue q @ [j]\<rparr>) = current q"
    by (simp_all add: bucket_wf_def current_def nth_append)
  moreover have "q_i q \<le> length (q_queue q)" using q by (simp add: bucket_wf_def)
  ultimately show ?thesis using assms Some by (simp add: queue_inv_def queueJob_def running_def waiting_def)
qed

lemma asyncQueueExecutor_inv:
  assumes "queue_inv s"
  shows "queue_inv (asyncQueueExecutor b out s)"
proof (cases "qs_buckets s b")
  case (Some q)
  then have q: "bucket_wf q" using assms by (simp add: queue_inv_def)
  then show ?thesis
    using assms Some next_job_waiting [OF q] next_job_wf [OF q]
    by (auto simp: queue_inv_def asyncQueueExecutor_def running_def split: option.splits)
qed (simp add: asyncQueueExecutor_def assms)

lemma queue_reachable_inv: "queue_step\<^sup>*\<^sup>* no_queues s \<Longrightarrow> queue_inv s"
  by (induction rule: rtranclp_induct)
    (auto simp: queue_inv_init elim!: queue_stepE intro: queueJob_inv asyncQueueExecutor_inv)

text \<open>What the invariant says about one bucket.\<close>

lemma queue_invD:
  assumes "queue_inv s"
  shows "prefix (qs_started s b) (qs_submitted s b)" "prefix (map fst (qs_settled s b)) (qs_started s b)"
    "length (qs_started s b) \<le> length (qs_settled s b) + 1"
    "qs_buckets s b = None \<longleftrightarrow> length (qs_settled s b) = length (qs_submitted s b)"
    "length (qs_settled s b) < length (qs_submitted s b) \<Longrightarrow> length (qs_started s b) = length (qs_settled s b) + 1"
proof -
  have b: "\<forall>q. qs_buckets s b = Some q \<longrightarrow> bucket_wf q" "qs_submitted s b = map fst (qs_settled s b) @ waiting (qs_buckets s b)"
    "qs_started s b = map fst (qs_settled s b) @ take 1 (waiting (qs_buckets s b))"
    using assms running_waiting [of "qs_buckets s b"] unfolding queue_inv_def by simp_all
  show "prefix (qs_started s b) (qs_submitted s b)" unfolding b(2,3) by (simp add: take_is_prefix)
  show "prefix (map fst (qs_settled s b)) (qs_started s b)" unfolding b(3) by simp
  show "length (qs_started s b) \<le> length (qs_settled s b) + 1" unfolding b(3) by simp
  show "qs_buckets s b = None \<longleftrightarrow> length (qs_settled s b) = length (qs_submitted s b)"
    using b(1) by (cases "qs_buckets s b") (auto simp: b(2) next_job_waiting, simp add: waiting_def)
  show "length (qs_started s b) = length (qs_settled s b) + 1" if "length (qs_settled s b) < length (qs_submitted s b)"
    using that unfolding b(2,3) by (cases "waiting (qs_buckets s b)") simp_all
qed

lemma settle_next:
  assumes "queue_inv s" "length (qs_settled s b) < length (qs_submitted s b)"
  shows "qs_settled (asyncQueueExecutor b out s) b = qs_settled s b @ [(qs_submitted s b ! length (qs_settled s b), out)]"
    "qs_buckets s b \<noteq> None"
proof -
  show "qs_buckets s b \<noteq> None" using queue_invD(4) [OF assms(1), of b] assms(2) by simp
  then obtain q where q: "qs_buckets s b = Some q" by blast
  then have "bucket_wf q" "qs_submitted s b = map fst (qs_settled s b) @ waiting (Some q)" using assms(1) by (auto simp: queue_inv_def)
  then have "qs_submitted s b ! length (qs_settled s b) = current q" by (simp add: next_job_waiting nth_append)
  then show "qs_settled (asyncQueueExecutor b out s) b = qs_settled s b @ [(qs_submitted s b ! length (qs_settled s b), out)]"
    using q by (simp add: asyncQueueExecutor_def)
qed

text \<open>Every job that was queued settles once its bucket has settled the jobs before it.\<close>

lemma drain:
  assumes "queue_inv s" "length outs = length (qs_submitted s b) - length (qs_settled s b)"
  shows "\<exists>s'. queue_step\<^sup>*\<^sup>* s s' \<and> qs_submitted s' b = qs_submitted s b \<and> qs_buckets s' b = None \<and>
    qs_settled s' b = qs_settled s b @ zip (drop (length (qs_settled s b)) (qs_submitted s b)) outs"
  using assms
proof (induction outs arbitrary: s)
  case Nil
  have "length (qs_settled s b) \<le> length (qs_submitted s b)" using Nil.prems(1) unfolding queue_inv_def by (metis length_append length_map le_add1)
  then have "qs_buckets s b = None" using Nil queue_invD(4) [OF Nil.prems(1), of b] by simp
  then show ?case using Nil by auto
next
  case (Cons out outs)
  then have less: "length (qs_settled s b) < length (qs_submitted s b)" by simp
  let ?s = "asyncQueueExecutor b out s"
  note n = settle_next [OF Cons.prems(1) less]
  have sub: "qs_submitted ?s b = qs_submitted s b" using n(2) by (auto simp: asyncQueueExecutor_def)
  have "length outs = length (qs_submitted ?s b) - length (qs_settled ?s b)" using Cons.prems(2) by (simp add: sub n(1))
  from Cons.IH [OF asyncQueueExecutor_inv [OF Cons.prems(1)] this] obtain s' where
    s': "queue_step\<^sup>*\<^sup>* ?s s'" "qs_submitted s' b = qs_submitted s b" "qs_buckets s' b = None"
      "qs_settled s' b = qs_settled ?s b @ zip (drop (length (qs_settled ?s b)) (qs_submitted s b)) outs"
    by (auto simp: sub)
  have "queue_step\<^sup>*\<^sup>* s s'" using converse_rtranclp_into_rtranclp [OF queue_step.Settle [OF n(2)] s'(1)] .
  moreover have "drop (length (qs_settled s b)) (qs_submitted s b) =
      qs_submitted s b ! length (qs_settled s b) # drop (Suc (length (qs_settled s b))) (qs_submitted s b)"
    using less by (simp add: Cons_nth_drop_Suc)
  ultimately show ?case using s' by (auto simp: n(1))
qed

end
