(* ===== verification/Fingerprint.thy ===== *)
theory Fingerprint
  imports Crypto "HOL-Library.List_Lexorder" "HOL-Library.Char_ord"
begin

text \<open>
  \<open>src/numeric-fingerprint.ts\<close>: the safety number of two parties. \<open>utf8\<close> is the encoding of
  \<open>Buffer.from(identifier)\<close>, an argument. \<open>Array.prototype.sort\<close> compares strings by their code
  units, here by their characters.
\<close>

section \<open>Definitions\<close>

definition FINGERPRINT_VERSION :: nat where "FINGERPRINT_VERSION = 0"

fun iterateHash :: "prims \<Rightarrow> bytes \<Rightarrow> bytes \<Rightarrow> nat \<Rightarrow> bytes" where
  "iterateHash P data key 0 = data"
| "iterateHash P data key (Suc n) = iterateHash P (crypto_hash P (data @ key)) key n"

text \<open>\<open>Uint16Array\<close> holds the number modulo \<open>2 ^ 16\<close>, low byte first.\<close>

definition shortToArrayBuffer :: "nat \<Rightarrow> bytes" where
  "shortToArrayBuffer n = [of_nat (n mod 2 ^ 16 mod 256), of_nat (n mod 2 ^ 16 div 256)]"

function pad_zeros :: "string \<Rightarrow> string" where
  "pad_zeros s = (if length s < 5 then pad_zeros (CHR ''0'' # s) else s)"
  by pat_completeness auto
termination by (relation "measure (\<lambda>s. 5 - length s)") auto

declare pad_zeros.simps [simp del]

definition getEncodedChunk :: "bytes \<Rightarrow> nat \<Rightarrow> string" where
  "getEncodedChunk hash offset =
     (let chunk = (unat (hash ! offset) * 2 ^ 32 + unat (hash ! (offset + 1)) * 2 ^ 24 +
                   unat (hash ! (offset + 2)) * 2 ^ 16 + unat (hash ! (offset + 3)) * 2 ^ 8 +
                   unat (hash ! (offset + 4))) mod 100000
      in pad_zeros (nat_to_string chunk))"

definition getDisplayStringFor :: "prims \<Rightarrow> (string \<Rightarrow> bytes) \<Rightarrow> string \<Rightarrow> bytes \<Rightarrow> nat \<Rightarrow> string" where
  "getDisplayStringFor P utf8 identifier key iterations =
     (let bs = shortToArrayBuffer FINGERPRINT_VERSION @ key @ utf8 identifier;
          output = iterateHash P bs key iterations
      in getEncodedChunk output 0 @ getEncodedChunk output 5 @ getEncodedChunk output 10 @
         getEncodedChunk output 15 @ getEncodedChunk output 20 @ getEncodedChunk output 25)"

definition createFor :: "prims \<Rightarrow> (string \<Rightarrow> bytes) \<Rightarrow> nat \<Rightarrow> string \<Rightarrow> bytes \<Rightarrow> string \<Rightarrow> bytes \<Rightarrow> string" where
  "createFor P utf8 iterations localIdentifier localIdentityKey remoteIdentifier remoteIdentityKey =
     concat (sort [getDisplayStringFor P utf8 localIdentifier localIdentityKey iterations,
                   getDisplayStringFor P utf8 remoteIdentifier remoteIdentityKey iterations])"

section \<open>Facts\<close>

lemma nat_to_string_length: "n < 10 ^ Suc k \<Longrightarrow> length (nat_to_string n) \<le> Suc k"
proof (induction k arbitrary: n)
  case 0
  then show ?case by (subst nat_to_string.simps) simp
next
  case (Suc k)
  then have "n div 10 < 10 ^ Suc k" by (simp add: less_mult_imp_div_less mult.commute)
  from Suc.IH [OF this] show ?case by (subst nat_to_string.simps) simp
qed

lemma is_digit_zero: "is_digit (CHR ''0'')"
  by (simp add: is_digit_def)

lemma parse_zero: "parse_digits (CHR ''0'' # s) = parse_digits s"
  by (simp add: parse_digits_def digit_val_def)

lemma pad_zeros_spec:
  "length s \<le> 5 \<Longrightarrow> length (pad_zeros s) = 5"
  "list_all is_digit s \<Longrightarrow> list_all is_digit (pad_zeros s)"
  "parse_digits (pad_zeros s) = parse_digits s"
  by (induction s rule: pad_zeros.induct; subst pad_zeros.simps; simp add: is_digit_zero parse_zero)+

text \<open>A chunk is the five digits of its number.\<close>

lemma chunk_digits:
  "length (getEncodedChunk h i) = 5" "list_all is_digit (getEncodedChunk h i)"
proof -
  obtain c where c: "getEncodedChunk h i = pad_zeros (nat_to_string (c mod 100000))"
    by (simp add: getEncodedChunk_def Let_def)
  have "c mod 100000 < 10 ^ Suc 4" by simp
  from nat_to_string_length [OF this] show "length (getEncodedChunk h i) = 5" "list_all is_digit (getEncodedChunk h i)"
    unfolding c by (simp_all add: pad_zeros_spec nat_to_string_digits)
qed

lemma display_digits:
  "length (getDisplayStringFor P utf8 i k n) = 30" "list_all is_digit (getDisplayStringFor P utf8 i k n)"
  by (simp_all add: getDisplayStringFor_def Let_def chunk_digits)

text \<open>In every round the input is hashed once more.\<close>

lemma iterateHash_step: "iterateHash P data key (Suc n) = crypto_hash P (iterateHash P data key n @ key)"
  by (induction n arbitrary: data) simp_all

lemma iterateHash_length: "hash_ok P \<Longrightarrow> 0 < n \<Longrightarrow> length (iterateHash P data key n) = 64"
  by (cases n) (simp_all only: iterateHash_step, simp_all add: crypto_hash_def hash_ok_def)

end
