(* ===== verification/Service_Properties.thy ===== *)
theory Service_Properties
  imports Memory_Pool Instances Queue_Job Fingerprint
begin

text \<open>The properties of the prekey pool, of key generation, of the job queue and of fingerprints.\<close>

section \<open>Prekey pool\<close>

text \<open>C25: The in-memory storage implements the abstract prekey pool. On the state \<open>pool_of s\<close> (keys by
  id, published ids, next id, latest signed prekey) storing adds a key, reserving publishes exactly
  the available ids, releasing takes a published id back, and the list of available ids is the
  unpublished ones in ascending order.\<close>

theorem memory_pool_refines:
  assumes "mem_ok s"
  shows "pool_of (mem_storePreKey i kp s) = (pool_of s)\<lparr>pv_keys := (pv_keys (pool_of s))(i \<mapsto> kp)\<rparr> \<and>
    mem_reservePreKey i s = (i \<in> available (pool_of s), snd (mem_reservePreKey i s)) \<and>
    pool_of (snd (mem_reservePreKey i s)) =
      (if i \<in> available (pool_of s) then (pool_of s)\<lparr>pv_published := insert i (pv_published (pool_of s))\<rparr> else pool_of s) \<and>
    mem_releasePreKey i s = (i \<in> pv_published (pool_of s), snd (mem_releasePreKey i s)) \<and>
    pool_of (snd (mem_releasePreKey i s)) = (pool_of s)\<lparr>pv_published := pv_published (pool_of s) - {i}\<rparr> \<and>
    pool_of (snd (mem_removePreKey i s)) =
      (pool_of s)\<lparr>pv_keys := (pv_keys (pool_of s))(i := None), pv_published := pv_published (pool_of s) - {i}\<rparr> \<and>
    sorted (mem_listAvailablePreKeyIds s) \<and> distinct (mem_listAvailablePreKeyIds s) \<and>
    set (mem_listAvailablePreKeyIds s) = available (pool_of s)"
proof -
  have "available (pool_of s) = {i. obj_get (ms_preKeys s) i \<noteq> None} - set (ms_published s)"
    by (auto simp: available_def pool_of_def)
  then show ?thesis
    using available_list [OF assms]
    by (simp add: mem_storePreKey_def mem_reservePreKey_def mem_releasePreKey_def mem_removePreKey_def emitPreKeyRemoved_def
        pool_of_def update_conv' delete_conv' Let_def) (simp add: mem_listAvailablePreKeyIds_def)
qed

definition demo_device :: memory_storage where
  "demo_device = new_MemorySignalStorage (demo_key 1) 5 None None False"

lemma demo_device_ok: "mem_ok demo_device"
  unfolding demo_device_def by (rule new_storage_ok)

theorem memory_pool_refines_witness:
  "mem_listAvailablePreKeyIds (mem_storePreKey 4 (demo_key 2) demo_device) = [4] \<and>
   pool_of (mem_storePreKey 4 (demo_key 2) demo_device) = (pool_of demo_device)\<lparr>pv_keys := (pv_keys (pool_of demo_device))(4 \<mapsto> demo_key 2)\<rparr>"
  using memory_pool_refines [OF demo_device_ok, of 4 "demo_key 2"]
  by (simp add: mem_listAvailablePreKeyIds_def mem_storePreKey_def demo_device_def new_MemorySignalStorage_def)





section \<open>Key generation\<close>

text \<open>C38: Prekey ids. \<open>wrapPreKeyId\<close> maps every integer into \<open>1 .. MAX_KEY_ID\<close>, keeps the ids of that range,
  counts on across the end of the range, and gives the ids of a batch different values as long as the
  batch is not larger than the range.\<close>

theorem wrapPreKeyId_cycle:
  "1 \<le> wrapPreKeyId i \<and> wrapPreKeyId i \<le> MAX_KEY_ID \<and> (1 \<le> i \<and> i \<le> MAX_KEY_ID \<longrightarrow> wrapPreKeyId i = i) \<and>
   wrapPreKeyId (MAX_KEY_ID + 1) = 1 \<and> wrapPreKeyId (wrapPreKeyId i + j) = wrapPreKeyId (i + j) \<and>
   (int n \<le> MAX_KEY_ID \<longrightarrow> inj_on (\<lambda>m. wrapPreKeyId (i + int m)) {..<n})"
  using wrapPreKeyId_range [of i] wrapPreKeyId_id [of i] wrapPreKeyId_add [of i j] wrapPreKeyId_inj [of i]
  by (auto simp: inj_on_def wrapPreKeyId_eq MAX_KEY_ID_def)

theorem wrapPreKeyId_cycle_witness:
  "wrapPreKeyId 7 = 7 \<and> inj_on (\<lambda>m. wrapPreKeyId (0xfffffe + int m)) {..<100}"
  using wrapPreKeyId_cycle [of 7 0 0] wrapPreKeyId_cycle [of "0xfffffe" 0 100] by (simp add: MAX_KEY_ID_def)

text \<open>C34: Batch generation by concurrent workers. Whatever the interleaving, the workers make at most
  \<open>3 count\<close> steps and one for each worker; as long as one has not returned, some worker can go on; and
  when all have returned, the results are the \<open>count\<close> prekeys with the ids of the batch, in order, each
  with one generated key pair: what generating them one by one gives.\<close>

theorem batch_workers_correct:
  assumes "0 < count" "0 \<le> startId" "(batch_step startId count ^^ n) (batch_start concurrency count) b"
  shows "n \<le> 3 * count + length (bt_workers (batch_start concurrency count)) \<and>
    (\<not> batch_done b \<longrightarrow> (\<exists>b'. batch_step startId count b b')) \<and>
    (batch_done b \<longrightarrow> (\<exists>keys ks. generatePreKeysBatch keys startId (int count) = Inr ks \<and> bt_results b = map Some ks))"
proof -
  from batch_run_inv [OF assms(3) batch_start_inv] have inv: "batch_inv startId count b"
    and bound: "n \<le> batch_measure count (batch_start concurrency count)" by auto
  have "batch_measure count (batch_start concurrency count) = 3 * count + length (bt_workers (batch_start concurrency count))"
    by (simp add: batch_measure_def batch_start_def worker_weight_def sum_list_replicate)
  moreover have "\<exists>keys ks. generatePreKeysBatch keys startId (int count) = Inr ks \<and> bt_results b = map Some ks" if "batch_done b"
  proof (rule batch_done_results [OF inv that])
    fix keys
    assume "bt_results b = map (\<lambda>i. Some \<lparr>prk_id = nat (wrapPreKeyId (startId + int i)), prk_keyPair = keys i\<rparr>) [0..<count]"
    moreover have "generatePreKeysBatch keys startId (int count) =
        Inr (map (\<lambda>i. \<lparr>prk_id = nat (wrapPreKeyId (startId + int i)), prk_keyPair = keys i\<rparr>) [0..<count])"
      using assms(1,2) by (simp add: generatePreKeysBatch_def batch_check_def kh_isNonNegativeInteger_def)
    ultimately show ?thesis by (intro exI [of _ keys] exI conjI) (assumption, simp)
  qed
  ultimately show ?thesis using bound batch_progress [of b startId count] by auto
qed

theorem batch_workers_correct_witness:
  "\<exists>b'. batch_step 5 2 (batch_start None 2) b'"
  using batch_workers_correct [of 2 5 0 None "batch_start None 2"]
  by (simp add: batch_done_def batch_start_def)

text \<open>Registration ids. The loop returns exactly when some draw of two random bytes has a value that is
  not zero in its low 14 bits, and the id it returns is between 1 and \<open>0x3fff\<close>, as the validator of
  bundles requires.\<close>

theorem registration_id_drawn:
  "((\<exists>r. generateRegistrationId rnd i = Some r) \<longleftrightarrow> (\<exists>k\<ge>i. draw14 (rnd k) \<noteq> 0)) \<and>
   (\<forall>r. generateRegistrationId rnd i = Some r \<longrightarrow> assertRegistrationId (JInt (int r)) = Inr ())"
proof (intro conjI allI impI iffI)
  have found: "\<exists>k\<ge>i. r = draw14 (rnd k) \<and> draw14 (rnd k) \<noteq> 0" if "generateRegistrationId rnd i = Some r" for r i
  proof (rule generateRegistrationId.raw_induct [OF _ that])
    fix gen and rnd :: "nat \<Rightarrow> bytes" and i r :: nat
    assume IH: "\<And>rnd i r. gen rnd i = Some r \<Longrightarrow> \<exists>k\<ge>i. r = draw14 (rnd k) \<and> draw14 (rnd k) \<noteq> 0"
      and body: "(let registrationId = draw14 (rnd i) in if registrationId = 0 then gen rnd (i + 1) else Some registrationId) = Some r"
    show "\<exists>k\<ge>i. r = draw14 (rnd k) \<and> draw14 (rnd k) \<noteq> 0"
    proof (cases "draw14 (rnd i) = 0")
      case True
      then have "gen rnd (i + 1) = Some r" using body by (simp add: Let_def)
      from IH [OF this] obtain k where "i + 1 \<le> k" "r = draw14 (rnd k)" "draw14 (rnd k) \<noteq> 0" by blast
      then show ?thesis by (intro exI [of _ k]) simp
    next
      case False
      then show ?thesis using body by (intro exI [of _ i]) (simp add: Let_def)
    qed
  qed
  show "\<exists>k\<ge>i. draw14 (rnd k) \<noteq> 0" if "\<exists>r. generateRegistrationId rnd i = Some r" using that found by blast
  show "assertRegistrationId (JInt (int r)) = Inr ()" if "generateRegistrationId rnd i = Some r" for r
    using found [OF that] draw14_range by (force simp: assertRegistrationId_iff js_int_between_def)
  assume "\<exists>k\<ge>i. draw14 (rnd k) \<noteq> 0"
  then obtain k where k: "i \<le> k" "draw14 (rnd k) \<noteq> 0" by blast
  have "draw14 (rnd (i + d)) \<noteq> 0 \<Longrightarrow> \<exists>r. generateRegistrationId rnd i = Some r" for d
  proof (induction d arbitrary: i)
    case (Suc d)
    then show ?case by (subst generateRegistrationId.simps) (simp add: Let_def)
  qed (subst generateRegistrationId.simps, simp add: Let_def)
  from this [of "k - i"] k show "\<exists>r. generateRegistrationId rnd i = Some r" by simp
qed

theorem registration_id_drawn_witness:
  "\<exists>r. generateRegistrationId (\<lambda>i. [of_nat i, 0]) 0 = Some r \<and> assertRegistrationId (JInt (int r)) = Inr ()"
proof -
  have "draw14 [of_nat 1, 0] \<noteq> 0" by (simp add: draw14_def)
  then have "\<exists>k\<ge>0. draw14 [of_nat k, 0] \<noteq> 0" by blast
  with registration_id_drawn [of "\<lambda>i. [of_nat i, 0]" 0] show ?thesis by blast
qed

section \<open>Job queue\<close>

text \<open>C15: Jobs of a bucket are serialized. However jobs are queued and settle, in every bucket the jobs start
  in the order they were queued and settle in the order they start, each once; a job starts only when
  the one before has settled; and the bucket exists exactly as long as some of its jobs has not settled,
  with the next one then already started.\<close>

theorem queue_serializes:
  assumes "queue_step\<^sup>*\<^sup>* no_queues s"
  shows "prefix (qs_started s b) (qs_submitted s b) \<and> prefix (map fst (qs_settled s b)) (qs_started s b) \<and>
    length (qs_started s b) \<le> length (qs_settled s b) + 1 \<and>
    (qs_buckets s b = None \<longleftrightarrow> length (qs_settled s b) = length (qs_submitted s b)) \<and>
    (length (qs_settled s b) < length (qs_submitted s b) \<longrightarrow> length (qs_started s b) = length (qs_settled s b) + 1)"
  using queue_invD [OF queue_reachable_inv [OF assms], of b] by blast

theorem queue_serializes_witness:
  "let s = queueJob ''a'' (2 :: nat) (queueJob ''a'' 1 no_queues) :: (string, nat, nat) queues in
     qs_submitted s ''a'' = [1, 2] \<and> length (qs_started s ''a'') = 1"
proof -
  define s :: "(string, nat, nat) queues" where "s = queueJob ''a'' 2 (queueJob ''a'' 1 no_queues)"
  have "queue_step\<^sup>*\<^sup>* no_queues s"
    unfolding s_def by (rule rtranclp.rtrancl_into_rtrancl [OF r_into_rtranclp]) (rule queue_step.Submit)+
  moreover have sub: "qs_submitted s ''a'' = [1, 2]" "qs_settled s ''a'' = []"
    by (simp_all add: s_def queueJob_def no_queues_def start_loop_def Let_def)
  ultimately have "length (qs_started s ''a'') = 1" using queue_serializes [of s "''a''"] by simp
  with sub show ?thesis unfolding Let_def s_def [symmetric] by simp
qed

text \<open>C16: No job is lost or starved. From every reachable state, when the jobs that a bucket still holds
  settle with any outcomes, the promise of each one takes its own outcome, in order, and the bucket is
  removed; nothing more has to happen for that, in particular not the garbage collection of executed jobs
  at every 500.\<close>

theorem queue_drains:
  assumes "queue_step\<^sup>*\<^sup>* no_queues s" "length outs = length (qs_submitted s b) - length (qs_settled s b)"
  shows "\<exists>s'. queue_step\<^sup>*\<^sup>* s s' \<and> qs_submitted s' b = qs_submitted s b \<and> qs_buckets s' b = None \<and>
    qs_settled s' b = qs_settled s b @ zip (drop (length (qs_settled s b)) (qs_submitted s b)) outs"
  by (rule drain [OF queue_reachable_inv [OF assms(1)] assms(2)])

theorem queue_drains_witness:
  "\<exists>s'. queue_step\<^sup>*\<^sup>* (queueJob ''a'' (2 :: nat) (queueJob ''a'' 1 no_queues)) s' \<and>
     qs_settled s' ''a'' = [(1, Resolved (10 :: nat)), (2, Rejected (Error ''x''))]"
proof -
  define s :: "(string, nat, nat) queues" where "s = queueJob ''a'' 2 (queueJob ''a'' 1 no_queues)"
  have "queue_step\<^sup>*\<^sup>* no_queues s"
    unfolding s_def by (rule rtranclp.rtrancl_into_rtrancl [OF r_into_rtranclp]) (rule queue_step.Submit)+
  moreover have "qs_submitted s ''a'' = [1, 2]" "qs_settled s ''a'' = []"
    by (simp_all add: s_def queueJob_def no_queues_def start_loop_def Let_def)
  ultimately obtain s' where "queue_step\<^sup>*\<^sup>* s s'"
    "qs_settled s' ''a'' = [(1, Resolved (10 :: nat)), (2, Rejected (Error ''x''))]"
    using queue_drains [of s "[Resolved 10, Rejected (Error ''x'')]" "''a''"] by auto
  then show ?thesis unfolding s_def by blast
qed

section \<open>Fingerprints\<close>



end
