(* ===== verification/File_Format.thy ===== *)
theory File_Format
  imports Memory_Storage Prekey_Validator
begin

text \<open>
  \<open>src/file-storage.ts\<close>, first part: the format of the file, its validation and its encryption.

  A text is handed over as the JSON value it denotes, or as a text that is not JSON. The properties
  of the file's object are values of type \<open>jsval\<close>, with buffers in the form \<open>JSON.stringify\<close> gives
  them; the values of two properties, \<open>sessions\<close> and \<open>senderKeys\<close>, are themselves the serialized
  records of the storage and keep their type: a buffer that holds a serialized session record, an
  array of serialized sender key states. AES-256-GCM of Node's crypto is the parameter \<open>gcm\<close>.
\<close>

section \<open>Constants\<close>

definition ENCRYPTION_KEY_LENGTH :: nat where "ENCRYPTION_KEY_LENGTH = 32"
definition ENCRYPTION_IV_LENGTH :: nat where "ENCRYPTION_IV_LENGTH = 12"
definition CURRENT_FORMAT_VERSION :: int where "CURRENT_FORMAT_VERSION = 1"
definition LEGACY_FORMAT_VERSION :: int where "LEGACY_FORMAT_VERSION = 1"
definition FS_MIN_REGISTRATION_ID :: int where "FS_MIN_REGISTRATION_ID = 0"
definition FS_MAX_REGISTRATION_ID :: int where "FS_MAX_REGISTRATION_ID = 0x3fff"
definition MAX_SAFE_INTEGER :: int where "MAX_SAFE_INTEGER = 2 ^ 53 - 1"

section \<open>JSON values\<close>

text \<open>
  \<open>to_json\<close> is the part of \<open>JSON.stringify\<close> that rewrites buffers, \<open>revive\<close> the application of
  \<open>bufferReviver\<close> by \<open>JSON.parse\<close>, from the inside out.
\<close>

definition buffer_json :: "bytes \<Rightarrow> jsval" where
  "buffer_json b = JObj [(''type'', JStr ''Buffer''), (''data'', JArr (map (\<lambda>w. JInt (uint w)) b))]"

primrec to_json :: "jsval \<Rightarrow> jsval" where
  "to_json JUndef = JUndef"
| "to_json JNull = JNull"
| "to_json (JBool b) = JBool b"
| "to_json (JInt n) = JInt n"
| "to_json (JFrac n) = JFrac n"
| "to_json JNaN = JNaN"
| "to_json (JStr s) = JStr s"
| "to_json (JBuf b) = buffer_json b"
| "to_json (JArr xs) = JArr (map to_json xs)"
| "to_json (JObj ps) = JObj (map (map_prod id to_json) ps)"

definition bufferReviver :: "jsval \<Rightarrow> jsval" where
  "bufferReviver v =
     (if js_truthy v \<and> js_is_object v \<and> js_get v ''type'' = JStr ''Buffer'' then
        (case js_get v ''data'' of JArr xs \<Rightarrow> JBuf (map byte_of_js xs) | _ \<Rightarrow> v)
      else v)"

primrec revive :: "jsval \<Rightarrow> jsval" where
  "revive JUndef = bufferReviver JUndef"
| "revive JNull = bufferReviver JNull"
| "revive (JBool b) = bufferReviver (JBool b)"
| "revive (JInt n) = bufferReviver (JInt n)"
| "revive (JFrac n) = bufferReviver (JFrac n)"
| "revive JNaN = bufferReviver JNaN"
| "revive (JStr s) = bufferReviver (JStr s)"
| "revive (JBuf b) = bufferReviver (JBuf b)"
| "revive (JArr xs) = bufferReviver (JArr (map revive xs))"
| "revive (JObj ps) = bufferReviver (JObj (map (map_prod id revive) ps))"

text \<open>\<open>isRecord\<close> and \<open>Object.entries\<close>; the entries of a buffer are its bytes.\<close>

fun isRecord :: "jsval \<Rightarrow> bool" where
  "isRecord (JObj _) = True"
| "isRecord (JBuf _) = True"
| "isRecord _ = False"

fun js_entries :: "jsval \<Rightarrow> (string \<times> jsval) list" where
  "js_entries (JObj ps) = ps"
| "js_entries (JBuf b) = map (\<lambda>i. (nat_to_string i, JInt (uint (b ! i)))) [0..<length b]"
| "js_entries _ = []"

text \<open>\<open>a ?? b\<close>.\<close>

definition js_default :: "jsval \<Rightarrow> jsval \<Rightarrow> jsval" where
  "js_default a b = (if a = JUndef \<or> a = JNull then b else a)"

text \<open>
  \<open>Number(id)\<close> on the decimal numerals that ids are written as; the empty string is 0. Other
  spellings of numbers (signs, fractions, hexadecimal) never come from \<open>JSON.stringify\<close> of an id
  and count as \<open>NaN\<close>.
\<close>

definition js_number :: "string \<Rightarrow> jsval" where
  "js_number s = (if list_all is_digit s then JInt (int (parse_digits s)) else JNaN)"

section \<open>The object in the file\<close>

text \<open>
  A property that is absent, \<open>null\<close> or \<open>undefined\<close>; one that is not an object; an object whose
  entries are of the expected kind (\<open>Some\<close>) or not (\<open>None\<close>).
\<close>

datatype 'a raw_prop = RAbsent | RNotObject | RObject "(string \<times> 'a option) list"

text \<open>The contents of a session's buffer: a serialized record, or something else.\<close>

type_synonym session_buffer = "ser_record option"

record raw_state =
  rw_formatVersion :: jsval
  rw_revision :: jsval
  rw_identityKeyPair :: jsval
  rw_registrationId :: jsval
  rw_nextPreKeyId :: jsval
  rw_latestSignedPreKey :: jsval
  rw_preKeys :: jsval
  rw_publishedPreKeyIds :: jsval
  rw_signedPreKeys :: jsval
  rw_retiredSignedPreKeys :: jsval
  rw_trustedIdentities :: jsval
  rw_sessions :: "session_buffer raw_prop"
  rw_senderKeys :: "ser_sender_key_state list raw_prop"
  rw_encrypted :: jsval
  rw_iv :: jsval
  rw_authTag :: jsval
  rw_data :: jsval

definition no_properties :: raw_state where
  "no_properties =
     \<lparr>rw_formatVersion = JUndef, rw_revision = JUndef, rw_identityKeyPair = JUndef, rw_registrationId = JUndef,
      rw_nextPreKeyId = JUndef, rw_latestSignedPreKey = JUndef, rw_preKeys = JUndef, rw_publishedPreKeyIds = JUndef,
      rw_signedPreKeys = JUndef, rw_retiredSignedPreKeys = JUndef, rw_trustedIdentities = JUndef,
      rw_sessions = RAbsent, rw_senderKeys = RAbsent,
      rw_encrypted = JUndef, rw_iv = JUndef, rw_authTag = JUndef, rw_data = JUndef\<rparr>"

datatype json_value = JsonObject raw_state | JsonOther

datatype file_text = Json json_value | NotJson

record persisted_state =
  pd_formatVersion :: int
  pd_revision :: int
  pd_identityKeyPair :: key_pair
  pd_registrationId :: int
  pd_nextPreKeyId :: int
  pd_latestSignedPreKey :: "signed_pre_key option"
  pd_preKeys :: "(string \<times> key_pair) list"
  pd_publishedPreKeyIds :: "int list"
  pd_signedPreKeys :: "(string \<times> key_pair) list"
  pd_retiredSignedPreKeys :: "(string \<times> int) list"
  pd_trustedIdentities :: "(string \<times> bytes) list"
  pd_sessions :: "(string \<times> session_buffer) list"
  pd_senderKeys :: "(string \<times> ser_sender_key_state list) list"

section \<open>Encryption at rest\<close>

text \<open>
  \<open>gcm_seal key iv text\<close> is the ciphertext and the authentication tag; \<open>gcm_open key iv tag data\<close> is
  the text, or nothing when the tag does not match or an argument is refused.
\<close>

record gcm =
  gcm_seal :: "bytes \<Rightarrow> bytes \<Rightarrow> file_text \<Rightarrow> bytes \<times> bytes"
  gcm_open :: "bytes \<Rightarrow> bytes \<Rightarrow> bytes \<Rightarrow> bytes \<Rightarrow> file_text option"

fun is_js_str :: "jsval \<Rightarrow> bool" where
  "is_js_str (JStr s) = True"
| "is_js_str _ = False"

fun js_str :: "jsval \<Rightarrow> string" where
  "js_str (JStr s) = s"
| "js_str _ = []"

definition isEncryptedPayload :: "json_value \<Rightarrow> bool" where
  "isEncryptedPayload v =
     (case v of
        JsonOther \<Rightarrow> False
      | JsonObject r \<Rightarrow>
          rw_encrypted r = JBool True \<and> is_js_str (rw_iv r) \<and> is_js_str (rw_authTag r) \<and> is_js_str (rw_data r))"

definition encryptPayload :: "gcm \<Rightarrow> bytes \<Rightarrow> file_text \<Rightarrow> bytes \<Rightarrow> file_text" where
  "encryptPayload G iv plaintext key =
     (let (ciphertext, tag) = gcm_seal G key iv plaintext in
      Json (JsonObject (no_properties\<lparr>rw_encrypted := JBool True, rw_iv := JStr (b64_encode iv),
        rw_authTag := JStr (b64_encode tag), rw_data := JStr (b64_encode ciphertext)\<rparr>)))"

definition decryptPayload :: "gcm \<Rightarrow> json_value \<Rightarrow> bytes \<Rightarrow> error + file_text" where
  "decryptPayload G v key =
     (case v of
        JsonOther \<Rightarrow> Inl (TypeError ''payload'')
      | JsonObject r \<Rightarrow>
          (case gcm_open G key (b64_decode (js_str (rw_iv r))) (b64_decode (js_str (rw_authTag r)))
                  (b64_decode (js_str (rw_data r))) of
             None \<Rightarrow> Inl (Error ''Unsupported state or unable to authenticate data'')
           | Some t \<Rightarrow> Inr t))"

section \<open>Validation\<close>

text \<open>Each check returns the value with the type it asserts.\<close>

definition assertBuffer :: "jsval \<Rightarrow> string \<Rightarrow> nat option \<Rightarrow> error + bytes" where
  "assertBuffer v field len =
     (case v of
        JBuf b \<Rightarrow>
          (case len of
             Some n \<Rightarrow> if length b \<noteq> n then Inl (Error (field @ '' has the wrong length'')) else Inr b
           | None \<Rightarrow> Inr b)
      | _ \<Rightarrow> Inl (Error (field @ '' must be a Buffer'')))"

definition assertInteger :: "jsval \<Rightarrow> string \<Rightarrow> int \<Rightarrow> int \<Rightarrow> error + int" where
  "assertInteger v field mn mx =
     (case v of
        JInt n \<Rightarrow> if n < mn \<or> n > mx then Inl (Error (field @ '' must be an integer'')) else Inr n
      | _ \<Rightarrow> Inl (Error (field @ '' must be an integer'')))"

definition assertKeyPair :: "jsval \<Rightarrow> string \<Rightarrow> error + key_pair" where
  "assertKeyPair v field =
     (if \<not> isRecord v then Inl (Error (field @ '' must be an object''))
      else
        rbind (assertBuffer (js_get v ''pubKey'') (field @ ''.pubKey'') (Some 33)) (\<lambda>pub.
        rbind (assertBuffer (js_get v ''privKey'') (field @ ''.privKey'') (Some 32)) (\<lambda>priv.
          Inr \<lparr>pubKey = pub, privKey = priv\<rparr>)))"

text \<open>\<open>for (const [id, v] of Object.entries(...))\<close>: the entries in order, the first failure ends it.\<close>

primrec each_entry :: "(string \<Rightarrow> 'a \<Rightarrow> error + 'b) \<Rightarrow> (string \<times> 'a) list \<Rightarrow> error + (string \<times> 'b) list" where
  "each_entry f [] = Inr []"
| "each_entry f (p # ps) =
     rbind (f (fst p) (snd p)) (\<lambda>y. rbind (each_entry f ps) (\<lambda>ys. Inr ((fst p, y) # ys)))"

definition assertKeyPairMap :: "jsval \<Rightarrow> string \<Rightarrow> error + (string \<times> key_pair) list" where
  "assertKeyPairMap v field =
     (if \<not> isRecord v then Inl (Error (field @ '' must be an object''))
      else each_entry (\<lambda>i kp.
        rbind (assertInteger (js_number i) (field @ '' key id'') 0 MAX_KEY_ID) (\<lambda>_. assertKeyPair kp field)) (js_entries v))"

definition assertBufferMap :: "jsval \<Rightarrow> string \<Rightarrow> nat option \<Rightarrow> error + (string \<times> bytes) list" where
  "assertBufferMap v field len =
     (if \<not> isRecord v then Inl (Error (field @ '' must be an object''))
      else each_entry (\<lambda>i b. assertBuffer b field len) (js_entries v))"

definition assertRetiredSignedPreKeys :: "jsval \<Rightarrow> error + (string \<times> int) list" where
  "assertRetiredSignedPreKeys v =
     (if \<not> isRecord v then Inl (Error ''retiredSignedPreKeys must be an object'')
      else each_entry (\<lambda>i timestamp.
        rbind (assertInteger (js_number i) ''retiredSignedPreKeys key id'' 0 MAX_KEY_ID) (\<lambda>_.
          assertInteger timestamp ''retiredSignedPreKeys'' 0 MAX_SAFE_INTEGER)) (js_entries v))"

primrec assert_ids :: "jsval list \<Rightarrow> string \<Rightarrow> error + int list" where
  "assert_ids [] field = Inr []"
| "assert_ids (v # vs) field =
     rbind (assertInteger v (field @ '' id'') 0 MAX_KEY_ID) (\<lambda>i. rbind (assert_ids vs field) (\<lambda>is. Inr (i # is)))"

definition assertNumberArray :: "jsval \<Rightarrow> string \<Rightarrow> error + int list" where
  "assertNumberArray v field =
     (case v of JArr xs \<Rightarrow> assert_ids xs field | _ \<Rightarrow> Inl (Error (field @ '' must be an array'')))"

text \<open>
  The two maps whose entries keep their type: \<open>assertBufferMap(sessions, "sessions")\<close> asks that the
  entries are buffers, \<open>assertSenderKeys\<close> that they are arrays of objects.
\<close>

definition assert_entries :: "'a raw_prop \<Rightarrow> string \<Rightarrow> error + (string \<times> 'a) list" where
  "assert_entries v field =
     (case v of
        RAbsent \<Rightarrow> Inr []
      | RNotObject \<Rightarrow> Inl (Error (field @ '' must be an object''))
      | RObject ps \<Rightarrow>
          each_entry (\<lambda>i x. case x of None \<Rightarrow> Inl (Error (field @ '' has an invalid entry'')) | Some y \<Rightarrow> Inr y) ps)"

definition assertSenderKeys :: "ser_sender_key_state list raw_prop \<Rightarrow> error + (string \<times> ser_sender_key_state list) list" where
  "assertSenderKeys v = assert_entries v ''senderKeys''"

definition assertSignedPreKey :: "jsval \<Rightarrow> string \<Rightarrow> error + signed_pre_key" where
  "assertSignedPreKey v field =
     (if \<not> isRecord v then Inl (Error (field @ '' must be an object''))
      else
        rbind (assertInteger (js_get v ''keyId'') (field @ ''.keyId'') 0 MAX_KEY_ID) (\<lambda>keyId.
        rbind (assertKeyPair (js_get v ''keyPair'') (field @ ''.keyPair'')) (\<lambda>keyPair.
        rbind (assertBuffer (js_get v ''signature'') (field @ ''.signature'') (Some 64)) (\<lambda>signature.
        rbind (assertInteger (js_get v ''createdAt'') (field @ ''.createdAt'') 0 MAX_SAFE_INTEGER) (\<lambda>createdAt.
          Inr \<lparr>spk_id = nat keyId, spk_keyPair = keyPair, spk_sig = signature, spk_createdAt = createdAt\<rparr>)))))"

definition format_version :: "jsval \<Rightarrow> error + int" where
  "format_version v =
     (case (if v = JUndef then JInt LEGACY_FORMAT_VERSION else v) of
        JInt n \<Rightarrow>
          if n < 1 then Inl (Error ''invalid formatVersion'')
          else if n > CURRENT_FORMAT_VERSION then Inl (UnsupportedFormatVersionError ''unsupported formatVersion'')
          else Inr n
      | _ \<Rightarrow> Inl (Error ''invalid formatVersion''))"

definition normalizePersistedState :: "json_value \<Rightarrow> error + persisted_state" where
  "normalizePersistedState value =
     (case value of
        JsonOther \<Rightarrow> Inl (Error ''state must be an object'')
      | JsonObject r \<Rightarrow>
          let rv = (\<lambda>f. revive (f r)) in
          rbind (format_version (rv rw_formatVersion)) (\<lambda>_.
          rbind (assertKeyPair (rv rw_identityKeyPair) ''identityKeyPair'') (\<lambda>identityKeyPair.
          rbind (assertInteger (rv rw_registrationId) ''registrationId'' FS_MIN_REGISTRATION_ID FS_MAX_REGISTRATION_ID) (\<lambda>registrationId.
          rbind (assertInteger (js_default (rv rw_revision) (JInt 0)) ''revision'' 0 MAX_SAFE_INTEGER) (\<lambda>revision.
          rbind (assertInteger (js_default (rv rw_nextPreKeyId) (JInt 1)) ''nextPreKeyId'' 0 MAX_KEY_ID) (\<lambda>nextPreKeyId.
          rbind (assertKeyPairMap (js_default (rv rw_preKeys) (JObj [])) ''preKeys'') (\<lambda>preKeys.
          rbind (assertNumberArray (js_default (rv rw_publishedPreKeyIds) (JArr [])) ''publishedPreKeyIds'') (\<lambda>publishedPreKeyIds.
          rbind (assertKeyPairMap (js_default (rv rw_signedPreKeys) (JObj [])) ''signedPreKeys'') (\<lambda>signedPreKeys.
          rbind (assertRetiredSignedPreKeys (js_default (rv rw_retiredSignedPreKeys) (JObj []))) (\<lambda>retired.
          rbind (assertBufferMap (js_default (rv rw_trustedIdentities) (JObj [])) ''trustedIdentities'' (Some 33)) (\<lambda>trusted.
          rbind (assert_entries (rw_sessions r) ''sessions'') (\<lambda>sessions.
          rbind (assertSenderKeys (rw_senderKeys r)) (\<lambda>senderKeys.
          rbind (if rv rw_latestSignedPreKey = JUndef then Inr None
                 else rbind (assertSignedPreKey (rv rw_latestSignedPreKey) ''latestSignedPreKey'') (\<lambda>l. Inr (Some l))) (\<lambda>latest.
            Inr \<lparr>pd_formatVersion = CURRENT_FORMAT_VERSION, pd_revision = revision, pd_identityKeyPair = identityKeyPair,
              pd_registrationId = registrationId, pd_nextPreKeyId = nextPreKeyId, pd_latestSignedPreKey = latest,
              pd_preKeys = preKeys, pd_publishedPreKeyIds = rev (remdups (rev publishedPreKeyIds)),
              pd_signedPreKeys = signedPreKeys, pd_retiredSignedPreKeys = retired, pd_trustedIdentities = trusted,
              pd_sessions = sessions, pd_senderKeys = senderKeys\<rparr>))))))))))))))"

section \<open>Loading\<close>

definition deserialize_session :: "session_buffer \<Rightarrow> error + session_record" where
  "deserialize_session b =
     (case b of None \<Rightarrow> Inl (Error ''Unexpected token in JSON'') | Some d \<Rightarrow> SessionRecord_deserialize d)"

definition validate_records :: "persisted_state \<Rightarrow> error + unit" where
  "validate_records data =
     rbind (each_entry (\<lambda>i b. deserialize_session b) (pd_sessions data)) (\<lambda>_.
     rbind (each_entry (\<lambda>i r. SenderKeyRecord_deserialize r) (pd_senderKeys data)) (\<lambda>_. Inr ()))"

text \<open>\<open>throw e\<close> or \<open>throw new CorruptStorageFileError(...)\<close>.\<close>

definition corrupt_unless_unsupported :: "error + 'a \<Rightarrow> error + 'a" where
  "corrupt_unless_unsupported r =
     (case r of
        Inr x \<Rightarrow> Inr x
      | Inl (UnsupportedFormatVersionError m) \<Rightarrow> Inl (UnsupportedFormatVersionError m)
      | Inl _ \<Rightarrow> Inl (CorruptStorageFileError ''Invalid FileSignalStorage state''))"

text \<open>The state and whether its format was migrated. The file may be missing, or unreadable.\<close>

definition loadPersistedState :: "gcm \<Rightarrow> bytes option \<Rightarrow> bool \<Rightarrow> file_text option \<Rightarrow> error + (persisted_state \<times> bool)" where
  "loadPersistedState G encryptionKey validateRecords file =
     (case file of
        None \<Rightarrow> Inl (Error ''Failed to read FileSignalStorage'')
      | Some NotJson \<Rightarrow> Inl (CorruptStorageFileError ''Invalid FileSignalStorage JSON'')
      | Some (Json parsed) \<Rightarrow>
          rbind (if isEncryptedPayload parsed then
                   (case encryptionKey of
                      None \<Rightarrow> Inl (Error ''File is encrypted; encryptionKey is required'')
                    | Some key \<Rightarrow>
                        (case decryptPayload G parsed key of
                           Inl _ \<Rightarrow> Inl (Error ''Failed to decrypt FileSignalStorage'')
                         | Inr json \<Rightarrow> Inr json))
                 else Inr (Json parsed)) (\<lambda>json.
          case json of
            NotJson \<Rightarrow> Inl (CorruptStorageFileError ''Invalid FileSignalStorage state'')
          | Json rawState \<Rightarrow>
              let migrated = (case rawState of
                    JsonOther \<Rightarrow> True
                  | JsonObject r \<Rightarrow> revive (rw_formatVersion r) \<noteq> JInt CURRENT_FORMAT_VERSION)
              in corrupt_unless_unsupported
                   (rbind (normalizePersistedState rawState) (\<lambda>data.
                    rbind (if validateRecords then validate_records data else Inr ()) (\<lambda>_.
                      Inr (data, migrated))))))"

end
