(* ===== verification/File_Storage.thy ===== *)
theory File_Storage
  imports File_Format
begin

text \<open>
  \<open>src/file-storage.ts\<close>, second part: the class \<open>FileSignalStorage\<close> over a file system.

  The disk holds the snapshot, the backup and temporary files of one storage. Each call that
  changes it may fail, and \<open>wd_trace\<close> lists the disk after every call, the last one first: the
  states that a crash of the process can leave behind. \<open>fsync\<close> and \<open>chmod\<close> are best effort and
  have no effect here. A call that waits for the lock file is one call that succeeds or fails;
  \<open>File_Lock\<close> models how it waits.
\<close>

section \<open>The disk\<close>

record disk =
  dk_main :: "file_text option"
  dk_backup :: "file_text option"
  dk_tmp :: "file_text option"
  dk_corrupt :: "file_text list"

record world =
  wd_disk :: disk
  wd_faults :: "bool list"
  wd_trace :: "disk list"

text \<open>
  A call with its effect when it succeeds, the disk it may leave behind half way, and the error it
  throws. The next element of \<open>wd_faults\<close> says whether it fails; without one it succeeds.
\<close>

definition io_call :: "(disk \<Rightarrow> disk) \<Rightarrow> (disk \<Rightarrow> disk) \<Rightarrow> error \<Rightarrow> (world, unit) op" where
  "io_call done halfway err w =
     (let failed = (case wd_faults w of [] \<Rightarrow> False | b # _ \<Rightarrow> b);
          d1 = halfway (wd_disk w); d2 = (if failed then d1 else done (wd_disk w))
      in (if failed then Inl err else Inr (),
          \<lparr>wd_disk = d2, wd_faults = drop 1 (wd_faults w), wd_trace = d2 # d1 # wd_trace w\<rparr>))"

text \<open>\<open>try { ... } catch { }\<close> around calls whose failure is ignored.\<close>

definition best_effort :: "('s, unit) op \<Rightarrow> ('s, unit) op" where
  "best_effort f s = (Inr (), snd (f s))"

definition writeTmp :: "file_text \<Rightarrow> (world, unit) op" where
  "writeTmp payload =
     io_call (\<lambda>d. d\<lparr>dk_tmp := Some payload\<rparr>) (\<lambda>d. d\<lparr>dk_tmp := Some NotJson\<rparr>) (Error ''writeFileSync'')"

definition removeTmp :: "(world, unit) op" where
  "removeTmp = io_call (\<lambda>d. d\<lparr>dk_tmp := None\<rparr>) id (Error ''rmSync'')"

definition removeBackup :: "(world, unit) op" where
  "removeBackup = io_call (\<lambda>d. d\<lparr>dk_backup := None\<rparr>) id (Error ''rmSync'')"

definition renameMainToBackup :: "(world, unit) op" where
  "renameMainToBackup = io_call (\<lambda>d. d\<lparr>dk_backup := dk_main d, dk_main := None\<rparr>) id (Error ''renameSync'')"

definition renameTmpToMain :: "(world, unit) op" where
  "renameTmpToMain = io_call (\<lambda>d. d\<lparr>dk_main := dk_tmp d, dk_tmp := None\<rparr>) id (Error ''renameSync'')"

definition renameBackupToMain :: "(world, unit) op" where
  "renameBackupToMain = io_call (\<lambda>d. d\<lparr>dk_main := dk_backup d, dk_backup := None\<rparr>) id (Error ''renameSync'')"

definition renameMainToCorrupt :: "(world, unit) op" where
  "renameMainToCorrupt =
     io_call (\<lambda>d. d\<lparr>dk_corrupt := dk_corrupt d @ (case dk_main d of None \<Rightarrow> [] | Some t \<Rightarrow> [t]), dk_main := None\<rparr>) id
       (Error ''renameSync'')"

definition copyBackupToMain :: "(world, unit) op" where
  "copyBackupToMain = io_call (\<lambda>d. d\<lparr>dk_main := dk_backup d\<rparr>) (\<lambda>d. d\<lparr>dk_main := Some NotJson\<rparr>) (Error ''copyFileSync'')"

definition cleanupTemporaryFiles :: "(world, unit) op" where
  "cleanupTemporaryFiles = best_effort removeTmp"

definition acquireLock :: "(world, unit) op" where
  "acquireLock = io_call id id (FileSignalStorageLockError ''FileSignalStorage is already locked by another process'')"

section \<open>The storage\<close>

text \<open>The fields it has in common with \<open>MemorySignalStorage\<close> are \<open>fs_mem\<close>; the methods on them have the same text.\<close>

record file_storage =
  fs_mem :: memory_storage
  fs_revision :: int
  fs_encryptionKey :: "bytes option"
  fs_lockEnabled :: bool
  fs_backupEnabled :: bool
  fs_saveTimer :: bool
  fs_dirty :: bool
  fs_closed :: bool
  fs_saveErrors :: "error list"

record file_options =
  fo_signedPreKeyGracePeriodMs :: "int option"
  fo_encryptionKey :: "bytes option"
  fo_identityTrustPolicy :: "identity_trust_policy option"
  fo_onIdentityChanged :: bool
  fo_lock :: "bool option"
  fo_backup :: "bool option"

text \<open>What an operation draws from outside: the initialization vector of a save, the clock.\<close>

record file_env =
  fe_gcm :: gcm
  fe_iv :: bytes
  fe_now :: int

type_synonym 'a file_op = "(file_storage \<times> world, 'a) op"

definition on_world :: "(world, 'a) op \<Rightarrow> 'a file_op" where
  "on_world f = (\<lambda>(st, w). let (r, w') = f w in (r, (st, w')))"

definition on_storage :: "(file_storage \<Rightarrow> file_storage) \<Rightarrow> unit file_op" where
  "on_storage f = (\<lambda>(st, w). (Inr (), (f st, w)))"

definition new_FileSignalStorage :: "key_pair \<Rightarrow> nat \<Rightarrow> file_options \<Rightarrow> file_storage" where
  "new_FileSignalStorage identity registrationId options =
     \<lparr>fs_mem = new_MemorySignalStorage identity registrationId (fo_signedPreKeyGracePeriodMs options)
                 (fo_identityTrustPolicy options) (fo_onIdentityChanged options),
      fs_revision = 0, fs_encryptionKey = fo_encryptionKey options,
      fs_lockEnabled = (fo_lock options \<noteq> Some False), fs_backupEnabled = (fo_backup options \<noteq> Some False),
      fs_saveTimer = False, fs_dirty = False, fs_closed = False, fs_saveErrors = []\<rparr>"

section \<open>Snapshots\<close>

text \<open>
  The order of the properties of an object: ids below \<open>2 ^ 32 - 1\<close> ascending, then the other names in
  insertion order. An assignment to \<open>__proto__\<close> creates no property.
\<close>

definition array_index :: "string \<Rightarrow> bool" where
  "array_index k \<longleftrightarrow> k \<noteq> [] \<and> list_all is_digit k \<and> parse_digits k < 2 ^ 32 - 1 \<and> nat_to_string (parse_digits k) = k"

definition prop_order :: "(string \<times> 'a) list \<Rightarrow> (string \<times> 'a) list" where
  "prop_order m =
     sort_key (\<lambda>p. parse_digits (fst p)) (filter (\<lambda>p. array_index (fst p)) m) @ filter (\<lambda>p. \<not> array_index (fst p)) m"

definition id_props :: "(nat \<times> 'a) list \<Rightarrow> (string \<times> 'a) list" where
  "id_props m = prop_order (map (\<lambda>(i, v). (nat_to_string i, v)) m)"

definition assigned :: "(string \<times> 'a) list \<Rightarrow> (string \<times> 'a) list" where
  "assigned m = prop_order (filter (\<lambda>p. fst p \<noteq> ''__proto__'') m)"

definition key_pair_value :: "key_pair \<Rightarrow> jsval" where
  "key_pair_value kp = JObj [(''pubKey'', JBuf (pubKey kp)), (''privKey'', JBuf (privKey kp))]"

definition signed_pre_key_value :: "signed_pre_key \<Rightarrow> jsval" where
  "signed_pre_key_value r =
     JObj [(''keyId'', JInt (int (spk_id r))), (''keyPair'', key_pair_value (spk_keyPair r)),
           (''signature'', JBuf (spk_sig r)), (''createdAt'', JInt (spk_createdAt r))]"

definition entries_value :: "('a \<Rightarrow> jsval) \<Rightarrow> (string \<times> 'a) list \<Rightarrow> jsval" where
  "entries_value f m = JObj (map (\<lambda>(k, v). (k, f v)) m)"

text \<open>\<open>JSON.stringify(this.toSnapshot(revision))\<close>.\<close>

definition toSnapshot :: "int \<Rightarrow> file_storage \<Rightarrow> file_text" where
  "toSnapshot revision st =
     (let s = fs_mem st in
      Json (JsonObject (no_properties
        \<lparr>rw_formatVersion := JInt CURRENT_FORMAT_VERSION,
         rw_revision := JInt revision,
         rw_identityKeyPair := to_json (key_pair_value (ms_identityKeyPair s)),
         rw_registrationId := JInt (int (ms_registrationId s)),
         rw_nextPreKeyId := JInt (int (ms_nextPreKeyId s)),
         rw_latestSignedPreKey := (case ms_latest s of None \<Rightarrow> JUndef | Some l \<Rightarrow> to_json (signed_pre_key_value l)),
         rw_preKeys := to_json (entries_value key_pair_value (id_props (ms_preKeys s))),
         rw_publishedPreKeyIds := JArr (map (\<lambda>i. JInt (int i)) (sort (ms_published s))),
         rw_signedPreKeys := to_json (entries_value key_pair_value (id_props (ms_signedPreKeys s))),
         rw_retiredSignedPreKeys := entries_value JInt (id_props (ms_retired s)),
         rw_trustedIdentities := to_json (entries_value JBuf (prop_order (ms_trusted s))),
         rw_sessions := RObject (map (\<lambda>(k, r). (k, Some (Some (SessionRecord_serialize r)))) (assigned (ms_sessions s))),
         rw_senderKeys := RObject (map (\<lambda>(k, r). (k, Some (SenderKeyRecord_serialize r))) (assigned (ms_senderKeys s)))\<rparr>)))"

text \<open>\<open>Map.set(Number(id), ...)\<close> for the entries of an object whose ids were validated.\<close>

primrec set_all :: "('a \<times> 'v) list \<Rightarrow> ('a \<times> 'v) list \<Rightarrow> ('a \<times> 'v) list" where
  "set_all [] m = m"
| "set_all (p # ps) m = set_all ps (obj_set (fst p) (snd p) m)"

definition by_id :: "(string \<times> 'v) list \<Rightarrow> (nat \<times> 'v) list" where
  "by_id m = map (\<lambda>(k, v). (parse_digits k, v)) m"

definition applySnapshot :: "persisted_state \<Rightarrow> file_storage \<Rightarrow> error + file_storage" where
  "applySnapshot data st =
     (let s = fs_mem st;
          preKeys = set_all (by_id (pd_preKeys data)) (ms_preKeys s)
      in rbind (each_entry (\<lambda>i b. deserialize_session b) (pd_sessions data)) (\<lambda>sessions.
         rbind (each_entry (\<lambda>i r. SenderKeyRecord_deserialize r) (pd_senderKeys data)) (\<lambda>senderKeys.
           Inr (st\<lparr>fs_mem := s
             \<lparr>ms_nextPreKeyId := nat (pd_nextPreKeyId data), ms_latest := pd_latestSignedPreKey data,
              ms_preKeys := preKeys,
              ms_published := ms_published s @
                filter (\<lambda>i. obj_get preKeys i \<noteq> None) (map nat (pd_publishedPreKeyIds data)),
              ms_signedPreKeys := set_all (by_id (pd_signedPreKeys data)) (ms_signedPreKeys s),
              ms_retired := set_all (by_id (pd_retiredSignedPreKeys data)) (ms_retired s),
              ms_trusted := set_all (pd_trustedIdentities data) (ms_trusted s),
              ms_sessions := set_all sessions (ms_sessions s),
              ms_senderKeys := set_all senderKeys (ms_senderKeys s)\<rparr>\<rparr>))))"

section \<open>Saving\<close>

text \<open>The body of the \<open>try\<close> block, and what follows when a call in it has thrown.\<close>

definition write_snapshot :: "bool \<Rightarrow> file_text \<Rightarrow> (world, unit) op" where
  "write_snapshot backup payload =
     sbind (writeTmp payload) (\<lambda>_.
     sbind (\<lambda>w. if backup \<and> dk_main (wd_disk w) \<noteq> None
                then sbind removeBackup (\<lambda>_. renameMainToBackup) w else sret () w) (\<lambda>_.
       renameTmpToMain))"

definition save_cleanup :: "bool \<Rightarrow> (world, unit) op" where
  "save_cleanup backup =
     sbind (best_effort removeTmp) (\<lambda>_ w.
       if backup \<and> dk_main (wd_disk w) = None \<and> dk_backup (wd_disk w) \<noteq> None
       then best_effort renameBackupToMain w else sret () w)"

definition snapshot_payload :: "file_env \<Rightarrow> int \<Rightarrow> file_storage \<Rightarrow> file_text" where
  "snapshot_payload E revision st =
     (let json = toSnapshot revision st
      in case fs_encryptionKey st of Some key \<Rightarrow> encryptPayload (fe_gcm E) (fe_iv E) json key | None \<Rightarrow> json)"

definition saveUnlocked :: "file_env \<Rightarrow> unit file_op" where
  "saveUnlocked E = (\<lambda>(st, w).
     let nextRevision = fs_revision st + 1;
         payload = snapshot_payload E nextRevision st
     in (case write_snapshot (fs_backupEnabled st) payload w of
           (Inr _, w') \<Rightarrow> (Inr (), (st\<lparr>fs_revision := nextRevision, fs_dirty := False\<rparr>, w'))
         | (Inl e, w') \<Rightarrow> (Inl e, (st, snd (save_cleanup (fs_backupEnabled st) w')))))"

definition withLock :: "bool \<Rightarrow> 'a file_op \<Rightarrow> 'a file_op" where
  "withLock enabled action = (if enabled then sbind (on_world acquireLock) (\<lambda>_. action) else action)"

definition assertRevisionCurrent :: "file_env \<Rightarrow> bytes option \<Rightarrow> unit file_op" where
  "assertRevisionCurrent E encryptionKey = (\<lambda>(st, w).
     (case dk_main (wd_disk w) of
        None \<Rightarrow>
          if fs_revision st = 0 then Inr ()
          else Inl (FileSignalStorageConflictError (fs_revision st) 0 ''file disappeared'')
      | Some file \<Rightarrow>
          (case loadPersistedState (fe_gcm E) encryptionKey False (Some file) of
             Inl _ \<Rightarrow> Inl (FileSignalStorageConflictError (fs_revision st) (-1) ''cannot read the current revision'')
           | Inr (data, _) \<Rightarrow>
               if pd_revision data \<noteq> fs_revision st
               then Inl (FileSignalStorageConflictError (fs_revision st) (pd_revision data) [])
               else Inr ()), (st, w)))"

definition save :: "file_env \<Rightarrow> bool \<Rightarrow> bytes option \<Rightarrow> unit file_op" where
  "save E force currentEncryptionKey = (\<lambda>(st, w).
     if fs_closed st then (Inl (Error ''FileSignalStorage is closed''), (st, w))
     else if \<not> fs_dirty st \<and> \<not> force then (Inr (), (st, w))
     else withLock (fs_lockEnabled st)
            (sbind (assertRevisionCurrent E currentEncryptionKey) (\<lambda>_. saveUnlocked E)) (st, w))"

text \<open>\<open>this.save()\<close>, where the key of the file is the storage's own.\<close>

definition save_now :: "file_env \<Rightarrow> unit file_op" where
  "save_now E = (\<lambda>(st, w). save E False (fs_encryptionKey st) (st, w))"

definition scheduleSave :: "file_storage \<Rightarrow> file_storage" where
  "scheduleSave st = (if fs_closed st then st\<lparr>fs_dirty := True\<rparr> else st\<lparr>fs_dirty := True, fs_saveTimer := True\<rparr>)"

text \<open>The timer of \<open>scheduleSave\<close> fires; \<open>handleSaveError\<close> reports the error to \<open>onSaveError\<close>.\<close>

definition handleSaveError :: "error \<Rightarrow> file_storage \<Rightarrow> file_storage" where
  "handleSaveError e st = st\<lparr>fs_saveErrors := fs_saveErrors st @ [e]\<rparr>"

definition save_timer_fires :: "file_env \<Rightarrow> unit file_op" where
  "save_timer_fires E = (\<lambda>(st, w).
     if \<not> fs_saveTimer st then (Inr (), (st, w))
     else case save_now E (st\<lparr>fs_saveTimer := False\<rparr>, w) of
            (Inr _, x) \<Rightarrow> (Inr (), x)
          | (Inl e, (st', w')) \<Rightarrow> (Inr (), (handleSaveError e st', w')))"

definition flush :: "file_env \<Rightarrow> unit file_op" where
  "flush E =
     sbind (on_storage (\<lambda>st. st\<lparr>fs_saveTimer := False\<rparr>)) (\<lambda>_ (st, w).
       if fs_closed st then (Inr (), (st, w)) else save_now E (st, w))"

definition rotateEncryptionKey :: "file_env \<Rightarrow> bytes option \<Rightarrow> unit file_op" where
  "rotateEncryptionKey E encryptionKey = (\<lambda>(st, w).
     if (case encryptionKey of None \<Rightarrow> False | Some k \<Rightarrow> length k \<noteq> ENCRYPTION_KEY_LENGTH)
     then (Inl (RangeError ''encryptionKey must be 32 bytes''), (st, w))
     else if fs_closed st then (Inl (Error ''FileSignalStorage is closed''), (st, w))
     else
       let previous = fs_encryptionKey st
       in (case save E True previous (st\<lparr>fs_encryptionKey := encryptionKey, fs_dirty := True\<rparr>, w) of
             (Inr _, x) \<Rightarrow> (Inr (), x)
           | (Inl e, (st', w')) \<Rightarrow> (Inl e, (st'\<lparr>fs_encryptionKey := previous\<rparr>, w'))))"

definition close :: "file_env \<Rightarrow> unit file_op" where
  "close E = (\<lambda>(st, w).
     if fs_closed st then (Inr (), (st, w))
     else sbind (flush E) (\<lambda>_. on_storage (\<lambda>st'. st'\<lparr>fs_closed := True\<rparr>)) (st, w))"

section \<open>Opening\<close>

text \<open>
  \<open>generateIdentityKeyPair\<close> and \<open>generateRegistrationId\<close> are the arguments \<open>identity\<close> and \<open>rid\<close>. The
  result of \<open>load_or_recover\<close> is the state that was found, if any.
\<close>

definition recover_corrupt :: "file_env \<Rightarrow> file_options \<Rightarrow> (world, persisted_state \<times> bool) op" where
  "recover_corrupt E options =
     sbind (sread (\<lambda>w. loadPersistedState (fe_gcm E) (fo_encryptionKey options) True (dk_backup (wd_disk w)))) (\<lambda>loaded.
     sbind renameMainToCorrupt (\<lambda>_.
     sbind copyBackupToMain (\<lambda>_. sret loaded)))"

definition recover_missing :: "file_env \<Rightarrow> file_options \<Rightarrow> (world, persisted_state \<times> bool) op" where
  "recover_missing E options =
     sbind (sread (\<lambda>w. loadPersistedState (fe_gcm E) (fo_encryptionKey options) True (dk_backup (wd_disk w)))) (\<lambda>loaded.
     sbind copyBackupToMain (\<lambda>_. sret loaded))"

text \<open>\<open>catch (backupError) { throw new Error(...) }\<close>.\<close>

definition rethrow :: "string \<Rightarrow> ('s, 'a) op \<Rightarrow> ('s, 'a) op" where
  "rethrow msg f s = (case f s of (Inl _, s') \<Rightarrow> (Inl (Error msg), s') | (Inr x, s') \<Rightarrow> (Inr x, s'))"

fun is_corrupt_error :: "error \<Rightarrow> bool" where
  "is_corrupt_error (CorruptStorageFileError _) = True"
| "is_corrupt_error _ = False"

definition load_or_recover :: "file_env \<Rightarrow> file_options \<Rightarrow> (world, (persisted_state \<times> bool) option) op" where
  "load_or_recover E options = (\<lambda>w.
     let backup = (fo_backup options \<noteq> Some False); d = wd_disk w in
     if dk_main d \<noteq> None then
       (case loadPersistedState (fe_gcm E) (fo_encryptionKey options) True (dk_main d) of
          Inr loaded \<Rightarrow> (Inr (Some loaded), w)
        | Inl e \<Rightarrow>
            if \<not> is_corrupt_error e \<or> \<not> backup \<or> dk_backup d = None then (Inl e, w)
            else sbind (rethrow ''backup recovery failed'' (recover_corrupt E options)) (\<lambda>x. sret (Some x)) w)
     else if backup \<and> dk_backup d \<noteq> None then
       sbind (rethrow ''FileSignalStorage is missing and backup recovery failed'' (recover_missing E options)) (\<lambda>x. sret (Some x)) w
     else (Inr None, w))"

text \<open>\<open>storage.dirty = true; storage.saveUnlocked(); return storage\<close>.\<close>

definition save_new :: "file_env \<Rightarrow> file_storage \<Rightarrow> (world, file_storage) op" where
  "save_new E st w =
     (case saveUnlocked E (st\<lparr>fs_dirty := True\<rparr>, w) of
        (Inl e, (_, w')) \<Rightarrow> (Inl e, w')
      | (Inr _, (st', w')) \<Rightarrow> (Inr st', w'))"

definition open_loaded :: "file_env \<Rightarrow> file_options \<Rightarrow> persisted_state \<times> bool \<Rightarrow> (world, file_storage) op" where
  "open_loaded E options loaded =
     (let data = fst loaded;
          storage = (new_FileSignalStorage (pd_identityKeyPair data) (nat (pd_registrationId data)) options)
                      \<lparr>fs_revision := pd_revision data\<rparr>
      in sbind (slift (applySnapshot data storage)) (\<lambda>st.
           if snd loaded then save_new E st else sret st))"

definition create :: "file_env \<Rightarrow> key_pair \<Rightarrow> nat \<Rightarrow> file_options \<Rightarrow> (world, file_storage) op" where
  "create E identity rid options = (\<lambda>w.
     if (case fo_encryptionKey options of None \<Rightarrow> False | Some k \<Rightarrow> length k \<noteq> ENCRYPTION_KEY_LENGTH)
     then (Inl (RangeError ''encryptionKey must be 32 bytes''), w)
     else
       sbind (if fo_lock options = Some False then sret () else acquireLock) (\<lambda>_.
       sbind cleanupTemporaryFiles (\<lambda>_.
       sbind (load_or_recover E options) (\<lambda>loaded.
         case loaded of
           Some l \<Rightarrow> open_loaded E options l
         | None \<Rightarrow> save_new E (new_FileSignalStorage identity rid options)))) w)"

section \<open>Methods\<close>

text \<open>
  A method that changes the maps and schedules a save; one that saves at once; one that takes the
  change back when the save throws.
\<close>

definition in_mem :: "(memory_storage \<Rightarrow> memory_storage) \<Rightarrow> file_storage \<Rightarrow> file_storage" where
  "in_mem f st = st\<lparr>fs_mem := f (fs_mem st)\<rparr>"

definition scheduled :: "(memory_storage, 'a) op \<Rightarrow> 'a file_op" where
  "scheduled f = (\<lambda>(st, w). let (r, m) = f (fs_mem st) in (r, (scheduleSave (st\<lparr>fs_mem := m\<rparr>), w)))"

definition saved :: "file_env \<Rightarrow> (memory_storage \<Rightarrow> memory_storage) \<Rightarrow> unit file_op" where
  "saved E f = sbind (on_storage (\<lambda>st. (in_mem f st)\<lparr>fs_dirty := True\<rparr>)) (\<lambda>_. save_now E)"

definition saved_or_undone ::
  "file_env \<Rightarrow> (memory_storage \<Rightarrow> memory_storage) \<Rightarrow> (memory_storage \<Rightarrow> memory_storage) \<Rightarrow> bool file_op" where
  "saved_or_undone E f undo = (\<lambda>x.
     case saved E f x of
       (Inr _, x') \<Rightarrow> (Inr True, x')
     | (Inl e, (st, w)) \<Rightarrow> (Inl e, (in_mem undo st, w)))"

definition from_mem :: "(memory_storage \<Rightarrow> 'a) \<Rightarrow> file_storage \<times> world \<Rightarrow> 'a" where
  "from_mem f x = f (fs_mem (fst x))"

definition file_loadSession :: "string \<Rightarrow> file_storage \<times> world \<Rightarrow> error + session_record option" where
  "file_loadSession i = from_mem (mem_loadSession i)"

definition file_storeSession :: "string \<Rightarrow> session_record \<Rightarrow> unit file_op" where
  "file_storeSession i r = scheduled (mem_storeSession i r)"

definition file_loadSenderKey :: "sender_key_name \<Rightarrow> file_storage \<times> world \<Rightarrow> error + sender_key_record option" where
  "file_loadSenderKey name = from_mem (mem_loadSenderKey name)"

definition file_storeSenderKey :: "sender_key_name \<Rightarrow> sender_key_record \<Rightarrow> unit file_op" where
  "file_storeSenderKey name r = scheduled (mem_storeSenderKey name r)"

definition file_removeSenderKey :: "sender_key_name \<Rightarrow> unit file_op" where
  "file_removeSenderKey name = scheduled (mem_removeSenderKey name)"

definition file_removeGroupSessions :: "string \<Rightarrow> unit file_op" where
  "file_removeGroupSessions groupId = scheduled (mem_removeGroupSessions groupId)"

definition file_isTrustedIdentity :: "string \<Rightarrow> bytes \<Rightarrow> direction \<Rightarrow> bool file_op" where
  "file_isTrustedIdentity identifier identityKey dir = (\<lambda>(st, w).
     case obj_get (ms_trusted (fs_mem st)) identifier of
       None \<Rightarrow>
         if ms_policy (fs_mem st) = Strict then (Inr False, (st, w))
         else (Inr True, (scheduleSave (in_mem (\<lambda>s. s\<lparr>ms_trusted := obj_set identifier identityKey (ms_trusted s)\<rparr>) st), w))
     | Some existing \<Rightarrow> (Inr (existing = identityKey), (st, w)))"

definition file_saveIdentity :: "string \<Rightarrow> bytes \<Rightarrow> bool file_op" where
  "file_saveIdentity identifier identityKey = scheduled (mem_saveIdentity identifier identityKey)"

definition file_removeIdentity :: "string \<Rightarrow> unit file_op" where
  "file_removeIdentity identifier = scheduled (mem_removeIdentity identifier)"

definition file_loadIdentity :: "string \<Rightarrow> file_storage \<times> world \<Rightarrow> error + bytes option" where
  "file_loadIdentity identifier = from_mem (mem_loadIdentity identifier)"

definition file_listIdentities :: "file_storage \<times> world \<Rightarrow> string list" where
  "file_listIdentities = from_mem mem_listIdentities"

definition file_loadPreKey :: "nat option \<Rightarrow> file_storage \<times> world \<Rightarrow> error + key_pair option" where
  "file_loadPreKey i = from_mem (mem_loadPreKey i)"

definition file_removePreKey :: "file_env \<Rightarrow> nat \<Rightarrow> unit file_op" where
  "file_removePreKey E i =
     sbind (saved E (\<lambda>s. s\<lparr>ms_preKeys := obj_del i (ms_preKeys s), ms_published := removeAll i (ms_published s)\<rparr>)) (\<lambda>_.
       on_storage (in_mem (emitPreKeyRemoved i)))"

definition file_listAvailablePreKeyIds :: "file_storage \<times> world \<Rightarrow> nat list" where
  "file_listAvailablePreKeyIds = from_mem mem_listAvailablePreKeyIds"

definition file_getAvailablePreKeyCount :: "file_storage \<times> world \<Rightarrow> nat" where
  "file_getAvailablePreKeyCount x = length (file_listAvailablePreKeyIds x)"

definition file_reservePreKey :: "file_env \<Rightarrow> nat \<Rightarrow> bool file_op" where
  "file_reservePreKey E i = (\<lambda>(st, w).
     let s = fs_mem st in
     if obj_get (ms_preKeys s) i = None \<or> i \<in> set (ms_published s) then (Inr False, (st, w))
     else saved_or_undone E (\<lambda>s. s\<lparr>ms_published := ms_published s @ [i]\<rparr>)
            (\<lambda>s. s\<lparr>ms_published := removeAll i (ms_published s)\<rparr>) (st, w))"

definition file_releasePreKey :: "file_env \<Rightarrow> nat \<Rightarrow> bool file_op" where
  "file_releasePreKey E i = (\<lambda>(st, w).
     if i \<notin> set (ms_published (fs_mem st)) then (Inr False, (st, w))
     else saved_or_undone E (\<lambda>s. s\<lparr>ms_published := removeAll i (ms_published s)\<rparr>)
            (\<lambda>s. s\<lparr>ms_published := ms_published s @ [i]\<rparr>) (st, w))"

definition file_onPreKeyRemoved :: "nat \<Rightarrow> unit file_op" where
  "file_onPreKeyRemoved listener = on_storage (in_mem (mem_onPreKeyRemoved listener))"

definition file_unsubscribe :: "nat \<Rightarrow> unit file_op" where
  "file_unsubscribe listener = on_storage (in_mem (mem_unsubscribe listener))"

definition file_loadSignedPreKey :: "nat option \<Rightarrow> file_storage \<times> world \<Rightarrow> error + key_pair option" where
  "file_loadSignedPreKey i = from_mem (mem_loadSignedPreKey i)"

definition file_getOurRegistrationId :: "file_storage \<times> world \<Rightarrow> nat" where
  "file_getOurRegistrationId = from_mem ms_registrationId"

definition file_getOurIdentity :: "file_storage \<times> world \<Rightarrow> key_pair" where
  "file_getOurIdentity = from_mem ms_identityKeyPair"

definition file_storePreKey :: "nat \<Rightarrow> key_pair \<Rightarrow> unit file_op" where
  "file_storePreKey i keyPair = scheduled (\<lambda>s. (Inr (), mem_storePreKey i keyPair s))"

definition file_storeSignedPreKey_id :: "file_env \<Rightarrow> nat \<Rightarrow> key_pair \<Rightarrow> unit file_op" where
  "file_storeSignedPreKey_id E i keyPair = saved E (mem_storeSignedPreKey_id i keyPair)"

definition file_storeSignedPreKey :: "file_env \<Rightarrow> signed_pre_key \<Rightarrow> unit file_op" where
  "file_storeSignedPreKey E r = saved E (mem_storeSignedPreKey (fe_now E) r)"

definition file_removeSignedPreKey :: "nat \<Rightarrow> unit file_op" where
  "file_removeSignedPreKey i = scheduled (mem_removeSignedPreKey i)"

definition file_getPreKeyCount :: "file_storage \<times> world \<Rightarrow> nat" where
  "file_getPreKeyCount = from_mem mem_getPreKeyCount"

definition file_listPreKeyIds :: "file_storage \<times> world \<Rightarrow> nat list" where
  "file_listPreKeyIds = from_mem mem_listPreKeyIds"

definition file_getNextPreKeyId :: "file_storage \<times> world \<Rightarrow> nat" where
  "file_getNextPreKeyId = from_mem mem_getNextPreKeyId"

definition file_setNextPreKeyId :: "file_env \<Rightarrow> nat \<Rightarrow> unit file_op" where
  "file_setNextPreKeyId E i = saved E (mem_setNextPreKeyId i)"

definition file_loadLatestSignedPreKey :: "file_storage \<times> world \<Rightarrow> signed_pre_key option" where
  "file_loadLatestSignedPreKey = from_mem mem_loadLatestSignedPreKey"

end
