(* ===== verification/File_Snapshot.thy ===== *)
theory File_Snapshot
  imports File_Storage Memory_Invariant
begin

text \<open>
  What is written is what is read: the snapshot of a storage, encrypted or not, loads as valid and
  gives back the contents of the storage, up to the order of the entries of its maps.
\<close>

section \<open>JSON values of buffers\<close>

lemma bufferReviver_simps [simp]:
  "bufferReviver JUndef = JUndef" "bufferReviver (JInt n) = JInt n" "bufferReviver (JStr s) = JStr s"
  "bufferReviver (JBuf b) = JBuf b" "bufferReviver (JArr xs) = JArr xs"
  by (simp_all add: bufferReviver_def)

lemma buffer_bytes: "map byte_of_js (map (\<lambda>w. JInt (uint w)) b) = b"
  by (induction b) simp_all

lemma revive_buffer [simp]: "revive (buffer_json b) = JBuf b"
  using buffer_bytes [of b] by (simp add: buffer_json_def bufferReviver_def comp_def)

lemma revive_key_pair [simp]: "revive (to_json (key_pair_value kp)) = key_pair_value kp"
  by (simp add: key_pair_value_def bufferReviver_def)

lemma revive_signed [simp]: "revive (to_json (signed_pre_key_value l)) = signed_pre_key_value l"
  by (simp add: signed_pre_key_value_def bufferReviver_def)

text \<open>An object none of whose values is a text is not taken for a buffer.\<close>

lemma revive_entries:
  assumes "\<forall>v\<in>snd ` set m. revive (g v) = f v \<and> (\<forall>s. f v \<noteq> JStr s)"
  shows "revive (entries_value g m) = entries_value f m"
proof -
  let ?ps = "map (\<lambda>(k, v). (k, f v)) m"
  have ps: "map (map_prod id revive) (map (\<lambda>(k, v). (k, g v)) m) = ?ps"
    using assms by (induction m) auto
  have "js_get (JObj ?ps) ''type'' \<noteq> JStr ''Buffer''"
    using assms by (induction m) (auto split: option.splits)
  then have "bufferReviver (JObj ?ps) = JObj ?ps" unfolding bufferReviver_def by presburger
  then show ?thesis unfolding entries_value_def revive.simps ps .
qed

lemma key_pair_value_JStr [simp]: "key_pair_value kp \<noteq> JStr s"
  by (simp add: key_pair_value_def)

lemma to_json_entries: "to_json (entries_value f m) = entries_value (\<lambda>v. to_json (f v)) m"
  by (induction m) (auto simp: entries_value_def)

lemma revive_key_pairs [simp]:
  "revive (to_json (entries_value key_pair_value m)) = entries_value key_pair_value m"
  unfolding to_json_entries by (rule revive_entries) simp

lemma revive_buffers [simp]: "revive (to_json (entries_value JBuf m)) = entries_value JBuf m"
  unfolding to_json_entries by (rule revive_entries) simp

lemma revive_ints [simp]: "revive (entries_value JInt m) = entries_value JInt m"
  by (rule revive_entries) (simp add: bufferReviver_def)

section \<open>The order of properties\<close>

lemma prop_order_set [simp]: "set (prop_order m) = set m"
  by (auto simp: prop_order_def)

lemma keys_filter: "obj_wf m \<Longrightarrow> obj_wf (filter P m)"
  by (rule distinct_map_filter)

lemma prop_order_wf: "obj_wf m \<Longrightarrow> obj_wf (prop_order m)"
  by (auto simp: prop_order_def distinct_map inj_on_def dest: filter_is_subset [THEN subsetD])

lemma obj_get_same_set: "obj_wf m \<Longrightarrow> obj_wf n \<Longrightarrow> set m = set n \<Longrightarrow> obj_get m = obj_get n"
  by (simp add: map_of_inject_set)

lemma prop_order_get: "obj_wf m \<Longrightarrow> obj_get (prop_order m) = obj_get m"
  by (rule obj_get_same_set) (simp_all add: prop_order_wf)

lemma id_names_wf: "obj_wf m \<Longrightarrow> obj_wf (map (\<lambda>(i, v). (nat_to_string i, v)) m)"
proof (induction m)
  case (Cons p m)
  then show ?case by (cases p) (force dest: inj_nat_to_string)
qed simp

lemma by_id_id_props: "set (by_id (id_props m)) = set m"
proof -
  have "(\<lambda>(k, v). (parse_digits k, v)) ` (\<lambda>(i, v). (nat_to_string i, v)) ` set m = id ` set m"
    unfolding image_image by (rule image_cong) (auto simp: case_prod_unfold)
  then show ?thesis by (simp add: by_id_def id_props_def)
qed

lemma by_id_wf:
  assumes "obj_wf m"
  shows "obj_wf (by_id (id_props m))"
proof -
  have keys: "obj_keys (by_id (id_props m)) = map parse_digits (obj_keys (id_props m))"
    by (simp add: by_id_def case_prod_unfold)
  have "inj_on parse_digits (set (obj_keys (id_props m)))"
    by (auto simp: id_props_def inj_on_def)
  moreover have "obj_wf (id_props m)"
    unfolding id_props_def by (rule prop_order_wf [OF id_names_wf [OF assms]])
  ultimately show ?thesis unfolding keys by (simp add: distinct_map comp_inj_on)
qed

lemma by_id_get: "obj_wf m \<Longrightarrow> obj_get (by_id (id_props m)) = obj_get m"
  by (rule obj_get_same_set) (simp_all add: by_id_wf by_id_id_props)

lemma set_all_get: "obj_wf ps \<Longrightarrow> obj_get (set_all ps m) = obj_get m ++ obj_get ps"
proof (induction ps arbitrary: m)
  case (Cons p ps)
  then have "obj_get ps (fst p) = None" by (auto simp: map_of_eq_None_iff)
  moreover have "obj_get (set_all ps (obj_set (fst p) (snd p) m)) = (obj_get m)(fst p \<mapsto> snd p) ++ obj_get ps"
    using Cons by (simp add: update_conv')
  ultimately show ?case
    by (cases p) (auto simp: fun_eq_iff map_add_def split: option.split)
qed simp

lemma set_all_wf: "obj_wf m \<Longrightarrow> obj_wf (set_all ps m)"
  by (induction ps arbitrary: m) (simp_all add: obj_wf_set)

section \<open>Validation of a snapshot\<close>

text \<open>The storages whose values the validation accepts.\<close>

definition key_pair_sizes :: "key_pair \<Rightarrow> bool" where
  "key_pair_sizes kp \<longleftrightarrow> length (pubKey kp) = 33 \<and> length (privKey kp) = 32"

definition file_ok :: "memory_storage \<Rightarrow> bool" where
  "file_ok s \<longleftrightarrow> mem_ok s \<and> key_pair_sizes (ms_identityKeyPair s) \<and>
     int (ms_registrationId s) \<le> FS_MAX_REGISTRATION_ID \<and> int (ms_nextPreKeyId s) \<le> MAX_KEY_ID \<and>
     (\<forall>(i, kp)\<in>set (ms_preKeys s). int i \<le> MAX_KEY_ID \<and> key_pair_sizes kp) \<and>
     (\<forall>(i, kp)\<in>set (ms_signedPreKeys s). int i \<le> MAX_KEY_ID \<and> key_pair_sizes kp) \<and>
     (\<forall>(i, at)\<in>set (ms_retired s). int i \<le> MAX_KEY_ID \<and> 0 \<le> at \<and> at \<le> MAX_SAFE_INTEGER) \<and>
     (\<forall>k\<in>snd ` set (ms_trusted s). length k = 33) \<and>
     ''__proto__'' \<notin> set (obj_keys (ms_sessions s)) \<and> ''__proto__'' \<notin> set (obj_keys (ms_senderKeys s)) \<and>
     (\<forall>l. ms_latest s = Some l \<longrightarrow> int (spk_id l) \<le> MAX_KEY_ID \<and> key_pair_sizes (spk_keyPair l) \<and>
        length (spk_sig l) = 64 \<and> 0 \<le> spk_createdAt l \<and> spk_createdAt l \<le> MAX_SAFE_INTEGER)"

lemma each_entry_map:
  "(\<And>k v. (k, v) \<in> set m \<Longrightarrow> f k (g v) = Inr (h v)) \<Longrightarrow>
     each_entry f (map (\<lambda>(k, v). (k, g v)) m) = Inr (map (\<lambda>(k, v). (k, h v)) m)"
proof (induction m)
  case (Cons p m)
  then show ?case by (cases p) simp
qed simp

lemma each_entry_id:
  "(\<And>k v. (k, v) \<in> set m \<Longrightarrow> f k (g v) = Inr v) \<Longrightarrow> each_entry f (map (\<lambda>(k, v). (k, g v)) m) = Inr m"
  using each_entry_map [of m f g id] by simp

lemma js_number_id [simp]: "js_number (nat_to_string i) = JInt (int i)"
  using nat_to_string_digits by (simp add: js_number_def)

lemma assertKeyPair_value: "key_pair_sizes kp \<Longrightarrow> assertKeyPair (key_pair_value kp) field = Inr kp"
  by (simp add: assertKeyPair_def key_pair_value_def assertBuffer_def key_pair_sizes_def)

lemma id_props_in: "(k, v) \<in> set (id_props m) \<longleftrightarrow> (\<exists>i. k = nat_to_string i \<and> (i, v) \<in> set m)"
  by (force simp: id_props_def)

lemma assertKeyPairMap_value:
  assumes "\<forall>(i, kp)\<in>set m. int i \<le> MAX_KEY_ID \<and> key_pair_sizes kp"
  shows "assertKeyPairMap (entries_value key_pair_value (id_props m)) field = Inr (id_props m)"
proof -
  have "rbind (assertInteger (js_number k) (field @ '' key id'') 0 MAX_KEY_ID) (\<lambda>_. assertKeyPair (key_pair_value v) field) = Inr v"
    if kv: "(k, v) \<in> set (id_props m)" for k v
  proof -
    from kv obtain i where "k = nat_to_string i" "(i, v) \<in> set m" by (auto simp: id_props_in)
    with assms show ?thesis by (fastforce simp: assertInteger_def assertKeyPair_value)
  qed
  then show ?thesis by (simp add: assertKeyPairMap_def entries_value_def each_entry_id)
qed

lemma assertRetired_value:
  assumes "\<forall>(i, at)\<in>set m. int i \<le> MAX_KEY_ID \<and> 0 \<le> at \<and> at \<le> MAX_SAFE_INTEGER"
  shows "assertRetiredSignedPreKeys (entries_value JInt (id_props m)) = Inr (id_props m)"
proof -
  have "rbind (assertInteger (js_number k) ''retiredSignedPreKeys key id'' 0 MAX_KEY_ID)
      (\<lambda>_. assertInteger (JInt v) ''retiredSignedPreKeys'' 0 MAX_SAFE_INTEGER) = Inr v"
    if kv: "(k, v) \<in> set (id_props m)" for k v
  proof -
    from kv obtain i where "k = nat_to_string i" "(i, v) \<in> set m" by (auto simp: id_props_in)
    with assms show ?thesis by (fastforce simp: assertInteger_def)
  qed
  then show ?thesis by (simp add: assertRetiredSignedPreKeys_def entries_value_def each_entry_id)
qed

lemma assertBufferMap_value:
  assumes "\<forall>k\<in>snd ` set m. length k = 33"
  shows "assertBufferMap (entries_value JBuf m) field (Some 33) = Inr m"
proof -
  have "assertBuffer (JBuf v) field (Some 33) = Inr v" if "(k, v) \<in> set m" for k v
    using assms that by (force simp: assertBuffer_def)
  then show ?thesis by (simp add: assertBufferMap_def entries_value_def each_entry_id)
qed

lemma assert_ids_value:
  "\<forall>i\<in>set is. int i \<le> MAX_KEY_ID \<Longrightarrow> assert_ids (map (\<lambda>i. JInt (int i)) is) field = Inr (map int is)"
  by (induction "is") (auto simp: assertInteger_def)

lemma assert_entries_value: "assert_entries (RObject (map (\<lambda>(k, v). (k, Some (g v))) m)) field = Inr (map (\<lambda>(k, v). (k, g v)) m)"
  unfolding assert_entries_def by (induction m) (auto simp: assert_entries_def)

lemma assertSignedPreKey_value:
  "int (spk_id l) \<le> MAX_KEY_ID \<Longrightarrow> key_pair_sizes (spk_keyPair l) \<Longrightarrow> length (spk_sig l) = 64 \<Longrightarrow>
     0 \<le> spk_createdAt l \<Longrightarrow> spk_createdAt l \<le> MAX_SAFE_INTEGER \<Longrightarrow>
     assertSignedPreKey (signed_pre_key_value l) field = Inr l"
  by (simp add: assertSignedPreKey_def signed_pre_key_value_def assertInteger_def assertBuffer_def assertKeyPair_value)

text \<open>What a snapshot of \<open>st\<close> with a revision is read as.\<close>

definition snapshot_state :: "int \<Rightarrow> memory_storage \<Rightarrow> persisted_state" where
  "snapshot_state n s =
     \<lparr>pd_formatVersion = CURRENT_FORMAT_VERSION, pd_revision = n, pd_identityKeyPair = ms_identityKeyPair s,
      pd_registrationId = int (ms_registrationId s), pd_nextPreKeyId = int (ms_nextPreKeyId s),
      pd_latestSignedPreKey = ms_latest s, pd_preKeys = id_props (ms_preKeys s),
      pd_publishedPreKeyIds = map int (sort (ms_published s)), pd_signedPreKeys = id_props (ms_signedPreKeys s),
      pd_retiredSignedPreKeys = id_props (ms_retired s), pd_trustedIdentities = prop_order (ms_trusted s),
      pd_sessions = map (\<lambda>(k, r). (k, Some (SessionRecord_serialize r))) (assigned (ms_sessions s)),
      pd_senderKeys = map (\<lambda>(k, r). (k, SenderKeyRecord_serialize r)) (assigned (ms_senderKeys s))\<rparr>"

lemma published_ids:
  assumes "file_ok s"
  shows "assert_ids (map (\<lambda>i. JInt (int i)) (sort (ms_published s))) field = Inr (map int (sort (ms_published s)))"
    "rev (remdups (rev (map int (sort (ms_published s))))) = map int (sort (ms_published s))"
proof -
  have "set (ms_published s) \<subseteq> fst ` set (ms_preKeys s)" "distinct (ms_published s)"
    using assms by (simp_all add: file_ok_def mem_ok_def)
  moreover have "\<forall>i\<in>fst ` set (ms_preKeys s). int i \<le> MAX_KEY_ID" using assms by (auto simp: file_ok_def)
  ultimately show "assert_ids (map (\<lambda>i. JInt (int i)) (sort (ms_published s))) field = Inr (map int (sort (ms_published s)))"
    by (intro assert_ids_value) auto
  have "distinct (rev (map int (sort (ms_published s))))" using \<open>distinct (ms_published s)\<close> by (simp add: distinct_map)
  then show "rev (remdups (rev (map int (sort (ms_published s))))) = map int (sort (ms_published s))"
    by (simp only: distinct_remdups_id rev_rev_ident)
qed

text \<open>The properties of the object that is written, revived.\<close>

lemma snapshot_properties:
  assumes "toSnapshot n st = Json (JsonObject r)" "s = fs_mem st"
  shows "revive (rw_formatVersion r) = JInt 1" "revive (rw_revision r) = JInt n"
    "revive (rw_identityKeyPair r) = key_pair_value (ms_identityKeyPair s)"
    "revive (rw_registrationId r) = JInt (int (ms_registrationId s))"
    "revive (rw_nextPreKeyId r) = JInt (int (ms_nextPreKeyId s))"
    "revive (rw_latestSignedPreKey r) = (case ms_latest s of None \<Rightarrow> JUndef | Some l \<Rightarrow> signed_pre_key_value l)"
    "revive (rw_preKeys r) = entries_value key_pair_value (id_props (ms_preKeys s))"
    "revive (rw_publishedPreKeyIds r) = JArr (map (\<lambda>i. JInt (int i)) (sort (ms_published s)))"
    "revive (rw_signedPreKeys r) = entries_value key_pair_value (id_props (ms_signedPreKeys s))"
    "revive (rw_retiredSignedPreKeys r) = entries_value JInt (id_props (ms_retired s))"
    "revive (rw_trustedIdentities r) = entries_value JBuf (prop_order (ms_trusted s))"
    "rw_sessions r = RObject (map (\<lambda>(k, r). (k, Some (Some (SessionRecord_serialize r)))) (assigned (ms_sessions s)))"
    "rw_senderKeys r = RObject (map (\<lambda>(k, r). (k, Some (SenderKeyRecord_serialize r))) (assigned (ms_senderKeys s)))"
    "rw_encrypted r = JUndef"
  using assms
  by (auto simp: toSnapshot_def Let_def no_properties_def CURRENT_FORMAT_VERSION_def comp_def split: option.split)

lemma not_nullish [simp]: "js_default (JInt n) d = JInt n" "js_default (JArr xs) d = JArr xs"
  "js_default (entries_value f m) d = entries_value f m"
  by (simp_all add: js_default_def entries_value_def)

lemma signed_pre_key_value_undef [simp]: "signed_pre_key_value l \<noteq> JUndef"
  by (simp add: signed_pre_key_value_def)

lemma normalize_snapshot:
  assumes "file_ok s" "0 \<le> n" "n \<le> MAX_SAFE_INTEGER" "toSnapshot n st = Json (JsonObject r)" "s = fs_mem st"
  shows "normalizePersistedState (JsonObject r) = Inr (snapshot_state n s)"
proof -
  have "mem_ok s" "key_pair_sizes (ms_identityKeyPair s)"
    and ints: "int (ms_registrationId s) \<le> FS_MAX_REGISTRATION_ID" "int (ms_nextPreKeyId s) \<le> MAX_KEY_ID"
    and maps: "\<forall>(i, kp)\<in>set (ms_preKeys s). int i \<le> MAX_KEY_ID \<and> key_pair_sizes kp"
      "\<forall>(i, kp)\<in>set (ms_signedPreKeys s). int i \<le> MAX_KEY_ID \<and> key_pair_sizes kp"
      "\<forall>(i, at)\<in>set (ms_retired s). int i \<le> MAX_KEY_ID \<and> 0 \<le> at \<and> at \<le> MAX_SAFE_INTEGER"
      "\<forall>k\<in>snd ` set (prop_order (ms_trusted s)). length k = 33"
    using assms(1) unfolding file_ok_def by simp_all
  note steps = assertKeyPair_value [OF this(2)] assertKeyPairMap_value [OF maps(1)] assertKeyPairMap_value [OF maps(2)]
    assertRetired_value [OF maps(3)] assertBufferMap_value [OF maps(4)] published_ids [OF assms(1)] assert_entries_value
  have latest: "assertSignedPreKey (signed_pre_key_value l) field = Inr l" if "ms_latest s = Some l" for l field
    using assms(1) that unfolding file_ok_def by (intro assertSignedPreKey_value) simp_all
  show ?thesis
    using ints assms(2,3)
    by (cases "ms_latest s") (simp_all add: normalizePersistedState_def Let_def latest snapshot_properties [OF assms(4,5)] steps format_version_def
        CURRENT_FORMAT_VERSION_def assertInteger_def FS_MIN_REGISTRATION_ID_def assertNumberArray_def assertSenderKeys_def
        snapshot_state_def del: revive.simps)
qed

section \<open>Loading what was saved\<close>

lemma assigned_in: "p \<in> set (assigned m) \<Longrightarrow> p \<in> set m"
  by (auto simp: assigned_def)

lemma assigned_wf: "obj_wf m \<Longrightarrow> obj_wf (assigned m)"
  by (simp add: assigned_def prop_order_wf keys_filter)

lemma assigned_get: "obj_wf m \<Longrightarrow> ''__proto__'' \<notin> set (obj_keys m) \<Longrightarrow> obj_get (assigned m) = obj_get m"
  by (rule obj_get_same_set) (simp_all add: assigned_wf, force simp: assigned_def)

lemma stored_sessions:
  assumes "mem_ok s"
  shows "each_entry (\<lambda>i b. deserialize_session b) (map (\<lambda>(k, r). (k, Some (SessionRecord_serialize r))) (assigned (ms_sessions s)))
    = Inr (assigned (ms_sessions s))"
proof (rule each_entry_id)
  fix k r assume "(k, r) \<in> set (assigned (ms_sessions s))"
  then have "r \<in> snd ` set (ms_sessions s)" by (metis assigned_in image_eqI snd_conv)
  then have "record_wf r" using mem_okD(1) [OF assms] by (auto simp: stored_ok_def record_ok_def)
  then show "deserialize_session (Some (SessionRecord_serialize r)) = Inr r"
    by (simp add: deserialize_session_def record_roundtrip)
qed

lemma stored_sender_keys:
  assumes "mem_ok s"
  shows "each_entry (\<lambda>i r. SenderKeyRecord_deserialize r) (map (\<lambda>(k, r). (k, SenderKeyRecord_serialize r)) (assigned (ms_senderKeys s)))
    = Inr (assigned (ms_senderKeys s))"
proof (rule each_entry_id)
  fix k r assume "(k, r) \<in> set (assigned (ms_senderKeys s))"
  then have "r \<in> snd ` set (ms_senderKeys s)" by (metis assigned_in image_eqI snd_conv)
  then have "\<forall>st\<in>set r. sks_private st \<noteq> Some []"
    using mem_okD(2) [OF assms] by (auto simp: sender_record_wf_def sender_state_wf_def)
  then show "SenderKeyRecord_deserialize (SenderKeyRecord_serialize r) = Inr r" by (rule sender_record_roundtrip)
qed

lemma load_plain:
  assumes "file_ok s" "0 \<le> n" "n \<le> MAX_SAFE_INTEGER" "s = fs_mem st"
  shows "loadPersistedState G key v (Some (toSnapshot n st)) = Inr (snapshot_state n s, False)"
proof -
  obtain r where r: "toSnapshot n st = Json (JsonObject r)" by (simp add: toSnapshot_def Let_def)
  have "mem_ok s" using assms(1) by (simp add: file_ok_def)
  then have "validate_records (snapshot_state n s) = Inr ()"
    by (simp add: validate_records_def snapshot_state_def stored_sessions stored_sender_keys)
  then show ?thesis
    using normalize_snapshot [OF assms(1-3) r assms(4)] snapshot_properties(1,14) [OF r assms(4)]
    by (simp add: loadPersistedState_def r isEncryptedPayload_def corrupt_unless_unsupported_def CURRENT_FORMAT_VERSION_def)
qed

text \<open>
  With a key, \<open>decryptPayload\<close> gives back the text that \<open>encryptPayload\<close> encrypted: the documented
  behaviour of AES-256-GCM, for one text.
\<close>

definition reads_back :: "file_env \<Rightarrow> bytes option \<Rightarrow> file_text \<Rightarrow> bool" where
  "reads_back E key t \<longleftrightarrow> (case key of
     None \<Rightarrow> True
   | Some k \<Rightarrow> gcm_open (fe_gcm E) k (fe_iv E) (snd (gcm_seal (fe_gcm E) k (fe_iv E) t)) (fst (gcm_seal (fe_gcm E) k (fe_iv E) t)) = Some t)"

definition key_fits :: "bytes option \<Rightarrow> bool" where
  "key_fits key \<longleftrightarrow> (case key of None \<Rightarrow> True | Some k \<Rightarrow> length k = ENCRYPTION_KEY_LENGTH)"

lemma load_payload:
  assumes "reads_back E (fs_encryptionKey st) (toSnapshot n st)" "file_ok (fs_mem st)" "0 \<le> n" "n \<le> MAX_SAFE_INTEGER"
  shows "loadPersistedState (fe_gcm E) (fs_encryptionKey st) v (Some (snapshot_payload E n st)) =
    Inr (snapshot_state n (fs_mem st), False)"
proof (cases "fs_encryptionKey st")
  case None
  then show ?thesis using load_plain [OF assms(2-4)] by (simp add: snapshot_payload_def)
next
  case (Some k)
  let ?t = "toSnapshot n st"
  obtain r where r: "?t = Json (JsonObject r)" by (simp add: toSnapshot_def Let_def)
  have "gcm_open (fe_gcm E) k (fe_iv E) (snd (gcm_seal (fe_gcm E) k (fe_iv E) ?t)) (fst (gcm_seal (fe_gcm E) k (fe_iv E) ?t)) = Some ?t"
    using assms(1) Some by (simp add: reads_back_def)
  moreover have "rw_encrypted r = JUndef" by (rule snapshot_properties(14) [OF r refl])
  ultimately show ?thesis
    using load_plain [OF assms(2-4) refl, of "fe_gcm E" "Some k" v] Some r
    by (simp add: snapshot_payload_def encryptPayload_def loadPersistedState_def isEncryptedPayload_def decryptPayload_def
        case_prod_unfold Let_def no_properties_def)
qed

text \<open>The same contents, up to the order of the entries of the maps.\<close>

definition same_contents :: "memory_storage \<Rightarrow> memory_storage \<Rightarrow> bool" where
  "same_contents s t \<longleftrightarrow>
     ms_identityKeyPair t = ms_identityKeyPair s \<and> ms_registrationId t = ms_registrationId s \<and>
     obj_get (ms_sessions t) = obj_get (ms_sessions s) \<and> obj_get (ms_preKeys t) = obj_get (ms_preKeys s) \<and>
     set (ms_published t) = set (ms_published s) \<and> obj_get (ms_signedPreKeys t) = obj_get (ms_signedPreKeys s) \<and>
     obj_get (ms_trusted t) = obj_get (ms_trusted s) \<and> obj_get (ms_senderKeys t) = obj_get (ms_senderKeys s) \<and>
     obj_get (ms_retired t) = obj_get (ms_retired s) \<and> ms_nextPreKeyId t = ms_nextPreKeyId s \<and> ms_latest t = ms_latest s"

lemma apply_snapshot:
  assumes "file_ok s" "fs_mem st = new_MemorySignalStorage (ms_identityKeyPair s) (ms_registrationId s) grace policy callback"
  obtains m where "applySnapshot (snapshot_state n s) st = Inr (st\<lparr>fs_mem := m\<rparr>)" "same_contents s m" "mem_ok m"
proof -
  have ok: "mem_ok s" and proto: "''__proto__'' \<notin> set (obj_keys (ms_sessions s))" "''__proto__'' \<notin> set (obj_keys (ms_senderKeys s))"
    using assms(1) by (simp_all add: file_ok_def)
  note okD = mem_okD [OF ok]
  have published: "obj_get (ms_preKeys s) i \<noteq> None" if "i \<in> set (ms_published s)" for i
    using okD(10) that by (auto simp: obj_get_None)
  show thesis
  proof (rule that)
    let ?pre = "set_all (by_id (id_props (ms_preKeys s))) []"
    let ?m = "(fs_mem st)\<lparr>ms_nextPreKeyId := ms_nextPreKeyId s, ms_latest := ms_latest s, ms_preKeys := ?pre,
        ms_published := sort (ms_published s), ms_signedPreKeys := set_all (by_id (id_props (ms_signedPreKeys s))) [],
        ms_retired := set_all (by_id (id_props (ms_retired s))) [], ms_trusted := set_all (prop_order (ms_trusted s)) [],
        ms_sessions := set_all (assigned (ms_sessions s)) [], ms_senderKeys := set_all (assigned (ms_senderKeys s)) []\<rparr>"
    have pre: "obj_get ?pre = obj_get (ms_preKeys s)" by (simp add: set_all_get by_id_wf by_id_get okD)
    have "filter (\<lambda>i. obj_get ?pre i \<noteq> None) (map (nat \<circ> int) (sort (ms_published s))) = sort (ms_published s)"
      unfolding pre using published by (simp add: comp_def)
    then show "applySnapshot (snapshot_state n s) st = Inr (st\<lparr>fs_mem := ?m\<rparr>)"
      by (simp add: applySnapshot_def Let_def snapshot_state_def stored_sessions [OF ok] stored_sender_keys [OF ok] assms(2)
          new_MemorySignalStorage_def)
    show "same_contents s ?m"
      unfolding same_contents_def using pre proto
      by (simp add: set_all_get by_id_wf by_id_get okD prop_order_wf prop_order_get assigned_wf assigned_get assms(2)
          new_MemorySignalStorage_def)
    have vals: "snd ` set (set_all (assigned ps) []) \<subseteq> snd ` set ps" if "obj_wf ps" for ps :: "(string \<times> 'v) list"
    proof -
      have "set (set_all (assigned ps) []) = set (assigned ps)"
        using set_all_get [OF assigned_wf [OF that], of "[]"] set_all_wf [of "[]" "assigned ps"] assigned_wf [OF that]
        by (simp add: map_of_inject_set)
      then show ?thesis using assigned_in by blast
    qed
    have "set (sort (ms_published s)) \<subseteq> set (obj_keys ?pre)"
    proof
      fix i assume "i \<in> set (sort (ms_published s))"
      then have "obj_get ?pre i \<noteq> None" using published unfolding pre by simp
      then show "i \<in> set (obj_keys ?pre)" by (simp add: obj_get_None)
    qed
    moreover have "\<forall>r\<in>snd ` set (set_all (assigned (ms_sessions s)) []). stored_ok r"
      using vals [OF okD(3)] okD(1) by blast
    moreover have "\<forall>r\<in>snd ` set (set_all (assigned (ms_senderKeys s)) []). sender_record_wf r"
      using vals [OF okD(4)] okD(2) by blast
    ultimately show "mem_ok ?m" unfolding mem_ok_def using okD(9) by (simp add: set_all_wf)
  qed
qed

end
