(* ===== verification/File_Recovery.thy ===== *)
theory File_Recovery
  imports File_Snapshot
begin

text \<open>
  Saving and opening: what a crash or a failed call leaves on the disk, what opening finds there,
  and the detection of concurrent writers by the revision.
\<close>

section \<open>Triples for operations that may throw\<close>

text \<open>From a state with \<open>I\<close>, the operation returns in a state with \<open>Q\<close> or throws in one with \<open>R\<close>.\<close>

definition triple :: "('s \<Rightarrow> bool) \<Rightarrow> ('s, 'a) op \<Rightarrow> ('s \<Rightarrow> bool) \<Rightarrow> ('s \<Rightarrow> bool) \<Rightarrow> bool" where
  "triple I f Q R \<longleftrightarrow> (\<forall>s r s'. I s \<and> f s = (r, s') \<longrightarrow> (case r of Inl _ \<Rightarrow> R s' | Inr _ \<Rightarrow> Q s'))"

named_theorems triples "triples of the calls of a save"

lemma triple_sbind: "triple I f Q R \<Longrightarrow> triple Q g S R \<Longrightarrow> triple I (sbind f (\<lambda>_. g)) S R"
  unfolding triple_def sbind_def by (fastforce split: sum.splits prod.splits)

lemma triple_return: "triple Q (sret x) Q R"
  by (simp add: triple_def sret_def)

lemma triple_if: "(b \<Longrightarrow> triple I f Q R) \<Longrightarrow> (\<not> b \<Longrightarrow> triple I g Q R) \<Longrightarrow> triple I (if b then f else g) Q R"
  by simp

lemma triple_pre: "triple I f Q R \<Longrightarrow> (\<And>s. J s \<Longrightarrow> I s) \<Longrightarrow> triple J f Q R"
  unfolding triple_def by blast

lemma triple_post: "triple I f Q R \<Longrightarrow> (\<And>s. Q s \<Longrightarrow> Q' s) \<Longrightarrow> (\<And>s. R s \<Longrightarrow> R' s) \<Longrightarrow> triple I f Q' R'"
  unfolding triple_def by (fastforce split: sum.splits)

lemma triple_cond:
  "(\<And>s. I s \<Longrightarrow> c s \<Longrightarrow> J s) \<Longrightarrow> triple J f Q R \<Longrightarrow> (\<And>s. I s \<Longrightarrow> \<not> c s \<Longrightarrow> Q s) \<Longrightarrow>
     triple I (\<lambda>s. if c s then f s else sret x s) Q R"
  unfolding triple_def sret_def by auto

lemma triple_best_effort: "triple I f Q Q \<Longrightarrow> triple I (best_effort f) Q R"
  unfolding triple_def best_effort_def
  by (auto split: sum.splits) (metis old.sum.exhaust surjective_pairing)

lemma tripleD: "triple I f Q R \<Longrightarrow> I s \<Longrightarrow> f s = (r, s') \<Longrightarrow> (r = Inl e \<longrightarrow> R s') \<and> (r = Inr x \<longrightarrow> Q s')"
  unfolding triple_def by fastforce

lemma io_call_result:
  "io_call f h e w = (r, w') \<Longrightarrow> (r = Inr () \<and> wd_disk w' = f (wd_disk w) \<or> r = Inl e \<and> wd_disk w' = h (wd_disk w)) \<and>
     wd_trace w' = wd_disk w' # h (wd_disk w) # wd_trace w"
  by (auto simp: io_call_def Let_def split: if_splits)

text \<open>A property of the disk that every call keeps, together with one that all earlier disks have.\<close>

lemma triple_call:
  assumes "\<And>d. I d \<Longrightarrow> Q (f d) \<and> R (h d) \<and> G (f d) \<and> G (h d)"
  shows "triple (\<lambda>w. I (wd_disk w) \<and> Ball (set (wd_trace w)) G) (io_call f h e)
    (\<lambda>w. Q (wd_disk w) \<and> Ball (set (wd_trace w)) G) (\<lambda>w. R (wd_disk w) \<and> Ball (set (wd_trace w)) G)"
  unfolding triple_def using io_call_result assms by (fastforce split: sum.splits)

section \<open>Every state of the disk during a save\<close>

text \<open>
  With the old snapshot \<open>old\<close> in place and \<open>new\<close> being written: one of the two is the main file, or
  the main file is missing and the old snapshot is the backup.
\<close>

definition old_disk :: "bool \<Rightarrow> file_text \<Rightarrow> disk \<Rightarrow> bool" where
  "old_disk backup old d \<longleftrightarrow> dk_main d = Some old \<or> backup \<and> dk_main d = None \<and> dk_backup d = Some old"

definition safe_disk :: "bool \<Rightarrow> file_text \<Rightarrow> file_text \<Rightarrow> disk \<Rightarrow> bool" where
  "safe_disk backup old new d \<longleftrightarrow> old_disk backup old d \<or> dk_main d = Some new"

definition safe_world :: "bool \<Rightarrow> file_text \<Rightarrow> file_text \<Rightarrow> (disk \<Rightarrow> bool) \<Rightarrow> world \<Rightarrow> bool" where
  "safe_world backup old new Q w \<longleftrightarrow> Q (wd_disk w) \<and> (\<forall>d\<in>set (wd_trace w). safe_disk backup old new d)"

lemma triple_safe_call:
  assumes "\<And>d. I d \<Longrightarrow> Q (f d) \<and> R (h d) \<and> safe_disk backup old new (f d) \<and> safe_disk backup old new (h d)"
  shows "triple (safe_world backup old new I) (io_call f h e) (safe_world backup old new Q) (safe_world backup old new R)"
  using triple_call [of I Q f R h "safe_disk backup old new" e] assms unfolding safe_world_def by simp

lemmas disk_defs = safe_disk_def old_disk_def

lemma write_snapshot_safe:
  "triple (safe_world backup old new (\<lambda>d. dk_main d = Some old)) (write_snapshot backup new)
     (safe_world backup old new (\<lambda>d. dk_main d = Some new)) (safe_world backup old new (old_disk backup old))"
proof -
  let ?W = "safe_world backup old new"
  let ?old = "\<lambda>d. dk_main d = Some old" and ?moved = "\<lambda>d. old_disk backup old d \<and> dk_tmp d = Some new"
  have wr: "triple (?W ?old) (writeTmp new) (?W (\<lambda>d. ?old d \<and> dk_tmp d = Some new)) (?W (old_disk backup old))"
    unfolding writeTmp_def by (rule triple_safe_call) (simp add: disk_defs)
  have rm: "triple (?W (\<lambda>d. ?old d \<and> dk_tmp d = Some new)) removeBackup (?W (\<lambda>d. ?old d \<and> dk_tmp d = Some new)) (?W (old_disk backup old))"
    unfolding removeBackup_def by (rule triple_safe_call) (simp add: disk_defs)
  have aside: "triple (?W (\<lambda>d. ?old d \<and> dk_tmp d = Some new)) renameMainToBackup (?W ?moved) (?W (old_disk backup old))" if backup
    unfolding renameMainToBackup_def by (rule triple_safe_call) (use that in \<open>simp add: disk_defs\<close>)
  have into: "triple (?W ?moved) renameTmpToMain (?W (\<lambda>d. dk_main d = Some new)) (?W (old_disk backup old))"
    unfolding renameTmpToMain_def by (rule triple_safe_call) (simp add: disk_defs)
  have "triple (?W (\<lambda>d. ?old d \<and> dk_tmp d = Some new))
      (\<lambda>w. if backup \<and> dk_main (wd_disk w) \<noteq> None then sbind removeBackup (\<lambda>_. renameMainToBackup) w else sret () w)
      (?W ?moved) (?W (old_disk backup old))"
  proof (cases backup)
    case True
    then show ?thesis
      by (intro triple_cond [OF _ triple_sbind [OF rm aside]]) (auto simp: safe_world_def)
  next
    case False
    then show ?thesis
      by (auto simp: triple_def sret_def safe_world_def old_disk_def)
  qed
  then show ?thesis unfolding write_snapshot_def by (intro triple_sbind [OF wr] triple_sbind [OF _ into])
qed

lemma save_cleanup_safe:
  "triple (safe_world backup old new (old_disk backup old)) (save_cleanup backup)
     (safe_world backup old new (old_disk backup old)) R"
proof -
  let ?W = "safe_world backup old new" and ?gone = "\<lambda>d. backup \<and> dk_main d = None \<and> dk_backup d = Some old"
  have tmp: "triple (?W (old_disk backup old)) (best_effort removeTmp) (?W (old_disk backup old)) R"
    unfolding removeTmp_def by (intro triple_best_effort triple_safe_call) (auto simp: disk_defs)
  have restore: "triple (?W ?gone) (best_effort renameBackupToMain) (?W (old_disk backup old)) R"
    unfolding renameBackupToMain_def by (intro triple_best_effort triple_safe_call) (auto simp: disk_defs)
  have "triple (?W (old_disk backup old))
      (\<lambda>w. if backup \<and> dk_main (wd_disk w) = None \<and> dk_backup (wd_disk w) \<noteq> None then best_effort renameBackupToMain w else sret () w)
      (?W (old_disk backup old)) R"
    by (rule triple_cond [OF _ restore]) (auto simp: safe_world_def old_disk_def)
  then show ?thesis unfolding save_cleanup_def by (rule triple_sbind [OF tmp])
qed

text \<open>A save: the states in between, the disk and the storage when it returns and when it throws.\<close>

lemma saveUnlocked_safe:
  assumes "saveUnlocked E (st, w) = (r, (st', w'))" "new = snapshot_payload E (fs_revision st + 1) st"
    and "dk_main (wd_disk w) = Some old" "\<forall>d\<in>set (wd_trace w). safe_disk backup old new d" "backup = fs_backupEnabled st"
  shows "\<forall>d\<in>set (wd_trace w'). safe_disk backup old new d"
    "r = Inr () \<Longrightarrow> dk_main (wd_disk w') = Some new \<and> st' = st\<lparr>fs_revision := fs_revision st + 1, fs_dirty := False\<rparr>"
    "r = Inl e \<Longrightarrow> old_disk backup old (wd_disk w') \<and> st' = st"
proof -
  have start: "safe_world backup old new (\<lambda>d. dk_main d = Some old) w"
    using assms(3,4) by (simp add: safe_world_def)
  obtain r1 w1 where 1: "write_snapshot backup new w = (r1, w1)" by (cases "write_snapshot backup new w")
  have "(\<forall>d\<in>set (wd_trace w'). safe_disk backup old new d) \<and>
    (r = Inr () \<longrightarrow> dk_main (wd_disk w') = Some new \<and> st' = st\<lparr>fs_revision := fs_revision st + 1, fs_dirty := False\<rparr>) \<and>
    (r = Inl e \<longrightarrow> old_disk backup old (wd_disk w') \<and> st' = st)" for e
  proof (cases r1)
    case (Inr u)
    then have "safe_world backup old new (\<lambda>d. dk_main d = Some new) w1"
      using tripleD [OF write_snapshot_safe start 1] by blast
    then show ?thesis using assms(1,2,5) 1 Inr by (auto simp: saveUnlocked_def Let_def safe_world_def)
  next
    case (Inl e1)
    then have "safe_world backup old new (old_disk backup old) w1"
      using tripleD [OF write_snapshot_safe start 1] by blast
    moreover obtain r2 w2 where 2: "save_cleanup backup w1 = (r2, w2)" by (cases "save_cleanup backup w1")
    ultimately have "safe_world backup old new (old_disk backup old) w2"
      using tripleD [OF save_cleanup_safe [where R = "safe_world backup old new (old_disk backup old)"], of backup old new w1 r2 w2]
      by (cases r2) auto
    then show ?thesis using assms(1,2,5) 1 2 Inl by (auto simp: saveUnlocked_def Let_def safe_world_def)
  qed
  then show "\<forall>d\<in>set (wd_trace w'). safe_disk backup old new d"
    "r = Inr () \<Longrightarrow> dk_main (wd_disk w') = Some new \<and> st' = st\<lparr>fs_revision := fs_revision st + 1, fs_dirty := False\<rparr>"
    "r = Inl e \<Longrightarrow> old_disk backup old (wd_disk w') \<and> st' = st" by blast+
qed

section \<open>Opening\<close>

text \<open>The text is read as the snapshot of \<open>s\<close> with a revision.\<close>

definition written :: "gcm \<Rightarrow> bytes option \<Rightarrow> int \<Rightarrow> memory_storage \<Rightarrow> file_text \<Rightarrow> bool" where
  "written G key n s t \<longleftrightarrow> file_ok s \<and> (\<forall>v. loadPersistedState G key v (Some t) = Inr (snapshot_state n s, False))"

lemma written_payload:
  assumes "reads_back E (fs_encryptionKey st) (toSnapshot n st)" "file_ok (fs_mem st)" "0 \<le> n" "n \<le> MAX_SAFE_INTEGER"
  shows "written (fe_gcm E) (fs_encryptionKey st) n (fs_mem st) (snapshot_payload E n st)"
  using load_payload [OF assms] assms(2) by (simp add: written_def)

definition options_of :: "bool \<Rightarrow> bytes option \<Rightarrow> file_options \<Rightarrow> bool" where
  "options_of backup key options \<longleftrightarrow> (fo_backup options \<noteq> Some False) = backup \<and> fo_encryptionKey options = key \<and> key_fits key"

lemma io_call_no_fault:
  "wd_faults w = [] \<Longrightarrow> io_call f h e w = (Inr (), \<lparr>wd_disk = f (wd_disk w), wd_faults = [], wd_trace = f (wd_disk w) # h (wd_disk w) # wd_trace w\<rparr>)"
  by (simp add: io_call_def Let_def)

lemma load_written:
  assumes "options_of backup key options" "written (fe_gcm E) key n s t" "wd_faults w = []" "old_disk backup t (wd_disk w)"
  obtains w' where "load_or_recover E options w = (Inr (Some (snapshot_state n s, False)), w')" "dk_main (wd_disk w') = Some t"
    "wd_faults w' = []"
proof (cases "dk_main (wd_disk w)")
  case None
  then have backup: "fo_backup options \<noteq> Some False" "dk_backup (wd_disk w) = Some t"
    using assms(1,4) by (auto simp: old_disk_def options_of_def)
  let ?w = "\<lparr>wd_disk = (wd_disk w)\<lparr>dk_main := Some t\<rparr>, wd_faults = [], wd_trace = (wd_disk w)\<lparr>dk_main := Some t\<rparr> #
      (wd_disk w)\<lparr>dk_main := Some NotJson\<rparr> # wd_trace w\<rparr>"
  have "recover_missing E options w = (Inr (snapshot_state n s, False), ?w)"
    using assms(1-3) backup
    by (simp add: recover_missing_def sbind_def sread_def sret_def copyBackupToMain_def io_call_no_fault written_def options_of_def)
  then have "load_or_recover E options w = (Inr (Some (snapshot_state n s, False)), ?w)"
    using None backup by (simp add: load_or_recover_def Let_def rethrow_def sbind_def sret_def)
  then show thesis by (rule that) simp_all
next
  case (Some t')
  then have "t' = t" using assms(4) by (simp add: old_disk_def)
  then have "load_or_recover E options w = (Inr (Some (snapshot_state n s, False)), w)"
    using assms(1,2) Some by (simp add: load_or_recover_def Let_def written_def options_of_def)
  then show thesis by (rule that) (use Some \<open>t' = t\<close> assms(3) in simp_all)
qed

lemma create_written:
  assumes "options_of backup key options" "written (fe_gcm E) key n s t" "wd_faults w = []" "old_disk backup t (wd_disk w)"
  obtains st w' where "create E identity rid options w = (Inr st, w')" "same_contents s (fs_mem st)" "mem_ok (fs_mem st)"
    "fs_revision st = n" "fs_encryptionKey st = key" "fs_backupEnabled st = backup" "\<not> fs_closed st" "\<not> fs_dirty st"
    "dk_main (wd_disk w') = Some t" "wd_faults w' = []"
proof -
  let ?st = "(new_FileSignalStorage (ms_identityKeyPair s) (ms_registrationId s) options)\<lparr>fs_revision := n\<rparr>"
  have "fs_mem ?st = new_MemorySignalStorage (ms_identityKeyPair s) (ms_registrationId s) (fo_signedPreKeyGracePeriodMs options)
      (fo_identityTrustPolicy options) (fo_onIdentityChanged options)"
    by (simp add: new_FileSignalStorage_def)
  then obtain m where m: "applySnapshot (snapshot_state n s) ?st = Inr (?st\<lparr>fs_mem := m\<rparr>)" "same_contents s m" "mem_ok m"
    using apply_snapshot assms(2) unfolding written_def by metis
  obtain w1 where w1: "(if fo_lock options = Some False then sret () else acquireLock) w = (Inr (), w1)" "wd_disk w1 = wd_disk w" "wd_faults w1 = []"
    using assms(3) by (cases "fo_lock options = Some False") (auto simp: sret_def acquireLock_def io_call_no_fault)
  obtain w2 where w2: "cleanupTemporaryFiles w1 = (Inr (), w2)" "dk_main (wd_disk w2) = dk_main (wd_disk w)"
      "dk_backup (wd_disk w2) = dk_backup (wd_disk w)" "wd_faults w2 = []"
    using w1(2,3) by (simp add: cleanupTemporaryFiles_def best_effort_def removeTmp_def io_call_no_fault)
  have "old_disk backup t (wd_disk w2)" using assms(4) w2(2,3) by (simp add: old_disk_def)
  then obtain w3 where w3: "load_or_recover E options w2 = (Inr (Some (snapshot_state n s, False)), w3)"
      "dk_main (wd_disk w3) = Some t" "wd_faults w3 = []"
    using load_written [OF assms(1,2) w2(4)] by blast
  have "open_loaded E options (snapshot_state n s, False) w3 = (Inr (?st\<lparr>fs_mem := m\<rparr>), w3)"
    using m(1) by (simp add: open_loaded_def Let_def sbind_def slift_def sret_def, simp add: snapshot_state_def)
  moreover have "\<not> (case fo_encryptionKey options of None \<Rightarrow> False | Some k \<Rightarrow> length k \<noteq> ENCRYPTION_KEY_LENGTH)"
    using assms(1) by (auto simp: options_of_def key_fits_def split: option.splits)
  ultimately have "create E identity rid options w = (Inr (?st\<lparr>fs_mem := m\<rparr>), w3)"
    using w1(1) w2(1) w3(1) by (simp add: create_def sbind_def)
  then show thesis
    by (rule that) (use m w3 assms(1) in \<open>simp_all add: new_FileSignalStorage_def options_of_def\<close>)
qed

section \<open>A save with its lock and its check\<close>

text \<open>The check: it changes nothing, and passes only when the file has the storage's revision.\<close>

lemma assertRevisionCurrent_same: "assertRevisionCurrent E key x = (r, y) \<Longrightarrow> y = x"
  by (cases x) (simp add: assertRevisionCurrent_def)

lemma assertRevisionCurrent_ok:
  assumes "assertRevisionCurrent E key (st, w) = (Inr u, y)" "dk_main (wd_disk w) = Some old"
  obtains data m where "loadPersistedState (fe_gcm E) key False (Some old) = Inr (data, m)" "pd_revision data = fs_revision st"
  using assms by (auto simp: assertRevisionCurrent_def split: sum.splits prod.splits if_splits)

lemma assertRevisionCurrent_conflict:
  assumes "loadPersistedState (fe_gcm E) key False (dk_main (wd_disk w)) = Inr (data, m)" "pd_revision data \<noteq> fs_revision st"
  shows "assertRevisionCurrent E key (st, w) = (Inl (FileSignalStorageConflictError (fs_revision st) (pd_revision data) []), (st, w))"
proof -
  obtain t where "dk_main (wd_disk w) = Some t"
    using assms(1) by (cases "dk_main (wd_disk w)") (auto simp: loadPersistedState_def)
  with assms show ?thesis by (simp add: assertRevisionCurrent_def)
qed

lemma lock_result:
  assumes "(if enabled then on_world acquireLock else sret ()) (st, w) = (r, (st', w'))"
  shows "st' = st \<and> wd_disk w' = wd_disk w \<and> set (wd_trace w') \<subseteq> insert (wd_disk w) (set (wd_trace w)) \<and>
    (\<forall>e. r = Inl e \<longrightarrow> wd_faults w \<noteq> []) \<and> (wd_faults w = [] \<longrightarrow> wd_faults w' = [])"
  using assms
  by (auto simp: on_world_def acquireLock_def sret_def io_call_def Let_def split: if_splits list.splits)

lemma withLock_eq: "withLock enabled f = sbind (if enabled then on_world acquireLock else sret ()) (\<lambda>_. f)"
  by (auto simp: withLock_def sbind_def sret_def fun_eq_iff)

lemma save_runs:
  assumes "fs_dirty st \<or> force" "\<not> fs_closed st"
    and "(if fs_lockEnabled st then on_world acquireLock else sret ()) (st, w) = (r1, (st1, w1))"
  shows "save E force key (st, w) =
    (case r1 of Inl e \<Rightarrow> (Inl e, (st1, w1)) | Inr _ \<Rightarrow> sbind (assertRevisionCurrent E key) (\<lambda>_. saveUnlocked E) (st1, w1))"
proof -
  have "save E force key (st, w) =
      withLock (fs_lockEnabled st) (sbind (assertRevisionCurrent E key) (\<lambda>_. saveUnlocked E)) (st, w)"
    using assms(1,2) by (auto simp: save_def)
  then show ?thesis unfolding withLock_eq sbind_def [of "if _ then _ else _"] assms(3) by simp
qed

lemma save_result:
  assumes "save E force key (st, w) = (r, (st', w'))" "new = snapshot_payload E (fs_revision st + 1) st"
    and "dk_main (wd_disk w) = Some old" "\<forall>d\<in>set (wd_trace w). safe_disk backup old new d" "backup = fs_backupEnabled st"
  shows "\<forall>d\<in>set (wd_trace w'). safe_disk backup old new d"
    and "r = Inl e \<Longrightarrow> old_disk backup old (wd_disk w') \<and> st' = st"
    and "r = Inr () \<Longrightarrow> fs_dirty st \<or> force \<Longrightarrow> dk_main (wd_disk w') = Some new \<and>
      st' = st\<lparr>fs_revision := fs_revision st + 1, fs_dirty := False\<rparr> \<and>
      (\<exists>data m. loadPersistedState (fe_gcm E) key False (Some old) = Inr (data, m) \<and> pd_revision data = fs_revision st)"
proof -
  have here: "old_disk backup old (wd_disk w)" "safe_disk backup old new (wd_disk w)" using assms(3) by (simp_all add: disk_defs)
  have "(\<forall>d\<in>set (wd_trace w'). safe_disk backup old new d) \<and> (r = Inl e \<longrightarrow> old_disk backup old (wd_disk w') \<and> st' = st) \<and>
    (r = Inr () \<and> (fs_dirty st \<or> force) \<longrightarrow> dk_main (wd_disk w') = Some new \<and>
      st' = st\<lparr>fs_revision := fs_revision st + 1, fs_dirty := False\<rparr> \<and>
      (\<exists>data m. loadPersistedState (fe_gcm E) key False (Some old) = Inr (data, m) \<and> pd_revision data = fs_revision st))" for e
  proof (cases "fs_closed st \<or> \<not> fs_dirty st \<and> \<not> force")
    case True
    then show ?thesis using assms(1,4) here by (auto simp: save_def split: if_splits)
  next
    case False
    let ?lock = "(if fs_lockEnabled st then on_world acquireLock else sret ()) (st, w)"
    obtain r1 st1 w1 where 1: "?lock = (r1, (st1, w1))" by (cases ?lock) auto
    note L = lock_result [OF 1]
    have "fs_dirty st \<or> force" "\<not> fs_closed st" using False by simp_all
    note run = save_runs [OF this 1]
    have trace: "\<forall>d\<in>set (wd_trace w1). safe_disk backup old new d" using L assms(4) here by blast
    have disk: "dk_main (wd_disk w1) = Some old" using L assms(3) by simp
    show ?thesis
    proof (cases r1)
      case (Inl e1)
      then show ?thesis using run assms(1) L trace here by auto
    next
      case (Inr u)
      obtain r2 x2 where 2: "assertRevisionCurrent E key (st1, w1) = (r2, x2)" by (cases "assertRevisionCurrent E key (st1, w1)")
      note x2 = assertRevisionCurrent_same [OF 2]
      show ?thesis
      proof (cases r2)
        case (Inl e2)
        then show ?thesis using run assms(1) L trace here 2 x2 Inr by (auto simp: sbind_def)
      next
        case Inr2: (Inr u2)
        then have save: "saveUnlocked E (st, w1) = (r, (st', w'))" using run assms(1) L 2 x2 Inr by (simp add: sbind_def)
        have "\<exists>data m. loadPersistedState (fe_gcm E) key False (Some old) = Inr (data, m) \<and> pd_revision data = fs_revision st"
          using assertRevisionCurrent_ok [of E key st1 w1] 2 Inr2 disk L by metis
        with saveUnlocked_safe [OF save assms(2) disk trace assms(5)] show ?thesis by blast
      qed
    qed
  qed
  then show "\<forall>d\<in>set (wd_trace w'). safe_disk backup old new d"
    "r = Inl e \<Longrightarrow> old_disk backup old (wd_disk w') \<and> st' = st"
    "r = Inr () \<Longrightarrow> fs_dirty st \<or> force \<Longrightarrow> dk_main (wd_disk w') = Some new \<and>
      st' = st\<lparr>fs_revision := fs_revision st + 1, fs_dirty := False\<rparr> \<and>
      (\<exists>data m. loadPersistedState (fe_gcm E) key False (Some old) = Inr (data, m) \<and> pd_revision data = fs_revision st)"
    by blast+
qed

text \<open>A storage whose revision is not that of the file cannot save.\<close>

lemma save_conflict:
  assumes "loadPersistedState (fe_gcm E) key False (dk_main (wd_disk w)) = Inr (data, m)" "pd_revision data \<noteq> fs_revision st"
    and "fs_dirty st \<or> force" "\<not> fs_closed st"
  obtains e w' where "save E force key (st, w) = (Inl e, (st, w'))" "wd_disk w' = wd_disk w"
    "wd_faults w = [] \<Longrightarrow> e = FileSignalStorageConflictError (fs_revision st) (pd_revision data) []"
proof -
  let ?lock = "(if fs_lockEnabled st then on_world acquireLock else sret ()) (st, w)"
  obtain r1 st1 w1 where 1: "?lock = (r1, (st1, w1))" by (cases ?lock) auto
  note L = lock_result [OF 1]
  note run = save_runs [OF assms(3,4) 1]
  show thesis
  proof (cases r1)
    case (Inl e)
    with run L show thesis by (intro that [of e w1]) auto
  next
    case (Inr u)
    have "loadPersistedState (fe_gcm E) key False (dk_main (wd_disk w1)) = Inr (data, m)" using assms(1) L by simp
    from assertRevisionCurrent_conflict [OF this assms(2)] run Inr L show thesis by (intro that [of _ w1]) (auto simp: sbind_def)
  qed
qed

end
