(* ===== verification/File_Lock.thy ===== *)
theory File_Lock
  imports File_Format
begin

text \<open>
  \<open>src/file-storage.ts\<close>: the lock file that processes use to take turns on a storage. First the loop of
  one process with what it meets at each attempt, then several processes on one lock file, with a
  step for every call they make.
\<close>

section \<open>The contents of a lock file\<close>

definition DEFAULT_LOCK_TIMEOUT_MS :: int where "DEFAULT_LOCK_TIMEOUT_MS = 5000"
definition DEFAULT_STALE_LOCK_MS :: int where "DEFAULT_STALE_LOCK_MS = 10 * 60 * 1000"

record lock_metadata =
  lm_token :: string
  lm_pid :: jsval
  lm_hostname :: string
  lm_createdAt :: jsval
  lm_filePath :: string

fun is_js_number :: "jsval \<Rightarrow> bool" where
  "is_js_number (JInt _) = True"
| "is_js_number (JFrac n) = True"
| "is_js_number JNaN = True"
| "is_js_number _ = False"

text \<open>The parsed contents, or nothing for a file that is missing or holds no JSON.\<close>

definition readLockMetadata :: "jsval option \<Rightarrow> lock_metadata option" where
  "readLockMetadata contents =
     (case contents of
        None \<Rightarrow> None
      | Some v \<Rightarrow>
          if \<not> isRecord v \<or> \<not> is_js_str (js_get v ''token'') \<or> \<not> is_js_number (js_get v ''pid'') \<or>
             \<not> is_js_str (js_get v ''hostname'') \<or> \<not> is_js_number (js_get v ''createdAt'') \<or> \<not> is_js_str (js_get v ''filePath'')
          then None
          else Some \<lparr>lm_token = js_str (js_get v ''token''), lm_pid = js_get v ''pid'', lm_hostname = js_str (js_get v ''hostname''),
                 lm_createdAt = js_get v ''createdAt'', lm_filePath = js_str (js_get v ''filePath'')\<rparr>)"

text \<open>\<open>process.kill(pid, 0)\<close>: no error, \<open>EPERM\<close>, or another error.\<close>

datatype kill_result = Signalled | Eperm | Esrch

record process_view =
  pv_hostname :: string
  pv_pid :: int
  pv_startedAt :: int
  pv_now :: int
  pv_kill :: "int \<Rightarrow> kill_result"

definition isProcessAlive :: "process_view \<Rightarrow> jsval \<Rightarrow> bool" where
  "isProcessAlive V pid = (case pid of JInt n \<Rightarrow> 0 < n \<and> pv_kill V n \<noteq> Esrch | _ \<Rightarrow> False)"

definition js_less :: "jsval \<Rightarrow> int \<Rightarrow> bool" where
  "js_less v n = (case v of JInt m \<Rightarrow> m < n | _ \<Rightarrow> False)"

text \<open>\<open>mtime\<close> is the modification time of the file, or nothing when it is gone.\<close>

definition isLockStale :: "process_view \<Rightarrow> jsval option \<Rightarrow> int option \<Rightarrow> int \<Rightarrow> bool" where
  "isLockStale V contents mtime staleLockMs =
     (case readLockMetadata contents of
        Some m \<Rightarrow>
          if lm_hostname m = pv_hostname V then
            (if lm_pid m = JInt (pv_pid V) \<and> js_less (lm_createdAt m) (pv_startedAt V - 1000) then True
             else \<not> isProcessAlive V (lm_pid m))
          else (case mtime of None \<Rightarrow> False | Some t \<Rightarrow> pv_now V - t > staleLockMs)
      | None \<Rightarrow> (case mtime of None \<Rightarrow> False | Some t \<Rightarrow> pv_now V - t > staleLockMs))"

text \<open>Whether \<open>releaseFileLock\<close> removes the file.\<close>

definition releases :: "jsval option \<Rightarrow> string \<Rightarrow> bool" where
  "releases contents token = (case readLockMetadata contents of None \<Rightarrow> True | Some m \<Rightarrow> lm_token m = token)"

definition lock_contents :: "string \<Rightarrow> int \<Rightarrow> string \<Rightarrow> int \<Rightarrow> string \<Rightarrow> jsval" where
  "lock_contents token pid host createdAt filePath =
     JObj [(''token'', JStr token), (''pid'', JInt pid), (''hostname'', JStr host), (''createdAt'', JInt createdAt),
           (''filePath'', JStr filePath)]"

lemma read_lock_contents [simp]:
  "readLockMetadata (Some (lock_contents token pid host createdAt filePath)) =
     Some \<lparr>lm_token = token, lm_pid = JInt pid, lm_hostname = host, lm_createdAt = JInt createdAt, lm_filePath = filePath\<rparr>"
  by (simp add: readLockMetadata_def lock_contents_def)

section \<open>Waiting for the lock\<close>

text \<open>The exclusive creation of the file at an attempt: created, refused because it exists, or another error.\<close>

datatype lock_attempt = Created | Exists | Refused

text \<open>
  Attempt \<open>k\<close>: its outcome, whether the lock that is there is stale and its removal works, and the
  clock when the attempt ends. The result names the attempt that took the lock, whose token it is.
\<close>

record lock_world =
  lw_attempt :: "nat \<Rightarrow> lock_attempt"
  lw_stale :: "nat \<Rightarrow> bool"
  lw_removed :: "nat \<Rightarrow> bool"
  lw_now :: "nat \<Rightarrow> int"

partial_function (option) acquire_from :: "lock_world \<Rightarrow> int \<Rightarrow> nat \<Rightarrow> (error + nat) option" where
  "acquire_from W deadline k =
     (case lw_attempt W k of
        Created \<Rightarrow> Some (Inr k)
      | Refused \<Rightarrow> Some (Inl (FileSignalStorageLockError ''Failed to acquire storage lock''))
      | Exists \<Rightarrow>
          if lw_stale W k \<and> lw_removed W k then acquire_from W deadline (Suc k)
          else if lw_now W k \<ge> deadline
          then Some (Inl (FileSignalStorageLockError ''FileSignalStorage is already locked by another process''))
          else acquire_from W deadline (Suc k))"

definition acquireFileLock :: "lock_world \<Rightarrow> int option \<Rightarrow> int \<Rightarrow> (error + nat) option" where
  "acquireFileLock W lockTimeoutMs now =
     acquire_from W (now + max 0 (case lockTimeoutMs of None \<Rightarrow> DEFAULT_LOCK_TIMEOUT_MS | Some t \<Rightarrow> t)) 0"

declare acquire_from.simps [code]

lemma acquire_from_result:
  assumes "acquire_from W deadline k = Some r"
  shows "case r of Inr j \<Rightarrow> k \<le> j \<and> lw_attempt W j = Created | Inl e \<Rightarrow> (\<exists>m. e = FileSignalStorageLockError m)"
proof (rule acquire_from.raw_induct [OF _ assms])
  fix acq and W :: lock_world and deadline :: int and k :: nat and r :: "error + nat"
  assume IH: "\<And>W deadline k r. acq W deadline k = Some r \<Longrightarrow>
      case r of Inr j \<Rightarrow> k \<le> j \<and> lw_attempt W j = Created | Inl e \<Rightarrow> (\<exists>m. e = FileSignalStorageLockError m)"
    and body: "(case lw_attempt W k of
        Created \<Rightarrow> Some (Inr k)
      | Exists \<Rightarrow>
          if lw_stale W k \<and> lw_removed W k then acq W deadline (Suc k)
          else if deadline \<le> lw_now W k
          then Some (Inl (FileSignalStorageLockError ''FileSignalStorage is already locked by another process''))
          else acq W deadline (Suc k)
      | Refused \<Rightarrow> Some (Inl (FileSignalStorageLockError ''Failed to acquire storage lock''))) = Some r"
  show "case r of Inr j \<Rightarrow> k \<le> j \<and> lw_attempt W j = Created | Inl e \<Rightarrow> (\<exists>m. e = FileSignalStorageLockError m)"
  proof (cases "acq W deadline (Suc k) = Some r")
    case True
    from IH [OF this] show ?thesis by (auto split: sum.splits)
  next
    case False
    then show ?thesis using body by (auto split: lock_attempt.splits if_splits)
  qed
qed

text \<open>
  The loop ends when, from some attempt on, the clock has passed the deadline and no stale lock is
  removed any more.
\<close>

lemma acquire_from_returns:
  assumes "k \<le> m" "lw_now W m \<ge> deadline" "\<not> (lw_stale W m \<and> lw_removed W m)"
  shows "\<exists>r. acquire_from W deadline k = Some r"
  using assms(1)
proof (induction "m - k" arbitrary: k)
  case 0
  then have "k = m" by simp
  with assms(2,3) show ?case by (subst acquire_from.simps) (auto split: lock_attempt.split)
next
  case (Suc d)
  then have "\<exists>r. acquire_from W deadline (Suc k) = Some r" by (intro Suc(1)) auto
  then show ?case by (subst acquire_from.simps) (auto split: lock_attempt.split)
qed

section \<open>Processes on one lock file\<close>

text \<open>
  Where a process is: outside, about to create the file, between the creation and the writing of its
  contents, having found a file, having found it stale, inside with the lock, or ended.
\<close>

datatype lock_loc = Outside | Trying | Writing | Checking | Removing | Inside | Ended

text \<open>
  The file with its creator and whether its contents are written. The processes share a host, and a
  file without contents gets older than \<open>staleLockMs\<close> only when its creator has ended.
\<close>

record lock_system =
  lk_file :: "(nat \<times> bool) option"
  lk_loc :: "nat \<Rightarrow> lock_loc"

definition move_to :: "nat \<Rightarrow> lock_loc \<Rightarrow> (nat \<times> bool) option \<Rightarrow> lock_system \<Rightarrow> lock_system" where
  "move_to p l file s = \<lparr>lk_file = file, lk_loc = (lk_loc s)(p := l)\<rparr>"

definition lock_stale :: "lock_system \<Rightarrow> bool" where
  "lock_stale s = (case lk_file s of None \<Rightarrow> False | Some (q, _) \<Rightarrow> lk_loc s q = Ended)"

definition written_by :: "nat \<Rightarrow> (nat \<times> bool) option \<Rightarrow> (nat \<times> bool) option" where
  "written_by p file = (if file = Some (p, False) then Some (p, True) else file)"

definition released_by :: "nat \<Rightarrow> (nat \<times> bool) option \<Rightarrow> (nat \<times> bool) option" where
  "released_by p file = (case file of Some (q, True) \<Rightarrow> if q = p then None else file | _ \<Rightarrow> None)"

inductive lock_step :: "lock_system \<Rightarrow> lock_system \<Rightarrow> bool" where
  Enter: "lk_loc s p = Outside \<Longrightarrow> lock_step s (move_to p Trying (lk_file s) s)"
| Create: "lk_loc s p = Trying \<Longrightarrow> lk_file s = None \<Longrightarrow> lock_step s (move_to p Writing (Some (p, False)) s)"
| Found: "lk_loc s p = Trying \<Longrightarrow> lk_file s \<noteq> None \<Longrightarrow> lock_step s (move_to p Checking (lk_file s) s)"
| Write: "lk_loc s p = Writing \<Longrightarrow> lock_step s (move_to p Inside (written_by p (lk_file s)) s)"
| Stale: "lk_loc s p = Checking \<Longrightarrow> lock_stale s \<Longrightarrow> lock_step s (move_to p Removing (lk_file s) s)"
| Wait: "lk_loc s p = Checking \<Longrightarrow> \<not> lock_stale s \<Longrightarrow> lock_step s (move_to p Trying (lk_file s) s)"
| Timeout: "lk_loc s p = Checking \<Longrightarrow> \<not> lock_stale s \<Longrightarrow> lock_step s (move_to p Outside (lk_file s) s)"
| Remove: "lk_loc s p = Removing \<Longrightarrow> lock_step s (move_to p Trying None s)"
| Release: "lk_loc s p = Inside \<Longrightarrow> lock_step s (move_to p Outside (released_by p (lk_file s)) s)"
| Crash: "lock_step s (move_to p Ended (lk_file s) s)"

definition no_lock :: lock_system where
  "no_lock = \<lparr>lk_file = None, lk_loc = (\<lambda>_. Outside)\<rparr>"

text \<open>A step after which no process that has ended has left a lock behind.\<close>

definition clean_step :: "lock_system \<Rightarrow> lock_system \<Rightarrow> bool" where
  "clean_step s s' \<longleftrightarrow> lock_step s s' \<and> \<not> lock_stale s'"

definition lock_inv :: "lock_system \<Rightarrow> bool" where
  "lock_inv s \<longleftrightarrow> \<not> lock_stale s \<and> (\<forall>p. lk_loc s p \<noteq> Removing) \<and>
     (\<forall>p. lk_loc s p = Writing \<longrightarrow> lk_file s = Some (p, False)) \<and>
     (\<forall>p. lk_loc s p = Inside \<longrightarrow> lk_file s = Some (p, True)) \<and>
     (\<forall>p b. lk_file s = Some (p, b) \<longrightarrow> lk_loc s p = Writing \<or> lk_loc s p = Inside)"

lemma lock_inv_step:
  assumes "lock_inv s" "clean_step s s'"
  shows "lock_inv s'"
proof -
  have stale: "\<not> lock_stale s'" and step: "lock_step s s'" using assms(2) by (simp_all add: clean_step_def)
  note I = assms(1) [unfolded lock_inv_def]
  from step stale show ?thesis
  proof (cases rule: lock_step.cases)
    case (Crash p)
    have "lk_file s \<noteq> Some (p, b)" for b using stale Crash by (auto simp: lock_stale_def move_to_def)
    with Crash I stale show ?thesis by (auto simp: lock_inv_def move_to_def)
  next
    case (Write p)
    then have own: "lk_file s = Some (p, False)" using I by blast
    then have "lk_loc s q \<noteq> Writing \<and> lk_loc s q \<noteq> Inside" if "q \<noteq> p" for q using I that by force
    with own Write I stale show ?thesis by (auto simp: lock_inv_def move_to_def written_by_def)
  next
    case (Release p)
    then have own: "lk_file s = Some (p, True)" using I by blast
    then have "lk_loc s q \<noteq> Writing \<and> lk_loc s q \<noteq> Inside" if "q \<noteq> p" for q using I that by force
    with own Release I stale show ?thesis by (auto simp: lock_inv_def move_to_def released_by_def)
  qed (use I in \<open>auto simp: lock_inv_def move_to_def lock_stale_def written_by_def released_by_def split: option.splits if_splits bool.splits\<close>)
qed

lemma clean_reachable_inv: "clean_step\<^sup>*\<^sup>* no_lock s \<Longrightarrow> lock_inv s"
proof (induction rule: rtranclp_induct)
  case base
  show ?case by (simp add: lock_inv_def no_lock_def lock_stale_def)
qed (rule lock_inv_step)

text \<open>The staleness of the model is that of the code, for a lock of the same host.\<close>

lemma isLockStale_same_host:
  "pid \<noteq> pv_pid V \<Longrightarrow> isLockStale V (Some (lock_contents token pid (pv_hostname V) createdAt filePath)) mtime ms \<longleftrightarrow>
     pid \<le> 0 \<or> pv_kill V pid = Esrch"
  by (auto simp: isLockStale_def isProcessAlive_def)

lemma releases_own: "releases (Some (lock_contents token pid host createdAt filePath)) token' \<longleftrightarrow> token = token'"
  by (simp add: releases_def)

text \<open>
  Two processes that find the same stale lock: the second one removes the lock that the first one
  has taken in the meantime.
\<close>

definition lock_state :: "(nat \<times> bool) option \<Rightarrow> lock_loc \<Rightarrow> lock_loc \<Rightarrow> lock_loc \<Rightarrow> lock_system" where
  "lock_state file a b c = \<lparr>lk_file = file, lk_loc = (\<lambda>_. Outside)(0 := a, 1 := b, 2 := c)\<rparr>"

lemma move_lock_state:
  "move_to 0 l f (lock_state file a b c) = lock_state f l b c" "move_to 1 l f (lock_state file a b c) = lock_state f a l c"
  "move_to (Suc 0) l f (lock_state file a b c) = lock_state f a l c" "move_to 2 l f (lock_state file a b c) = lock_state f a b l"
  by (simp_all add: move_to_def lock_state_def fun_upd_twist)

lemma lock_state_sel [simp]:
  "lk_file (lock_state file a b c) = file" "lk_loc (lock_state file a b c) 0 = a"
  "lk_loc (lock_state file a b c) 1 = b" "lk_loc (lock_state file a b c) (Suc 0) = b" "lk_loc (lock_state file a b c) 2 = c"
  by (simp_all add: lock_state_def)

lemma lock_stale_race:
  "\<exists>s. lock_step\<^sup>*\<^sup>* no_lock s \<and> lk_loc s 1 = Inside \<and> lk_loc s 2 = Inside"
proof -
  let ?S = lock_state
  have init: "no_lock = ?S None Outside Outside Outside" by (simp add: no_lock_def lock_state_def fun_upd_idem)
  note st = move_lock_state written_by_def
  have "lock_step\<^sup>*\<^sup>* no_lock (?S None Trying Outside Outside)"
    using lock_step.Enter [of "?S None Outside Outside Outside" 0] by (simp add: init st)
  also have "lock_step\<^sup>*\<^sup>* \<dots> (?S (Some (0, False)) Writing Outside Outside)"
    using lock_step.Create [of "?S None Trying Outside Outside" 0] by (simp add: st r_into_rtranclp)
  also have "lock_step\<^sup>*\<^sup>* \<dots> (?S (Some (0, True)) Inside Outside Outside)"
    using lock_step.Write [of "?S (Some (0, False)) Writing Outside Outside" 0] by (simp add: st r_into_rtranclp)
  also have "lock_step\<^sup>*\<^sup>* \<dots> (?S (Some (0, True)) Ended Outside Outside)"
    using lock_step.Crash [of "?S (Some (0, True)) Inside Outside Outside" 0] by (simp add: st r_into_rtranclp)
  also have "lock_step\<^sup>*\<^sup>* \<dots> (?S (Some (0, True)) Ended Trying Outside)"
    using lock_step.Enter [of "?S (Some (0, True)) Ended Outside Outside" 1] by (simp add: st r_into_rtranclp)
  also have "lock_step\<^sup>*\<^sup>* \<dots> (?S (Some (0, True)) Ended Trying Trying)"
    using lock_step.Enter [of "?S (Some (0, True)) Ended Trying Outside" 2] by (simp add: st r_into_rtranclp)
  also have "lock_step\<^sup>*\<^sup>* \<dots> (?S (Some (0, True)) Ended Checking Trying)"
    using lock_step.Found [of "?S (Some (0, True)) Ended Trying Trying" 1] by (simp add: st r_into_rtranclp)
  also have "lock_step\<^sup>*\<^sup>* \<dots> (?S (Some (0, True)) Ended Checking Checking)"
    using lock_step.Found [of "?S (Some (0, True)) Ended Checking Trying" 2] by (simp add: st r_into_rtranclp)
  also have "lock_step\<^sup>*\<^sup>* \<dots> (?S (Some (0, True)) Ended Removing Checking)"
    using lock_step.Stale [of "?S (Some (0, True)) Ended Checking Checking" 1] by (simp add: st lock_stale_def r_into_rtranclp)
  also have "lock_step\<^sup>*\<^sup>* \<dots> (?S (Some (0, True)) Ended Removing Removing)"
    using lock_step.Stale [of "?S (Some (0, True)) Ended Removing Checking" 2] by (simp add: st lock_stale_def r_into_rtranclp)
  also have "lock_step\<^sup>*\<^sup>* \<dots> (?S None Ended Trying Removing)"
    using lock_step.Remove [of "?S (Some (0, True)) Ended Removing Removing" 1] by (simp add: st r_into_rtranclp)
  also have "lock_step\<^sup>*\<^sup>* \<dots> (?S (Some (1, False)) Ended Writing Removing)"
    using lock_step.Create [of "?S None Ended Trying Removing" 1] by (simp add: st r_into_rtranclp)
  also have "lock_step\<^sup>*\<^sup>* \<dots> (?S (Some (1, True)) Ended Inside Removing)"
    using lock_step.Write [of "?S (Some (1, False)) Ended Writing Removing" 1] by (simp add: st r_into_rtranclp)
  also have "lock_step\<^sup>*\<^sup>* \<dots> (?S None Ended Inside Trying)"
    using lock_step.Remove [of "?S (Some (1, True)) Ended Inside Removing" 2] by (simp add: st r_into_rtranclp)
  also have "lock_step\<^sup>*\<^sup>* \<dots> (?S (Some (2, False)) Ended Inside Writing)"
    using lock_step.Create [of "?S None Ended Inside Trying" 2] by (simp add: st r_into_rtranclp)
  also have "lock_step\<^sup>*\<^sup>* \<dots> (?S (Some (2, True)) Ended Inside Inside)"
    using lock_step.Write [of "?S (Some (2, False)) Ended Inside Writing" 2] by (simp add: st r_into_rtranclp)
  finally show ?thesis by (intro exI conjI) (assumption, simp_all)
qed

end
