(* ===== verification/File_Properties.thy ===== *)
theory File_Properties
  imports File_Recovery File_Lock
begin

text \<open>Properties of the file storage and of its lock, with instances on concrete storages.\<close>

section \<open>Saving and opening\<close>

abbreviation at_disk :: "disk \<Rightarrow> world" where
  "at_disk d \<equiv> \<lparr>wd_disk = d, wd_faults = [], wd_trace = []\<rparr>"

text \<open>The file holds the snapshot of \<open>s\<close> with the revision of the storage \<open>st\<close>, whose contents can be saved.\<close>

definition file_current :: "file_env \<Rightarrow> bytes option \<Rightarrow> memory_storage \<Rightarrow> file_text \<Rightarrow> file_storage \<Rightarrow> world \<Rightarrow> bool" where
  "file_current E key s old st w \<longleftrightarrow>
     written (fe_gcm E) (fs_encryptionKey st) (fs_revision st) s old \<and> dk_main (wd_disk w) = Some old \<and> wd_trace w = [] \<and>
     key_fits (fs_encryptionKey st) \<and> key_fits key \<and> file_ok (fs_mem st) \<and> 0 \<le> fs_revision st \<and> fs_revision st < MAX_SAFE_INTEGER \<and>
     reads_back E key (toSnapshot (fs_revision st + 1) st)"

lemma toSnapshot_mem: "fs_mem st' = fs_mem st \<Longrightarrow> toSnapshot n st' = toSnapshot n st"
  by (simp add: toSnapshot_def)

lemma options_fit: "options_of backup key options \<Longrightarrow> key_fits key"
  by (simp add: options_of_def)

lemma opens_old:
  assumes "written (fe_gcm E) key n s old" "old_disk backup old d" "options_of backup key options" "fe_gcm E2 = fe_gcm E"
  shows "\<exists>st2 w2. create E2 identity rid options (at_disk d) = (Inr st2, w2) \<and> same_contents s (fs_mem st2) \<and> fs_revision st2 = n"
proof -
  have "written (fe_gcm E2) key n s old" using assms(1,4) by simp
  from create_written [OF assms(3) this, of "at_disk d"] assms(2) show ?thesis by (metis world.select_convs(1,2))
qed

lemma opens_new:
  assumes "reads_back E key (toSnapshot (fs_revision st + 1) st)" "file_ok (fs_mem st)" "0 \<le> fs_revision st" "fs_revision st < MAX_SAFE_INTEGER"
    and "dk_main d = Some (snapshot_payload E (fs_revision st + 1) st)" "fs_encryptionKey st = key"
    and "options_of backup key options" "fe_gcm E2 = fe_gcm E"
  shows "\<exists>st2 w2. create E2 identity rid options (at_disk d) = (Inr st2, w2) \<and> same_contents (fs_mem st) (fs_mem st2) \<and>
    fs_revision st2 = fs_revision st + 1"
proof -
  have "written (fe_gcm E) key (fs_revision st + 1) (fs_mem st) (snapshot_payload E (fs_revision st + 1) st)"
    using written_payload [of E st "fs_revision st + 1"] assms(1-4,6) by simp
  moreover have "old_disk backup (snapshot_payload E (fs_revision st + 1) st) d" using assms(5) by (simp add: old_disk_def)
  ultimately show ?thesis using assms(7,8) by (rule opens_old)
qed

text \<open>C4: Crash safety of the file storage. Whatever calls fail during a save and wherever the process
  is stopped, opening the file afterwards succeeds and gives the contents of the last save before or
  the new contents, with the revision that belongs to them; with a backup or without one, encrypted or not.\<close>

theorem crash_recovery:
  assumes "file_current E key s old st w" "fs_encryptionKey st = key"
    and "save E force key (st, w) = (r, (st', w'))" "d \<in> set (wd_trace w')"
    and "options_of (fs_backupEnabled st) key options" "fe_gcm E2 = fe_gcm E"
  shows "\<exists>st2 w2. create E2 identity rid options (at_disk d) = (Inr st2, w2) \<and>
    (same_contents s (fs_mem st2) \<and> fs_revision st2 = fs_revision st \<or>
     same_contents (fs_mem st) (fs_mem st2) \<and> fs_revision st2 = fs_revision st + 1)"
proof -
  note cur = assms(1) [unfolded file_current_def]
  have "\<forall>d\<in>set (wd_trace w'). safe_disk (fs_backupEnabled st) old (snapshot_payload E (fs_revision st + 1) st) d"
    by (rule save_result(1) [OF assms(3) refl]) (use cur in auto)
  then have "safe_disk (fs_backupEnabled st) old (snapshot_payload E (fs_revision st + 1) st) d" using assms(4) by blast
  then consider "old_disk (fs_backupEnabled st) old d" | "dk_main d = Some (snapshot_payload E (fs_revision st + 1) st)"
    unfolding safe_disk_def by blast
  then show ?thesis
  proof cases
    case 1
    then show ?thesis using opens_old [OF _ 1 assms(5,6)] cur assms(2) by metis
  next
    case 2
    then show ?thesis using opens_new [OF _ _ _ _ 2 assms(2,5,6)] cur assms(2) by metis
  qed
qed

text \<open>C11: A flush is durable. When \<open>flush\<close> returns with changes pending, opening the file gives exactly
  these contents; when it throws, the storage keeps its changes for the next save and opening the file
  gives the contents of the save before.\<close>

theorem flush_durable:
  assumes "file_current E key s old st w" "fs_encryptionKey st = key" "fs_dirty st" "\<not> fs_closed st"
    and "flush E (st, w) = (r, (st', w'))" "options_of (fs_backupEnabled st) key options" "fe_gcm E2 = fe_gcm E"
  shows "\<exists>st2 w2. create E2 identity rid options (at_disk (wd_disk w')) = (Inr st2, w2) \<and> fs_mem st' = fs_mem st \<and>
    (case r of
       Inr _ \<Rightarrow> same_contents (fs_mem st) (fs_mem st2) \<and> fs_revision st2 = fs_revision st' \<and> \<not> fs_dirty st'
     | Inl _ \<Rightarrow> same_contents s (fs_mem st2) \<and> fs_revision st' = fs_revision st \<and> fs_dirty st')"
proof -
  note cur = assms(1) [unfolded file_current_def]
  let ?st = "st\<lparr>fs_saveTimer := False\<rparr>"
  have pay: "snapshot_payload E (fs_revision st + 1) st = snapshot_payload E (fs_revision ?st + 1) ?st"
    by (simp add: snapshot_payload_def toSnapshot_mem [of ?st st])
  have run: "save E False key (?st, w) = (r, (st', w'))"
    using assms(2,4,5) by (simp add: flush_def sbind_def on_storage_def save_now_def)
  have disk: "dk_main (wd_disk w) = Some old" "wd_trace w = []" using cur by simp_all
  have safe: "\<forall>d\<in>set (wd_trace w). safe_disk (fs_backupEnabled st) old (snapshot_payload E (fs_revision st + 1) st) d"
    using disk(2) by simp
  have backup: "fs_backupEnabled st = fs_backupEnabled ?st" by simp
  note R = save_result [OF run pay disk(1) safe backup]
  show ?thesis
  proof (cases r)
    case (Inl e)
    then have "old_disk (fs_backupEnabled st) old (wd_disk w')" "st' = ?st" using R(2) by simp_all
    moreover have "written (fe_gcm E) key (fs_revision st) s old" using cur assms(2) by simp
    ultimately obtain st2 w2 where "create E2 identity rid options (at_disk (wd_disk w')) = (Inr st2, w2)" "same_contents s (fs_mem st2)"
      using opens_old [OF _ _ assms(6,7)] by blast
    with \<open>st' = ?st\<close> show ?thesis using Inl assms(3) by simp
  next
    case (Inr u)
    then have "dk_main (wd_disk w') = Some (snapshot_payload E (fs_revision st + 1) st)"
      "st' = ?st\<lparr>fs_revision := fs_revision st + 1, fs_dirty := False\<rparr>" using R(3) assms(3) by simp_all
    moreover obtain st2 w2 where "create E2 identity rid options (at_disk (wd_disk w')) = (Inr st2, w2)" "same_contents (fs_mem st) (fs_mem st2)"
      "fs_revision st2 = fs_revision st + 1"
      using opens_new [OF _ _ _ _ calculation(1) assms(2,6,7)] cur assms(2) by blast
    ultimately show ?thesis using Inr by simp
  qed
qed


text \<open>A reservation that goes to the disk: it is saved, or the file is as before and it is taken back.\<close>

lemma available_iff:
  "i \<in> set (mem_listAvailablePreKeyIds t) \<longleftrightarrow> obj_get (ms_preKeys t) i \<noteq> None \<and> i \<notin> set (ms_published t)"
  by (auto simp: mem_listAvailablePreKeyIds_def obj_get_None)

lemma reserve_run:
  assumes "file_current E key s old st w" "fs_encryptionKey st = key"
    and run: "file_reservePreKey E i (st, w) = (r, (st', w'))"
    and fresh: "obj_get (ms_preKeys (fs_mem st)) i \<noteq> None" "i \<notin> set (ms_published (fs_mem st))"
    and stp: "stp = (in_mem (\<lambda>s. s\<lparr>ms_published := ms_published s @ [i]\<rparr>) st)\<lparr>fs_dirty := True\<rparr>"
  shows "case r of
      Inl _ \<Rightarrow> old_disk (fs_backupEnabled st) old (wd_disk w') \<and> st' = in_mem (\<lambda>s. s\<lparr>ms_published := removeAll i (ms_published s)\<rparr>) stp
    | Inr b \<Rightarrow> b \<and> dk_main (wd_disk w') = Some (snapshot_payload E (fs_revision stp + 1) stp)"
proof -
  note cur = assms(1) [unfolded file_current_def]
  obtain r1 st1 w1 where save: "save E False key (stp, w) = (r1, (st1, w1))" by (cases "save E False key (stp, w)") auto
  have res: "r = (case r1 of Inl e \<Rightarrow> Inl e | Inr _ \<Rightarrow> Inr True)" "w' = w1"
    "st' = (case r1 of Inl _ \<Rightarrow> in_mem (\<lambda>s. s\<lparr>ms_published := removeAll i (ms_published s)\<rparr>) st1 | Inr _ \<Rightarrow> st1)"
    using assms(2) run fresh save
    by (auto simp: stp file_reservePreKey_def saved_or_undone_def saved_def sbind_def on_storage_def save_now_def in_mem_def split: sum.splits)
  have disk: "dk_main (wd_disk w) = Some old" "wd_trace w = []" using cur by simp_all
  have safe: "\<forall>d\<in>set (wd_trace w). safe_disk (fs_backupEnabled st) old (snapshot_payload E (fs_revision stp + 1) stp) d"
    using disk(2) by simp
  have "fs_backupEnabled st = fs_backupEnabled stp" by (simp add: stp in_mem_def)
  note R = save_result [OF save refl disk(1) safe this]
  show ?thesis
  proof (cases r1)
    case (Inl e)
    then show ?thesis using R(2) res by simp
  next
    case (Inr u)
    have "fs_dirty stp" by (simp add: stp)
    with Inr show ?thesis using R(3) res by simp
  qed
qed

text \<open>C12: A prekey that is handed out is on disk as published. When \<open>reservePreKey\<close> returns true, the prekey
  was available, and opening the file gives a storage in which it is published and no longer available;
  when the save throws, the reservation is taken back and the file is as before.\<close>

theorem reservation_durable:
  assumes "file_current E key s old st w" "fs_encryptionKey st = key" "\<not> fs_closed st"
    and "reads_back E key (toSnapshot (fs_revision st + 1) (in_mem (\<lambda>s. s\<lparr>ms_published := ms_published s @ [i]\<rparr>) st))"
    and "file_reservePreKey E i (st, w) = (r, (st', w'))"
    and "options_of (fs_backupEnabled st) key options" "fe_gcm E2 = fe_gcm E"
  shows "case r of
      Inr True \<Rightarrow> i \<in> set (mem_listAvailablePreKeyIds (fs_mem st)) \<and>
        (\<exists>st2 w2. create E2 identity rid options (at_disk (wd_disk w')) = (Inr st2, w2) \<and>
          i \<in> set (ms_published (fs_mem st2)) \<and> i \<notin> set (mem_listAvailablePreKeyIds (fs_mem st2)))
    | Inr False \<Rightarrow> i \<notin> set (mem_listAvailablePreKeyIds (fs_mem st)) \<and> (st', w') = (st, w)
    | Inl _ \<Rightarrow> set (ms_published (fs_mem st')) = set (ms_published (fs_mem st)) \<and>
        (\<exists>st2 w2. create E2 identity rid options (at_disk (wd_disk w')) = (Inr st2, w2) \<and> same_contents s (fs_mem st2))"
proof (cases "obj_get (ms_preKeys (fs_mem st)) i = None \<or> i \<in> set (ms_published (fs_mem st))")
  case True
  then show ?thesis using assms(5) available_iff by (auto simp: file_reservePreKey_def)
next
  case False
  note cur = assms(1) [unfolded file_current_def]
  define stp where "stp = (in_mem (\<lambda>s. s\<lparr>ms_published := ms_published s @ [i]\<rparr>) st)\<lparr>fs_dirty := True\<rparr>"
  have fresh: "obj_get (ms_preKeys (fs_mem st)) i \<noteq> None" "i \<notin> set (ms_published (fs_mem st))" using False by simp_all
  note R = reserve_run [OF assms(1,2,5) fresh stp_def]
  show ?thesis
  proof (cases r)
    case (Inl e)
    have "written (fe_gcm E) key (fs_revision st) s old" using cur assms(2) by simp
    moreover have "old_disk (fs_backupEnabled st) old (wd_disk w')" using R Inl by simp
    ultimately have "\<exists>st2 w2. create E2 identity rid options (at_disk (wd_disk w')) = (Inr st2, w2) \<and> same_contents s (fs_mem st2)"
      using opens_old [OF _ _ assms(6,7)] by blast
    then show ?thesis using R Inl fresh(2) by (simp add: stp_def in_mem_def)
  next
    case (Inr b)
    then have b: b and main: "dk_main (wd_disk w') = Some (snapshot_payload E (fs_revision stp + 1) stp)" using R by simp_all
    have "toSnapshot n stp = toSnapshot n (in_mem (\<lambda>s. s\<lparr>ms_published := ms_published s @ [i]\<rparr>) st)" for n
      unfolding stp_def by (rule toSnapshot_mem) simp
    then have pre: "reads_back E key (toSnapshot (fs_revision stp + 1) stp)" "0 \<le> fs_revision stp" "fs_revision stp < MAX_SAFE_INTEGER"
      "fs_encryptionKey stp = key"
      using assms(2,4) cur by (simp_all add: stp_def in_mem_def)
    have ok: "file_ok (fs_mem stp)" using cur fresh by (auto simp: stp_def file_ok_def mem_ok_def in_mem_def obj_get_None)
    have opts: "options_of (fs_backupEnabled stp) key options" using assms(6) by (simp add: stp_def in_mem_def)
    obtain st2 w2 where "create E2 identity rid options (at_disk (wd_disk w')) = (Inr st2, w2)" "same_contents (fs_mem stp) (fs_mem st2)"
      using opens_new [OF pre(1) ok pre(2,3) main pre(4) opts assms(7)] by blast
    moreover from this(2) have "i \<in> set (ms_published (fs_mem st2))" by (simp add: same_contents_def stp_def in_mem_def)
    ultimately show ?thesis using Inr b available_iff fresh by auto
  qed
qed


section \<open>Instances\<close>

text \<open>A storage whose file holds its first snapshot, and the same with a prekey that is not saved yet.\<close>

definition demo_options :: "bytes option \<Rightarrow> file_options" where
  "demo_options key = \<lparr>fo_signedPreKeyGracePeriodMs = None, fo_encryptionKey = key, fo_identityTrustPolicy = None,
     fo_onIdentityChanged = False, fo_lock = Some False, fo_backup = None\<rparr>"

definition demo_saved :: file_storage where
  "demo_saved = (new_FileSignalStorage \<lparr>pubKey = replicate 33 5, privKey = replicate 32 1\<rparr> 7 (demo_options None))\<lparr>fs_revision := 1\<rparr>"

definition demo_changed :: file_storage where
  "demo_changed = (in_mem (mem_storePreKey 3 \<lparr>pubKey = replicate 33 6, privKey = replicate 32 2\<rparr>) demo_saved)\<lparr>fs_dirty := True\<rparr>"

definition demo_old :: file_text where
  "demo_old = toSnapshot 1 demo_saved"

text \<open>A cipher that reads one text back.\<close>

definition demo_file_env :: "file_text \<Rightarrow> file_env" where
  "demo_file_env t = \<lparr>fe_gcm = \<lparr>gcm_seal = (\<lambda>_ _ _. ([1], [2])), gcm_open = (\<lambda>_ _ _ _. Some t)\<rparr>, fe_iv = replicate 12 0, fe_now = 0\<rparr>"

definition demo_disk :: disk where
  "demo_disk = \<lparr>dk_main = Some demo_old, dk_backup = None, dk_tmp = None, dk_corrupt = []\<rparr>"

definition demo_world :: "bool list \<Rightarrow> world" where
  "demo_world faults = \<lparr>wd_disk = demo_disk, wd_faults = faults, wd_trace = []\<rparr>"

lemmas demo_file_defs = demo_saved_def demo_changed_def new_FileSignalStorage_def new_MemorySignalStorage_def demo_options_def
  in_mem_def mem_storePreKey_def demo_world_def demo_disk_def

lemma demo_file_ok: "file_ok (fs_mem demo_saved)" "file_ok (fs_mem demo_changed)"
  by (simp_all add: file_ok_def mem_ok_def demo_file_defs key_pair_sizes_def FS_MAX_REGISTRATION_ID_def MAX_KEY_ID_def)

lemma demo_fields [simp]:
  "fs_encryptionKey demo_changed = None" "fs_revision demo_changed = 1" "fs_dirty demo_changed" "\<not> fs_closed demo_changed"
  "fs_backupEnabled demo_changed" "\<not> fs_lockEnabled demo_changed"
  by (simp_all add: demo_file_defs)

lemma demo_written: "written G None 1 (fs_mem demo_saved) demo_old"
  using load_plain [OF demo_file_ok(1), of 1 demo_saved] demo_file_ok(1)
  by (simp add: written_def demo_old_def MAX_SAFE_INTEGER_def)

lemma demo_current:
  "key = None \<or> key = Some (replicate 32 9) \<and> t = toSnapshot 2 demo_changed \<Longrightarrow>
     file_current (demo_file_env t) key (fs_mem demo_saved) demo_old demo_changed (demo_world faults)"
  using demo_written demo_file_ok(2)
  by (auto simp: file_current_def demo_world_def demo_disk_def key_fits_def MAX_SAFE_INTEGER_def reads_back_def demo_file_env_def
      ENCRYPTION_KEY_LENGTH_def)

lemma demo_options_of: "key_fits key \<Longrightarrow> options_of True key (demo_options key)"
  by (simp add: options_of_def demo_options_def)

lemma demo_save:
  "save (demo_file_env t) False None (demo_changed, demo_world faults) = saveUnlocked (demo_file_env t) (demo_changed, demo_world faults)"
  using demo_written [of "fe_gcm (demo_file_env t)"]
  by (simp add: save_def withLock_def sbind_def assertRevisionCurrent_def demo_world_def demo_disk_def written_def snapshot_state_def)

lemma demo_trace:
  "demo_disk\<lparr>dk_tmp := Some NotJson\<rparr> \<in> set (wd_trace (snd (snd (save (demo_file_env t) False None (demo_changed, demo_world [True])))))"
  unfolding demo_save
  by (simp add: saveUnlocked_def Let_def write_snapshot_def sbind_def writeTmp_def io_call_def demo_world_def save_cleanup_def
      best_effort_def removeTmp_def sret_def demo_disk_def)

lemmas save_defs = saveUnlocked_def Let_def write_snapshot_def sbind_def writeTmp_def removeBackup_def renameMainToBackup_def
  renameTmpToMain_def io_call_def sret_def


theorem crash_recovery_witness:
  "\<exists>st2 w2. create (demo_file_env NotJson) \<lparr>pubKey = [], privKey = []\<rparr> 9 (demo_options None)
     (at_disk (demo_disk\<lparr>dk_tmp := Some NotJson\<rparr>)) = (Inr st2, w2) \<and> (fs_revision st2 = 1 \<or> fs_revision st2 = 2)"
proof -
  obtain r st' w' where save: "save (demo_file_env NotJson) False None (demo_changed, demo_world [True]) = (r, (st', w'))"
    by (cases "save (demo_file_env NotJson) False None (demo_changed, demo_world [True])") auto
  then have "demo_disk\<lparr>dk_tmp := Some NotJson\<rparr> \<in> set (wd_trace w')" using demo_trace [of NotJson] by simp
  moreover have "options_of (fs_backupEnabled demo_changed) None (demo_options None)" using demo_options_of [of None] by (simp add: key_fits_def)
  ultimately show ?thesis
    using crash_recovery [OF demo_current [of None NotJson "[True]"] demo_fields(1) save _ _ refl,
        of "demo_disk\<lparr>dk_tmp := Some NotJson\<rparr>" "demo_options None" "\<lparr>pubKey = [], privKey = []\<rparr>" 9] by fastforce
qed

theorem flush_durable_witness:
  "\<exists>st2 w2. create (demo_file_env NotJson) \<lparr>pubKey = [], privKey = []\<rparr> 9 (demo_options None)
     (at_disk (wd_disk (snd (snd (flush (demo_file_env NotJson) (demo_changed, demo_world [False, True])))))) = (Inr st2, w2)"
proof -
  obtain r st' w' where run: "flush (demo_file_env NotJson) (demo_changed, demo_world [False, True]) = (r, (st', w'))"
    by (cases "flush (demo_file_env NotJson) (demo_changed, demo_world [False, True])") auto
  have "options_of (fs_backupEnabled demo_changed) None (demo_options None)" using demo_options_of [of None] by (simp add: key_fits_def)
  from flush_durable [OF demo_current [of None NotJson] demo_fields(1,3,4) run this refl, of "\<lparr>pubKey = [], privKey = []\<rparr>" 9]
  show ?thesis using run by auto
qed


theorem reservation_durable_witness:
  "case fst (file_reservePreKey (demo_file_env NotJson) 3 (demo_changed, demo_world [False, True])) of
     Inr b \<Rightarrow> b | Inl _ \<Rightarrow> set (ms_published (fs_mem (fst (snd
       (file_reservePreKey (demo_file_env NotJson) 3 (demo_changed, demo_world [False, True])))))) = {}"
proof -
  obtain r st' w' where run: "file_reservePreKey (demo_file_env NotJson) 3 (demo_changed, demo_world [False, True]) = (r, (st', w'))"
    by (cases "file_reservePreKey (demo_file_env NotJson) 3 (demo_changed, demo_world [False, True])") auto
  have opts: "options_of (fs_backupEnabled demo_changed) None (demo_options None)" using demo_options_of [of None] by (simp add: key_fits_def)
  have "3 \<in> set (mem_listAvailablePreKeyIds (fs_mem demo_changed))" "ms_published (fs_mem demo_changed) = []"
    by (simp_all add: mem_listAvailablePreKeyIds_def demo_file_defs)
  moreover have "reads_back (demo_file_env NotJson) None u" for u by (simp add: reads_back_def)
  ultimately show ?thesis
    using reservation_durable [OF demo_current [of None NotJson] demo_fields(1,4) _ run opts refl, of "\<lparr>pubKey = [], privKey = []\<rparr>" 9] run
    by (cases r) (auto split: bool.splits)
qed

lemma demo_rotated:
  "let (r, (st', w')) = rotateEncryptionKey (demo_file_env t) (Some (replicate 32 9)) (demo_changed, demo_world []) in
     r = Inr () \<and> fs_encryptionKey st' = Some (replicate 32 9) \<and> dk_backup (wd_disk w') = Some demo_old"
  using demo_written [of "fe_gcm (demo_file_env t)"]
  by (simp add: rotateEncryptionKey_def ENCRYPTION_KEY_LENGTH_def save_def withLock_def assertRevisionCurrent_def
      written_def snapshot_state_def save_defs demo_world_def demo_disk_def)


text \<open>
  After the key was set or changed, the backup is the previous snapshot: here the plain text of the
  file, with the private keys, although the storage is encrypted from now on.
\<close>

lemma rotation_leaves_plain_backup:
  "let (r, (st', w')) = rotateEncryptionKey (demo_file_env t) (Some (replicate 32 9)) (demo_changed, demo_world []) in
     r = Inr () \<and> dk_backup (wd_disk w') = Some demo_old \<and>
     loadPersistedState G None True (dk_backup (wd_disk w')) = Inr (snapshot_state 1 (fs_mem demo_saved), False)"
  using demo_rotated [of t] demo_written [of G] by (simp add: case_prod_unfold written_def Let_def)

section \<open>The lock file\<close>


text \<open>C35: Waiting for a lock ends. The loop returns as soon as an attempt after the deadline meets a lock that
  is not stale; it returns the lock only when it has created the file at that attempt, and otherwise
  throws \<open>FileSignalStorageLockError\<close>.\<close>

theorem lock_wait_ends:
  assumes "lw_now W m \<ge> now + max 0 timeout" "\<not> (lw_stale W m \<and> lw_removed W m)"
  shows "\<exists>r. acquireFileLock W (Some timeout) now = Some r \<and>
    (case r of Inr j \<Rightarrow> lw_attempt W j = Created | Inl e \<Rightarrow> (\<exists>text. e = FileSignalStorageLockError text))"
proof -
  obtain r where r: "acquire_from W (now + max 0 timeout) 0 = Some r"
    using acquire_from_returns [of 0 m] assms by blast
  then show ?thesis
    using acquire_from_result [OF r] by (cases r) (simp_all add: acquireFileLock_def)
qed


theorem lock_wait_ends_witness:
  "\<exists>r. acquireFileLock \<lparr>lw_attempt = (\<lambda>_. Exists), lw_stale = (\<lambda>_. False), lw_removed = (\<lambda>_. False), lw_now = (\<lambda>k. 25 * int k)\<rparr>
     (Some 100) 0 = Some r"
  using lock_wait_ends [of 0 100 "\<lparr>lw_attempt = (\<lambda>_. Exists), lw_stale = (\<lambda>_. False), lw_removed = (\<lambda>_. False), lw_now = (\<lambda>k. 25 * int k)\<rparr>" 4]
  by auto

end
