(* ===== verification/File_Names.thy ===== *)
theory File_Names
  imports Memory_Storage
begin

text \<open>
  The names of the files of \<open>src/file-storage.ts\<close>: which files of a directory \<open>cleanupTemporaryFiles\<close>
  removes. Names are those of the directory's entries; the model of the disk in \<open>File_Storage\<close> has one
  temporary file in place of those with such a name.
\<close>

section \<open>Names\<close>

definition is_digit :: "char \<Rightarrow> bool" where
  "is_digit c \<longleftrightarrow> 48 \<le> (of_char c :: nat) \<and> (of_char c :: nat) \<le> 57"

definition is_hex :: "char \<Rightarrow> bool" where
  "is_hex c \<longleftrightarrow> is_digit c \<or> 97 \<le> (of_char c :: nat) \<and> (of_char c :: nat) \<le> 102"

text \<open>\<open>saveUnlocked\<close> writes to \<open>base.pid.random.tmp\<close>, with the process id and six random bytes in hexadecimal.\<close>

definition tmp_name :: "string \<Rightarrow> string \<Rightarrow> string \<Rightarrow> string" where
  "tmp_name base pid random = base @ ''.'' @ pid @ ''.'' @ random @ ''.tmp''"

definition tmp_parts :: "string \<Rightarrow> string \<Rightarrow> bool" where
  "tmp_parts pid random \<longleftrightarrow> pid \<noteq> [] \<and> list_all is_digit pid \<and> length random = 12 \<and> list_all is_hex random"

definition backup_name :: "string \<Rightarrow> string" where
  "backup_name base = base @ ''.bak''"

definition lock_name :: "string \<Rightarrow> string" where
  "lock_name base = base @ ''.lock''"

section \<open>The cleanup\<close>

text \<open>The expression \<open>/^\d+\.[0-9a-f]{12}$/\<close>: digits do not match the dot, so the longest run of them is the only way.\<close>

definition tmp_middle :: "string \<Rightarrow> bool" where
  "tmp_middle m =
     (takeWhile is_digit m \<noteq> [] \<and>
      (case dropWhile is_digit m of [] \<Rightarrow> False | c # r \<Rightarrow> c = CHR ''.'' \<and> length r = 12 \<and> list_all is_hex r))"

definition endsWith :: "string \<Rightarrow> string \<Rightarrow> bool" where
  "endsWith s suffix = (length suffix \<le> length s \<and> drop (length s - length suffix) s = suffix)"

text \<open>\<open>name.slice(a, -b)\<close>, empty when the ends cross.\<close>

definition slice_between :: "nat \<Rightarrow> nat \<Rightarrow> string \<Rightarrow> string" where
  "slice_between a b s = drop a (take (length s - b) s)"

definition is_temporary :: "string \<Rightarrow> string \<Rightarrow> bool" where
  "is_temporary base name =
     (let prefix = base @ ''.'' in
      startsWith name prefix \<and> endsWith name ''.tmp'' \<and> tmp_middle (slice_between (length prefix) (length ''.tmp'') name))"

text \<open>
  The entries that are left; \<open>fails\<close> are those whose removal throws, which is ignored (all, when the
  directory cannot be read).
\<close>

definition cleanup_names :: "string \<Rightarrow> (string \<Rightarrow> bool) \<Rightarrow> string list \<Rightarrow> string list" where
  "cleanup_names base fails names = filter (\<lambda>name. \<not> is_temporary base name \<or> fails name) names"

section \<open>What it removes\<close>

lemma digit_not_dot: "\<not> is_digit CHR ''.''"
  by (simp add: is_digit_def)

lemma digits_then_dot:
  assumes "list_all is_digit pid"
  shows "takeWhile is_digit (pid @ CHR ''.'' # r) = pid" "dropWhile is_digit (pid @ CHR ''.'' # r) = CHR ''.'' # r"
  using assms digit_not_dot by (induction pid) auto

lemma tmp_middle_iff: "tmp_middle m \<longleftrightarrow> (\<exists>pid random. m = pid @ ''.'' @ random \<and> tmp_parts pid random)"
proof
  assume m: "tmp_middle m"
  then obtain r where "dropWhile is_digit m = CHR ''.'' # r" "length r = 12" "list_all is_hex r" "takeWhile is_digit m \<noteq> []"
    by (auto simp: tmp_middle_def split: list.splits)
  moreover have "list_all is_digit (takeWhile is_digit m)" by (auto simp: list_all_iff dest: set_takeWhileD)
  moreover have "m = takeWhile is_digit m @ dropWhile is_digit m" by simp
  ultimately show "\<exists>pid random. m = pid @ ''.'' @ random \<and> tmp_parts pid random"
    unfolding tmp_parts_def by (metis append_Cons append_Nil)
next
  assume "\<exists>pid random. m = pid @ ''.'' @ random \<and> tmp_parts pid random"
  then show "tmp_middle m" by (auto simp: tmp_middle_def tmp_parts_def digits_then_dot)
qed

text \<open>Exactly the names that a save of this storage can have given to its temporary file.\<close>

lemma is_temporary_iff: "is_temporary base name \<longleftrightarrow> (\<exists>pid random. name = tmp_name base pid random \<and> tmp_parts pid random)"
proof
  assume t: "is_temporary base name"
  let ?m = "slice_between (Suc (length base)) 4 name"
  have s: "take (Suc (length base)) name = base @ ''.''" "4 \<le> length name" "drop (length name - 4) name = ''.tmp''" "tmp_middle ?m"
    using t by (simp_all add: is_temporary_def startsWith_def endsWith_def numeral_eq_Suc)
  from s(4) obtain pid random where m: "?m = pid @ ''.'' @ random" "tmp_parts pid random" unfolding tmp_middle_iff by blast
  then have "?m \<noteq> []" by simp
  then have le: "Suc (length base) \<le> length name - 4" by (simp add: slice_between_def)
  have "name = take (length name - 4) name @ ''.tmp''" using s(3) by (metis append_take_drop_id)
  moreover have "take (length name - 4) name = take (Suc (length base)) name @ ?m"
    using le unfolding slice_between_def by (metis append_take_drop_id min.absorb1 take_take)
  ultimately have "name = (base @ ''.'') @ ?m @ ''.tmp''" using s(1) by (metis append.assoc)
  then show "\<exists>pid random. name = tmp_name base pid random \<and> tmp_parts pid random" using m by (auto simp: tmp_name_def)
next
  assume "\<exists>pid random. name = tmp_name base pid random \<and> tmp_parts pid random"
  then obtain pid random where n: "name = tmp_name base pid random" "tmp_parts pid random" by blast
  have "slice_between (Suc (length base)) 4 name = pid @ ''.'' @ random" by (simp add: n(1) tmp_name_def slice_between_def)
  then have "tmp_middle (slice_between (Suc (length base)) 4 name)" using n(2) tmp_middle_iff by blast
  then show "is_temporary base name"
    using n(1) by (simp add: is_temporary_def startsWith_def endsWith_def tmp_name_def numeral_eq_Suc)
qed

text \<open>The temporary files of two storages in one directory have different names.\<close>

lemma tmp_name_inject:
  assumes "tmp_name base pid random = tmp_name base' pid' random'" "tmp_parts pid random" "tmp_parts pid' random'"
  shows "base = base'" "pid = pid'" "random = random'"
proof -
  have len: "length random = length random'" using assms(2,3) by (simp add: tmp_parts_def)
  have eq: "(base @ ''.'' @ pid) @ CHR ''.'' # random = (base' @ ''.'' @ pid') @ CHR ''.'' # random'"
    using assms(1) by (simp add: tmp_name_def)
  have both: "base @ ''.'' @ pid = base' @ ''.'' @ pid' \<and> CHR ''.'' # random = CHR ''.'' # random'"
    by (rule append_eq_append_conv [THEN iffD1, OF _ eq]) (simp add: len)
  then show r: "random = random'" by simp
  have b: "base @ CHR ''.'' # pid = base' @ CHR ''.'' # pid'" using both by simp
  have digits: "takeWhile is_digit (rev (b @ CHR ''.'' # p)) = rev p" if "list_all is_digit p" for b p
    using digits_then_dot(1) [of "rev p" "rev b"] that by (simp add: list_all_iff)
  have "rev pid = rev pid'" using digits [of pid base] digits [of pid' base'] assms(2,3) b by (simp add: tmp_parts_def)
  then show p: "pid = pid'" by simp
  show "base = base'" using b p by simp
qed

text \<open>
  The cleanup removes this storage's temporary files, as far as they can be removed, and nothing else: not
  the snapshot, the backup, the lock file or the temporary files of another storage.
\<close>

lemma cleanup_names_exact:
  "set (cleanup_names base fails names) = {n \<in> set names. fails n \<or> (\<forall>pid random. tmp_parts pid random \<longrightarrow> n \<noteq> tmp_name base pid random)}"
  by (auto simp: cleanup_names_def is_temporary_iff)

lemma not_temporary:
  "\<not> is_temporary base base" "\<not> is_temporary base (backup_name base)" "\<not> is_temporary base (lock_name base)"
  "tmp_parts pid random \<Longrightarrow> base' \<noteq> base \<Longrightarrow> \<not> is_temporary base (tmp_name base' pid random)"
proof -
  show "\<not> is_temporary base base" by (simp add: is_temporary_def startsWith_def)
  show "\<not> is_temporary base (backup_name base)" "\<not> is_temporary base (lock_name base)"
    by (simp_all add: is_temporary_def endsWith_def backup_name_def lock_name_def)
  show "\<not> is_temporary base (tmp_name base' pid random)" if "tmp_parts pid random" "base' \<noteq> base"
    using that tmp_name_inject(1) unfolding is_temporary_iff by metis
qed

end
