(* ===== verification/File_Interfaces.thy ===== *)
theory File_Interfaces
  imports File_Storage Memory_Invariant
begin

text \<open>
  The file storage behind the interfaces of the library: it meets the contract of the session code and
  that of group messaging, whatever becomes of its saves. It does not meet \<open>signal_store\<close>, because
  \<open>removePreKey\<close> throws when its save does.
\<close>

section \<open>The interfaces it implements\<close>

definition file_signal_storage :: "file_env \<Rightarrow> (file_storage \<times> world) signal_storage" where
  "file_signal_storage E =
     \<lparr>loadSession = file_loadSession, storeSession = file_storeSession, isTrustedIdentity = file_isTrustedIdentity,
      loadIdentity = Some file_loadIdentity, loadPreKey = (\<lambda>i. file_loadPreKey (Some i)), removePreKey = file_removePreKey E,
      loadSignedPreKey = (\<lambda>i. file_loadSignedPreKey (Some i)),
      getOurRegistrationId = (\<lambda>x. Inr (file_getOurRegistrationId x)), getOurIdentity = (\<lambda>x. Inr (file_getOurIdentity x))\<rparr>"

definition file_sender_key_store :: "(file_storage \<times> world) sender_key_store" where
  "file_sender_key_store =
     \<lparr>loadSenderKey = file_loadSenderKey, storeSenderKey = file_storeSenderKey, removeSenderKey = file_removeSenderKey\<rparr>"

section \<open>What a save leaves alone\<close>

lemma saveUnlocked_mem: "saveUnlocked E (st, w) = (r, (st', w')) \<Longrightarrow> fs_mem st' = fs_mem st"
  by (auto simp: saveUnlocked_def Let_def split: prod.splits sum.splits)

lemma save_mem: "save E force key (st, w) = (r, (st', w')) \<Longrightarrow> fs_mem st' = fs_mem st"
  by (auto simp: save_def withLock_def on_world_def sbind_def assertRevisionCurrent_def split: if_splits prod.splits sum.splits
      dest: saveUnlocked_mem)

lemma scheduleSave_mem [simp]: "fs_mem (scheduleSave st) = fs_mem st"
  by (simp add: scheduleSave_def)

lemma scheduled_run: "scheduled f x = (fst (f (fs_mem (fst x))), (scheduleSave (fst x\<lparr>fs_mem := snd (f (fs_mem (fst x)))\<rparr>), snd x))"
  by (simp add: scheduled_def case_prod_unfold Let_def)

lemma saved_mem: "saved E f x = (r, y) \<Longrightarrow> fs_mem (fst y) = f (fs_mem (fst x))"
  by (cases x; cases y) (auto simp: saved_def sbind_def on_storage_def save_now_def in_mem_def dest: save_mem)

text \<open>The methods of the interface act on the maps as those of the in-memory storage do.\<close>

lemma file_trust_mem:
  "fst (file_isTrustedIdentity i k d x) = fst (mem_isTrustedIdentity i k d (fs_mem (fst x)))"
  "fs_mem (fst (snd (file_isTrustedIdentity i k d x))) = snd (mem_isTrustedIdentity i k d (fs_mem (fst x)))"
  by (cases x; cases "obj_get (ms_trusted (fs_mem (fst x))) i"; simp add: file_isTrustedIdentity_def mem_isTrustedIdentity_def in_mem_def)+

lemma file_remove_mem:
  obtains ev where "fs_mem (fst (snd (file_removePreKey E n x))) =
    (fs_mem (fst x))\<lparr>ms_preKeys := obj_del n (ms_preKeys (fs_mem (fst x))), ms_published := removeAll n (ms_published (fs_mem (fst x))),
      ms_events := ev\<rparr>"
proof -
  let ?f = "\<lambda>s. s\<lparr>ms_preKeys := obj_del n (ms_preKeys s), ms_published := removeAll n (ms_published s)\<rparr>"
  obtain r st w where 1: "saved E ?f x = (r, (st, w))" by (cases "saved E ?f x") auto
  have mem: "fs_mem st = ?f (fs_mem (fst x))" using saved_mem [OF 1] by simp
  show thesis
  proof (cases r)
    case (Inl e)
    then have "fs_mem (fst (snd (file_removePreKey E n x))) = ?f (fs_mem (fst x))"
      using 1 mem by (simp add: file_removePreKey_def sbind_def)
    then show thesis by (intro that [of "ms_events (fs_mem (fst x))"]) simp
  next
    case (Inr u)
    then have "fs_mem (fst (snd (file_removePreKey E n x))) = emitPreKeyRemoved n (?f (fs_mem (fst x)))"
      using 1 mem by (simp add: file_removePreKey_def sbind_def on_storage_def in_mem_def)
    then show thesis by (intro that) (simp add: emitPreKeyRemoved_def)
  qed
qed

section \<open>The contracts it meets\<close>

definition file_good :: "(string \<times> bytes) option \<Rightarrow> file_storage \<times> world \<Rightarrow> bool" where
  "file_good p x \<longleftrightarrow> mem_good p (fs_mem (fst x))"

interpretation file_sessions: session_store "file_signal_storage E" "file_good p" for E p
proof
  note fss = file_signal_storage_def
  note mss = memory_signal_storage_def
  fix s :: "file_storage \<times> world" and s' i k d d' a b r n
  show "stored_ok r" if "file_good p s" "loadSession (file_signal_storage E) a s = Inr (Some r)"
    using mem.load_ok [of p "fs_mem (fst s)" a r] that by (simp add: fss mss file_good_def file_loadSession_def from_mem_def)
  show "file_good p (snd (storeSession (file_signal_storage E) a r s))" if "file_good p s" "stored_ok r"
    using mem.store_good [of p "fs_mem (fst s)" r a] that by (simp add: fss mss file_good_def file_storeSession_def scheduled_run)
  show "fst (storeSession (file_signal_storage E) a r s) = Inr ()"
    using mem.store_total [of a r] by (simp add: fss mss file_storeSession_def scheduled_run)
  show "loadSession (file_signal_storage E) b (snd (storeSession (file_signal_storage E) a r s)) =
      (if b = a then Inr (Some r) else loadSession (file_signal_storage E) b s)" if "file_good p s" "stored_ok r"
    using mem.load_store [of p "fs_mem (fst s)" r b a] that
    by (simp add: fss mss file_good_def file_loadSession_def file_storeSession_def scheduled_run from_mem_def)
  show "getOurIdentity (file_signal_storage E) (snd (storeSession (file_signal_storage E) a r s)) = getOurIdentity (file_signal_storage E) s"
    using mem.store_keys [of a r "fs_mem (fst s)"]
    by (simp add: fss mss file_getOurIdentity_def file_storeSession_def scheduled_run from_mem_def)
  show "file_good p (snd (isTrustedIdentity (file_signal_storage E) i k d s))" if "file_good p s"
    using mem.trust_good [of p "fs_mem (fst s)" i k d] that by (simp add: fss mss file_good_def file_trust_mem)
  show "loadSession (file_signal_storage E) a (snd (isTrustedIdentity (file_signal_storage E) i k d s)) = loadSession (file_signal_storage E) a s"
    using mem.trust_load [of a i k d "fs_mem (fst s)"] by (simp add: fss mss file_loadSession_def from_mem_def file_trust_mem)
  show "getOurIdentity (file_signal_storage E) (snd (isTrustedIdentity (file_signal_storage E) i k d s)) = getOurIdentity (file_signal_storage E) s"
    using mem.trust_keys [of i k d "fs_mem (fst s)"] by (simp add: fss mss file_getOurIdentity_def from_mem_def file_trust_mem)
  show "isTrustedIdentity (file_signal_storage E) i k d' s' = (Inr True, s')"
    if "isTrustedIdentity (file_signal_storage E) i k d s = (Inr True, s')"
    using that by (cases s) (auto simp: fss file_isTrustedIdentity_def in_mem_def obj_get_set split: option.splits if_splits)
  obtain ev where ev: "fs_mem (fst (snd (file_removePreKey E n s))) =
    (fs_mem (fst s))\<lparr>ms_preKeys := obj_del n (ms_preKeys (fs_mem (fst s))), ms_published := removeAll n (ms_published (fs_mem (fst s))),
      ms_events := ev\<rparr>" by (rule file_remove_mem)
  show "file_good p (snd (removePreKey (file_signal_storage E) n s))" if "file_good p s"
    using mem_ok_drop_prekey [OF mem_goodD, of p "fs_mem (fst s)" n] that
    by (simp add: fss file_good_def ev mem_good_def pins_def mem_ok_irrelevant)
  show "loadSession (file_signal_storage E) a (snd (removePreKey (file_signal_storage E) n s)) = loadSession (file_signal_storage E) a s"
    using ev by (simp add: fss file_loadSession_def from_mem_def mem_loadSession_def)
qed

interpretation file_contact: contact_store "file_signal_storage E" "file_good p" for E p
proof (rule contact_store.intro [OF file_sessions.session_store_axioms], unfold_locales)
  note fss = file_signal_storage_def
  note mss = memory_signal_storage_def
  fix s :: "file_storage \<times> world" and i k d a r n
  show "loadPreKey (file_signal_storage E) n (snd (isTrustedIdentity (file_signal_storage E) i k d s)) = loadPreKey (file_signal_storage E) n s"
    using mem_contact.trust_prekey [of n i k d "fs_mem (fst s)"] by (simp add: fss mss file_loadPreKey_def from_mem_def file_trust_mem)
  show "loadSignedPreKey (file_signal_storage E) n (snd (isTrustedIdentity (file_signal_storage E) i k d s)) = loadSignedPreKey (file_signal_storage E) n s"
    using mem_contact.trust_signed [of n i k d "fs_mem (fst s)"] by (simp add: fss mss file_loadSignedPreKey_def from_mem_def file_trust_mem)
  show "getOurRegistrationId (file_signal_storage E) (snd (isTrustedIdentity (file_signal_storage E) i k d s)) = getOurRegistrationId (file_signal_storage E) s"
    using mem_contact.trust_registration [of i k d "fs_mem (fst s)"] by (simp add: fss mss file_getOurRegistrationId_def from_mem_def file_trust_mem)
  show "getOurRegistrationId (file_signal_storage E) (snd (storeSession (file_signal_storage E) a r s)) = getOurRegistrationId (file_signal_storage E) s"
    using mem_contact.store_registration [of a r "fs_mem (fst s)"]
    by (simp add: fss mss file_getOurRegistrationId_def from_mem_def file_storeSession_def scheduled_run)
  show "fst (isTrustedIdentity (file_signal_storage E) i k d (snd (storeSession (file_signal_storage E) a r s))) =
     fst (isTrustedIdentity (file_signal_storage E) i k d s)"
    using mem_contact.store_trust [of i k d a r "fs_mem (fst s)"]
    by (simp add: fss mss file_storeSession_def scheduled_run file_trust_mem)
qed

interpretation file_group: group_store file_sender_key_store "file_good p" for p
proof
  note fsk = file_sender_key_store_def
  note msk = memory_sender_key_store_def
  fix s :: "file_storage \<times> world" and name name' r
  show "\<exists>r. loadSenderKey file_sender_key_store name s = Inr r" if "file_good p s"
    using mem_group.load_key_total [of p "fs_mem (fst s)" name] that by (simp add: fsk msk file_good_def file_loadSenderKey_def from_mem_def)
  show "sender_record_wf r" if "file_good p s" "loadSenderKey file_sender_key_store name s = Inr (Some r)"
    using mem_group.load_key_ok [of p "fs_mem (fst s)" name r] that by (simp add: fsk msk file_good_def file_loadSenderKey_def from_mem_def)
  show "file_good p (snd (storeSenderKey file_sender_key_store name r s))" if "file_good p s" "sender_record_wf r"
    using mem_group.store_key_good [of p "fs_mem (fst s)" r name] that by (simp add: fsk msk file_good_def file_storeSenderKey_def scheduled_run)
  show "fst (storeSenderKey file_sender_key_store name r s) = Inr ()"
    using mem_group.store_key_total [of name r] by (simp add: fsk msk file_storeSenderKey_def scheduled_run)
  show "loadSenderKey file_sender_key_store name' (snd (storeSenderKey file_sender_key_store name r s)) =
      (if SenderKeyName_serialize name' = SenderKeyName_serialize name then Inr (Some r) else loadSenderKey file_sender_key_store name' s)"
    if "file_good p s" "sender_record_wf r"
    using mem_group.load_store_key [of p "fs_mem (fst s)" r name' name] that
    by (simp add: fsk msk file_good_def file_loadSenderKey_def file_storeSenderKey_def scheduled_run from_mem_def)
qed

end
