(* ===== verification/Conversation.thy ===== *)
theory Conversation
  imports Session_Store
begin

text \<open>
  A conversation of two sessions: from the key agreement on, messages go in either direction, each
  decrypted before the next is sent. One session is always ahead: it has made the last ratchet step,
  and the other has not yet seen its new ratchet key. A message of the session ahead makes the other
  step, so that the roles change; a message of the other stays on the chain both hold.
\<close>

section \<open>Facts about one message\<close>

lemma encryptMessage_shape:
  assumes "encryptMessage P W our data A = Inr (buf, A')" "getChain (pubKey (ephemeralKeyPair (currentRatchet A))) A = Some c"
  obtains f where "fillMessageKeys P c (ck_counter (chainKey c) + 1) = Inr f"
    "A' = putChain (pubKey (ephemeralKeyPair (currentRatchet A)))
       (f\<lparr>messageKeys := obj_del (nat (ck_counter (chainKey f))) (messageKeys f)\<rparr>) A"
  using assms by (auto simp: encryptMessage_def Let_def res_simps)

lemma chain_from_del: "chain_from P k c \<Longrightarrow> chain_from P k (c\<lparr>messageKeys := obj_del i (messageKeys c)\<rparr>)"
  using mk_wf_del by (auto simp: chain_from_def chain_wf_def obj_del_in)

text \<open>The two ends of a chain, level with each other.\<close>

definition level :: "prims \<Rightarrow> bytes \<Rightarrow> chain \<Rightarrow> chain \<Rightarrow> bool" where
  "level P k cS cR \<longleftrightarrow> chain_from P k cS \<and> chain_from P k cR \<and> chainType cS = SENDING \<and> chainType cR = RECEIVING \<and>
     ck_counter (chainKey cS) = ck_counter (chainKey cR) \<and> ck_key (chainKey cS) \<noteq> None \<and> ck_key (chainKey cR) \<noteq> None"

lemma level_new: "k \<noteq> [] \<Longrightarrow> level P k (new_chain k SENDING) (new_chain k RECEIVING)"
  using new_chain_from [of k P] by (simp add: level_def new_chain_def)

lemma level_next:
  assumes "hmac_ok P" "level P k cS cR"
    and "fillMessageKeys P cS (ck_counter (chainKey cS) + 1) = Inr fS" "fillMessageKeys P cR (ck_counter (chainKey cS) + 1) = Inr fR"
  shows "level P k (fS\<lparr>messageKeys := obj_del i (messageKeys fS)\<rparr>) (fR\<lparr>messageKeys := obj_del j (messageKeys fR)\<rparr>)"
    "ck_counter (chainKey fS) = ck_counter (chainKey cS) + 1" "ck_counter (chainKey fR) = ck_counter (chainKey cS) + 1"
proof -
  let ?n = "ck_counter (chainKey cS) + 1"
  from assms(2) obtain keyS keyR where L: "chain_from P k cS" "chain_from P k cR" "chainType cS = SENDING" "chainType cR = RECEIVING"
    "ck_counter (chainKey cS) = ck_counter (chainKey cR)" "ck_key (chainKey cS) = Some keyS" "ck_key (chainKey cR) = Some keyR"
    by (auto simp: level_def)
  have filled: "chain_from P k f \<and> chainType f = chainType c \<and> ck_counter (chainKey f) = ?n \<and> ck_key (chainKey f) \<noteq> None"
    if c: "chain_from P k c" "ck_key (chainKey c) = Some key" "ck_counter (chainKey c) = ck_counter (chainKey cS)"
      and f: "fillMessageKeys P c ?n = Inr f" for c f key
  proof -
    have "ck_counter (chainKey c) < ?n" "?n - ck_counter (chainKey c) \<le> 2000" using c(3) by simp_all
    from fill_new_key [OF assms(1) c(1,2) this] f show ?thesis by (metis option.distinct(1) sum.inject(2))
  qed
  from filled [OF L(1,6) refl assms(3)] filled [OF L(2,7) L(5) [symmetric] assms(4)] L(3,4)
  show "level P k (fS\<lparr>messageKeys := obj_del i (messageKeys fS)\<rparr>) (fR\<lparr>messageKeys := obj_del j (messageKeys fR)\<rparr>)"
    "ck_counter (chainKey fS) = ?n" "ck_counter (chainKey fR) = ?n"
    by (simp_all add: level_def chain_from_del)
qed

section \<open>A ratchet step of an established session\<close>

lemma fill_done: "n \<le> ck_counter (chainKey c) \<Longrightarrow> fillMessageKeys P c n = Inr c"
  by (simp add: fillMessageKeys_def fill_loop_done)

text \<open>\<open>closed\<close> is a chain that gives out no further keys.\<close>

definition closed :: "chain \<Rightarrow> chain" where
  "closed c = c\<lparr>chainKey := (chainKey c)\<lparr>ck_key := None\<rparr>\<rparr>"

lemma close_previous_run:
  assumes "\<And>c. getChain (lastRemoteEphemeralKey (currentRatchet B)) B = Some c \<Longrightarrow> \<exists>f. fillMessageKeys P c pc = Inr f"
  obtains B0 where "close_previous P B pc = Inr B0" "indexInfo B0 = indexInfo B" "currentRatchet B0 = currentRatchet B"
    "\<And>k. k \<noteq> lastRemoteEphemeralKey (currentRatchet B) \<Longrightarrow> getChain k B0 = getChain k B"
    "\<And>k. (getChain k B0 = None) = (getChain k B = None)"
    "\<And>c. getChain (lastRemoteEphemeralKey (currentRatchet B)) B0 = Some c \<Longrightarrow>
       \<exists>c0 f. getChain (lastRemoteEphemeralKey (currentRatchet B)) B = Some c0 \<and> fillMessageKeys P c0 pc = Inr f \<and> c = closed f"
proof (cases "getChain (lastRemoteEphemeralKey (currentRatchet B)) B")
  case None
  then show thesis by (intro that [of B]) (simp_all add: close_previous_def)
next
  case (Some c)
  then obtain f where "fillMessageKeys P c pc = Inr f" using assms by blast
  with Some show thesis
    by (intro that [of "putChain (lastRemoteEphemeralKey (currentRatchet B)) (closed f) B"])
      (simp_all add: close_previous_def getChain_put closed_def)
qed

text \<open>The chain of \<open>k\<close> is the newest of the receiving chains, so that the limit on them spares it.\<close>

definition newest :: "bytes \<Rightarrow> session_entry \<Rightarrow> bool" where
  "newest k e \<longleftrightarrow> (\<exists>ids. receiving_ids e = ids @ [b64_encode k] \<and> b64_encode k \<notin> set ids)"

lemma receiving_has_chain: "getChain k e = None \<Longrightarrow> b64_encode k \<notin> set (receiving_ids e)"
  by (auto simp: receiving_ids_alt getChain_def obj_get_None image_iff)

lemma newest_put: "getChain k e = None \<Longrightarrow> chainType c = RECEIVING \<Longrightarrow> newest k (putChain k c e)"
  using receiving_has_chain by (auto simp: newest_def receiving_ids_put_new)

lemma newest_put_sending: "newest k e \<Longrightarrow> getChain k' e = None \<Longrightarrow> chainType c = SENDING \<Longrightarrow> newest k (putChain k' c e)"
  by (auto simp: newest_def receiving_ids_put_new)

lemma newest_del: "newest k e \<Longrightarrow> k' \<noteq> k \<Longrightarrow> chains e' = obj_del (b64_encode k') (chains e) \<Longrightarrow> newest k e'"
  using receiving_ids_del [where k = "b64_encode k'" and e = e] by (auto simp: newest_def receiving_ids_alt)

lemma newest_retired:
  "newest k e \<Longrightarrow> k \<noteq> k' \<Longrightarrow> newest k (e\<lparr>currentRatchet := r, chains := obj_del (b64_encode k') (chains e)\<rparr>)"
  by (rule newest_del [of k e k']) simp_all

lemma newest_fields [simp]: "newest k (e\<lparr>currentRatchet := r\<rparr>) = newest k e"
  by (simp add: newest_def)

lemma newest_kept:
  assumes "newest k e" "0 < mx"
  shows "getChain k (removeOldReceiverChains mx e) = getChain k e"
  using assms by (auto simp: newest_def getChain_removeOld dest: in_set_takeD)

lemma retire_sending_run:
  obtains B' where "retire_sending B = Inr B'" "indexInfo B' = indexInfo B"
    "currentRatchet B' = (currentRatchet B)\<lparr>previousCounter :=
       (case getChain (pubKey (ephemeralKeyPair (currentRatchet B))) B of None \<Rightarrow> previousCounter (currentRatchet B) | Some c \<Rightarrow> ck_counter (chainKey c))\<rparr>"
    "\<And>k. getChain k B' = (if k = pubKey (ephemeralKeyPair (currentRatchet B)) then None else getChain k B)"
    "\<And>k. newest k B \<Longrightarrow> k \<noteq> pubKey (ephemeralKeyPair (currentRatchet B)) \<Longrightarrow> newest k B'"
proof (cases "getChain (pubKey (ephemeralKeyPair (currentRatchet B))) B")
  case None
  then show thesis by (intro that [of B]) (auto simp: retire_sending_def)
next
  case (Some c)
  let ?B' = "B\<lparr>currentRatchet := (currentRatchet B)\<lparr>previousCounter := ck_counter (chainKey c)\<rparr>,
       chains := obj_del (b64_encode (pubKey (ephemeralKeyPair (currentRatchet B)))) (chains B)\<rparr>"
  have "retire_sending B = Inr ?B'" using Some by (simp add: retire_sending_def deleteChain_def getChain_def)
  moreover have "getChain k ?B' = (if k = pubKey (ephemeralKeyPair (currentRatchet B)) then None else getChain k B)" for k
    by (simp add: getChain_def obj_get_del)
  ultimately show thesis using that [of ?B'] Some newest_retired by simp
qed

text \<open>
  What the step of \<open>B\<close> to the ratchet key \<open>x\<close> leaves: chains for \<open>x\<close> and for the own new key, the previous
  receiving chain filled up and closed, and of the others at most the sending chain and the oldest gone.
\<close>

definition stepped ::
  "prims \<Rightarrow> session_entry \<Rightarrow> bytes \<Rightarrow> int \<Rightarrow> key_pair \<Rightarrow> bytes \<Rightarrow> bytes \<times> bytes \<Rightarrow> session_entry \<Rightarrow> bool" where
  "stepped P B x pc g k rk B1 \<longleftrightarrow>
     entry_ok B1 \<and> indexInfo B1 = indexInfo B \<and>
     currentRatchet B1 = \<lparr>ephemeralKeyPair = g, lastRemoteEphemeralKey = x,
       previousCounter = (case getChain (pubKey (ephemeralKeyPair (currentRatchet B))) B of
          None \<Rightarrow> previousCounter (currentRatchet B) | Some c \<Rightarrow> ck_counter (chainKey c)),
       rootKey = fst rk\<rparr> \<and>
     getChain x B1 = Some (new_chain k RECEIVING) \<and> getChain (pubKey g) B1 = Some (new_chain (snd rk) SENDING) \<and>
     (\<forall>y c. getChain y B1 = Some c \<longrightarrow> y \<noteq> x \<longrightarrow> y \<noteq> pubKey g \<longrightarrow>
       (if y = lastRemoteEphemeralKey (currentRatchet B)
        then \<exists>c0 f. getChain y B = Some c0 \<and> fillMessageKeys P c0 pc = Inr f \<and> c = closed f else getChain y B = Some c))"

lemma stepped_other:
  assumes "stepped P B x pc g k rk B1" "getChain y B1 = Some c" "y \<noteq> x" "y \<noteq> pubKey g"
  shows "y = lastRemoteEphemeralKey (currentRatchet B) \<Longrightarrow>
      \<exists>c0 f. getChain y B = Some c0 \<and> fillMessageKeys P c0 pc = Inr f \<and> c = closed f"
    "y \<noteq> lastRemoteEphemeralKey (currentRatchet B) \<Longrightarrow> getChain y B = Some c"
proof -
  have "if y = lastRemoteEphemeralKey (currentRatchet B)
     then \<exists>c0 f. getChain y B = Some c0 \<and> fillMessageKeys P c0 pc = Inr f \<and> c = closed f else getChain y B = Some c"
    using assms unfolding stepped_def by blast
  then show "y = lastRemoteEphemeralKey (currentRatchet B) \<Longrightarrow>
      \<exists>c0 f. getChain y B = Some c0 \<and> fillMessageKeys P c0 pc = Inr f \<and> c = closed f"
    "y \<noteq> lastRemoteEphemeralKey (currentRatchet B) \<Longrightarrow> getChain y B = Some c"
    by presburger+
qed

text \<open>The step to the other side's new ratchet key \<open>a\<close>, with \<open>g\<close> as the own new key pair.\<close>

lemma step_established:
  assumes hm: "hmac_ok P" "dh_ok P" and B: "entry_ok B" "length (rootKey (currentRatchet B)) = 32"
    and kp: "is_key_pair P (ephemeralKeyPair (currentRatchet B))" "is_key_pair P a" "is_key_pair P g"
    and rk: "kdf_rk P (rootKey (currentRatchet B)) (dh P (ephemeralKeyPair (currentRatchet B)) a) = (root, k)"
    and none: "getChain (pubKey a) B = None" "getChain (pubKey g) B = None"
    and distinct: "pubKey a \<noteq> pubKey (ephemeralKeyPair (currentRatchet B))" "pubKey g \<noteq> pubKey a"
      "pubKey g \<noteq> pubKey (ephemeralKeyPair (currentRatchet B))"
    and prev: "\<And>c. getChain (lastRemoteEphemeralKey (currentRatchet B)) B = Some c \<Longrightarrow> (\<exists>f. fillMessageKeys P c pc = Inr f) \<and>
      lastRemoteEphemeralKey (currentRatchet B) \<noteq> pubKey (ephemeralKeyPair (currentRatchet B))"
  obtains B1 where "maybeStepRatchet P g B (pubKey a) pc = Inr B1" "stepped P B (pubKey a) pc g k (kdf_rk P root (dh P g a)) B1"
proof -
  let ?b = "pubKey (ephemeralKeyPair (currentRatchet B))"
  obtain root2 k2 where rk2: "kdf_rk P root (dh P g a) = (root2, k2)" by fastforce
  obtain B0 where s1: "close_previous P B pc = Inr B0" and B0: "indexInfo B0 = indexInfo B" "currentRatchet B0 = currentRatchet B"
    "\<And>k. k \<noteq> lastRemoteEphemeralKey (currentRatchet B) \<Longrightarrow> getChain k B0 = getChain k B"
    "\<And>k. (getChain k B0 = None) = (getChain k B = None)"
    and last0: "\<And>c. getChain (lastRemoteEphemeralKey (currentRatchet B)) B0 = Some c \<Longrightarrow>
       \<exists>c0 f. getChain (lastRemoteEphemeralKey (currentRatchet B)) B = Some c0 \<and> fillMessageKeys P c0 pc = Inr f \<and> c = closed f"
    using close_previous_run [of B P pc] prev by blast
  have sending: "getChain ?b B0 = getChain ?b B" using B0(3) [of ?b] B0(4) [of ?b] prev by (cases "getChain ?b B") force+
  define B2 where "B2 = set_root root (putChain (pubKey a) (new_chain k RECEIVING) B0)"
  have s2: "calculateRatchet P B0 (pubKey a) False = Inr B2"
    using calculateRatchet_eq [OF hm, of B0 a root k "pubKey a" False] B0 B(2) kp rk none by (simp add: B2_def)
  have B2: "indexInfo B2 = indexInfo B" "currentRatchet B2 = (currentRatchet B)\<lparr>rootKey := root\<rparr>"
    "\<And>x. getChain x B2 = (if x = pubKey a then Some (new_chain k RECEIVING) else getChain x B0)"
    by (simp_all add: B2_def set_root_def B0 getChain_put)
  have "getChain (pubKey a) B0 = None" using B0(4) none(1) by simp
  then have new2: "newest (pubKey a) B2" by (simp add: B2_def set_root_def newest_put new_chain_ok)
  obtain B3 where s3: "retire_sending B2 = Inr B3" and B3: "indexInfo B3 = indexInfo B2"
    "currentRatchet B3 = (currentRatchet B2)\<lparr>previousCounter :=
       (case getChain ?b B2 of None \<Rightarrow> previousCounter (currentRatchet B2) | Some c \<Rightarrow> ck_counter (chainKey c))\<rparr>"
    "\<And>x. getChain x B3 = (if x = ?b then None else getChain x B2)" and new3: "\<And>x. newest x B2 \<Longrightarrow> x \<noteq> ?b \<Longrightarrow> newest x B3"
    using retire_sending_run [of B2] B2(2) by auto
  let ?B4 = "B3\<lparr>currentRatchet := (currentRatchet B3)\<lparr>ephemeralKeyPair := g\<rparr>\<rparr>"
  have "length root = 32" using kdf_rk_length(1) [OF hm(1)] rk by (metis fst_conv)
  moreover have "getChain (pubKey g) B0 = None" using B0(4) none(2) by simp
  ultimately have s4: "calculateRatchet P ?B4 (pubKey a) True = Inr (set_root root2 (putChain (pubKey g) (new_chain k2 SENDING) ?B4))"
    using calculateRatchet_eq [OF hm, of ?B4 a root2 k2 "pubKey g" True] kp rk2 distinct by (simp add: B3 B2)
  let ?B5 = "set_root root2 (putChain (pubKey g) (new_chain k2 SENDING) ?B4)"
  let ?B6 = "?B5\<lparr>currentRatchet := (currentRatchet ?B5)\<lparr>lastRemoteEphemeralKey := pubKey a\<rparr>\<rparr>"
  define B7 where "B7 = removeOldReceiverChains MAX_RECEIVER_CHAINS ?B6"
  have step: "maybeStepRatchet P g B (pubKey a) pc = Inr B7"
    using none(1) by (simp add: maybeStepRatchet_def s1 s2 s3 s4 Let_def B7_def)
  note ok = maybeStepRatchet_ok [OF hm(1) B(1) step]
  have get3: "getChain (pubKey g) B3 = None" using B0(4) none(2) distinct by (simp add: B3 B2)
  have new6: "newest (pubKey a) ?B6"
    using newest_put_sending [of "pubKey a" ?B4 "pubKey g" "new_chain k2 SENDING"] new3 [OF new2] distinct(1) get3
    by (simp add: set_root_def new_chain_ok)
  have "b64_encode (pubKey g) \<notin> set (receiving_ids ?B6)"
    using receiving_has_chain [OF get3] get3 by (simp add: set_root_def receiving_ids_put_new new_chain_ok)
  then have get7: "getChain (pubKey a) B7 = getChain (pubKey a) ?B6" "getChain (pubKey g) B7 = getChain (pubKey g) ?B6"
    unfolding B7_def using newest_kept [OF new6, of MAX_RECEIVER_CHAINS]
    by (auto simp: getChain_removeOld MAX_RECEIVER_CHAINS_def dest: in_set_takeD)
  have kept: "if x = lastRemoteEphemeralKey (currentRatchet B)
     then \<exists>c0 f. getChain x B = Some c0 \<and> fillMessageKeys P c0 pc = Inr f \<and> c = closed f else getChain x B = Some c"
    if "getChain x B7 = Some c" "x \<noteq> pubKey a" "x \<noteq> pubKey g" for x c
  proof -
    from that have "getChain x ?B6 = Some c" by (auto simp: B7_def getChain_removeOld split: if_splits)
    then have "getChain x B0 = Some c" using that(2,3) by (auto simp: set_root_def getChain_put B3 B2 split: if_splits)
    then show ?thesis using last0 B0(3) [of x] by auto
  qed
  have "currentRatchet B7 = \<lparr>ephemeralKeyPair = g, lastRemoteEphemeralKey = pubKey a,
      previousCounter = (case getChain ?b B of None \<Rightarrow> previousCounter (currentRatchet B) | Some c \<Rightarrow> ck_counter (chainKey c)),
      rootKey = root2\<rparr>" "indexInfo B7 = indexInfo B"
    using distinct sending by (simp_all add: B7_def set_root_def B3 B2 split: option.split)
  moreover have "getChain (pubKey a) B7 = Some (new_chain k RECEIVING)" "getChain (pubKey g) B7 = Some (new_chain k2 SENDING)"
    using distinct by (simp_all add: get7 set_root_def getChain_put B3 B2)
  ultimately have "stepped P B (pubKey a) pc g k (root2, k2) B7"
    unfolding stepped_def fst_conv snd_conv using ok(1) by (intro conjI allI impI kept) assumption+
  then show thesis using that [OF step] rk2 by simp
qed

section \<open>One message of a conversation\<close>

text \<open>\<open>deliver\<close> is one turn: one side encrypts, the other decrypts what came out.\<close>

definition deliver ::
  "prims \<Rightarrow> wire \<Rightarrow> key_pair \<Rightarrow> key_pair \<Rightarrow> key_pair \<Rightarrow> bytes \<Rightarrow> session_entry \<Rightarrow> session_entry \<Rightarrow>
     error + bytes \<times> session_entry \<times> session_entry" where
  "deliver P W IA IB fresh data A B =
     rbind (encryptMessage P W IA data A) (\<lambda>(buf, A').
     rbind (doDecryptWhisperMessage P W (Inr IB) fresh buf B) (\<lambda>(plaintext, B'). Inr (plaintext, A', B')))"

lemma deliver_level:
  fixes A :: session_entry
  defines "a \<equiv> pubKey (ephemeralKeyPair (currentRatchet A))"
  assumes P: "prims_ok P" "wire_ok W" and ok: "entry_ok A" "entry_ok B"
    and chain: "getChain a A = Some cS" "getChain a B1 = Some cR" "level P k cS cR"
    and step: "maybeStepRatchet P fresh B a (previousCounter (currentRatchet A)) = Inr B1"
    and ids: "remoteIdentityKey (indexInfo A) = pubKey IB" "remoteIdentityKey (indexInfo B1) = pubKey IA"
      "length (pubKey IA) = 33" "length (pubKey IB) = 33"
    and sizes: "sizes_ok A (ck_counter (chainKey cS) + 1) data"
  obtains cS' cR' A' B' where "deliver P W IA IB fresh data A B = Inr (data, A', B')" "entry_ok A'" "entry_ok B'"
    "A' = putChain a cS' A" "B' = (putChain a cR' B1)\<lparr>pendingPreKey := None\<rparr>"
    "level P k cS' cR'" "ck_counter (chainKey cS') = ck_counter (chainKey cS) + 1"
proof -
  let ?n = "ck_counter (chainKey cS) + 1"
  have hm: "hmac_ok P" using P(1) by (simp add: prims_okD)
  from chain(3) obtain key where L: "chain_from P k cS" "chain_from P k cR" "chainType cS = SENDING" "chainType cR \<noteq> SENDING"
    "ck_key (chainKey cS) = Some key" and rec: "receivable cR ?n"
    by (auto simp: level_def receivable_def)
  obtain buf A' f where run: "encryptMessage P W IA data A = Inr (buf, A')"
    "doDecryptWhisperMessage P W (Inr IB) fresh buf B =
       Inr (data, (putChain a (f\<lparr>messageKeys := obj_del (nat ?n) (messageKeys f)\<rparr>) B1)\<lparr>pendingPreKey := None\<rparr>)"
    "fillMessageKeys P cR ?n = Inr f"
    by (rule delivery_core [OF P chain(1) [unfolded a_def] L(3,1,5) refl step [unfolded a_def] chain(2) [unfolded a_def] L(4,2)
          rec ids sizes]) (simp add: a_def)
  obtain g where g: "fillMessageKeys P cS ?n = Inr g" "A' = putChain a (g\<lparr>messageKeys := obj_del (nat (ck_counter (chainKey g))) (messageKeys g)\<rparr>) A"
    using encryptMessage_shape [OF run(1) chain(1) [unfolded a_def]] by (metis a_def)
  show thesis
  proof (rule that [where cS' = "g\<lparr>messageKeys := obj_del (nat (ck_counter (chainKey g))) (messageKeys g)\<rparr>"])
    show "deliver P W IA IB fresh data A B =
        Inr (data, A', (putChain a (f\<lparr>messageKeys := obj_del (nat ?n) (messageKeys f)\<rparr>) B1)\<lparr>pendingPreKey := None\<rparr>)"
      by (simp add: deliver_def run)
    show "entry_ok A'" by (rule encryptMessage_ok(1) [OF hm ok(1) run(1)])
    show "entry_ok ((putChain a (f\<lparr>messageKeys := obj_del (nat ?n) (messageKeys f)\<rparr>) B1)\<lparr>pendingPreKey := None\<rparr>)"
      by (rule doDecrypt_ok(1) [OF hm ok(2) run(2)])
  qed (use level_next [OF hm chain(3) g(1) run(3)] g(2) in \<open>simp_all add: a_def\<close>)
qed

text \<open>Two ends of a chain that may not have begun.\<close>

definition in_step :: "prims \<Rightarrow> int \<Rightarrow> chain option \<Rightarrow> chain option \<Rightarrow> bool" where
  "in_step P N s r \<longleftrightarrow> s = None \<and> r = None \<or>
     (\<exists>k cS cR. s = Some cS \<and> r = Some cR \<and> level P k cS cR \<and> 0 \<le> ck_counter (chainKey cS) \<and> ck_counter (chainKey cS) \<le> N)"

text \<open>
  \<open>A\<close> is ahead: it has stepped to the ratchet key of \<open>B\<close> and has a chain that \<open>B\<close> has not seen. \<open>N\<close>
  bounds the counters, \<open>U\<close> holds the ratchet keys used so far.
\<close>

definition ahead :: "prims \<Rightarrow> int \<Rightarrow> bytes set \<Rightarrow> key_pair \<Rightarrow> key_pair \<Rightarrow> session_entry \<Rightarrow> session_entry \<Rightarrow> bool" where
  "ahead P N U IA IB A B \<longleftrightarrow>
     (let ra = currentRatchet A; rb = currentRatchet B; a = pubKey (ephemeralKeyPair ra); b = pubKey (ephemeralKeyPair rb) in
      entry_ok A \<and> entry_ok B \<and> is_key_pair P (ephemeralKeyPair ra) \<and> is_key_pair P (ephemeralKeyPair rb) \<and>
      remoteIdentityKey (indexInfo A) = pubKey IB \<and> remoteIdentityKey (indexInfo B) = pubKey IA \<and>
      length (rootKey rb) = 32 \<and> lastRemoteEphemeralKey ra = b \<and> lastRemoteEphemeralKey rb \<noteq> b \<and> a \<noteq> b \<and>
      (\<exists>k. kdf_rk P (rootKey rb) (dh P (ephemeralKeyPair rb) (ephemeralKeyPair ra)) = (rootKey ra, k) \<and>
         getChain a A = Some (new_chain k SENDING)) \<and>
      getChain a B = None \<and> in_step P N (getChain b B) (getChain b A) \<and>
      0 \<le> previousCounter ra \<and> previousCounter ra \<le> N \<and> 0 \<le> previousCounter rb \<and> previousCounter rb \<le> N \<and>
      (\<forall>c. getChain (lastRemoteEphemeralKey rb) B = Some c \<longrightarrow> previousCounter ra \<le> ck_counter (chainKey c)) \<and>
      {a, b} \<union> {x. getChain x A \<noteq> None \<or> getChain x B \<noteq> None} \<subseteq> U)"

text \<open>The side ahead speaks: the other steps, and is ahead then.\<close>

lemma ahead_speaks:
  assumes P: "prims_ok P" "wire_ok W" and ah: "ahead P N U IA IB A B"
    and ids: "is_key_pair P IA" "is_key_pair P IB" and fresh: "is_key_pair P g" "pubKey g \<notin> U"
    and N: "N + 1 < 2 ^ 32" and data: "length data < 2 ^ 31"
  obtains A' B' where "deliver P W IA IB g data A B = Inr (data, A', B')"
    "ahead P (N + 1) (insert (pubKey g) U) IB IA B' A'" "getChain (pubKey (ephemeralKeyPair (currentRatchet A'))) A' \<noteq> None"
proof -
  have hm: "hmac_ok P" and dh: "dh_ok P" using P(1) by (simp_all add: prims_okD)
  let ?ea = "ephemeralKeyPair (currentRatchet A)" and ?eb = "ephemeralKeyPair (currentRatchet B)"
  obtain k where ok: "entry_ok A" "entry_ok B" and kp: "is_key_pair P ?ea" "is_key_pair P ?eb"
    and remote: "remoteIdentityKey (indexInfo A) = pubKey IB" "remoteIdentityKey (indexInfo B) = pubKey IA"
    and root: "length (rootKey (currentRatchet B)) = 32" "kdf_rk P (rootKey (currentRatchet B)) (dh P ?eb ?ea) = (rootKey (currentRatchet A), k)"
    and last: "lastRemoteEphemeralKey (currentRatchet A) = pubKey ?eb" "lastRemoteEphemeralKey (currentRatchet B) \<noteq> pubKey ?eb"
      "pubKey ?ea \<noteq> pubKey ?eb"
    and chain: "getChain (pubKey ?ea) A = Some (new_chain k SENDING)" "getChain (pubKey ?ea) B = None"
    and step: "in_step P N (getChain (pubKey ?eb) B) (getChain (pubKey ?eb) A)"
    and prev: "0 \<le> previousCounter (currentRatchet A)" "previousCounter (currentRatchet A) \<le> N"
      "0 \<le> previousCounter (currentRatchet B)" "previousCounter (currentRatchet B) \<le> N"
      "\<And>c. getChain (lastRemoteEphemeralKey (currentRatchet B)) B = Some c \<Longrightarrow> previousCounter (currentRatchet A) \<le> ck_counter (chainKey c)"
    and used: "{pubKey ?ea, pubKey ?eb} \<union> {x. getChain x A \<noteq> None \<or> getChain x B \<noteq> None} \<subseteq> U"
    using ah by (auto simp: ahead_def Let_def)
  have new: "pubKey g \<noteq> pubKey ?ea" "pubKey g \<noteq> pubKey ?eb" "getChain (pubKey g) A = None" "getChain (pubKey g) B = None"
    using used fresh(2) by auto
  let ?root = "rootKey (currentRatchet A)"
  have closes: "(\<exists>f. fillMessageKeys P c (previousCounter (currentRatchet A)) = Inr f) \<and>
      lastRemoteEphemeralKey (currentRatchet B) \<noteq> pubKey ?eb"
    if "getChain (lastRemoteEphemeralKey (currentRatchet B)) B = Some c" for c
    using fill_done [OF prev(5) [OF that], of P] last(2) by blast
  obtain root2 k2 where rk2: "kdf_rk P ?root (dh P g ?ea) = (root2, k2)" by fastforce
  obtain B1 where B1: "maybeStepRatchet P g B (pubKey ?ea) (previousCounter (currentRatchet A)) = Inr B1"
    "stepped P B (pubKey ?ea) (previousCounter (currentRatchet A)) g k (root2, k2) B1"
    using step_established [OF hm dh ok(2) root(1) kp(2,1) fresh(1) root(2) chain(2) new(4) last(3) new(1,2) closes] rk2 by auto
  note st = B1(2) [unfolded stepped_def fst_conv snd_conv]
  have cB1: "getChain (pubKey ?ea) B1 = Some (new_chain k RECEIVING)" and idB1: "remoteIdentityKey (indexInfo B1) = pubKey IA"
    and rB1: "currentRatchet B1 = \<lparr>ephemeralKeyPair = g, lastRemoteEphemeralKey = pubKey ?ea,
       previousCounter = (case getChain (pubKey ?eb) B of None \<Rightarrow> previousCounter (currentRatchet B) | Some c \<Rightarrow> ck_counter (chainKey c)),
       rootKey = root2\<rparr>"
    using st remote(2) by simp_all
  have old: "getChain x B \<noteq> None" if "getChain x B1 \<noteq> None" "x \<noteq> pubKey ?ea" "x \<noteq> pubKey g" for x
    using st that by (auto split: if_splits)
  have k: "k \<noteq> []" "length ?root = 32"
    using kdf_rk_length [OF hm, of "rootKey (currentRatchet B)" "dh P ?eb ?ea"] root(2) by auto
  have len: "length (pubKey IA) = 33" "length (pubKey IB) = 33" "length (pubKey ?ea) = 33"
    using is_key_pair_lengths [OF dh] ids kp by blast+
  have sizes: "sizes_ok A (ck_counter (chainKey (new_chain k SENDING)) + 1) data"
    using data len prev N by (simp add: sizes_ok_def new_chain_def)
  obtain cS cR A' B' where run: "deliver P W IA IB g data A B = Inr (data, A', B')" "entry_ok A'" "entry_ok B'"
    "A' = putChain (pubKey ?ea) cS A" "B' = (putChain (pubKey ?ea) cR B1)\<lparr>pendingPreKey := None\<rparr>"
    "level P k cS cR" "ck_counter (chainKey cS) = ck_counter (chainKey (new_chain k SENDING)) + 1"
    by (rule deliver_level [OF P ok chain(1) cB1 level_new [OF k(1)] B1(1) remote(1) idB1 len(1,2) sizes])
  have prevB: "0 \<le> previousCounter (currentRatchet B1) \<and> previousCounter (currentRatchet B1) \<le> N \<and>
      (\<forall>c. getChain (pubKey ?eb) A = Some c \<longrightarrow> previousCounter (currentRatchet B1) \<le> ck_counter (chainKey c))"
    using step prev by (auto simp: rB1 in_step_def level_def)
  have in0: "in_step P (N + 1) (Some cS) (Some cR)" using run(6,7) prev by (auto simp: in_step_def new_chain_def)
  have "getChain x B1 \<noteq> None \<Longrightarrow> x \<in> insert (pubKey g) U" for x
    using used old [of x] by (cases "x = pubKey ?ea \<or> x = pubKey g") auto
  then have sub: "{pubKey g, pubKey ?ea} \<union> {x. getChain x B' \<noteq> None \<or> getChain x A' \<noteq> None} \<subseteq> insert (pubKey g) U"
    using used by (auto simp: run(4,5) getChain_put split: if_splits)
  have agree: "dh P ?ea g = dh P g ?ea" by (rule dh_agree(2) [OF dh kp(1) fresh(1)])
  have cur: "currentRatchet B' = currentRatchet B1" "currentRatchet A' = currentRatchet A" "indexInfo B' = indexInfo B1" "indexInfo A' = indexInfo A"
    by (simp_all add: run(4,5))
  have "ahead P (N + 1) (insert (pubKey g) U) IB IA B' A'"
    unfolding ahead_def Let_def cur
    using run(2,3) kp fresh(1) remote idB1 rB1 st rk2 k(2) last new chain in0 prev prevB sub agree
    by (simp add: run(4,5) getChain_put)
  then show thesis using that run(1) by (simp add: run(4) getChain_put)
qed

text \<open>The other side speaks, on the chain both hold: the side ahead remains ahead.\<close>

lemma behind_speaks:
  assumes P: "prims_ok P" "wire_ok W" and ah: "ahead P N U IA IB A B"
    and ids: "is_key_pair P IA" "is_key_pair P IB" and begun: "getChain (pubKey (ephemeralKeyPair (currentRatchet B))) B \<noteq> None"
    and N: "N + 1 < 2 ^ 32" and data: "length data < 2 ^ 31"
  obtains A' B' where "deliver P W IB IA g data B A = Inr (data, B', A')"
    "ahead P (N + 1) (insert (pubKey g) U) IA IB A' B'" "getChain (pubKey (ephemeralKeyPair (currentRatchet B'))) B' \<noteq> None"
proof -
  have dh: "dh_ok P" using P(1) by (simp add: prims_okD)
  let ?ea = "ephemeralKeyPair (currentRatchet A)" and ?eb = "ephemeralKeyPair (currentRatchet B)"
  obtain cS cR kb where ok: "entry_ok A" "entry_ok B" and kp: "is_key_pair P ?ea" "is_key_pair P ?eb"
    and remote: "remoteIdentityKey (indexInfo A) = pubKey IB" "remoteIdentityKey (indexInfo B) = pubKey IA"
    and last: "lastRemoteEphemeralKey (currentRatchet B) \<noteq> pubKey ?eb" "pubKey ?ea \<noteq> pubKey ?eb"
    and chain: "getChain (pubKey ?eb) B = Some cS" "getChain (pubKey ?eb) A = Some cR" "level P kb cS cR"
      "0 \<le> ck_counter (chainKey cS)" "ck_counter (chainKey cS) \<le> N"
    and prev: "0 \<le> previousCounter (currentRatchet A)" "previousCounter (currentRatchet A) \<le> N"
      "0 \<le> previousCounter (currentRatchet B)" "previousCounter (currentRatchet B) \<le> N"
    using ah begun by (auto simp: ahead_def Let_def in_step_def)
  have len: "length (pubKey IA) = 33" "length (pubKey IB) = 33" "length (pubKey ?eb) = 33"
    using is_key_pair_lengths [OF dh] ids kp by blast+
  have sizes: "sizes_ok B (ck_counter (chainKey cS) + 1) data"
    using data len prev chain N by (simp add: sizes_ok_def)
  have step: "maybeStepRatchet P g A (pubKey ?eb) (previousCounter (currentRatchet B)) = Inr A"
    using chain(2) by (simp add: maybeStepRatchet_def)
  obtain cS' cR' B' A' where run: "deliver P W IB IA g data B A = Inr (data, B', A')" "entry_ok B'" "entry_ok A'"
    "B' = putChain (pubKey ?eb) cS' B" "A' = (putChain (pubKey ?eb) cR' A)\<lparr>pendingPreKey := None\<rparr>"
    "level P kb cS' cR'" "ck_counter (chainKey cS') = ck_counter (chainKey cS) + 1"
    by (rule deliver_level [OF P ok(2,1) chain(1-3) step remote(2,1) len(2,1) sizes])
  have in1: "in_step P (N + 1) (Some cS') (Some cR')" using run(6,7) chain by (auto simp: in_step_def)
  have cur: "currentRatchet B' = currentRatchet B" "currentRatchet A' = currentRatchet A" "indexInfo B' = indexInfo B" "indexInfo A' = indexInfo A"
    by (simp_all add: run(4,5))
  have "ahead P (N + 1) (insert (pubKey g) U) IA IB A' B'"
    using ah run(2,3) in1 last prev unfolding ahead_def Let_def cur
    by (auto simp: run(4,5) getChain_put)
  then show thesis using that run(1) by (simp add: run(4) getChain_put)
qed

section \<open>A conversation\<close>

text \<open>
  The turns of a conversation: who speaks (\<open>True\<close> is the initiator), what is said, and the key pair the
  listener's \<open>generateKeyPair\<close> would return.
\<close>

type_synonym turn = "bool \<times> bytes \<times> key_pair"

fun converse ::
  "prims \<Rightarrow> wire \<Rightarrow> key_pair \<Rightarrow> key_pair \<Rightarrow> turn list \<Rightarrow> session_entry \<Rightarrow> session_entry \<Rightarrow>
     error + bytes list" where
  "converse P W IA IB [] A B = Inr []"
| "converse P W IA IB ((initiator, data, g) # turns) A B =
     (if initiator
      then rbind (deliver P W IA IB g data A B) (\<lambda>(pt, A', B').
             rbind (converse P W IA IB turns A' B') (\<lambda>pts. Inr (pt # pts)))
      else rbind (deliver P W IB IA g data B A) (\<lambda>(pt, B', A').
             rbind (converse P W IA IB turns A' B') (\<lambda>pts. Inr (pt # pts))))"

definition said :: "turn list \<Rightarrow> bytes list" where
  "said turns = map (\<lambda>t. fst (snd t)) turns"

text \<open>The turns can be taken: fresh ratchet keys, texts within the field size, counters below \<open>2 ^ 32\<close>.\<close>

definition turns_ok :: "prims \<Rightarrow> int \<Rightarrow> bytes set \<Rightarrow> turn list \<Rightarrow> bool" where
  "turns_ok P N U turns \<longleftrightarrow> N + int (length turns) < 2 ^ 32 \<and> distinct (map (\<lambda>t. pubKey (snd (snd t))) turns) \<and>
     (\<forall>(w, data, g)\<in>set turns. length data < 2 ^ 31 \<and> is_key_pair P g \<and> pubKey g \<notin> U)"

lemma turns_ok_Cons:
  "turns_ok P N U ((w, data, g) # turns) \<Longrightarrow>
     N + 1 < 2 ^ 32 \<and> length data < 2 ^ 31 \<and> is_key_pair P g \<and> pubKey g \<notin> U \<and> turns_ok P (N + 1) (insert (pubKey g) U) turns"
  by (auto simp: turns_ok_def image_iff)

lemma converse_ahead:
  assumes P: "prims_ok P" "wire_ok W" and ids: "is_key_pair P IA" "is_key_pair P IB"
  shows "turns_ok P N U turns \<Longrightarrow>
     ahead P N U IA IB A B \<and> (getChain (pubKey (ephemeralKeyPair (currentRatchet B))) B \<noteq> None \<or> turns \<noteq> [] \<and> fst (hd turns)) \<or>
     ahead P N U IB IA B A \<and> getChain (pubKey (ephemeralKeyPair (currentRatchet A))) A \<noteq> None \<Longrightarrow>
     converse P W IA IB turns A B = Inr (said turns)"
proof (induction turns arbitrary: A B N U)
  case (Cons t turns)
  obtain w data g where t: "t = (w, data, g)" by (cases t) auto
  note ok = turns_ok_Cons [OF Cons.prems(1) [unfolded t]]
  note IH = Cons.IH [of "N + 1" "insert (pubKey g) U"]
  from Cons.prems(2) consider
    (ahead_A) "ahead P N U IA IB A B" w
    | (behind_B) "ahead P N U IA IB A B" "\<not> w" "getChain (pubKey (ephemeralKeyPair (currentRatchet B))) B \<noteq> None"
    | (behind_A) "ahead P N U IB IA B A" w "getChain (pubKey (ephemeralKeyPair (currentRatchet A))) A \<noteq> None"
    | (ahead_B) "ahead P N U IB IA B A" "\<not> w"
    by (auto simp: t)
  then show ?case
  proof cases
    case ahead_A
    obtain A' B' where "deliver P W IA IB g data A B = Inr (data, A', B')"
      "ahead P (N + 1) (insert (pubKey g) U) IB IA B' A'" "getChain (pubKey (ephemeralKeyPair (currentRatchet A'))) A' \<noteq> None"
      by (rule ahead_speaks [OF P ahead_A(1) ids]) (use ok in auto)
    with ahead_A(2) IH [of A' B'] ok show ?thesis by (simp add: t said_def)
  next
    case behind_B
    obtain A' B' where "deliver P W IB IA g data B A = Inr (data, B', A')"
      "ahead P (N + 1) (insert (pubKey g) U) IA IB A' B'" "getChain (pubKey (ephemeralKeyPair (currentRatchet B'))) B' \<noteq> None"
      by (rule behind_speaks [OF P behind_B(1) ids behind_B(3)]) (use ok in auto)
    with behind_B(2) IH [of A' B'] ok show ?thesis by (simp add: t said_def)
  next
    case behind_A
    obtain A' B' where "deliver P W IA IB g data A B = Inr (data, A', B')"
      "ahead P (N + 1) (insert (pubKey g) U) IB IA B' A'" "getChain (pubKey (ephemeralKeyPair (currentRatchet A'))) A' \<noteq> None"
      by (rule behind_speaks [OF P behind_A(1) ids(2,1) behind_A(3)]) (use ok in auto)
    with behind_A(2) IH [of A' B'] ok show ?thesis by (simp add: t said_def)
  next
    case ahead_B
    obtain A' B' where "deliver P W IB IA g data B A = Inr (data, B', A')"
      "ahead P (N + 1) (insert (pubKey g) U) IA IB A' B'" "getChain (pubKey (ephemeralKeyPair (currentRatchet B'))) B' \<noteq> None"
      by (rule ahead_speaks [OF P ahead_B(1) ids(2,1)]) (use ok in auto)
    with ahead_B(2) IH [of A' B'] ok show ?thesis by (simp add: t said_def)
  qed
qed (simp add: said_def)

text \<open>After the key agreement the initiator is ahead.\<close>

lemma agreed_ahead:
  assumes P: "prims_ok P"
    and kp: "is_key_pair P IA" "is_key_pair P E" "is_key_pair P F" "is_key_pair P IB" "is_key_pair P SB"
      "\<forall>x. OB = Some x \<longrightarrow> is_key_pair P x"
    and distinct: "pubKey F \<noteq> pubKey SB" "pubKey E \<noteq> pubKey SB"
  obtains sA sB where
    "initSession P t1 F IA True (Some E) None (pubKey IB) (map_option pubKey OB) (Some (pubKey SB)) r1 = Inr sA"
    "initSession P t2 F2 IB False OB (Some SB) (pubKey IA) (Some (pubKey E)) None r2 = Inr sB"
    "ahead P 0 {pubKey F, pubKey SB} IA IB sA sB" "chains sB = []" "ephemeralKeyPair (currentRatchet sA) = F" "ephemeralKeyPair (currentRatchet sB) = SB"
proof -
  have hm: "hmac_ok P" and dh: "dh_ok P" using P by (simp_all add: prims_okD)
  let ?m = "x3dh_master P IA E IB SB OB"
  obtain root key where rk: "kdf_rk P ?m (dh P F SB) = (root, key)" by fastforce
  note A = initSession_initiator [OF hm dh kp(1-6) rk, of t1 r1]
  note B = initSession_responder [OF hm dh kp(4,5,6,1,2), of t2 F2 r2]
  have sym: "dh P SB F = dh P F SB" by (rule dh_agree(2) [OF dh kp(5,3)])
  have oks: "entry_ok (entry_of_agreement r1
        \<lparr>ephemeralKeyPair = F, lastRemoteEphemeralKey = pubKey SB, previousCounter = 0, rootKey = root\<rparr>
        t1 (pubKey E) OURS (pubKey IB) [(b64_encode (pubKey F), new_chain key SENDING)])"
    "entry_ok (entry_of_agreement r2
        \<lparr>ephemeralKeyPair = SB, lastRemoteEphemeralKey = pubKey E, previousCounter = 0, rootKey = ?m\<rparr>
        t2 (pubKey E) THEIRS (pubKey IA) [])"
    using initSession_ok(1) [OF hm A] initSession_ok(1) [OF hm B] by blast+
  show thesis
  proof (rule that [OF A B])
    show "ahead P 0 {pubKey F, pubKey SB} IA IB
       (entry_of_agreement r1 \<lparr>ephemeralKeyPair = F, lastRemoteEphemeralKey = pubKey SB, previousCounter = 0, rootKey = root\<rparr>
          t1 (pubKey E) OURS (pubKey IB) [(b64_encode (pubKey F), new_chain key SENDING)])
       (entry_of_agreement r2 \<lparr>ephemeralKeyPair = SB, lastRemoteEphemeralKey = pubKey E, previousCounter = 0, rootKey = ?m\<rparr>
          t2 (pubKey E) THEIRS (pubKey IA) [])"
      using oks kp distinct rk sym x3dh_master_length [OF hm]
      by (auto simp: ahead_def entry_of_agreement_def getChain_def in_step_def split: if_splits)
  qed (simp_all add: entry_of_agreement_def)
qed

end
