(* ===== verification/Mailbox.thy ===== *)
theory Mailbox
  imports Conversation
begin

text \<open>
  A conversation with messages on the way: both sides may speak at any time, and what was said is heard
  in any order, late or never. The relation between the two sessions is an invariant over all runs; in
  every state of a run, every message that may be heard is decrypted to what was said.
\<close>

section \<open>Keys that stay in a chain\<close>

text \<open>With fewer than 2000 messages on a chain no skipped key is pruned.\<close>

lemma chain_keys_bound:
  assumes "chain_wf c" "ck_counter (chainKey c) < 2000"
  shows "length (messageKeys c) \<le> MAX_MESSAGE_KEYS"
proof -
  have wf: "distinct (map fst (messageKeys c))" "\<forall>i\<in>set (map fst (messageKeys c)). int i \<le> ck_counter (chainKey c)"
    using assms(1) mk_wf_distinct by (simp_all add: chain_wf_def)
  then have sub: "set (map fst (messageKeys c)) \<subseteq> {..<2000}" using assms(2) by force
  have "length (messageKeys c) = card (set (map fst (messageKeys c)))" using distinct_card [OF wf(1)] by simp
  then show ?thesis using card_mono [OF _ sub] by (simp add: MAX_MESSAGE_KEYS_def)
qed

lemma prune_small: "length (messageKeys c) \<le> MAX_MESSAGE_KEYS \<Longrightarrow> pruneMessageKeys c = c"
  by (simp add: pruneMessageKeys_def Let_def)

lemma fill_small:
  assumes "hmac_ok P" "chain_wf c" "n < 2000" "fillMessageKeys P c n = Inr f"
  obtains "n \<le> ck_counter (chainKey c)" "f = c"
    | key j where "ck_key (chainKey c) = Some key" "n = ck_counter (chainKey c) + int j" "0 < j" "f = advance P key j c"
proof (cases rule: fillMessageKeys_cases [OF assms(1,2), of n])
  case (2 key j)
  have "chain_wf (advance P key j c)" by (rule advance_wf [OF assms(1,2) 2(1)])
  moreover have "ck_counter (chainKey (advance P key j c)) < 2000" using 2(2) assms(3) by (simp add: advance_def)
  ultimately have "pruneMessageKeys (advance P key j c) = advance P key j c"
    using chain_keys_bound prune_small by blast
  then show thesis using that(2) [OF 2(1-3)] 2(5) assms(4) by simp
qed (use assms(4) that(1) in simp_all)

lemma fill_keeps:
  assumes "hmac_ok P" "chain_wf c" "n < 2000" "fillMessageKeys P c n = Inr f" "receivable c m"
  shows "receivable f m"
  using assms(1-4)
proof (cases rule: fill_small)
  case 1
  with assms(5) show ?thesis by simp
next
  case (2 key j)
  let ?n = "ck_counter (chainKey c)"
  let ?new = "map (\<lambda>i. (nat (?n + 1 + int i), message_key_at P key i)) [0..<j]"
  have n: "- 1 \<le> ?n" using assms(2) by (simp add: chain_wf_def)
  consider "m \<le> ?n" | "?n < m" "m \<le> n" | "n < m" by linarith
  then show ?thesis
  proof cases
    case 1
    then have "obj_get (messageKeys c) (nat m) \<noteq> None" "m \<le> n" using assms(5) 2(2) by (simp_all add: receivable_def)
    then show ?thesis using 2 by (auto simp: receivable_def advance_def map_add_def split: option.splits)
  next
    case between: 2
    define i where "i = nat (m - ?n - 1)"
    have i: "i < j" "nat m = nat (?n + 1 + int i)" using between 2(2) n by (simp_all add: i_def)
    then have "nat m \<in> fst ` set ?new" by (auto simp: image_iff)
    then have "obj_get (messageKeys c @ ?new) (nat m) \<noteq> None" by (auto simp: map_of_eq_None_iff image_Un)
    then show ?thesis using between 2 by (simp add: receivable_def advance_def)
  next
    case 3
    then show ?thesis using 2 assms(5) by (simp add: receivable_def advance_def)
  qed
qed

lemma receivable_del: "receivable c m \<Longrightarrow> nat m \<noteq> i \<Longrightarrow> receivable (c\<lparr>messageKeys := obj_del i (messageKeys c)\<rparr>) m"
  by (simp add: receivable_def obj_get_del)

lemma receivable_closed: "receivable c m \<Longrightarrow> m \<le> ck_counter (chainKey c) \<Longrightarrow> receivable (closed c) m"
  by (simp add: receivable_def closed_def)

lemma closed_from: "chain_from P k c \<Longrightarrow> chain_from P k (closed c)"
  by (simp add: chain_from_def chain_wf_def closed_def)

text \<open>A receiving chain from which fewer than 2000 keys were made, and a sending chain.\<close>

definition rcv_ok :: "prims \<Rightarrow> bytes \<Rightarrow> chain \<Rightarrow> bool" where
  "rcv_ok P k c \<longleftrightarrow> chain_from P k c \<and> chainType c = RECEIVING \<and> ck_counter (chainKey c) < 2000"

definition snd_ok :: "prims \<Rightarrow> bytes \<Rightarrow> chain \<Rightarrow> bool" where
  "snd_ok P k c \<longleftrightarrow> chain_from P k c \<and> chainType c = SENDING \<and> ck_counter (chainKey c) < 2000 \<and> ck_key (chainKey c) \<noteq> None"

definition without :: "int \<Rightarrow> chain \<Rightarrow> chain" where
  "without n c = c\<lparr>messageKeys := obj_del (nat n) (messageKeys c)\<rparr>"

lemma fill_open:
  assumes "hmac_ok P" "chain_wf c" "n < 2000" "fillMessageKeys P c n = Inr f" "ck_key (chainKey c) \<noteq> None"
  shows "ck_key (chainKey f) \<noteq> None"
  using assms(1-4) by (cases rule: fill_small) (use assms(5) in \<open>auto simp: advance_def\<close>)

lemma rcv_fill:
  assumes hm: "hmac_ok P" and c: "rcv_ok P k c" "n < 2000" "fillMessageKeys P c n = Inr f"
  shows "rcv_ok P k f" "ck_counter (chainKey f) = max (ck_counter (chainKey c)) n"
    "receivable c m \<Longrightarrow> receivable f m" "ck_key (chainKey c) \<noteq> None \<Longrightarrow> ck_key (chainKey f) \<noteq> None"
proof -
  have wf: "chain_wf c" using c(1) by (simp add: rcv_ok_def chain_from_def)
  note ok = fillMessageKeys_ok [OF hm wf c(3)]
  show "rcv_ok P k f" using c(1,2) ok fill_from [OF hm _ c(3)] by (simp add: rcv_ok_def)
  show "ck_counter (chainKey f) = max (ck_counter (chainKey c)) n" by (rule ok(3))
  show "receivable c m \<Longrightarrow> receivable f m" by (rule fill_keeps [OF hm wf c(2,3)])
  show "ck_key (chainKey c) \<noteq> None \<Longrightarrow> ck_key (chainKey f) \<noteq> None" by (rule fill_open [OF hm wf c(2,3)])
qed

lemma rcv_without: "rcv_ok P k c \<Longrightarrow> rcv_ok P k (without n c)"
  by (simp add: rcv_ok_def without_def chain_from_del)

lemma snd_without: "snd_ok P k c \<Longrightarrow> snd_ok P k (without n c)"
  by (simp add: snd_ok_def without_def chain_from_del)

lemma without_fields [simp]:
  "ck_counter (chainKey (without n c)) = ck_counter (chainKey c)" "ck_key (chainKey (without n c)) = ck_key (chainKey c)"
  "chainType (without n c) = chainType c"
  by (simp_all add: without_def)

lemma receivable_without: "receivable c m \<Longrightarrow> nat m \<noteq> nat n \<Longrightarrow> receivable (without n c) m"
  unfolding without_def by (rule receivable_del)

lemma rcv_closed: "rcv_ok P k c \<Longrightarrow> rcv_ok P k (closed c)"
  using closed_from by (simp add: rcv_ok_def) (simp add: closed_def)

lemma closed_fields [simp]: "ck_counter (chainKey (closed c)) = ck_counter (chainKey c)" "chainType (closed c) = chainType c"
  by (simp_all add: closed_def)

text \<open>Hearing a message whose key the chain can still give, and speaking.\<close>

lemma hear_chain:
  assumes hm: "hmac_ok P" and op: "opens P W idA IB k x n pc data buf" and step: "maybeStepRatchet P fresh B x pc = Inr B1"
    and c: "getChain x B1 = Some c" "rcv_ok P k c" "receivable c n" "n < 2000" and id: "remoteIdentityKey (indexInfo B1) = idA"
  obtains f where "fillMessageKeys P c n = Inr f"
    "doDecryptWhisperMessage P W (Inr IB) fresh buf B = Inr (data, (putChain x (without n f) B1)\<lparr>pendingPreKey := None\<rparr>)"
proof -
  have from_k: "chain_from P k c" and t: "chainType c \<noteq> SENDING" using c(2) by (simp_all add: rcv_ok_def)
  obtain f where f: "fillMessageKeys P c n = Inr f" "obj_get (messageKeys f) (nat n) = Some (message_key_at P k (nat n))"
    using fill_receivable [OF hm from_k c(3)] .
  have "takeMessageKey P B1 x n = Inr (message_key_at P k (nat n), putChain x (without n f) B1)"
    using c(1) t f by (auto simp: takeMessageKey_Inr without_def)
  moreover have "remoteIdentityKey (indexInfo (putChain x (without n f) B1)) = idA" using id by simp
  ultimately show thesis using that [OF f(1)] op step unfolding opens_def by blast
qed

lemma say_chain:
  fixes A :: session_entry
  defines "a \<equiv> pubKey (ephemeralKeyPair (currentRatchet A))"
  assumes P: "prims_ok P" "wire_ok W"
    and c: "getChain a A = Some c" "snd_ok P k c" "ck_counter (chainKey c) < 1999"
    and ids: "remoteIdentityKey (indexInfo A) = pubKey IB" "length (pubKey IA) = 33" "length (pubKey IB) = 33"
    and prev: "0 \<le> previousCounter (currentRatchet A)" "previousCounter (currentRatchet A) < 2000"
    and len: "length a = 33" "length data < 2 ^ 31"
  obtains buf c' where "encryptMessage P W IA data A = Inr (buf, putChain a c' A)" "snd_ok P k c'"
    "ck_counter (chainKey c') = ck_counter (chainKey c) + 1"
    "opens P W (pubKey IA) IB k a (ck_counter (chainKey c) + 1) (previousCounter (currentRatchet A)) data buf"
    "wire_sizes W \<longrightarrow> length buf < 2 ^ 32" "buf \<noteq> []"
proof -
  have hm: "hmac_ok P" using P(1) by (simp add: prims_okD)
  let ?n = "ck_counter (chainKey c) + 1"
  obtain key where ck: "chainType c = SENDING" "chain_from P k c" "ck_key (chainKey c) = Some key" using c(2) by (auto simp: snd_ok_def)
  have sizes: "sizes_ok A ?n data" using c(3) prev len by (simp add: sizes_ok_def a_def)
  obtain buf f where enc: "encryptMessage P W IA data A = Inr (buf, putChain a (f\<lparr>messageKeys := obj_del (nat ?n) (messageKeys f)\<rparr>) A)"
    "fillMessageKeys P c ?n = Inr f" "opens P W (pubKey IA) IB k a ?n (previousCounter (currentRatchet A)) data buf"
    "wire_sizes W \<longrightarrow> length buf < 2 ^ 32" "buf \<noteq> []"
    using encrypt_opens [OF P c(1) [unfolded a_def] ck refl ids sizes] unfolding a_def by metis
  have wf: "chain_wf c" and n: "?n < 2000" using ck(2) c(3) by (simp_all add: chain_from_def)
  have "snd_ok P k f"
    using fillMessageKeys_ok [OF hm wf enc(2)] fill_from [OF hm ck(2) enc(2)] fill_open [OF hm wf n enc(2)] ck n
    by (simp add: snd_ok_def)
  moreover have "ck_counter (chainKey f) = ?n" using fillMessageKeys_ok(3) [OF hm wf enc(2)] by simp
  ultimately show thesis
    using that [of buf "without ?n f"] enc snd_without by (simp add: without_def)
qed

section \<open>Messages on the way\<close>

text \<open>
  A letter is a message on the way, with what was said and the header it was given. A talk has both
  sessions, the letters on the way to each side, and the ratchet keys used so far; \<open>True\<close> is the
  initiator's side.
\<close>

record letter =
  lt_buf :: bytes
  lt_data :: bytes
  lt_key :: bytes
  lt_counter :: int
  lt_prev :: int

record talk =
  tk_session :: "bool \<Rightarrow> session_entry"
  tk_mail :: "bool \<Rightarrow> letter list"
  tk_used :: "bytes list"

abbreviation eph_of :: "session_entry \<Rightarrow> key_pair" where
  "eph_of e \<equiv> ephemeralKeyPair (currentRatchet e)"

definition new_letter :: "session_entry \<Rightarrow> bytes \<Rightarrow> bytes \<Rightarrow> letter" where
  "new_letter e data buf = \<lparr>lt_buf = buf, lt_data = data, lt_key = pubKey (eph_of e),
     lt_counter = (case getChain (pubKey (eph_of e)) e of None \<Rightarrow> 0 | Some c \<Rightarrow> ck_counter (chainKey c) + 1),
     lt_prev = previousCounter (currentRatchet e)\<rparr>"

definition say :: "prims \<Rightarrow> wire \<Rightarrow> (bool \<Rightarrow> key_pair) \<Rightarrow> bool \<Rightarrow> bytes \<Rightarrow> talk \<Rightarrow> error + talk" where
  "say P W ids s data T =
     rbind (encryptMessage P W (ids s) data (tk_session T s)) (\<lambda>(buf, e).
       Inr (T\<lparr>tk_session := (tk_session T)(s := e),
              tk_mail := (tk_mail T)(\<not> s := tk_mail T (\<not> s) @ [new_letter (tk_session T s) data buf])\<rparr>))"

definition remove_nth :: "nat \<Rightarrow> 'a list \<Rightarrow> 'a list" where
  "remove_nth i xs = take i xs @ drop (Suc i) xs"

definition hear :: "prims \<Rightarrow> wire \<Rightarrow> (bool \<Rightarrow> key_pair) \<Rightarrow> bool \<Rightarrow> nat \<Rightarrow> key_pair \<Rightarrow> talk \<Rightarrow> error + bytes \<times> talk" where
  "hear P W ids s i fresh T =
     rbind (doDecryptWhisperMessage P W (Inr (ids s)) fresh (lt_buf (tk_mail T s ! i)) (tk_session T s)) (\<lambda>(plaintext, e).
       Inr (plaintext, T\<lparr>tk_session := (tk_session T)(s := e), tk_mail := (tk_mail T)(s := remove_nth i (tk_mail T s)),
                        tk_used := pubKey fresh # tk_used T\<rparr>))"

text \<open>
  A side may speak when it has a sending chain with fewer than 2000 messages; it may hear a letter whose
  receiving chain it still has, or that comes with the other side's current ratchet key.
\<close>

definition may_say :: "bool \<Rightarrow> bytes \<Rightarrow> talk \<Rightarrow> bool" where
  "may_say s data T \<longleftrightarrow> length data < 2 ^ 31 \<and>
     (case getChain (pubKey (eph_of (tk_session T s))) (tk_session T s) of
        None \<Rightarrow> False | Some c \<Rightarrow> ck_counter (chainKey c) < 1999)"

definition may_hear :: "prims \<Rightarrow> bool \<Rightarrow> nat \<Rightarrow> key_pair \<Rightarrow> talk \<Rightarrow> bool" where
  "may_hear P s i fresh T \<longleftrightarrow> i < length (tk_mail T s) \<and> is_key_pair P fresh \<and> pubKey fresh \<notin> set (tk_used T) \<and>
     (lt_key (tk_mail T s ! i) = pubKey (eph_of (tk_session T (\<not> s))) \<or>
      getChain (lt_key (tk_mail T s ! i)) (tk_session T s) \<noteq> None)"

inductive talk_step :: "prims \<Rightarrow> wire \<Rightarrow> (bool \<Rightarrow> key_pair) \<Rightarrow> talk \<Rightarrow> talk \<Rightarrow> bool" for P W ids where
  Say: "may_say s data T \<Longrightarrow> say P W ids s data T = Inr T' \<Longrightarrow> talk_step P W ids T T'"
| Hear: "may_hear P s i fresh T \<Longrightarrow> hear P W ids s i fresh T = Inr (plaintext, T') \<Longrightarrow> talk_step P W ids T T'"

definition new_talk :: "session_entry \<Rightarrow> session_entry \<Rightarrow> talk" where
  "new_talk sA sB = \<lparr>tk_session = (\<lambda>s. if s then sA else sB), tk_mail = (\<lambda>_. []),
     tk_used = [pubKey (eph_of sA), pubKey (eph_of sB)]\<rparr>"

section \<open>The invariant of a talk\<close>

text \<open>
  \<open>K x\<close> is the key that the chain of the ratchet key \<open>x\<close> started from, and \<open>U\<close> the ratchet keys used so far. A
  letter to \<open>B\<close> opens with its chain's key; as long as \<open>B\<close> has the chain, it can still give that key.
\<close>

definition letter_ok :: "prims \<Rightarrow> wire \<Rightarrow> (bytes \<Rightarrow> bytes) \<Rightarrow> key_pair \<Rightarrow> key_pair \<Rightarrow> session_entry \<Rightarrow> bytes set \<Rightarrow> letter \<Rightarrow> bool" where
  "letter_ok P W K IA IB B U l \<longleftrightarrow>
     lt_key l \<in> U \<and> 0 \<le> lt_counter l \<and> lt_counter l < 2000 \<and>
     opens P W (pubKey IA) IB (K (lt_key l)) (lt_key l) (lt_counter l) (lt_prev l) (lt_data l) (lt_buf l) \<and>
     (\<forall>c. getChain (lt_key l) B = Some c \<longrightarrow> rcv_ok P (K (lt_key l)) c \<and> receivable c (lt_counter l))"

text \<open>The chain of the ratchet key that \<open>A\<close> has now, at both ends.\<close>

definition current_ok :: "prims \<Rightarrow> (bytes \<Rightarrow> bytes) \<Rightarrow> session_entry \<Rightarrow> session_entry \<Rightarrow> letter list \<Rightarrow> bool" where
  "current_ok P K A B M \<longleftrightarrow>
     (let a = pubKey (eph_of A) in
      (\<forall>c. getChain a A = Some c \<longrightarrow> snd_ok P (K a) c) \<and>
      (\<forall>c. getChain a B = Some c \<longrightarrow> rcv_ok P (K a) c \<and> ck_key (chainKey c) \<noteq> None \<and>
         (\<exists>cS. getChain a A = Some cS \<and> ck_counter (chainKey c) \<le> ck_counter (chainKey cS))) \<and>
      (\<forall>l\<in>set M. lt_key l = a \<longrightarrow> lt_prev l = previousCounter (currentRatchet A) \<and>
         (\<exists>cS. getChain a A = Some cS \<and> lt_counter l \<le> ck_counter (chainKey cS))))"

text \<open>The chain that \<open>B\<close> will fill up and close when it sees the ratchet key of \<open>A\<close>.\<close>

definition previous_ok :: "prims \<Rightarrow> (bytes \<Rightarrow> bytes) \<Rightarrow> session_entry \<Rightarrow> session_entry \<Rightarrow> letter list \<Rightarrow> bool" where
  "previous_ok P K A B M \<longleftrightarrow>
     (let z = lastRemoteEphemeralKey (currentRatchet B); pc = previousCounter (currentRatchet A) in
      z \<noteq> pubKey (eph_of A) \<longrightarrow>
        (\<forall>c. getChain z B = Some c \<longrightarrow> rcv_ok P (K z) c \<and> (ck_key (chainKey c) \<noteq> None \<or> pc \<le> ck_counter (chainKey c))) \<and>
        (\<forall>l\<in>set M. lt_key l = z \<longrightarrow> lt_counter l \<le> pc))"

text \<open>What travels from \<open>A\<close> to \<open>B\<close>.\<close>

definition flow ::
  "prims \<Rightarrow> wire \<Rightarrow> (bytes \<Rightarrow> bytes) \<Rightarrow> key_pair \<Rightarrow> key_pair \<Rightarrow> session_entry \<Rightarrow> session_entry \<Rightarrow> bytes set \<Rightarrow> letter list \<Rightarrow> bool" where
  "flow P W K IA IB A B U M \<longleftrightarrow>
     0 \<le> previousCounter (currentRatchet A) \<and> previousCounter (currentRatchet A) < 2000 \<and>
     (\<forall>l\<in>set M. letter_ok P W K IA IB B U l) \<and> distinct (map (\<lambda>l. (lt_key l, lt_counter l)) M) \<and>
     current_ok P K A B M \<and> previous_ok P K A B M"

text \<open>\<open>A\<close> has made the last ratchet step, which \<open>B\<close> has not seen.\<close>

definition leads :: "prims \<Rightarrow> (bytes \<Rightarrow> bytes) \<Rightarrow> session_entry \<Rightarrow> session_entry \<Rightarrow> bool" where
  "leads P K A B \<longleftrightarrow>
     (let ra = currentRatchet A; rb = currentRatchet B; a = pubKey (eph_of A); b = pubKey (eph_of B) in
      length (rootKey rb) = 32 \<and> lastRemoteEphemeralKey ra = b \<and> lastRemoteEphemeralKey rb \<noteq> b \<and> a \<noteq> b \<and>
      kdf_rk P (rootKey rb) (dh P (eph_of B) (eph_of A)) = (rootKey ra, K a) \<and>
      getChain a A \<noteq> None \<and> getChain a B = None \<and> (getChain b B = None) = (getChain b A = None) \<and>
      (\<forall>c. getChain b B = Some c \<longrightarrow> 0 \<le> ck_counter (chainKey c)))"

definition side_ok :: "prims \<Rightarrow> bytes set \<Rightarrow> key_pair \<Rightarrow> session_entry \<Rightarrow> bool" where
  "side_ok P U I e \<longleftrightarrow> entry_ok e \<and> is_key_pair P (eph_of e) \<and> pubKey (eph_of e) \<in> U \<and>
     remoteIdentityKey (indexInfo e) = pubKey I \<and> (\<forall>x. getChain x e \<noteq> None \<longrightarrow> x \<in> U)"

definition pair_ok ::
  "prims \<Rightarrow> wire \<Rightarrow> (bytes \<Rightarrow> bytes) \<Rightarrow> bytes set \<Rightarrow> key_pair \<Rightarrow> key_pair \<Rightarrow> session_entry \<Rightarrow> session_entry \<Rightarrow>
     letter list \<Rightarrow> letter list \<Rightarrow> bool" where
  "pair_ok P W K U IA IB A B MA MB \<longleftrightarrow>
     side_ok P U IB A \<and> side_ok P U IA B \<and> flow P W K IA IB A B U MB \<and> flow P W K IB IA B A U MA \<and>
     (leads P K A B \<or> leads P K B A)"

lemma pair_ok_sym: "pair_ok P W K U IA IB A B MA MB \<Longrightarrow> pair_ok P W K U IB IA B A MB MA"
  by (auto simp: pair_ok_def)

lemma leads_distinct:
  assumes "leads P K A B \<or> leads P K B A"
  shows "pubKey (eph_of A) \<noteq> pubKey (eph_of B)" "lastRemoteEphemeralKey (currentRatchet A) \<noteq> pubKey (eph_of A)"
  using assms by (auto simp: leads_def Let_def)

section \<open>Speaking keeps the invariant\<close>

text \<open>The effect of a message on the side that speaks: its sending chain moves on by one.\<close>

definition spoken :: "prims \<Rightarrow> (bytes \<Rightarrow> bytes) \<Rightarrow> session_entry \<Rightarrow> chain \<Rightarrow> chain \<Rightarrow> session_entry \<Rightarrow> bool" where
  "spoken P K A c c' A' \<longleftrightarrow> getChain (pubKey (eph_of A)) A = Some c \<and> A' = putChain (pubKey (eph_of A)) c' A \<and>
     snd_ok P (K (pubKey (eph_of A))) c' \<and> ck_counter (chainKey c') = ck_counter (chainKey c) + 1"

lemma spoken_fields:
  assumes "spoken P K A c c' A'"
  shows "currentRatchet A' = currentRatchet A" "indexInfo A' = indexInfo A"
    "getChain x A' = (if x = pubKey (eph_of A) then Some c' else getChain x A)"
  using assms by (simp_all add: spoken_def getChain_put)

lemma flow_out:
  assumes "flow P W K IA IB A B U M" and sp: "spoken P K A c c' A'"
    and op: "opens P W (pubKey IA) IB (K (pubKey (eph_of A))) (pubKey (eph_of A)) (ck_counter (chainKey c) + 1)
       (previousCounter (currentRatchet A)) data buf"
    and U: "pubKey (eph_of A) \<in> U"
  shows "flow P W K IA IB A' B U (M @ [new_letter A data buf])"
proof -
  let ?a = "pubKey (eph_of A)" and ?l = "new_letter A data buf"
  note F = assms(1) [unfolded flow_def]
  have c: "getChain ?a A = Some c" "snd_ok P (K ?a) c'" "ck_counter (chainKey c') = ck_counter (chainKey c) + 1"
    using sp by (simp_all add: spoken_def)
  have cur: "current_ok P K A B M" and prev: "previous_ok P K A B M" using F by simp_all
  have snd_c: "snd_ok P (K ?a) c" using cur c(1) by (simp add: current_ok_def Let_def)
  have l: "lt_key ?l = ?a" "lt_counter ?l = ck_counter (chainKey c) + 1" "lt_prev ?l = previousCounter (currentRatchet A)"
    "lt_data ?l = data" "lt_buf ?l = buf"
    using c(1) by (simp_all add: new_letter_def)
  have bounds: "0 \<le> lt_counter ?l" "lt_counter ?l < 2000"
    using snd_c c(2,3) by (simp_all add: l snd_ok_def chain_from_def chain_wf_def)
  have rcv: "rcv_ok P (K ?a) d \<and> receivable d (lt_counter ?l)" if "getChain ?a B = Some d" for d
  proof -
    have d: "rcv_ok P (K ?a) d" "ck_key (chainKey d) \<noteq> None" "ck_counter (chainKey d) \<le> ck_counter (chainKey c)"
      using cur that c(1) by (auto simp: current_ok_def Let_def)
    then have "- 1 \<le> ck_counter (chainKey d)" by (simp add: rcv_ok_def chain_from_def chain_wf_def)
    with d show ?thesis using bounds by (simp add: receivable_def l)
  qed
  have "letter_ok P W K IA IB B U ?l" using op U bounds rcv by (simp add: letter_ok_def l)
  moreover have "(lt_key ?l, lt_counter ?l) \<notin> (\<lambda>l. (lt_key l, lt_counter l)) ` set M"
    using cur c(1) by (force simp: current_ok_def Let_def l)
  moreover have "current_ok P K A' B (M @ [?l])"
    using cur c l by (auto simp: current_ok_def Let_def spoken_fields [OF sp])
  moreover have "previous_ok P K A' B (M @ [?l])"
    using prev by (auto simp: previous_ok_def Let_def spoken_fields [OF sp] l)
  ultimately show ?thesis using F by (auto simp: flow_def spoken_fields [OF sp])
qed

text \<open>What travels to the side that speaks is not affected.\<close>

lemma flow_back:
  assumes "flow P W K IB IA B A U M" and sp: "spoken P K A c c' A'" and c: "snd_ok P k c"
    and ne: "pubKey (eph_of A) \<noteq> pubKey (eph_of B)" "lastRemoteEphemeralKey (currentRatchet A) \<noteq> pubKey (eph_of A)"
  shows "flow P W K IB IA B A' U M"
proof -
  note F = assms(1) [unfolded flow_def]
  have "getChain (pubKey (eph_of A)) A = Some c" "\<not> rcv_ok P k' c" for k'
    using sp c by (simp_all add: spoken_def snd_ok_def rcv_ok_def)
  then have "letter_ok P W K IB IA A' U l" if "letter_ok P W K IB IA A U l" for l
    using that by (auto simp: letter_ok_def spoken_fields [OF sp])
  moreover have "current_ok P K B A' M" "previous_ok P K B A' M"
    using F ne by (auto simp: current_ok_def previous_ok_def Let_def spoken_fields [OF sp])
  ultimately show ?thesis using F by (simp add: flow_def)
qed

lemma leads_spoken:
  assumes "leads P K A B \<or> leads P K B A" and sp: "spoken P K A c c' A'"
  shows "leads P K A' B \<or> leads P K B A'"
proof -
  have "getChain (pubKey (eph_of A)) A = Some c" "ck_counter (chainKey c') = ck_counter (chainKey c) + 1" "- 1 \<le> ck_counter (chainKey c')"
    using sp by (simp_all add: spoken_def snd_ok_def chain_from_def chain_wf_def)
  with assms(1) show ?thesis
    by (auto simp: leads_def Let_def spoken_fields [OF sp])
qed

lemma pair_say:
  assumes P: "prims_ok P" "wire_ok W" and pair: "pair_ok P W K U IA IB A B MA MB"
    and ids: "is_key_pair P IA" "is_key_pair P IB"
    and c: "getChain (pubKey (eph_of A)) A = Some c" "ck_counter (chainKey c) < 1999" and data: "length data < 2 ^ 31"
  obtains buf A' where "encryptMessage P W IA data A = Inr (buf, A')"
    "pair_ok P W K U IA IB A' B MA (MB @ [new_letter A data buf])" "eph_of A' = eph_of A"
    "\<exists>c'. getChain (pubKey (eph_of A)) A' = Some c' \<and> ck_counter (chainKey c') = ck_counter (chainKey c) + 1"
    "wire_sizes W \<longrightarrow> length buf < 2 ^ 32" "buf \<noteq> []"
proof -
  have hm: "hmac_ok P" and dh: "dh_ok P" using P(1) by (simp_all add: prims_okD)
  let ?a = "pubKey (eph_of A)"
  note D = pair [unfolded pair_ok_def]
  have A: "entry_ok A" "is_key_pair P (eph_of A)" "?a \<in> U" "remoteIdentityKey (indexInfo A) = pubKey IB"
    "\<And>x. getChain x A \<noteq> None \<Longrightarrow> x \<in> U"
    using D by (simp_all add: side_ok_def)
  have flowAB: "flow P W K IA IB A B U MB" and flowBA: "flow P W K IB IA B A U MA" and led: "leads P K A B \<or> leads P K B A"
    using D by simp_all
  note ne = leads_distinct [OF led]
  have "current_ok P K A B MB" and prev: "0 \<le> previousCounter (currentRatchet A)" "previousCounter (currentRatchet A) < 2000"
    using flowAB by (simp_all add: flow_def)
  then have snd_c: "snd_ok P (K ?a) c" using c(1) by (simp add: current_ok_def Let_def)
  have len: "length (pubKey IA) = 33" "length (pubKey IB) = 33" "length ?a = 33"
    using is_key_pair_lengths [OF dh] ids A(2) by blast+
  obtain buf c' where enc: "encryptMessage P W IA data A = Inr (buf, putChain ?a c' A)" and c': "snd_ok P (K ?a) c'"
    "ck_counter (chainKey c') = ck_counter (chainKey c) + 1"
    and op: "opens P W (pubKey IA) IB (K ?a) ?a (ck_counter (chainKey c) + 1) (previousCounter (currentRatchet A)) data buf"
    and size: "wire_sizes W \<longrightarrow> length buf < 2 ^ 32" "buf \<noteq> []"
    by (rule say_chain [OF P c(1) snd_c c(2) A(4) len(1,2) prev len(3) data])
  have sp: "spoken P K A c c' (putChain ?a c' A)" using c(1) c' by (simp add: spoken_def)
  have "side_ok P U IB (putChain ?a c' A)"
    using A encryptMessage_ok(1) [OF hm A(1) enc] by (auto simp: side_ok_def getChain_put)
  then have "pair_ok P W K U IA IB (putChain ?a c' A) B MA (MB @ [new_letter A data buf])"
    using D flow_out [OF flowAB sp op A(3)] flow_back [OF flowBA sp snd_c ne] leads_spoken [OF led sp]
    by (simp add: pair_ok_def)
  with enc show thesis by (rule that) (use size in \<open>simp_all add: c'(2) getChain_put\<close>)
qed

section \<open>Hearing keeps the invariant\<close>

lemma remove_nth_set:
  assumes "i < length M" "distinct (map h M)"
  shows "set (remove_nth i M) \<subseteq> set M" "l \<in> set (remove_nth i M) \<Longrightarrow> h l \<noteq> h (M ! i)" "distinct (map h (remove_nth i M))"
proof -
  have "M = take i M @ M ! i # drop (Suc i) M" by (rule id_take_nth_drop [OF assms(1)])
  then have M: "set M = insert (M ! i) (set (remove_nth i M))" "distinct (map h (take i M @ M ! i # drop (Suc i) M))"
    using assms(2) by (metis remove_nth_def list.simps(15) set_append Un_insert_right, simp)
  show "set (remove_nth i M) \<subseteq> set M" using M(1) by blast
  have "h (M ! i) \<notin> h ` set (remove_nth i M)" "distinct (map h (remove_nth i M))"
    using M(2) by (auto simp: remove_nth_def)
  then show "l \<in> set (remove_nth i M) \<Longrightarrow> h l \<noteq> h (M ! i)" "distinct (map h (remove_nth i M))"
    by (metis image_eqI, simp)
qed

text \<open>The key of a letter is taken from its chain.\<close>

lemma flow_take:
  assumes hm: "hmac_ok P" and fl: "flow P W K IA IB A B U M" and i: "i < length M"
    and c: "getChain (lt_key (M ! i)) B = Some c" "fillMessageKeys P c (lt_counter (M ! i)) = Inr f"
  shows "flow P W K IA IB A ((putChain (lt_key (M ! i)) (without (lt_counter (M ! i)) f) B)\<lparr>pendingPreKey := p\<rparr>) U (remove_nth i M)"
proof -
  let ?x = "lt_key (M ! i)" and ?n = "lt_counter (M ! i)"
  let ?B = "(putChain ?x (without ?n f) B)\<lparr>pendingPreKey := p\<rparr>"
  have get: "getChain y ?B = (if y = ?x then Some (without ?n f) else getChain y B)" for y by (simp add: getChain_put)
  have F: "0 \<le> previousCounter (currentRatchet A)" "previousCounter (currentRatchet A) < 2000" "\<And>l. l \<in> set M \<Longrightarrow> letter_ok P W K IA IB B U l"
    "distinct (map (\<lambda>l. (lt_key l, lt_counter l)) M)" "current_ok P K A B M" "previous_ok P K A B M"
    using fl by (simp_all add: flow_def)
  note rest = remove_nth_set [OF i F(4)]
  have l: "letter_ok P W K IA IB B U (M ! i)" using F(3) i by simp
  then have n: "0 \<le> ?n" "?n < 2000" "rcv_ok P (K ?x) c" using c(1) by (simp_all add: letter_ok_def)
  note f = rcv_fill [OF hm n(3,2) c(2)]
  have "letter_ok P W K IA IB ?B U l'" if l': "l' \<in> set (remove_nth i M)" for l'
  proof -
    have ok: "letter_ok P W K IA IB B U l'" using F(3) rest(1) l' by blast
    moreover have "rcv_ok P (K ?x) (without ?n f) \<and> receivable (without ?n f) (lt_counter l')" if "lt_key l' = ?x"
    proof -
      have "lt_counter l' \<noteq> ?n" using rest(2) [OF l'] that by simp
      moreover have "0 \<le> lt_counter l'" "receivable c (lt_counter l')" using ok c(1) that by (simp_all add: letter_ok_def)
      ultimately show ?thesis using rcv_without [OF f(1)] receivable_without [OF f(3)] n(1) by simp
    qed
    ultimately show ?thesis by (auto simp: letter_ok_def getChain_put split: if_splits)
  qed
  moreover have "current_ok P K A ?B (remove_nth i M)"
  proof (cases "?x = pubKey (eph_of A)")
    case True
    have "lt_key (M ! i) = pubKey (eph_of A) \<longrightarrow> (\<exists>cS. getChain (pubKey (eph_of A)) A = Some cS \<and> ?n \<le> ck_counter (chainKey cS))"
      using F(5) i by (simp add: current_ok_def Let_def)
    then obtain cS where cS: "getChain (pubKey (eph_of A)) A = Some cS" "?n \<le> ck_counter (chainKey cS)" using True by blast
    then have "ck_counter (chainKey c) \<le> ck_counter (chainKey cS)" "ck_key (chainKey c) \<noteq> None"
      using F(5) c(1) True by (auto simp: current_ok_def Let_def)
    with cS F(5) rest(1) f(2,4) rcv_without [OF f(1)] True show ?thesis
      unfolding current_ok_def Let_def get by auto
  next
    case False
    with F(5) rest(1) show ?thesis unfolding current_ok_def Let_def get by auto
  qed
  moreover have "previous_ok P K A ?B (remove_nth i M)"
    using F(6) c(1) rest(1) f(2,4) rcv_without [OF f(1)] unfolding previous_ok_def Let_def get by (auto simp: max_def)
  ultimately show ?thesis using F rest(3) by (simp add: flow_def)
qed

lemma flow_mono: "flow P W K IA IB A B U M \<Longrightarrow> U \<subseteq> V \<Longrightarrow> flow P W K IA IB A B V M"
  by (auto simp: flow_def letter_ok_def)

lemma pair_mono: "pair_ok P W K U IA IB A B MA MB \<Longrightarrow> U \<subseteq> V \<Longrightarrow> pair_ok P W K V IA IB A B MA MB"
  using flow_mono unfolding pair_ok_def side_ok_def by blast

text \<open>What a side sends depends on its ratchet and on its sending chain only.\<close>

lemma flow_sender:
  assumes "flow P W K IB IA B A U M" "currentRatchet B' = currentRatchet B"
    "getChain (pubKey (eph_of B)) B' = getChain (pubKey (eph_of B)) B"
  shows "flow P W K IB IA B' A U M"
  using assms by (simp add: flow_def current_ok_def previous_ok_def)

lemma pair_take:
  assumes hm: "hmac_ok P" and pair: "pair_ok P W K U IA IB A B1 MA MB" and i: "i < length MB"
    and chain: "getChain (lt_key (MB ! i)) B1 \<noteq> None"
    and step: "maybeStepRatchet P g B (lt_key (MB ! i)) (lt_prev (MB ! i)) = Inr B1" and B: "entry_ok B"
  obtains B' where "doDecryptWhisperMessage P W (Inr IB) g (lt_buf (MB ! i)) B = Inr (lt_data (MB ! i), B')"
    "pair_ok P W K U IA IB A B' MA (remove_nth i MB)"
proof -
  let ?x = "lt_key (MB ! i)" and ?n = "lt_counter (MB ! i)" and ?b = "pubKey (eph_of B1)"
  note D = pair [unfolded pair_ok_def]
  have flAB: "flow P W K IA IB A B1 U MB" and flBA: "flow P W K IB IA B1 A U MA" and side: "side_ok P U IA B1" using D by simp_all
  obtain c where c: "getChain ?x B1 = Some c" using chain by auto
  have "letter_ok P W K IA IB B1 U (MB ! i)" using flAB i by (simp add: flow_def)
  then have l: "?n < 2000" "opens P W (pubKey IA) IB (K ?x) ?x ?n (lt_prev (MB ! i)) (lt_data (MB ! i)) (lt_buf (MB ! i))"
    "rcv_ok P (K ?x) c" "receivable c ?n"
    using c by (simp_all add: letter_ok_def)
  have id: "remoteIdentityKey (indexInfo B1) = pubKey IA" using side by (simp add: side_ok_def)
  obtain f where f: "fillMessageKeys P c ?n = Inr f"
    and dec: "doDecryptWhisperMessage P W (Inr IB) g (lt_buf (MB ! i)) B =
      Inr (lt_data (MB ! i), (putChain ?x (without ?n f) B1)\<lparr>pendingPreKey := None\<rparr>)"
    by (rule hear_chain [OF hm l(2) step c l(3,4,1) id])
  let ?B' = "(putChain ?x (without ?n f) B1)\<lparr>pendingPreKey := None\<rparr>"
  have "snd_ok P (K ?b) d" if "getChain ?b B1 = Some d" for d
    using flBA that by (simp add: flow_def current_ok_def Let_def)
  then have ne: "?x \<noteq> ?b" using c l(3) by (auto simp: snd_ok_def rcv_ok_def)
  have get: "getChain y ?B' = (if y = ?x then Some (without ?n f) else getChain y B1)" for y by (simp add: getChain_put)
  have cur: "currentRatchet ?B' = currentRatchet B1" "indexInfo ?B' = indexInfo B1" by simp_all
  have none: "(getChain y ?B' = None) = (getChain y B1 = None)" for y using c by (simp add: getChain_put)
  have "side_ok P U IA ?B'"
    using side doDecrypt_ok(1) [OF hm B dec] unfolding side_ok_def none cur by blast
  moreover have "flow P W K IA IB A ?B' U (remove_nth i MB)" by (rule flow_take [OF hm flAB i c f])
  moreover have "flow P W K IB IA ?B' A U MA"
    by (rule flow_sender [OF flBA]) (use ne in \<open>simp_all add: getChain_put\<close>)
  moreover have "leads P K A ?B' \<or> leads P K ?B' A"
  proof -
    have "getChain ?b ?B' = getChain ?b B1" using ne by (simp add: getChain_put)
    with D show ?thesis unfolding leads_def Let_def cur none by simp
  qed
  ultimately have "pair_ok P W K U IA IB A ?B' MA (remove_nth i MB)" using D by (simp add: pair_ok_def)
  with dec show thesis by (rule that)
qed

lemma new_chain_ends:
  assumes "k \<noteq> []"
  shows "rcv_ok P k (new_chain k RECEIVING)" "snd_ok P k (new_chain k SENDING)" "n < 2000 \<Longrightarrow> 0 \<le> n \<Longrightarrow> receivable (new_chain k t) n"
  using assms new_chain_from [of k P] by (simp_all add: rcv_ok_def snd_ok_def receivable_def new_chain_def)

text \<open>Letters survive the ratchet step of their receiver.\<close>

lemma letter_step:
  assumes hm: "hmac_ok P" and st: "stepped P B x pc g (K x) rk B1" and l: "letter_ok P W K IA IB B U l"
    and K: "K x \<noteq> []" "pc < 2000" "pubKey g \<notin> U"
    and last: "lt_key l = lastRemoteEphemeralKey (currentRatchet B) \<Longrightarrow> lt_key l \<noteq> x \<Longrightarrow> lt_counter l \<le> pc"
  shows "letter_ok P W (K(pubKey g := k2)) IA IB B1 (insert (pubKey g) U) l"
proof -
  let ?y = "lt_key l"
  have y: "?y \<noteq> pubKey g" "0 \<le> lt_counter l" "lt_counter l < 2000" using l K(3) by (auto simp: letter_ok_def)
  have "rcv_ok P (K ?y) c \<and> receivable c (lt_counter l)" if c: "getChain ?y B1 = Some c" for c
  proof (cases "?y = x")
    case True
    then have "c = new_chain (K x) RECEIVING" using st c by (simp add: stepped_def)
    then show ?thesis using new_chain_ends [OF K(1)] y True by simp
  next
    case other: False
    show ?thesis
    proof (cases "?y = lastRemoteEphemeralKey (currentRatchet B)")
      case True
      then obtain c0 f where c0: "getChain ?y B = Some c0" "fillMessageKeys P c0 pc = Inr f" "c = closed f"
        using stepped_other(1) [OF st c other y(1) True] by blast
      then have r: "rcv_ok P (K ?y) c0" "receivable c0 (lt_counter l)" using l by (simp_all add: letter_ok_def)
      note f = rcv_fill [OF hm r(1) K(2) c0(2)]
      have "lt_counter l \<le> ck_counter (chainKey f)" using last [OF True other] f(2) by simp
      then show ?thesis using rcv_closed [OF f(1)] receivable_closed f(3) r(2) c0(3) by blast
    next
      case False
      then have "getChain ?y B = Some c" by (rule stepped_other(2) [OF st c other y(1)])
      then show ?thesis using l by (simp add: letter_ok_def)
    qed
  qed
  with l y(1) show ?thesis by (auto simp: letter_ok_def)
qed

lemma pair_step:
  assumes P: "prims_ok P" and pair: "pair_ok P W K U IA IB A B MA MB"
    and l: "l \<in> set MB" "lt_key l = pubKey (eph_of A)" and none: "getChain (pubKey (eph_of A)) B = None"
    and g: "is_key_pair P g" "pubKey g \<notin> U"
  obtains K' B1 where "maybeStepRatchet P g B (lt_key l) (lt_prev l) = Inr B1" "getChain (lt_key l) B1 \<noteq> None"
    "pair_ok P W K' (insert (pubKey g) U) IA IB A B1 MA MB"
proof -
  have hm: "hmac_ok P" and dh: "dh_ok P" using P by (simp_all add: prims_okD)
  let ?a = "pubKey (eph_of A)" and ?b = "pubKey (eph_of B)" and ?pc = "previousCounter (currentRatchet A)"
  note D = pair [unfolded pair_ok_def]
  have sA: "side_ok P U IB A" and sB: "side_ok P U IA B" using D by simp_all
  have flA: "0 \<le> ?pc" "?pc < 2000" "\<And>l. l \<in> set MB \<Longrightarrow> letter_ok P W K IA IB B U l"
    "distinct (map (\<lambda>l. (lt_key l, lt_counter l)) MB)" and curA: "current_ok P K A B MB" and prevA: "previous_ok P K A B MB"
    using D by (simp_all add: flow_def)
  have flB: "flow P W K IB IA B A U MA" using D by simp
  have "lt_prev l = ?pc \<and> (\<exists>cS. getChain ?a A = Some cS \<and> lt_counter l \<le> ck_counter (chainKey cS))"
    using curA l by (simp add: current_ok_def Let_def)
  then obtain cS where cS: "getChain ?a A = Some cS" "lt_counter l \<le> ck_counter (chainKey cS)" and pc: "lt_prev l = ?pc" by blast
  have led: "leads P K A B" using D cS(1) none by (auto simp: leads_def Let_def)
  have L: "length (rootKey (currentRatchet B)) = 32" "lastRemoteEphemeralKey (currentRatchet A) = ?b"
    "lastRemoteEphemeralKey (currentRatchet B) \<noteq> ?b" "?a \<noteq> ?b"
    "kdf_rk P (rootKey (currentRatchet B)) (dh P (eph_of B) (eph_of A)) = (rootKey (currentRatchet A), K ?a)"
    using led by (simp_all add: leads_def Let_def)
  have K: "K ?a \<noteq> []" "length (rootKey (currentRatchet A)) = 32"
    using kdf_rk_length [OF hm, of "rootKey (currentRatchet B)" "dh P (eph_of B) (eph_of A)"] L(5) by auto
  have kp: "is_key_pair P (eph_of A)" "is_key_pair P (eph_of B)" and U: "?a \<in> U" "?b \<in> U" and ok: "entry_ok B"
    using sA sB by (simp_all add: side_ok_def)
  have new: "pubKey g \<noteq> ?a" "pubKey g \<noteq> ?b" "getChain (pubKey g) A = None" "getChain (pubKey g) B = None"
    using U g(2) sA sB by (auto simp: side_ok_def)
  obtain root2 k2 where rk2: "kdf_rk P (rootKey (currentRatchet A)) (dh P g (eph_of A)) = (root2, k2)" by fastforce
  have k2: "k2 \<noteq> []" using kdf_rk_length(2) [OF hm, of "rootKey (currentRatchet A)" "dh P g (eph_of A)"] rk2 by auto
  have closes: "(\<exists>f. fillMessageKeys P c ?pc = Inr f) \<and> lastRemoteEphemeralKey (currentRatchet B) \<noteq> ?b"
    if c: "getChain (lastRemoteEphemeralKey (currentRatchet B)) B = Some c" for c
  proof -
    have z: "lastRemoteEphemeralKey (currentRatchet B) \<noteq> ?a" using c none by auto
    then have r: "chain_from P (K (lastRemoteEphemeralKey (currentRatchet B))) c" "ck_key (chainKey c) \<noteq> None \<or> ?pc \<le> ck_counter (chainKey c)"
      using prevA c by (auto simp: previous_ok_def Let_def rcv_ok_def)
    then have "- 1 \<le> ck_counter (chainKey c)" by (simp add: chain_from_def chain_wf_def)
    then have "\<exists>f. fillMessageKeys P c ?pc = Inr f"
      using r(2) fill_done [of ?pc c P] fill_new_key [OF hm r(1), of _ ?pc] flA(2) by (cases "?pc \<le> ck_counter (chainKey c)") fastforce+
    then show ?thesis using L(3) by blast
  qed
  obtain B1 where step: "maybeStepRatchet P g B ?a ?pc = Inr B1" and st: "stepped P B ?a ?pc g (K ?a) (root2, k2) B1"
    using step_established [OF hm dh ok L(1) kp(2,1) g(1) L(5) none new(4) L(4) new(1,2) closes] rk2 by auto
  let ?K = "K(pubKey g := k2)" and ?U = "insert (pubKey g) U"
  have rB1: "currentRatchet B1 = \<lparr>ephemeralKeyPair = g, lastRemoteEphemeralKey = ?a,
      previousCounter = (case getChain ?b B of None \<Rightarrow> previousCounter (currentRatchet B) | Some c \<Rightarrow> ck_counter (chainKey c)),
      rootKey = root2\<rparr>"
    and cB1: "entry_ok B1" "indexInfo B1 = indexInfo B" "getChain ?a B1 = Some (new_chain (K ?a) RECEIVING)"
      "getChain (pubKey g) B1 = Some (new_chain k2 SENDING)"
    using st by (simp_all add: stepped_def)
  have fAB1: "flow P W ?K IA IB A B1 ?U MB"
  proof -
    have "letter_ok P W ?K IA IB B1 ?U l'" if "l' \<in> set MB" for l'
      by (rule letter_step [OF hm st flA(3) [OF that] K(1) flA(2) g(2)])
        (use prevA that in \<open>simp add: previous_ok_def Let_def\<close>)
    moreover have "current_ok P ?K A B1 MB"
      using curA cS new(1) new_chain_ends(1) [OF K(1)]
      by (auto simp: current_ok_def Let_def cB1 new_chain_ok snd_ok_def chain_from_def chain_wf_def)
    moreover have "previous_ok P ?K A B1 MB" by (simp add: previous_ok_def rB1)
    ultimately show ?thesis using flA by (simp add: flow_def)
  qed
  have curB: "current_ok P K B A MA" using flB by (simp add: flow_def)
  have prevB1: "0 \<le> previousCounter (currentRatchet B1)" "previousCounter (currentRatchet B1) < 2000"
  proof -
    have "0 \<le> ck_counter (chainKey c) \<and> ck_counter (chainKey c) < 2000" if "getChain ?b B = Some c" for c
      using led curB that by (auto simp: leads_def current_ok_def Let_def snd_ok_def)
    then show "0 \<le> previousCounter (currentRatchet B1)" "previousCounter (currentRatchet B1) < 2000"
      using flB by (auto simp: rB1 flow_def split: option.split)
  qed
  have fB1A: "flow P W ?K IB IA B1 A ?U MA"
  proof -
    have old: "letter_ok P W K IB IA A U l'" if "l' \<in> set MA" for l' using flB that by (simp add: flow_def)
    then have "letter_ok P W ?K IB IA A ?U l'" "lt_key l' \<noteq> pubKey g" if "l' \<in> set MA" for l'
      using that g(2) by (fastforce simp: letter_ok_def)+
    moreover have "current_ok P ?K B1 A MA"
      using calculation(2) new(3) new_chain_ends(2) [OF k2] by (auto simp: current_ok_def Let_def rB1 cB1)
    moreover have "previous_ok P ?K B1 A MA"
      using curB new(2) by (fastforce simp: previous_ok_def current_ok_def Let_def rB1 L(2))
    ultimately show ?thesis using flB prevB1 by (simp add: flow_def)
  qed
  have keys: "getChain y B1 \<noteq> None \<Longrightarrow> y \<in> ?U" for y
    using stepped_other [OF st, of y] U(1) sB by (cases "getChain y B1"; cases "y = ?a \<or> y = pubKey g") (auto simp: side_ok_def)
  have sides: "side_ok P ?U IB A" "side_ok P ?U IA B1"
    using sA sB keys g(1) by (auto simp: side_ok_def rB1 cB1)
  have "0 \<le> ck_counter (chainKey cS)" using flA(3) [OF l(1)] cS(2) by (simp add: letter_ok_def)
  then have "leads P ?K B1 A"
    using K(2) L(2,4) new(1,3) rk2 cS(1) dh_agree(2) [OF dh kp(1) g(1)] by (simp add: leads_def Let_def rB1 cB1)
  then have "pair_ok P W ?K ?U IA IB A B1 MA MB" using sides fAB1 fB1A by (simp add: pair_ok_def)
  then show thesis using that [of B1 ?K] step cB1(3) by (simp add: l(2) pc)
qed

section \<open>All runs of a talk\<close>

definition talk_ok :: "prims \<Rightarrow> wire \<Rightarrow> (bool \<Rightarrow> key_pair) \<Rightarrow> talk \<Rightarrow> bool" where
  "talk_ok P W ids T \<longleftrightarrow> (\<exists>K. pair_ok P W K (set (tk_used T)) (ids True) (ids False)
     (tk_session T True) (tk_session T False) (tk_mail T True) (tk_mail T False))"

lemma talk_ok_side:
  "talk_ok P W ids T \<longleftrightarrow> (\<exists>K. pair_ok P W K (set (tk_used T)) (ids s) (ids (\<not> s))
     (tk_session T s) (tk_session T (\<not> s)) (tk_mail T s) (tk_mail T (\<not> s)))"
  unfolding talk_ok_def by (cases s) (auto dest: pair_ok_sym)

lemma talk_speaks:
  assumes P: "prims_ok P" "wire_ok W" and ok: "talk_ok P W ids T" and ids: "\<And>s. is_key_pair P (ids s)"
    and may: "may_say s data T" "getChain (pubKey (eph_of (tk_session T s))) (tk_session T s) = Some c"
  obtains buf e where "encryptMessage P W (ids s) data (tk_session T s) = Inr (buf, e)"
    "talk_ok P W ids (T\<lparr>tk_session := (tk_session T)(s := e),
      tk_mail := (tk_mail T)(\<not> s := tk_mail T (\<not> s) @ [new_letter (tk_session T s) data buf])\<rparr>)"
    "eph_of e = eph_of (tk_session T s)"
    "\<exists>c'. getChain (pubKey (eph_of e)) e = Some c' \<and> ck_counter (chainKey c') = ck_counter (chainKey c) + 1"
    "wire_sizes W \<longrightarrow> length buf < 2 ^ 32" "buf \<noteq> []"
proof -
  obtain K where K: "pair_ok P W K (set (tk_used T)) (ids s) (ids (\<not> s)) (tk_session T s) (tk_session T (\<not> s)) (tk_mail T s) (tk_mail T (\<not> s))"
    using ok talk_ok_side by blast
  have c: "ck_counter (chainKey c) < 1999" "length data < 2 ^ 31" using may by (simp_all add: may_say_def)
  obtain buf e where e: "encryptMessage P W (ids s) data (tk_session T s) = Inr (buf, e)"
    "pair_ok P W K (set (tk_used T)) (ids s) (ids (\<not> s)) e (tk_session T (\<not> s)) (tk_mail T s) (tk_mail T (\<not> s) @ [new_letter (tk_session T s) data buf])"
    "eph_of e = eph_of (tk_session T s)"
    "\<exists>c'. getChain (pubKey (eph_of (tk_session T s))) e = Some c' \<and> ck_counter (chainKey c') = ck_counter (chainKey c) + 1"
    "wire_sizes W \<longrightarrow> length buf < 2 ^ 32" "buf \<noteq> []"
    by (rule pair_say [OF P K ids ids may(2) c])
  show thesis
    by (rule that [of buf e]) (use e in \<open>auto simp: talk_ok_side [where s = s]\<close>)
qed

lemma talk_says:
  assumes "prims_ok P" "wire_ok W" "talk_ok P W ids T" "\<And>s. is_key_pair P (ids s)"
    "may_say s data T" "getChain (pubKey (eph_of (tk_session T s))) (tk_session T s) = Some c"
  obtains buf e where "say P W ids s data T = Inr (T\<lparr>tk_session := (tk_session T)(s := e),
      tk_mail := (tk_mail T)(\<not> s := tk_mail T (\<not> s) @ [new_letter (tk_session T s) data buf])\<rparr>)"
    "talk_ok P W ids (T\<lparr>tk_session := (tk_session T)(s := e),
      tk_mail := (tk_mail T)(\<not> s := tk_mail T (\<not> s) @ [new_letter (tk_session T s) data buf])\<rparr>)"
    "eph_of e = eph_of (tk_session T s)"
    "\<exists>c'. getChain (pubKey (eph_of e)) e = Some c' \<and> ck_counter (chainKey c') = ck_counter (chainKey c) + 1"
proof -
  from talk_speaks [OF assms] obtain buf e where e: "encryptMessage P W (ids s) data (tk_session T s) = Inr (buf, e)"
    "talk_ok P W ids (T\<lparr>tk_session := (tk_session T)(s := e),
      tk_mail := (tk_mail T)(\<not> s := tk_mail T (\<not> s) @ [new_letter (tk_session T s) data buf])\<rparr>)"
    "eph_of e = eph_of (tk_session T s)"
    "\<exists>c'. getChain (pubKey (eph_of e)) e = Some c' \<and> ck_counter (chainKey c') = ck_counter (chainKey c) + 1" by metis
  then show thesis by (intro that [of buf e]) (simp_all add: say_def)
qed

lemma talk_opens:
  assumes P: "prims_ok P" "wire_ok W" and ok: "talk_ok P W ids T" and may: "may_hear P s i g T"
  obtains e where "doDecryptWhisperMessage P W (Inr (ids s)) g (lt_buf (tk_mail T s ! i)) (tk_session T s) = Inr (lt_data (tk_mail T s ! i), e)"
    "talk_ok P W ids (T\<lparr>tk_session := (tk_session T)(s := e),
      tk_mail := (tk_mail T)(s := remove_nth i (tk_mail T s)), tk_used := pubKey g # tk_used T\<rparr>)"
proof -
  let ?A = "tk_session T (\<not> s)" and ?B = "tk_session T s" and ?l = "tk_mail T s ! i" and ?U = "insert (pubKey g) (set (tk_used T))"
  have hm: "hmac_ok P" using P(1) by (simp add: prims_okD)
  obtain K where K: "pair_ok P W K (set (tk_used T)) (ids (\<not> s)) (ids s) ?A ?B (tk_mail T (\<not> s)) (tk_mail T s)"
    using ok talk_ok_side [of P W ids T "\<not> s"] by auto
  then have B: "entry_ok ?B" by (simp add: pair_ok_def side_ok_def)
  have i: "i < length (tk_mail T s)" and g: "is_key_pair P g" "pubKey g \<notin> set (tk_used T)" using may by (simp_all add: may_hear_def)
  obtain K1 B1 where B1: "maybeStepRatchet P g ?B (lt_key ?l) (lt_prev ?l) = Inr B1" "getChain (lt_key ?l) B1 \<noteq> None"
    "pair_ok P W K1 ?U (ids (\<not> s)) (ids s) ?A B1 (tk_mail T (\<not> s)) (tk_mail T s)"
  proof (cases "getChain (lt_key ?l) ?B")
    case None
    then have "lt_key ?l = pubKey (eph_of ?A)" using may by (simp add: may_hear_def)
    with None that pair_step [OF P(1) K nth_mem [OF i] _ _ g] show thesis by metis
  next
    case (Some c)
    then show thesis using that [of ?B K] pair_mono [OF K, of ?U] by (auto simp: maybeStepRatchet_def)
  qed
  obtain e where "doDecryptWhisperMessage P W (Inr (ids s)) g (lt_buf ?l) ?B = Inr (lt_data ?l, e)"
    "pair_ok P W K1 ?U (ids (\<not> s)) (ids s) ?A e (tk_mail T (\<not> s)) (remove_nth i (tk_mail T s))"
    by (rule pair_take [OF hm B1(3) i B1(2,1) B])
  then show thesis
    by (intro that [of e]) (auto simp: talk_ok_side [where s = "\<not> s"])
qed

lemma talk_hears:
  assumes "prims_ok P" "wire_ok W" "talk_ok P W ids T" "may_hear P s i g T"
  obtains e where "hear P W ids s i g T = Inr (lt_data (tk_mail T s ! i), T\<lparr>tk_session := (tk_session T)(s := e),
      tk_mail := (tk_mail T)(s := remove_nth i (tk_mail T s)), tk_used := pubKey g # tk_used T\<rparr>)"
    "talk_ok P W ids (T\<lparr>tk_session := (tk_session T)(s := e),
      tk_mail := (tk_mail T)(s := remove_nth i (tk_mail T s)), tk_used := pubKey g # tk_used T\<rparr>)"
  by (rule talk_opens [OF assms], rule that) (simp_all add: hear_def)

text \<open>The same with the next state named.\<close>

lemma said_state:
  assumes "prims_ok P" "wire_ok W" "talk_ok P W ids T" "\<And>s. is_key_pair P (ids s)"
    "may_say s data T" "getChain (pubKey (eph_of (tk_session T s))) (tk_session T s) = Some c"
  obtains T' buf c' where "say P W ids s data T = Inr T'" "talk_ok P W ids T'"
    "tk_mail T' (\<not> s) = tk_mail T (\<not> s) @ [new_letter (tk_session T s) data buf]" "tk_used T' = tk_used T"
    "eph_of (tk_session T' s) = eph_of (tk_session T s)"
    "getChain (pubKey (eph_of (tk_session T' s))) (tk_session T' s) = Some c'" "ck_counter (chainKey c') = ck_counter (chainKey c) + 1"
proof -
  obtain buf e where e: "say P W ids s data T = Inr (T\<lparr>tk_session := (tk_session T)(s := e),
      tk_mail := (tk_mail T)(\<not> s := tk_mail T (\<not> s) @ [new_letter (tk_session T s) data buf])\<rparr>)"
    "talk_ok P W ids (T\<lparr>tk_session := (tk_session T)(s := e),
      tk_mail := (tk_mail T)(\<not> s := tk_mail T (\<not> s) @ [new_letter (tk_session T s) data buf])\<rparr>)"
    "eph_of e = eph_of (tk_session T s)"
    "\<exists>c'. getChain (pubKey (eph_of e)) e = Some c' \<and> ck_counter (chainKey c') = ck_counter (chainKey c) + 1"
    by (rule talk_says [OF assms])
  then show thesis using that [OF e(1,2)] by auto
qed

lemma may_say_total:
  assumes P: "prims_ok P" "wire_ok W" and ok: "talk_ok P W ids T" and ids: "\<And>s. is_key_pair P (ids s)" and may: "may_say s data T"
  shows "\<exists>T'. say P W ids s data T = Inr T'"
proof -
  obtain c where "getChain (pubKey (eph_of (tk_session T s))) (tk_session T s) = Some c"
    using may by (auto simp: may_say_def split: option.splits)
  from talk_says [OF P ok ids may this] show ?thesis by metis
qed

lemma talk_step_ok:
  assumes P: "prims_ok P" "wire_ok W" and ids: "\<And>s. is_key_pair P (ids s)" and step: "talk_step P W ids T T'" and ok: "talk_ok P W ids T"
  shows "talk_ok P W ids T'"
  using step
proof cases
  case (Say s data)
  then obtain c where "getChain (pubKey (eph_of (tk_session T s))) (tk_session T s) = Some c"
    by (auto simp: may_say_def split: option.splits)
  from talk_says [OF P ok ids Say(1) this] Say(2) show ?thesis by (metis sum.inject(2))
next
  case (Hear s i fresh plaintext)
  from talk_hears [OF P ok Hear(1)] Hear(2) show ?thesis by (metis prod.inject sum.inject(2))
qed

lemma talk_reachable_ok:
  assumes P: "prims_ok P" "wire_ok W" and ids: "\<And>s. is_key_pair P (ids s)"
    and "(talk_step P W ids)\<^sup>*\<^sup>* T T'" "talk_ok P W ids T"
  shows "talk_ok P W ids T'"
  using assms(4,5) by (induction rule: rtranclp_induct) (auto intro: talk_step_ok [OF P ids])

text \<open>After the key agreement the talk can begin.\<close>

lemma new_talk_ok:
  assumes hm: "hmac_ok P" and ah: "ahead P 0 {pubKey (eph_of A), pubKey (eph_of B)} IA IB A B" and empty: "chains B = []"
  shows "talk_ok P W (\<lambda>s. if s then IA else IB) (new_talk A B)"
    "\<exists>k. getChain (pubKey (eph_of A)) A = Some (new_chain k SENDING)"
proof -
  obtain k where k: "kdf_rk P (rootKey (currentRatchet B)) (dh P (eph_of B) (eph_of A)) = (rootKey (currentRatchet A), k)"
    "getChain (pubKey (eph_of A)) A = Some (new_chain k SENDING)"
    using ah by (auto simp: ahead_def Let_def)
  have "k \<noteq> []" using kdf_rk_length(2) [OF hm, of "rootKey (currentRatchet B)" "dh P (eph_of B) (eph_of A)"] k(1) by auto
  note ends = new_chain_ends(1,2) [OF this, where P = P]
  have none: "getChain x B = None" for x using empty by (simp add: getChain_def)
  have noneA: "getChain (pubKey (eph_of B)) A = None" using ah by (auto simp: ahead_def Let_def in_step_def none)
  have "pair_ok P W (\<lambda>_. k) {pubKey (eph_of A), pubKey (eph_of B)} IA IB A B [] []"
    using ah ends k none noneA
    by (auto simp: ahead_def Let_def pair_ok_def side_ok_def flow_def current_ok_def previous_ok_def leads_def)
  then show "talk_ok P W (\<lambda>s. if s then IA else IB) (new_talk A B)" by (auto simp: talk_ok_def new_talk_def)
  show "\<exists>k. getChain (pubKey (eph_of A)) A = Some (new_chain k SENDING)" using k(2) by blast
qed

lemma agreed_talk:
  assumes P: "prims_ok P"
    and kp: "is_key_pair P IA" "is_key_pair P E" "is_key_pair P F" "is_key_pair P IB" "is_key_pair P SB"
      "\<forall>x. OB = Some x \<longrightarrow> is_key_pair P x"
    and distinct: "pubKey F \<noteq> pubKey SB" "pubKey E \<noteq> pubKey SB"
  obtains sA sB where
    "initSession P t1 F IA True (Some E) None (pubKey IB) (map_option pubKey OB) (Some (pubKey SB)) r1 = Inr sA"
    "initSession P t2 F2 IB False OB (Some SB) (pubKey IA) (Some (pubKey E)) None r2 = Inr sB"
    "talk_ok P W (\<lambda>s. if s then IA else IB) (new_talk sA sB)" "tk_used (new_talk sA sB) = [pubKey F, pubKey SB]"
    "eph_of sA = F" "\<exists>k. getChain (pubKey F) sA = Some (new_chain k SENDING)"
proof -
  have hm: "hmac_ok P" using P by (simp add: prims_okD)
  obtain sA sB where start:
    "initSession P t1 F IA True (Some E) None (pubKey IB) (map_option pubKey OB) (Some (pubKey SB)) r1 = Inr sA"
    "initSession P t2 F2 IB False OB (Some SB) (pubKey IA) (Some (pubKey E)) None r2 = Inr sB"
    and ah: "ahead P 0 {pubKey F, pubKey SB} IA IB sA sB" and empty: "chains sB = []" and eph: "eph_of sA = F" "eph_of sB = SB"
    by (rule agreed_ahead [OF P kp distinct])
  have "ahead P 0 {pubKey (eph_of sA), pubKey (eph_of sB)} IA IB sA sB" using ah eph by simp
  from new_talk_ok [OF hm this empty] show thesis
    by (intro that [OF start]) (simp_all add: new_talk_def eph)
qed

end
