(* ===== verification/Contact_Properties.thy ===== *)
theory Contact_Properties
  imports Memory_System File_Interfaces Instances Mailbox
begin

text \<open>
  A whole conversation of two sessions from the key agreement on, with messages on the way and turn by
  turn, and first contact between two devices through their storages.
\<close>

section \<open>Messages on the way\<close>

text \<open>C2: The double ratchet delivers. From the X3DH agreement on, let both sides speak and hear in any order, with
  messages late, out of order or lost, and ratchet steps in both directions. Then in every state that can
  be reached, every message on the way that comes with the other side's current ratchet key, or whose
  receiving chain is still kept, is decrypted to what was said, and a side that has a sending chain with
  fewer than 2000 messages can speak.\<close>

theorem talk_delivered:
  assumes P: "prims_ok P" "wire_ok W"
    and kp: "is_key_pair P IA" "is_key_pair P E" "is_key_pair P F" "is_key_pair P IB" "is_key_pair P SB"
      "\<forall>x. OB = Some x \<longrightarrow> is_key_pair P x"
    and distinct: "pubKey F \<noteq> pubKey SB" "pubKey E \<noteq> pubKey SB"
    and ids: "ids = (\<lambda>s. if s then IA else IB)"
  shows "\<exists>sA sB.
    initSession P t1 F IA True (Some E) None (pubKey IB) (map_option pubKey OB) (Some (pubKey SB)) r1 = Inr sA \<and>
    initSession P t2 F2 IB False OB (Some SB) (pubKey IA) (Some (pubKey E)) None r2 = Inr sB \<and>
    (\<forall>T. (talk_step P W ids)\<^sup>*\<^sup>* (new_talk sA sB) T \<longrightarrow>
      (\<forall>s i g. may_hear P s i g T \<longrightarrow> (\<exists>T'. hear P W ids s i g T = Inr (lt_data (tk_mail T s ! i), T'))) \<and>
      (\<forall>s data. may_say s data T \<longrightarrow> (\<exists>T'. say P W ids s data T = Inr T')))"
proof -
  obtain sA sB where start:
    "initSession P t1 F IA True (Some E) None (pubKey IB) (map_option pubKey OB) (Some (pubKey SB)) r1 = Inr sA"
    "initSession P t2 F2 IB False OB (Some SB) (pubKey IA) (Some (pubKey E)) None r2 = Inr sB"
    "talk_ok P W ids (new_talk sA sB)"
    using agreed_talk [OF P(1) kp distinct, where W = W] unfolding ids by metis
  have kps: "is_key_pair P (ids s)" for s using kp(1,4) by (simp add: ids)
  have "(\<forall>s i g. may_hear P s i g T \<longrightarrow> (\<exists>T'. hear P W ids s i g T = Inr (lt_data (tk_mail T s ! i), T'))) \<and>
      (\<forall>s data. may_say s data T \<longrightarrow> (\<exists>T'. say P W ids s data T = Inr T'))"
    if reach: "(talk_step P W ids)\<^sup>*\<^sup>* (new_talk sA sB) T" for T
  proof -
    have ok: "talk_ok P W ids T" by (rule talk_reachable_ok [OF P kps reach start(3)])
    show ?thesis using talk_hears [OF P ok] may_say_total [OF P ok kps] by metis
  qed
  with start(1,2) show ?thesis by blast
qed

text \<open>Two messages that arrive in the other order.\<close>

theorem talk_delivered_witness:
  "\<exists>sA sB T1 T2 T3 T4. let ids = (\<lambda>s. if s then demo_key 1 else demo_key 4) in
    say demo_prims varint_wire ids True [1, 2] (new_talk sA sB) = Inr T1 \<and>
    say demo_prims varint_wire ids True [3] T1 = Inr T2 \<and>
    hear demo_prims varint_wire ids False 1 (demo_key 10) T2 = Inr ([3], T3) \<and>
    hear demo_prims varint_wire ids False 0 (demo_key 11) T3 = Inr ([1, 2], T4)"
proof -
  define ids where "ids = (\<lambda>s. if s then demo_key 1 else demo_key 4)"
  let ?P = demo_prims and ?W = varint_wire
  have distinct: "pubKey (demo_key 3) \<noteq> pubKey (demo_key 5)" "pubKey (demo_key 2) \<noteq> pubKey (demo_key 5)"
    and one: "\<forall>x. Some (demo_key 6) = Some x \<longrightarrow> is_key_pair ?P x" using demo_key_pair by simp_all
  note kp = demo_key_pair [of 1] demo_key_pair [of 2] demo_key_pair [of 3] demo_key_pair [of 4] demo_key_pair [of 5] one
  have kps: "is_key_pair ?P (ids s)" for s using demo_key_pair by (simp add: ids_def)
  obtain sA sB where start:
    "initSession ?P 0 (demo_key 3) (demo_key 1) True (Some (demo_key 2)) None (pubKey (demo_key 4)) (map_option pubKey (Some (demo_key 6))) (Some (pubKey (demo_key 5))) None = Inr sA"
    "initSession ?P 0 (demo_key 6) (demo_key 4) False (Some (demo_key 6)) (Some (demo_key 5)) (pubKey (demo_key 1)) (Some (pubKey (demo_key 2))) None None = Inr sB"
    "talk_ok ?P ?W ids (new_talk sA sB)" "tk_used (new_talk sA sB) = [pubKey (demo_key 3), pubKey (demo_key 5)]" "eph_of sA = demo_key 3"
    "\<exists>k. getChain (pubKey (demo_key 3)) sA = Some (new_chain k SENDING)"
    by (rule agreed_talk [OF prims_ok_demo kp distinct, where W = varint_wire and ?t1.0 = 0 and ?t2.0 = 0 and ?r1.0 = None and ?r2.0 = None and ?F2.0 = "demo_key 6", folded ids_def])
  have run: "may_hear ?P s i g T \<Longrightarrow> \<exists>T'. hear ?P ?W ids s i g T = Inr (lt_data (tk_mail T s ! i), T')"
    if "(talk_step ?P ?W ids)\<^sup>*\<^sup>* (new_talk sA sB) T" for T s i g
    using talk_delivered [OF prims_ok_demo wire_ok_varint kp distinct ids_def, of 0 None 0 "demo_key 6" None] start(1,2) that by auto
  let ?T0 = "new_talk sA sB"
  obtain k where k: "getChain (pubKey (eph_of (tk_session ?T0 True))) (tk_session ?T0 True) = Some (new_chain k SENDING)"
    using start(5,6) by (auto simp: new_talk_def)
  have may1: "may_say True [1, 2] ?T0" using k by (simp add: may_say_def new_chain_def)
  obtain T1 buf1 c1 where T1: "say ?P ?W ids True [1, 2] ?T0 = Inr T1" "talk_ok ?P ?W ids T1"
    "tk_mail T1 (\<not> True) = tk_mail ?T0 (\<not> True) @ [new_letter (tk_session ?T0 True) [1, 2] buf1]" "tk_used T1 = tk_used ?T0"
    "eph_of (tk_session T1 True) = eph_of (tk_session ?T0 True)"
    "getChain (pubKey (eph_of (tk_session T1 True))) (tk_session T1 True) = Some c1" "ck_counter (chainKey c1) = ck_counter (chainKey (new_chain k SENDING)) + 1"
    by (rule said_state [OF prims_ok_demo wire_ok_varint start(3) kps may1 k])
  have may2: "may_say True [3] T1" using T1(6,7) by (simp add: may_say_def new_chain_def)
  obtain T2 buf2 c2 where T2: "say ?P ?W ids True [3] T1 = Inr T2" "talk_ok ?P ?W ids T2"
    "tk_mail T2 (\<not> True) = tk_mail T1 (\<not> True) @ [new_letter (tk_session T1 True) [3] buf2]" "tk_used T2 = tk_used T1"
    "eph_of (tk_session T2 True) = eph_of (tk_session T1 True)"
    "getChain (pubKey (eph_of (tk_session T2 True))) (tk_session T2 True) = Some c2" "ck_counter (chainKey c2) = ck_counter (chainKey c1) + 1"
    by (rule said_state [OF prims_ok_demo wire_ok_varint T1(2) kps may2 T1(6)])
  have eph: "eph_of (tk_session ?T0 True) = demo_key 3" "tk_mail ?T0 s = []" for s using start(5) by (simp_all add: new_talk_def)
  obtain l1 l2 where mail: "tk_mail T2 False = [l1, l2]" "lt_data l1 = [1, 2]" "lt_data l2 = [3]" "lt_key l1 = pubKey (demo_key 3)"
    "lt_key l2 = pubKey (demo_key 3)"
    using T1(3,5) T2(3) eph by (simp add: new_letter_def)
  have used: "tk_used T2 = [pubKey (demo_key 3), pubKey (demo_key 5)]" "eph_of (tk_session T2 True) = demo_key 3"
    using T1(4,5) T2(4,5) start(4) eph by simp_all
  have reach2: "(talk_step ?P ?W ids)\<^sup>*\<^sup>* ?T0 T2"
    using talk_step.Say [OF may1 T1(1)] talk_step.Say [OF may2 T2(1)] by (meson rtranclp.simps)
  have may3: "may_hear ?P False 1 (demo_key 10) T2"
    using mail used demo_key_pair by (simp add: may_hear_def)
  obtain T3 where T3: "hear ?P ?W ids False 1 (demo_key 10) T2 = Inr ([3], T3)" using run [OF reach2 may3] mail by auto
  have reach3: "(talk_step ?P ?W ids)\<^sup>*\<^sup>* ?T0 T3" using reach2 talk_step.Hear [OF may3 T3] by (rule rtranclp.rtrancl_into_rtrancl)
  have T3s: "tk_session T3 True = tk_session T2 True" "tk_mail T3 False = [l1]" "tk_used T3 = pubKey (demo_key 10) # tk_used T2"
    using T3 mail(1) by (auto simp: hear_def res_simps remove_nth_def)
  have may4: "may_hear ?P False 0 (demo_key 11) T3"
    using T3s mail(4) used demo_key_pair by (simp add: may_hear_def)
  obtain T4 where T4: "hear ?P ?W ids False 0 (demo_key 11) T3 = Inr ([1, 2], T4)" using run [OF reach3 may4] T3s mail(2) by auto
  show ?thesis
    unfolding Let_def ids_def [symmetric] using T1(1) T2(1) T3 T4 by blast
qed

section \<open>A conversation\<close>

text \<open>Every message of a conversation is decrypted to what was said, whoever speaks next and however often
  the direction changes, as long as each message is delivered before the next is sent: from the X3DH
  agreement on, with a ratchet step at each change of direction, up to \<open>2 ^ 32\<close> messages.\<close>

theorem conversation_delivered:
  assumes P: "prims_ok P" "wire_ok W"
    and kp: "is_key_pair P IA" "is_key_pair P E" "is_key_pair P F" "is_key_pair P IB" "is_key_pair P SB"
      "\<forall>x. OB = Some x \<longrightarrow> is_key_pair P x"
    and distinct: "pubKey F \<noteq> pubKey SB" "pubKey E \<noteq> pubKey SB"
    and turns: "turns_ok P 0 {pubKey F, pubKey SB} ((True, data, g) # turns)"
  shows "\<exists>sA sB.
    initSession P t1 F IA True (Some E) None (pubKey IB) (map_option pubKey OB) (Some (pubKey SB)) r1 = Inr sA \<and>
    initSession P t2 F2 IB False OB (Some SB) (pubKey IA) (Some (pubKey E)) None r2 = Inr sB \<and>
    converse P W IA IB ((True, data, g) # turns) sA sB = Inr (said ((True, data, g) # turns))"
proof -
  obtain sA sB where start:
    "initSession P t1 F IA True (Some E) None (pubKey IB) (map_option pubKey OB) (Some (pubKey SB)) r1 = Inr sA"
    "initSession P t2 F2 IB False OB (Some SB) (pubKey IA) (Some (pubKey E)) None r2 = Inr sB"
    "ahead P 0 {pubKey F, pubKey SB} IA IB sA sB"
    by (rule agreed_ahead [OF P(1) kp distinct])
  have "converse P W IA IB ((True, data, g) # turns) sA sB = Inr (said ((True, data, g) # turns))"
    by (rule converse_ahead [OF P kp(1,4) turns]) (simp add: start(3))
  with start show ?thesis by blast
qed

theorem conversation_delivered_witness:
  "\<exists>sA sB. converse demo_prims varint_wire (demo_key 1) (demo_key 4)
      [(True, [1, 2, 3], demo_key 10), (True, [4], demo_key 11), (False, [], demo_key 12), (True, [5, 6], demo_key 13), (False, [7], demo_key 14)] sA sB =
    Inr [[1, 2, 3], [4], [], [5, 6], [7]]"
proof -
  have turns: "turns_ok demo_prims 0 {pubKey (demo_key 3), pubKey (demo_key 5)}
      [(True, [1, 2, 3], demo_key 10), (True, [4], demo_key 11), (False, [], demo_key 12), (True, [5, 6], demo_key 13), (False, [7], demo_key 14)]"
    using demo_key_pair by (simp add: turns_ok_def)
  have distinct: "pubKey (demo_key 3) \<noteq> pubKey (demo_key 5)" "pubKey (demo_key 2) \<noteq> pubKey (demo_key 5)" by simp_all
  have none: "\<forall>x. None = Some x \<longrightarrow> is_key_pair demo_prims x" by simp
  from conversation_delivered [OF prims_ok_demo wire_ok_varint demo_key_pair [of 1] demo_key_pair [of 2] demo_key_pair [of 3]
      demo_key_pair [of 4] demo_key_pair [of 5] none distinct turns, of 0 None 0 "demo_key 6" None]
  show ?thesis by (auto simp: said_def simp del: converse.simps)
qed


section \<open>In memory\<close>

lemma mem_trust_True:
  "fst (mem_isTrustedIdentity i k d s) = Inr True \<Longrightarrow>
     isTrustedIdentity memory_signal_storage i k d s = (Inr True, snd (mem_isTrustedIdentity i k d s))"
  by (simp add: memory_signal_storage_def prod_eq_iff)

text \<open>The end of the decryption: the one-time prekey, if the message names one, is removed.\<close>

lemma consumed_prekey:
  assumes "result = (case map_option fst OPK of None \<Rightarrow> (Inr data, s)
        | Some i \<Rightarrow> (map_sum id (\<lambda>_. data) (fst (removePreKey memory_signal_storage i s)), snd (removePreKey memory_signal_storage i s)))"
    and stored: "loadSession memory_signal_storage k s = Inr (Some r)"
  shows "\<exists>sB2. result = (Inr data, sB2) \<and> mem_loadSession k sB2 = Inr (Some r) \<and>
    (\<forall>i kp. OPK = Some (i, kp) \<longrightarrow> mem_loadPreKey (Some i) sB2 = Inr None)"
proof (cases OPK)
  case None
  with assms show ?thesis by (simp add: memory_signal_storage_def)
next
  case (Some p)
  then obtain i kp where p: "OPK = Some (i, kp)" by (cases p) auto
  let ?s = "snd (removePreKey memory_signal_storage i s)"
  have "result = (Inr data, ?s)" using assms(1) p mem.remove_total [of i s] by simp
  moreover have "mem_loadSession k ?s = Inr (Some r)"
    using mem.remove_load [of k i s] stored by (simp add: memory_signal_storage_def)
  moreover have "mem_loadPreKey (Some i) ?s = Inr None"
    by (simp add: memory_signal_storage_def mem_loadPreKey_def mem_removePreKey_def emitPreKeyRemoved_def obj_get_del Let_def)
  ultimately show ?thesis using p by auto
qed

text \<open>C3: First contact. A device that is given another's bundle builds a session through its storage and
  encrypts; the other decrypts the prekey message through its own storage, whatever sessions both have
  had before, gets the plaintext, and has an open session for the sender afterwards; the one-time
  prekey of the bundle is gone.\<close>

theorem first_contact_delivered:
  assumes P: "prims_ok P" "wire_ok W" "wire_sizes W" and envs: "same_env P W EA" "same_env P W EA'" "same_env P W EB"
    and pub: "bundle_keys_ok P (ms_registrationId sB) (ms_identityKeyPair sB) j SPK sig OPK"
    and a: "mem_ok sA" "is_key_pair P (ms_identityKeyPair sA)" "1 \<le> ms_registrationId sA" "ms_registrationId sA < 2 ^ 32"
      "fst (mem_isTrustedIdentity (addr_id addrB) (pubKey (ms_identityKeyPair sB)) Sending_Direction sA) = Inr True"
    and b: "mem_ok sB" "obj_get (ms_signedPreKeys sB) j = Some SPK" "\<forall>i kp. OPK = Some (i, kp) \<longrightarrow> obj_get (ms_preKeys sB) i = Some kp"
      "\<forall>r. obj_get (ms_sessions sB) (address_toString addrA) = Some r \<longrightarrow> getSession (pubKey (ev_fresh EA 0)) r = Inr None"
      "fst (mem_isTrustedIdentity (addr_id addrA) (pubKey (ms_identityKeyPair sA)) Receiving_Direction sB) = Inr True"
    and distinct: "pubKey (ev_fresh EA 1) \<noteq> pubKey SPK" "pubKey (ev_fresh EB 0) \<noteq> pubKey (ev_fresh EA 1)" "length data < 2 ^ 31"
  shows "\<exists>sA2 em sA3 sB2 r.
    initOutgoing EA memory_signal_storage addrB (published_bundle (ms_registrationId sB) (ms_identityKeyPair sB) j SPK sig OPK) sA = (Inr (), sA2) \<and>
    encrypt EA' (new_SessionCipher memory_signal_storage addrB ageA) data sA2 = (Inr em, sA3) \<and> em_type em = 3 \<and>
    decryptPreKeyWhisperMessage EB (new_SessionCipher memory_signal_storage addrA ageB) (em_body em) sB = (Inr data, sB2) \<and>
    mem_loadSession (address_toString addrA) sB2 = Inr (Some r) \<and> haveOpenSession r \<and>
    (\<forall>i kp. OPK = Some (i, kp) \<longrightarrow> mem_loadPreKey (Some i) sB2 = Inr None)"
proof -
  let ?S = memory_signal_storage
  have A: "contact_store ?S (mem_good None)" by (rule mem_contact.contact_store_axioms)
  have load: "loadSession ?S i s = Inr (obj_get (ms_sessions s) i)" if "mem_ok s" for i s
    using mem_load_get [OF that] by (simp add: memory_signal_storage_def)
  have own: "getOurIdentity ?S s = Inr (ms_identityKeyPair s)" "getOurRegistrationId ?S s = Inr (ms_registrationId s)" for s
    by (simp_all add: memory_signal_storage_def)
  have holds: "holds_bundle ?S sB (ms_identityKeyPair sB) j SPK OPK"
    using b(2,3) by (simp add: holds_bundle_def memory_signal_storage_def mem_loadPreKey_def mem_loadSignedPreKey_def)
  have new: "getSession (pubKey (ev_fresh EA 0)) (case obj_get (ms_sessions sB) (address_toString addrA) of
      None \<Rightarrow> new_session_record | Some r \<Rightarrow> r) = Inr None"
  proof (cases "obj_get (ms_sessions sB) (address_toString addrA)")
    case None
    then show ?thesis by (simp add: getSession_def new_session_record_def)
  qed (use b(4) in simp)
  have C: "sc_storage (new_SessionCipher ?S addr age) = ?S" "sc_addr (new_SessionCipher ?S addr age) = addr" for addr age
    by (simp_all add: new_SessionCipher_def)
  have good: "mem_good None sA" "mem_good None sB" using a(1) b(1) by simp_all
  obtain sA2 em sA3 r where run:
    "initOutgoing EA ?S addrB (published_bundle (ms_registrationId sB) (ms_identityKeyPair sB) j SPK sig OPK) sA = (Inr (), sA2)"
    "encrypt EA' (new_SessionCipher ?S addrB ageA) data sA2 = (Inr em, sA3)" "em_type em = 3" "stored_ok r" "haveOpenSession r"
    and dec: "decryptPreKeyWhisperMessage EB (new_SessionCipher ?S addrA ageB) (em_body em) sB =
       (let s2 = snd (storeSession ?S (address_toString addrA) r (snd (mem_isTrustedIdentity (addr_id addrA)
                        (pubKey (ms_identityKeyPair sA)) Receiving_Direction sB))) in
        case map_option fst OPK of None \<Rightarrow> (Inr data, s2)
        | Some i \<Rightarrow> (map_sum id (\<lambda>_. data) (fst (removePreKey ?S i s2)), snd (removePreKey ?S i s2)))"
    by (rule first_contact_core [OF A A P envs pub good(1) own(1) a(2) own(2) a(3,4) load [OF a(1)] mem_trust_True [OF a(5)]
          good(2) holds load [OF b(1)] new mem_trust_True [OF b(5)] distinct C C])
  let ?s1 = "snd (mem_isTrustedIdentity (addr_id addrA) (pubKey (ms_identityKeyPair sA)) Receiving_Direction sB)"
  let ?s2 = "snd (storeSession ?S (address_toString addrA) r ?s1)"
  have good1: "mem_good None ?s1" using mem_isTrustedIdentity_ok [OF b(1)] by simp
  have stored: "loadSession ?S (address_toString addrA) ?s2 = Inr (Some r)" using mem.load_store [OF good1 run(4)] by simp
  from consumed_prekey [OF dec [unfolded Let_def] stored] run show ?thesis by blast
qed

text \<open>Two devices that have never met.\<close>

definition demo_alice :: memory_storage where
  "demo_alice = new_MemorySignalStorage (demo_key 1) 5 None None False"

definition demo_bob :: memory_storage where
  "demo_bob = mem_storePreKey 2 (demo_key 6) (mem_storeSignedPreKey_id 1 (demo_key 5) (new_MemorySignalStorage (demo_key 4) 6 None None False))"

definition demo_device_env :: "nat \<Rightarrow> env" where
  "demo_device_env n = \<lparr>ev_prims = demo_prims, ev_wire = varint_wire, ev_now = 7, ev_fresh = (\<lambda>i. demo_key (n + i))\<rparr>"

lemmas demo_devices = demo_alice_def demo_bob_def mem_storePreKey_def mem_storeSignedPreKey_id_def new_MemorySignalStorage_def

lemma demo_device_env_ok: "same_env demo_prims varint_wire (demo_device_env n)"
  using prims_okD [OF prims_ok_demo] demo_key_pair by (simp add: same_env_def env_ok_def demo_device_env_def)

lemma demo_device_oks: "mem_ok demo_alice" "mem_ok demo_bob"
  unfolding demo_alice_def demo_bob_def by (intro mem_storePreKey_ok mem_storeSignedPreKey_id_ok new_storage_ok)+

theorem first_contact_delivered_witness:
  "\<exists>sig em sA2 sA3 sB2.
    initOutgoing (demo_device_env 2) memory_signal_storage \<lparr>addr_id = ''bob'', deviceId = 1\<rparr>
      (published_bundle 6 (demo_key 4) 1 (demo_key 5) sig (Some (2, demo_key 6))) demo_alice = (Inr (), sA2) \<and>
    encrypt (demo_device_env 9) (new_SessionCipher memory_signal_storage \<lparr>addr_id = ''bob'', deviceId = 1\<rparr> None) [1, 2, 3] sA2 = (Inr em, sA3) \<and>
    decryptPreKeyWhisperMessage (demo_device_env 7) (new_SessionCipher memory_signal_storage \<lparr>addr_id = ''alice'', deviceId = 1\<rparr> None)
      (em_body em) demo_bob = (Inr [1, 2, 3], sB2) \<and> mem_loadPreKey (Some 2) sB2 = Inr None"
proof -
  have "length (privKey (demo_key 4)) = 32" using demo_key_pair [of 4] by (simp add: is_key_pair_def)
  then obtain sig where sig: "calculateSignature demo_prims (privKey (demo_key 4)) (pubKey (demo_key 5)) = Inr sig"
    by (rule sign_total [OF prims_okD(5) [OF prims_ok_demo]])
  have bob: "ms_registrationId demo_bob = 6" "ms_identityKeyPair demo_bob = demo_key 4" "obj_get (ms_signedPreKeys demo_bob) 1 = Some (demo_key 5)"
    "obj_get (ms_preKeys demo_bob) 2 = Some (demo_key 6)" "ms_sessions demo_bob = []" "ms_trusted demo_bob = []" "ms_policy demo_bob = Tofu"
    and alice: "ms_registrationId demo_alice = 5" "ms_identityKeyPair demo_alice = demo_key 1" "ms_trusted demo_alice = []" "ms_policy demo_alice = Tofu"
    by (simp_all add: demo_devices)
  have trust: "fst (mem_isTrustedIdentity i k d s) = Inr True" if "ms_trusted s = []" "ms_policy s = Tofu" for i k d s
    using that by (simp add: mem_isTrustedIdentity_def)
  have pub: "bundle_keys_ok demo_prims (ms_registrationId demo_bob) (ms_identityKeyPair demo_bob) 1 (demo_key 5) sig (Some (2, demo_key 6))"
    using demo_key_pair sig by (simp add: bundle_keys_ok_def bob)
  have fresh: "pubKey (ev_fresh (demo_device_env 2) 1) \<noteq> pubKey (demo_key 5)" "pubKey (ev_fresh (demo_device_env 7) 0) \<noteq> pubKey (ev_fresh (demo_device_env 2) 1)"
    by (simp_all add: demo_device_env_def)
  show ?thesis
    using first_contact_delivered [OF prims_ok_demo wire_ok_varint wire_sizes_varint demo_device_env_ok [of 2] demo_device_env_ok [of 9] demo_device_env_ok [of 7]
        pub demo_device_oks(1) _ _ _ trust [OF alice(3,4)] demo_device_oks(2) bob(3) _ _ trust [OF bob(6,7)] fresh,
        of "\<lparr>addr_id = ''alice'', deviceId = 1\<rparr>" "[1, 2, 3]" "\<lparr>addr_id = ''bob'', deviceId = 1\<rparr>" None None]
      demo_key_pair [of 1] bob alice by (simp add: bob(1,2)) metis
qed

end
