(* ===== verification/Devices.thy ===== *)
theory Devices
  imports Mailbox First_Contact
begin

text \<open>
  Two devices that exchange messages through their storages. Every step is one of the operations
  \<open>encrypt\<close>, \<open>decryptWhisperMessage\<close> and \<open>decryptPreKeyWhisperMessage\<close>; messages may be read in any order,
  late or never. The sessions in the storages go through the states of a talk (\<open>Mailbox\<close>): that is the
  refinement \<open>exchange_ok\<close>, an invariant over all runs.
\<close>

section \<open>The exchange\<close>

text \<open>
  A parcel is a message on the way, with what was said and the ratchet key it was said with. \<open>addr s\<close> is
  the address of the side \<open>s\<close>; \<open>True\<close> is the side that made contact.
\<close>

record parcel =
  pc_message :: encrypted_message
  pc_data :: bytes
  pc_key :: bytes

record 's exchange =
  ex_store :: "bool \<Rightarrow> 's"
  ex_mail :: "bool \<Rightarrow> parcel list"
  ex_used :: "bytes list"

definition open_session :: "'s signal_storage \<Rightarrow> protocol_address \<Rightarrow> 's \<Rightarrow> session_entry option" where
  "open_session S a s =
     (case loadSession S (address_toString a) s of Inr (Some r) \<Rightarrow> getOpenSession r | _ \<Rightarrow> None)"

definition ratchet_key :: "session_entry option \<Rightarrow> bytes" where
  "ratchet_key x = (case x of None \<Rightarrow> [] | Some e \<Rightarrow> pubKey (eph_of e))"

definition post ::
  "env \<Rightarrow> 's signal_storage \<Rightarrow> (bool \<Rightarrow> protocol_address) \<Rightarrow> int option \<Rightarrow> bool \<Rightarrow> bytes \<Rightarrow> 's exchange \<Rightarrow> error + 's exchange" where
  "post E S addr age s data X =
     (case encrypt E (new_SessionCipher S (addr (\<not> s)) age) data (ex_store X s) of
        (Inl err, _) \<Rightarrow> Inl err
      | (Inr em, st) \<Rightarrow>
          Inr (X\<lparr>ex_store := (ex_store X)(s := st),
                 ex_mail := (ex_mail X)(\<not> s := ex_mail X (\<not> s) @
                   [\<lparr>pc_message = em, pc_data = data, pc_key = ratchet_key (open_session S (addr (\<not> s)) (ex_store X s))\<rparr>])\<rparr>))"

definition read_message :: "env \<Rightarrow> 's session_cipher \<Rightarrow> encrypted_message \<Rightarrow> ('s, bytes) op" where
  "read_message E C em =
     (if em_type em = 3 then decryptPreKeyWhisperMessage E C (em_body em) else decryptWhisperMessage E C (em_body em))"

definition fetch ::
  "env \<Rightarrow> 's signal_storage \<Rightarrow> (bool \<Rightarrow> protocol_address) \<Rightarrow> int option \<Rightarrow> bool \<Rightarrow> nat \<Rightarrow> 's exchange \<Rightarrow>
     error + bytes \<times> 's exchange" where
  "fetch E S addr age s i X =
     (case read_message E (new_SessionCipher S (addr (\<not> s)) age) (pc_message (ex_mail X s ! i)) (ex_store X s) of
        (Inl err, _) \<Rightarrow> Inl err
      | (Inr data, st) \<Rightarrow>
          Inr (data, X\<lparr>ex_store := (ex_store X)(s := st), ex_mail := (ex_mail X)(s := remove_nth i (ex_mail X s)),
                       ex_used := pubKey (ev_fresh E 0) # ex_used X\<rparr>))"

text \<open>
  A side may post when its session has a sending chain with fewer than 2000 messages. It may fetch a
  message sent with the other side's current ratchet key, or with one whose chain it still keeps.
\<close>

definition may_post :: "'s signal_storage \<Rightarrow> (bool \<Rightarrow> protocol_address) \<Rightarrow> bool \<Rightarrow> bytes \<Rightarrow> 's exchange \<Rightarrow> bool" where
  "may_post S addr s data X \<longleftrightarrow> length data < 2 ^ 31 \<and>
     (case open_session S (addr (\<not> s)) (ex_store X s) of
        None \<Rightarrow> False
      | Some e \<Rightarrow> (case getChain (pubKey (eph_of e)) e of None \<Rightarrow> False | Some c \<Rightarrow> ck_counter (chainKey c) < 1999))"

definition may_fetch :: "env \<Rightarrow> 's signal_storage \<Rightarrow> (bool \<Rightarrow> protocol_address) \<Rightarrow> bool \<Rightarrow> nat \<Rightarrow> 's exchange \<Rightarrow> bool" where
  "may_fetch E S addr s i X \<longleftrightarrow> i < length (ex_mail X s) \<and> pubKey (ev_fresh E 0) \<notin> set (ex_used X) \<and>
     (pc_key (ex_mail X s ! i) = ratchet_key (open_session S (addr s) (ex_store X (\<not> s))) \<or>
      (case open_session S (addr (\<not> s)) (ex_store X s) of
         None \<Rightarrow> False | Some e \<Rightarrow> getChain (pc_key (ex_mail X s ! i)) e \<noteq> None))"

inductive exchange_step ::
  "prims \<Rightarrow> wire \<Rightarrow> 's signal_storage \<Rightarrow> (bool \<Rightarrow> protocol_address) \<Rightarrow> 's exchange \<Rightarrow> 's exchange \<Rightarrow> bool" for P W S addr where
  Post: "same_env P W E \<Longrightarrow> may_post S addr s data X \<Longrightarrow> post E S addr age s data X = Inr X' \<Longrightarrow> exchange_step P W S addr X X'"
| Fetch: "same_env P W E \<Longrightarrow> may_fetch E S addr s i X \<Longrightarrow> fetch E S addr age s i X = Inr (data, X') \<Longrightarrow> exchange_step P W S addr X X'"

text \<open>After \<open>initOutgoing\<close>: one side has a session, the other has none yet.\<close>

definition new_exchange :: "'s \<Rightarrow> 's \<Rightarrow> bytes list \<Rightarrow> 's exchange" where
  "new_exchange sA sB used = \<lparr>ex_store = (\<lambda>s. if s then sA else sB), ex_mail = (\<lambda>_. []), ex_used = used\<rparr>"

section \<open>The operations on a record with one session\<close>

definition device_ok :: "'s signal_storage \<Rightarrow> ('s \<Rightarrow> bool) \<Rightarrow> protocol_address \<Rightarrow> key_pair \<Rightarrow> bytes \<Rightarrow> 's \<Rightarrow> bool" where
  "device_ok S good a I K s \<longleftrightarrow> good s \<and> getOurIdentity S s = Inr I \<and>
     (\<forall>d. fst (isTrustedIdentity S (addr_id a) K d s) = Inr True)"

definition one_session :: "'s signal_storage \<Rightarrow> protocol_address \<Rightarrow> session_entry \<Rightarrow> 's \<Rightarrow> bool" where
  "one_session S a e s \<longleftrightarrow> (\<exists>r. loadSession S (address_toString a) s = Inr (Some r) \<and> only_session e r)"

lemma one_session_open: "one_session S a e s \<Longrightarrow> open_session S a s = Some e"
  by (auto simp: one_session_def open_session_def only_simps)

definition prekey_body :: "wire \<Rightarrow> nat \<Rightarrow> pending_pre_key \<Rightarrow> bytes \<Rightarrow> bytes \<Rightarrow> bytes" where
  "prekey_body W rid p ik buf = 0x33 # PreKeyWhisperMessage_encode W
     \<lparr>pk_registrationId = Some rid, pk_preKeyId = pp_preKeyId p, pk_signedPreKeyId = Some (pp_signedKeyId p),
      pk_baseKey = Some (pp_baseKey p), pk_identityKey = Some ik, pk_message = Some buf\<rparr>"

lemma same_envD:
  assumes "same_env P W E"
  shows "env_ok E" "ev_prims E = P" "ev_wire E = W" "hmac_ok P" "is_key_pair P (ev_fresh E i)"
  using assms by (auto simp: same_env_def env_ok_def)

lemma new_SessionCipher_fields [simp]:
  "sc_storage (new_SessionCipher S a age) = S" "sc_addr (new_SessionCipher S a age) = a"
  by (simp_all add: new_SessionCipher_def)

context contact_store
begin

lemma only_stored: "only_session e r \<Longrightarrow> record_ok r \<Longrightarrow> stored_ok r"
  by (simp add: stored_ok_def only_session_def CLOSED_SESSIONS_MAX_def)

lemma storeRecord_only:
  "only_session e r \<Longrightarrow>
     storeRecord E (new_SessionCipher S a age) r s = (Inr (), snd (storeSession S (address_toString a) r s))"
  unfolding storeRecord_def sbind_slift only_simps(4) sum.case new_SessionCipher_fields by (rule store_run)

lemma device_trust:
  assumes "device_ok S good a I K s"
  obtains s1 where "isTrustedIdentity S (addr_id a) K d s = (Inr True, s1)" "isTrusted_or_throw S a K d s = (Inr (), s1)"
    "getOurIdentity S s1 = Inr I" "device_ok S good a I K s1" "\<And>k. loadSession S k s1 = loadSession S k s"
    "getOurRegistrationId S s1 = getOurRegistrationId S s" "\<And>k d'. fst (isTrustedIdentity S (addr_id a) K d' s1) = Inr True"
proof -
  obtain s1 where s1: "isTrustedIdentity S (addr_id a) K d s = (Inr True, s1)"
    using assms by (metis device_ok_def prod.collapse)
  have "good s" "getOurIdentity S s = Inr I" using assms by (simp_all add: device_ok_def)
  with after_trust [OF s1] show thesis
    by (intro that [OF s1 trusted_run [OF s1]]) (simp_all add: device_ok_def)
qed

lemma device_store:
  assumes "device_ok S good a I K s" "stored_ok r"
  shows "device_ok S good a I K (snd (storeSession S (address_toString b) r s))"
    "loadSession S (address_toString b) (snd (storeSession S (address_toString b) r s)) = Inr (Some r)"
    "getOurRegistrationId S (snd (storeSession S (address_toString b) r s)) = getOurRegistrationId S s"
  using assms store_good [OF _ assms(2)] store_keys store_trust load_store [OF _ assms(2)] store_registration
  by (simp_all add: device_ok_def)

lemma one_session_record:
  assumes "device_ok S good a I K s" "one_session S b e s"
  obtains r where "loadSession S (address_toString b) s = Inr (Some r)" "only_session e r" "record_ok r" "entry_ok e"
    "(b64_encode (baseKey (indexInfo e)), e) \<in> set (sessions r)"
proof -
  obtain r where r: "loadSession S (address_toString b) s = Inr (Some r)" "only_session e r"
    using assms(2) by (auto simp: one_session_def)
  have "record_ok r" using stored_record [OF load_ok [OF _ r(1)]] assms(1) by (simp add: device_ok_def)
  moreover have k: "(b64_encode (baseKey (indexInfo e)), e) \<in> set (sessions r)" using r(2) by (simp add: only_session_def)
  ultimately show thesis using that [OF r] record_ok_get(1) by blast
qed

text \<open>What every operation does at its end: the session is put kept and the record stored.\<close>

lemma put_back:
  assumes dev: "device_ok S good a I K s" and r: "only_session e r" "record_ok r"
    and e': "entry_ok e'" "indexInfo e' = (indexInfo e)\<lparr>ii_used := u\<rparr>"
  defines "s' \<equiv> snd (storeSession S (address_toString a) (setSession e' r) s)"
  shows "storeRecord E (new_SessionCipher S a age) (setSession e' r) s = (Inr (), s')"
    "device_ok S good a I K s'" "one_session S a e' s'" "getOurRegistrationId S s' = getOurRegistrationId S s"
proof -
  have k: "(b64_encode (baseKey (indexInfo e)), e) \<in> set (sessions r)" using r(1) by (simp add: only_session_def)
  have only: "only_session e' (setSession e' r)" by (rule only_set(1) [OF r(1) e'(2)])
  have "record_ok (setSession e' r)" by (rule record_ok_replace [OF r(2) k e'(1)]) (simp_all add: e'(2) isClosed_def)
  then have stored: "stored_ok (setSession e' r)" by (rule only_stored [OF only])
  show "storeRecord E (new_SessionCipher S a age) (setSession e' r) s = (Inr (), s')"
    unfolding s'_def by (rule storeRecord_only [OF only])
  show "device_ok S good a I K s'" "one_session S a e' s'" "getOurRegistrationId S s' = getOurRegistrationId S s"
    using device_store [OF dev stored, of a] only by (auto simp: s'_def one_session_def)
qed

lemma encrypt_one:
  assumes env: "same_env P W E" and dev: "device_ok S good a I K s" and one: "one_session S a e s"
    and remote: "remoteIdentityKey (indexInfo e) = K" and enc: "encryptMessage P W I data e = Inr (buf, e')"
    and reg: "pendingPreKey e \<noteq> None \<longrightarrow> getOurRegistrationId S s = Inr rid"
  obtains em s' where "encrypt E (new_SessionCipher S a age) data s = (Inr em, s')" "device_ok S good a I K s'"
    "one_session S a e' s'" "getOurRegistrationId S s' = getOurRegistrationId S s" "em_type em = (if pendingPreKey e = None then 1 else 3)"
    "em_body em = (case pendingPreKey e of None \<Rightarrow> buf | Some p \<Rightarrow> prekey_body W rid p (pubKey I) buf)"
proof -
  note E = same_envD [OF env]
  obtain r where r: "loadSession S (address_toString a) s = Inr (Some r)" "only_session e r" "record_ok r" "entry_ok e"
    by (rule one_session_record [OF dev one])
  note e' = encryptMessage_ok [OF E(4) r(4) enc]
  obtain s1 where s1: "isTrusted_or_throw S a K Sending_Direction s = (Inr (), s1)" "device_ok S good a I K s1"
    "getOurRegistrationId S s1 = getOurRegistrationId S s"
    by (rule device_trust [OF dev])
  have idx: "indexInfo e' = (indexInfo e)\<lparr>ii_used := ii_used (indexInfo e)\<rparr>" using e'(2) by (simp add: same_session_def)
  note kept = put_back [OF s1(2) r(2,3) e'(1) idx]
  have "r\<lparr>sessions := update_first_open e' (sessions r)\<rparr> = setSession e' r"
    by (rule update_first_open_set [OF r(3) only_simps(1) [OF r(2)]]) (simp add: idx)
  then have run: "storeRecord E (new_SessionCipher S a age) (r\<lparr>sessions := update_first_open e' (sessions r)\<rparr>) s1 =
      (Inr (), snd (storeSession S (address_toString a) (setSession e' r) s1))"
    using kept(1) by simp
  have own: "getOurIdentity S s = Inr I" using dev by (simp add: device_ok_def)
  show thesis
  proof (cases "pendingPreKey e")
    case None
    show thesis
      by (rule that [of "\<lparr>em_type = 1, em_body = buf, em_registrationId = se_registrationId e'\<rparr>", OF _ kept(2,3)])
        (use None r(1) only_simps(1) [OF r(2)] s1 own enc run e'(3) E remote kept(4) in
          \<open>simp_all add: encrypt_def Let_def getRecord_def sbind_sread sbind_slift sbind_run sret_def\<close>)
  next
    case (Some p)
    then have "getOurRegistrationId S (snd (storeSession S (address_toString a) (setSession e' r) s1)) = Inr rid"
      using kept(4) s1(3) reg by simp
    then show thesis
      by (intro that [of "\<lparr>em_type = 3, em_body = prekey_body W rid p (pubKey I) buf, em_registrationId = se_registrationId e'\<rparr>", OF _ kept(2,3)])
        (use Some r(1) only_simps(1) [OF r(2)] s1 own enc run e'(3) E remote kept(4) in
          \<open>simp_all add: encrypt_def Let_def getRecord_def sbind_sread sbind_slift sbind_run sret_def wrap_prekey_def prekey_body_def\<close>)
  qed
qed

lemma decrypt_one:
  assumes env: "same_env P W E" and dev: "device_ok S good a I K s" and one: "one_session S a e s"
    and remote: "remoteIdentityKey (indexInfo e) = K"
    and dec: "doDecryptWhisperMessage P W (Inr I) (ev_fresh E 0) buf e = Inr (data, e')"
  obtains s' where "decryptWhisperMessage E (new_SessionCipher S a age) buf s = (Inr data, s')" "device_ok S good a I K s'"
    "one_session S a (e'\<lparr>indexInfo := (indexInfo e')\<lparr>ii_used := ev_now E\<rparr>\<rparr>) s'"
    "getOurRegistrationId S s' = getOurRegistrationId S s"
proof -
  note E = same_envD [OF env]
  obtain r where r: "loadSession S (address_toString a) s = Inr (Some r)" "only_session e r" "record_ok r" "entry_ok e"
    by (rule one_session_record [OF dev one])
  let ?e = "e'\<lparr>indexInfo := (indexInfo e')\<lparr>ii_used := ev_now E\<rparr>\<rparr>"
  note e' = doDecrypt_ok [OF E(4) r(4) dec]
  then have idx: "indexInfo e' = indexInfo e" by (simp add: same_session_def)
  obtain s1 where s1: "isTrusted_or_throw S a K Receiving_Direction s = (Inr (), s1)" "device_ok S good a I K s1"
    "getOurRegistrationId S s1 = getOurRegistrationId S s"
    by (rule device_trust [OF dev])
  have ok: "entry_ok ?e" using e'(1) by simp
  have "indexInfo ?e = (indexInfo e)\<lparr>ii_used := ev_now E\<rparr>" by (simp add: idx)
  note kept = put_back [OF s1(2) r(2,3) ok this]
  have touched: "touch_closed (ev_now E) ?e = ?e" using r(2) idx by (simp add: touch_closed_def isClosed_def only_session_def)
  have own: "getOurIdentity S s = Inr I" using dev by (simp add: device_ok_def)
  have copy: "SessionEntry_deserialize (SessionEntry_serialize e) = Inr e" by (rule entry_roundtrip [OF entry_ok_wf [OF r(4)]])
  have "decryptWithSessions E (getOurIdentity S s) buf (getSessions r) = Inr (?e, data)"
    using only_simps(2) [OF r(2)] own copy dec E by (simp add: decryptWithSessions_def)
  then show thesis
    by (intro that [OF _ kept(2,3)])
      (use r(1) s1 kept(1,4) touched remote idx in \<open>simp_all add: decryptWhisperMessage_def Let_def getRecord_def sbind_sread sbind_run sret_def\<close>)
qed

text \<open>A prekey message for a session that is there already.\<close>

lemma decryptPreKey_one:
  assumes env: "same_env P W E" "wire_ok W" "wire_sizes W" and dev: "device_ok S good a I K s" and one: "one_session S a e s"
    and ids: "1 \<le> rid" "rid < 2 ^ 32" "\<forall>i. pp_preKeyId p = Some i \<longrightarrow> i \<le> 0xffffff" "pp_signedKeyId p \<le> 0xffffff"
    and sizes: "length (pp_baseKey p) = 33" "length K = 33" "buf \<noteq> []" "length buf < 2 ^ 32"
    and base: "baseKey (indexInfo e) = pp_baseKey p" "baseKeyType (indexInfo e) \<noteq> OURS"
    and dec: "doDecryptWhisperMessage P W (Inr I) (ev_fresh E 0) buf e = Inr (data, e')"
  obtains s' where "decryptPreKeyWhisperMessage E (new_SessionCipher S a age) (prekey_body W rid p K buf) s = (Inr data, s')"
    "device_ok S good a I K s'" "one_session S a e' s'" "getOurRegistrationId S s' = getOurRegistrationId S s"
proof -
  note E = same_envD [OF env(1)]
  obtain r where r: "loadSession S (address_toString a) s = Inr (Some r)" "only_session e r" "record_ok r" "entry_ok e"
    by (rule one_session_record [OF dev one])
  note e' = doDecrypt_ok [OF E(4) r(4) dec]
  have idx: "indexInfo e' = (indexInfo e)\<lparr>ii_used := ii_used (indexInfo e)\<rparr>" using e'(2) by (simp add: same_session_def)
  obtain s1 where s1: "isTrusted_or_throw S a K Receiving_Direction s = (Inr (), s1)" "getOurIdentity S s1 = Inr I"
    "device_ok S good a I K s1" "getOurRegistrationId S s1 = getOurRegistrationId S s"
    by (rule device_trust [OF dev])
  note kept = put_back [OF s1(3) r(2,3) e'(1) idx]
  have copy: "SessionEntry_deserialize (SessionEntry_serialize e) = Inr e" by (rule entry_roundtrip [OF entry_ok_wf [OF r(4)]])
  have found: "getSession (pp_baseKey p) r = Inr (Some e)" using only_simps(5) [OF r(2) base(2)] base(1) by simp
  note frame = prekey_frame [OF env(2,3) prekey_body_def ids sizes]
  let ?im = "\<lparr>im_registrationId = Some rid, im_identityKey = K, im_baseKey = pp_baseKey p, im_preKeyId = pp_preKeyId p,
          im_signedPreKeyId = Some (pp_signedKeyId p), im_message = buf\<rparr>"
  have "assertValidIncomingPreKeyMessage (js_of_incoming ?im) = Inr ()" using frame(5) by (rule iffD2 [OF assert_incoming])
  then have "initIncoming E S a r ?im s = (Inr (r, None), s1)"
    using s1(1) found by (simp add: initIncoming_def Let_def sbind_slift sbind_run sret_def)
  then show thesis
    by (intro that [OF _ kept(2,3)])
      (use frame(1-4) r(1) found copy dec s1 kept(1,4) E in
        \<open>simp_all add: decryptPreKeyWhisperMessage_def Let_def getRecord_def sbind_slift sbind_sread sbind_run guard_that_def sret_def\<close>)
qed

end

section \<open>Sessions that differ in their bookkeeping\<close>

text \<open>What a talk depends on; the time of the last use, the pending prekey and the registration id are left out.\<close>

definition alike :: "session_entry \<Rightarrow> session_entry \<Rightarrow> bool" where
  "alike e e' \<longleftrightarrow> chains e' = chains e \<and> currentRatchet e' = currentRatchet e \<and> entryVersion e' = entryVersion e \<and>
     remoteIdentityKey (indexInfo e') = remoteIdentityKey (indexInfo e)"

lemma alikeD:
  assumes "alike e e'"
  shows "getChain x e' = getChain x e" "currentRatchet e' = currentRatchet e" "entry_ok e' = entry_ok e"
    "remoteIdentityKey (indexInfo e') = remoteIdentityKey (indexInfo e)"
  using assms by (simp_all add: alike_def getChain_def entry_ok_def entry_wf_def receiving_ids_def)

lemma pair_ok_alike:
  assumes "pair_ok P W K U IA IB A B MA MB" "alike A A'"
  shows "pair_ok P W K U IA IB A' B MA MB"
  using assms(1)
  by (simp add: pair_ok_def side_ok_def flow_def letter_ok_def current_ok_def previous_ok_def leads_def Let_def alikeD [OF assms(2)])

lemma talk_ok_alike:
  assumes "talk_ok P W ids T" "alike (tk_session T s) e"
  shows "talk_ok P W ids (T\<lparr>tk_session := (tk_session T)(s := e)\<rparr>)"
  using assms pair_ok_alike by (fastforce simp: talk_ok_side [where s = s])

text \<open>The responder's session depends on the clock in its bookkeeping only.\<close>

lemma initSession_later:
  assumes "initSession P t f IB False OB (Some SB) K (Some base) None rid = Inr e"
  obtains e' where "initSession P t' f' IB False OB (Some SB) K (Some base) None rid = Inr e'" "alike e e'"
    "baseKey (indexInfo e') = base" "baseKeyType (indexInfo e') \<noteq> OURS"
  using assms by (auto simp: initSession_def Let_def res_simps alike_def)

section \<open>The refinement\<close>

text \<open>What the one side put into the header of its prekey messages.\<close>

record contact =
  ct_pending :: pending_pre_key
  ct_rid :: nat

definition contact_ok :: "contact \<Rightarrow> bool" where
  "contact_ok c \<longleftrightarrow> 1 \<le> ct_rid c \<and> ct_rid c < 2 ^ 32 \<and> length (pp_baseKey (ct_pending c)) = 33 \<and>
     (\<forall>i. pp_preKeyId (ct_pending c) = Some i \<longrightarrow> i \<le> 0xffffff) \<and> pp_signedKeyId (ct_pending c) \<le> 0xffffff"

text \<open>A parcel carries a letter of the talk; those of the side that made contact may be prekey messages.\<close>

definition parcel_ok :: "wire \<Rightarrow> contact \<Rightarrow> (bool \<Rightarrow> key_pair) \<Rightarrow> bool \<Rightarrow> parcel \<Rightarrow> letter \<Rightarrow> bool" where
  "parcel_ok W c ids s p l \<longleftrightarrow> pc_data p = lt_data l \<and> pc_key p = lt_key l \<and>
     (em_type (pc_message p) = 1 \<and> em_body (pc_message p) = lt_buf l \<or>
      \<not> s \<and> em_type (pc_message p) = 3 \<and> lt_buf l \<noteq> [] \<and> length (lt_buf l) < 2 ^ 32 \<and>
      em_body (pc_message p) = prekey_body W (ct_rid c) (ct_pending c) (pubKey (ids True)) (lt_buf l))"

text \<open>The other side has its session, or will make it from the first prekey message it reads.\<close>

definition answers :: "'s signal_storage \<Rightarrow> protocol_address \<Rightarrow> contact \<Rightarrow> session_entry \<Rightarrow> 's \<Rightarrow> bool" where
  "answers S a c e s \<longleftrightarrow> one_session S a e s \<and> pendingPreKey e = None \<and>
     baseKey (indexInfo e) = pp_baseKey (ct_pending c) \<and> baseKeyType (indexInfo e) \<noteq> OURS"

definition expects ::
  "prims \<Rightarrow> 's signal_storage \<Rightarrow> protocol_address \<Rightarrow> (bool \<Rightarrow> key_pair) \<Rightarrow> contact \<Rightarrow> session_entry \<Rightarrow> 's \<Rightarrow> bool" where
  "expects P S a ids c e s \<longleftrightarrow> loadSession S (address_toString a) s = Inr None \<and>
     (\<exists>SB OB t f. loadSignedPreKey S (pp_signedKeyId (ct_pending c)) s = Inr (Some SB) \<and>
       (case pp_preKeyId (ct_pending c) of None \<Rightarrow> OB = None | Some i \<Rightarrow> loadPreKey S i s = Inr OB \<and> OB \<noteq> None) \<and>
       initSession P t f (ids False) False OB (Some SB) (pubKey (ids True)) (Some (pp_baseKey (ct_pending c))) None (Some (ct_rid c)) = Inr e)"

definition mirrors ::
  "'s signal_storage \<Rightarrow> ('s \<Rightarrow> bool) \<Rightarrow> prims \<Rightarrow> wire \<Rightarrow> (bool \<Rightarrow> protocol_address) \<Rightarrow> (bool \<Rightarrow> key_pair) \<Rightarrow> contact \<Rightarrow>
     's exchange \<Rightarrow> talk \<Rightarrow> bool" where
  "mirrors S good P W addr ids c X T \<longleftrightarrow> talk_ok P W ids T \<and> tk_used T = ex_used X \<and>
     (\<forall>s. device_ok S good (addr (\<not> s)) (ids s) (pubKey (ids (\<not> s))) (ex_store X s)) \<and>
     (\<forall>s. list_all2 (parcel_ok W c ids s) (ex_mail X s) (tk_mail T s)) \<and>
     getOurRegistrationId S (ex_store X True) = Inr (ct_rid c) \<and>
     one_session S (addr False) (tk_session T True) (ex_store X True) \<and>
     pendingPreKey (tk_session T True) \<in> {None, Some (ct_pending c)} \<and>
     (answers S (addr True) c (tk_session T False) (ex_store X False) \<or>
      expects P S (addr True) ids c (tk_session T False) (ex_store X False) \<and>
      pendingPreKey (tk_session T True) = Some (ct_pending c) \<and> ex_mail X True = [] \<and>
      (\<forall>p\<in>set (ex_mail X False). em_type (pc_message p) = 3))"

definition exchange_ok ::
  "'s signal_storage \<Rightarrow> ('s \<Rightarrow> bool) \<Rightarrow> prims \<Rightarrow> wire \<Rightarrow> (bool \<Rightarrow> protocol_address) \<Rightarrow> (bool \<Rightarrow> key_pair) \<Rightarrow> contact \<Rightarrow>
     's exchange \<Rightarrow> bool" where
  "exchange_ok S good P W addr ids c X \<longleftrightarrow> (\<exists>T. mirrors S good P W addr ids c X T)"

lemma expects_closed: "expects P S a ids c e s \<Longrightarrow> open_session S a s = None"
  by (simp add: expects_def open_session_def)

lemma answers_open: "answers S a c e s \<Longrightarrow> open_session S a s = Some e"
  by (auto simp: answers_def one_session_open)

lemma talk_ok_remote: "talk_ok P W ids T \<Longrightarrow> remoteIdentityKey (indexInfo (tk_session T s)) = pubKey (ids (\<not> s))"
  by (auto simp: talk_ok_side [where s = s] pair_ok_def side_ok_def)

lemma list_all2_remove_nth: "list_all2 R xs ys \<Longrightarrow> list_all2 R (remove_nth i xs) (remove_nth i ys)"
  unfolding remove_nth_def by (intro list_all2_appendI list_all2_takeI list_all2_dropI)

text \<open>The session of the side that acts.\<close>

lemma mirrors_session:
  assumes "mirrors S good P W addr ids c X T" "open_session S (addr (\<not> s)) (ex_store X s) \<noteq> None"
  shows "one_session S (addr (\<not> s)) (tk_session T s) (ex_store X s)" "open_session S (addr (\<not> s)) (ex_store X s) = Some (tk_session T s)"
    "\<not> s \<Longrightarrow> answers S (addr True) c (tk_session T False) (ex_store X False)"
    "if s then pendingPreKey (tk_session T s) \<in> {None, Some (ct_pending c)} else pendingPreKey (tk_session T s) = None"
proof -
  have B: "answers S (addr True) c (tk_session T False) (ex_store X False)" if "\<not> s"
    using assms that by (auto simp: mirrors_def dest: expects_closed)
  then show "\<not> s \<Longrightarrow> answers S (addr True) c (tk_session T False) (ex_store X False)" .
  show one: "one_session S (addr (\<not> s)) (tk_session T s) (ex_store X s)"
    using B assms(1) by (cases s) (auto simp: mirrors_def answers_def)
  then show "open_session S (addr (\<not> s)) (ex_store X s) = Some (tk_session T s)" by (rule one_session_open)
  show "if s then pendingPreKey (tk_session T s) \<in> {None, Some (ct_pending c)} else pendingPreKey (tk_session T s) = None"
    using B assms(1) by (cases s) (auto simp: mirrors_def answers_def)
qed

text \<open>What the session of the other side has in its bookkeeping.\<close>

definition answers_info :: "contact \<Rightarrow> session_entry \<Rightarrow> bool" where
  "answers_info c e \<longleftrightarrow> pendingPreKey e = None \<and> baseKey (indexInfo e) = pp_baseKey (ct_pending c) \<and> baseKeyType (indexInfo e) \<noteq> OURS"

context contact_store
begin

lemma first_read_run:
  assumes P: "prims_ok P" "wire_ok W" "wire_sizes W" and E: "same_env P W E" and c: "contact_ok c"
    and dev: "device_ok S good a (ids False) (pubKey (ids True)) s" and new: "expects P S a ids c e s"
    and sizes: "length (pubKey (ids True)) = 33" "buf \<noteq> []" "length buf < 2 ^ 32"
    and dec: "\<And>e0. alike e e0 \<Longrightarrow> \<exists>e'. doDecryptWhisperMessage P W (Inr (ids False)) (ev_fresh E 0) buf e0 = Inr (data, e') \<and> Q e'"
  obtains r e' e0 s1 where "stored_ok r" "only_session e' r" "Q e'" "device_ok S good a (ids False) (pubKey (ids True)) s1" "answers_info c e'"
    "decryptPreKeyWhisperMessage E (new_SessionCipher S a age) (prekey_body W (ct_rid c) (ct_pending c) (pubKey (ids True)) buf) s =
       (let s2 = snd (storeSession S (address_toString a) r s1) in
        case pp_preKeyId (ct_pending c) of None \<Rightarrow> (Inr data, s2)
        | Some i \<Rightarrow> (map_sum id (\<lambda>_. data) (fst (removePreKey S i s2)), snd (removePreKey S i s2)))"
    "entry_ok e0" "doDecryptWhisperMessage P W (Inr (ids False)) (ev_fresh E 0) buf e0 = Inr (data, e')"
    "s1 = snd (isTrustedIdentity S (addr_id a) (pubKey (ids True)) Receiving_Direction s)"
proof -
  note env = same_envD [OF E]
  let ?p = "ct_pending c" and ?K = "pubKey (ids True)"
  have C: "1 \<le> ct_rid c" "ct_rid c < 2 ^ 32" "\<forall>i. pp_preKeyId ?p = Some i \<longrightarrow> i \<le> 0xffffff" "pp_signedKeyId ?p \<le> 0xffffff"
    "length (pp_baseKey ?p) = 33"
    using c by (simp_all add: contact_ok_def)
  obtain SB OB t f where X: "loadSession S (address_toString a) s = Inr None" "loadSignedPreKey S (pp_signedKeyId ?p) s = Inr (Some SB)"
    "case pp_preKeyId ?p of None \<Rightarrow> OB = None | Some i \<Rightarrow> loadPreKey S i s = Inr OB \<and> OB \<noteq> None"
    "initSession P t f (ids False) False OB (Some SB) ?K (Some (pp_baseKey ?p)) None (Some (ct_rid c)) = Inr e"
    using new unfolding expects_def by blast
  obtain e0 where e0: "initSession P (ev_now E) (ev_fresh E 0) (ids False) False OB (Some SB) ?K (Some (pp_baseKey ?p)) None (Some (ct_rid c)) = Inr e0"
    "alike e e0" "baseKey (indexInfo e0) = pp_baseKey ?p" "baseKeyType (indexInfo e0) \<noteq> OURS"
    by (rule initSession_later [OF X(4)])
  obtain e' where e': "doDecryptWhisperMessage P W (Inr (ids False)) (ev_fresh E 0) buf e0 = Inr (data, e')" "Q e'" using dec [OF e0(2)] by blast
  note ok = doDecrypt_ok [OF env(4) initSession_ok(1) [OF env(4) e0(1)] e'(1)]
  obtain s1 where s1: "isTrustedIdentity S (addr_id a) ?K Receiving_Direction s = (Inr True, s1)" "device_ok S good a (ids False) ?K s1"
    by (rule device_trust [OF dev])
  have dev': "good s" "getOurIdentity S s = Inr (ids False)" using dev by (simp_all add: device_ok_def)
  have new': "getSession (pp_baseKey ?p) (case None of None \<Rightarrow> new_session_record | Some r \<Rightarrow> r) = Inr None"
    by (simp add: getSession_def new_session_record_def)
  obtain r where r: "stored_ok r" "None = None \<longrightarrow> only_session e' r"
    and run: "decryptPreKeyWhisperMessage E (new_SessionCipher S a age) (prekey_body W (ct_rid c) ?p ?K buf) s =
       (let s2 = snd (storeSession S (address_toString a) r s1) in
        case pp_preKeyId ?p of None \<Rightarrow> (Inr data, s2)
        | Some i \<Rightarrow> (map_sum id (\<lambda>_. data) (fst (removePreKey S i s2)), snd (removePreKey S i s2)))"
    by (rule decryptPreKey_run [OF env(1) _ _ dev'(1), where C = "new_SessionCipher S a age" and body = "prekey_body W (ct_rid c) ?p ?K buf"
          and rid = "ct_rid c" and pid = "pp_preKeyId ?p" and j = "pp_signedKeyId ?p" and base = "pp_baseKey ?p" and ik = ?K and buf = buf
          and loaded = None and ?s1.0 = s1 and OB = OB and SB = SB and IB = "ids False" and e = e0 and data = data and e' = e'])
      (use env P C sizes X(1-3) new' s1(1) dev'(2) e0(1) e'(1) in \<open>simp_all add: prekey_body_def\<close>)
  have "answers_info c e'" using ok(2,3) e0(3,4) by (simp add: answers_info_def same_session_def)
  moreover have "only_session e' r" using r(2) by simp
  moreover have "s1 = snd (isTrustedIdentity S (addr_id a) ?K Receiving_Direction s)" using s1(1) by simp
  ultimately show thesis using r(1) e'(2,1) s1(2) run initSession_ok(1) [OF env(4) e0(1)] by (intro that) simp_all
qed

text \<open>A prekey message whose key was used is refused, whatever the storage answers.\<close>

lemma second_read_throws:
  assumes W: "wire_ok W" "wire_sizes W" and E: "same_env P W E" and c: "contact_ok c"
    and r: "loadSession S (address_toString a) s = Inr (Some r)" "only_session e' r" "entry_ok e'" and info: "answers_info c e'"
    and sizes: "length (pubKey (ids True)) = 33" "buf \<noteq> []" "length buf < 2 ^ 32"
    and used: "\<forall>our. doDecryptWhisperMessage P W our (ev_fresh E 0) buf e' = Inl (MessageCounterError ''Key used already or never filled'')"
  obtains err where "fst (decryptPreKeyWhisperMessage E (new_SessionCipher S a age)
      (prekey_body W (ct_rid c) (ct_pending c) (pubKey (ids True)) buf) s) = Inl err"
proof -
  let ?p = "ct_pending c" and ?K = "pubKey (ids True)"
  note env = same_envD [OF E]
  have C: "1 \<le> ct_rid c" "ct_rid c < 2 ^ 32" "\<forall>i. pp_preKeyId ?p = Some i \<longrightarrow> i \<le> 0xffffff" "pp_signedKeyId ?p \<le> 0xffffff"
    "length (pp_baseKey ?p) = 33"
    using c by (simp_all add: contact_ok_def)
  note frame = prekey_frame [OF W prekey_body_def C(1-4) C(5) sizes]
  let ?im = "\<lparr>im_registrationId = Some (ct_rid c), im_identityKey = ?K, im_baseKey = pp_baseKey ?p, im_preKeyId = pp_preKeyId ?p,
          im_signedPreKeyId = Some (pp_signedKeyId ?p), im_message = buf\<rparr>"
  have found: "getSession (pp_baseKey ?p) r = Inr (Some e')"
    using only_simps(5) [OF r(2)] info by (simp add: answers_info_def)
  have copy: "SessionEntry_deserialize (SessionEntry_serialize e') = Inr e'" by (rule entry_roundtrip [OF entry_ok_wf [OF r(3)]])
  have valid: "assertValidIncomingPreKeyMessage (js_of_incoming ?im) = Inr ()" using frame(5) by (rule iffD2 [OF assert_incoming])
  obtain x s4 where x: "isTrusted_or_throw S a ?K Receiving_Direction s = (x, s4)" by fastforce
  have run: "decryptPreKeyWhisperMessage E (new_SessionCipher S a age) (prekey_body W (ct_rid c) ?p ?K buf) s =
      (case x of Inl err \<Rightarrow> (Inl err, s4) | Inr _ \<Rightarrow> (Inl (MessageCounterError ''Key used already or never filled''), s4))"
  proof (cases x)
    case (Inl err)
    then have "initIncoming E S a r ?im s = (Inl err, s4)"
      using valid x by (simp add: initIncoming_def Let_def sbind_slift sbind_run)
    then show ?thesis using Inl frame(1-4) r(1) env(3)
      by (simp add: decryptPreKeyWhisperMessage_def Let_def getRecord_def sbind_slift sbind_sread sbind_run guard_that_def)
  next
    case (Inr u)
    then have "initIncoming E S a r ?im s = (Inr (r, None), s4)"
      using valid x found by (simp add: initIncoming_def Let_def sbind_slift sbind_run sret_def)
    then show ?thesis using Inr frame(1-4) r(1) found copy used env(2,3)
      by (simp add: decryptPreKeyWhisperMessage_def Let_def getRecord_def sbind_slift sbind_sread sbind_run guard_that_def)
  qed
  show thesis using run that by (cases x) auto
qed

text \<open>
  The decryption stores the advanced session before it removes the one-time prekey. When the removal
  throws, the plaintext is lost: the same message cannot be decrypted again.
\<close>

lemma plaintext_lost:
  assumes P: "prims_ok P" "wire_ok W" "wire_sizes W" and E: "same_env P W E" and c: "contact_ok c"
    and dev: "device_ok S good a (ids False) (pubKey (ids True)) s" and new: "expects P S a ids c e s"
    and sizes: "length (pubKey (ids True)) = 33" "buf \<noteq> []" "length buf < 2 ^ 32"
    and dec: "\<And>e0. alike e e0 \<Longrightarrow> \<exists>e'. doDecryptWhisperMessage P W (Inr (ids False)) (ev_fresh E 0) buf e0 = Inr (data, e')"
    and i: "pp_preKeyId (ct_pending c) = Some i"
    and throws: "\<And>r. fst (removePreKey S i (snd (storeSession S (address_toString a) r
        (snd (isTrustedIdentity S (addr_id a) (pubKey (ids True)) Receiving_Direction s))))) = Inl err"
    and E2: "same_env P W E2"
  defines "body \<equiv> prekey_body W (ct_rid c) (ct_pending c) (pubKey (ids True)) buf"
  shows "\<exists>s' err2. decryptPreKeyWhisperMessage E (new_SessionCipher S a age) body s = (Inl err, s') \<and>
    fst (decryptPreKeyWhisperMessage E2 (new_SessionCipher S a age2) body s') = Inl err2"
proof -
  let ?p = "ct_pending c" and ?K = "pubKey (ids True)"
  obtain r e' e0 where R: "stored_ok r" "only_session e' r" "answers_info c e'"
    "decryptPreKeyWhisperMessage E (new_SessionCipher S a age) body s =
       (let s2 = snd (storeSession S (address_toString a) r (snd (isTrustedIdentity S (addr_id a) ?K Receiving_Direction s))) in
        case pp_preKeyId ?p of None \<Rightarrow> (Inr data, s2)
        | Some i \<Rightarrow> (map_sum id (\<lambda>_. data) (fst (removePreKey S i s2)), snd (removePreKey S i s2)))"
    "entry_ok e0" "doDecryptWhisperMessage P W (Inr (ids False)) (ev_fresh E 0) buf e0 = Inr (data, e')"
    "device_ok S good a (ids False) ?K (snd (isTrustedIdentity S (addr_id a) ?K Receiving_Direction s))"
    unfolding body_def
    by (rule first_read_run [OF P E c dev new sizes, where Q = "\<lambda>_. True" and data = data]) (use dec that in auto)
  let ?s2 = "snd (storeSession S (address_toString a) r (snd (isTrustedIdentity S (addr_id a) ?K Receiving_Direction s)))"
  let ?s3 = "snd (removePreKey S i ?s2)"
  have first: "decryptPreKeyWhisperMessage E (new_SessionCipher S a age) body s = (Inl err, ?s3)"
    using R(4) i throws [of r] by (simp add: Let_def)
  have load: "loadSession S (address_toString a) ?s3 = Inr (Some r)"
    using device_store(2) [OF R(7,1), of a] remove_load by simp
  have e': "entry_ok e'" by (rule doDecrypt_ok(1) [OF same_envD(4) [OF E2] R(5,6)])
  have used: "\<forall>our. doDecryptWhisperMessage P W our (ev_fresh E2 0) buf e' = Inl (MessageCounterError ''Key used already or never filled'')"
    using replay_core [OF same_envD(4) [OF E2] R(5,6)] by blast
  obtain err2 where "fst (decryptPreKeyWhisperMessage E2 (new_SessionCipher S a age2) body ?s3) = Inl err2"
    unfolding body_def
    by (rule second_read_throws [where ids = ids, OF P(2,3) E2 c load R(2) e' R(3) sizes used])
  with first show ?thesis by auto
qed

end

context exchange_store
begin

lemma post_mirrors:
  assumes P: "prims_ok P" "wire_ok W" "wire_sizes W" and ids: "\<And>s. is_key_pair P (ids s)"
    and E: "same_env P W E" and M: "mirrors S good P W addr ids c X T" and may: "may_post S addr s data X"
  obtains X' T' where "post E S addr age s data X = Inr X'" "mirrors S good P W addr ids c X' T'"
    "\<exists>q. ex_mail X' (\<not> s) = ex_mail X (\<not> s) @ [q] \<and> pc_key q = ratchet_key (open_session S (addr (\<not> s)) (ex_store X' s))"
proof -
  have "open_session S (addr (\<not> s)) (ex_store X s) \<noteq> None" using may by (auto simp: may_post_def split: option.splits)
  note own = mirrors_session [OF M this]
  have D: "talk_ok P W ids T" "device_ok S good (addr (\<not> s)) (ids s) (pubKey (ids (\<not> s))) (ex_store X s)"
    "getOurRegistrationId S (ex_store X True) = Inr (ct_rid c)"
    using M by (simp_all add: mirrors_def)
  obtain ch where ch: "may_say s data T" "getChain (pubKey (eph_of (tk_session T s))) (tk_session T s) = Some ch"
    using may own(2) by (auto simp: may_post_def may_say_def split: option.splits)
  obtain buf e where e: "encryptMessage P W (ids s) data (tk_session T s) = Inr (buf, e)"
    "talk_ok P W ids (T\<lparr>tk_session := (tk_session T)(s := e),
      tk_mail := (tk_mail T)(\<not> s := tk_mail T (\<not> s) @ [new_letter (tk_session T s) data buf])\<rparr>)"
    "wire_sizes W \<longrightarrow> length buf < 2 ^ 32" "buf \<noteq> []" "eph_of e = eph_of (tk_session T s)"
    by (rule talk_speaks [OF P(1,2) D(1) ids ch])
  have reg: "pendingPreKey (tk_session T s) \<noteq> None \<longrightarrow> getOurRegistrationId S (ex_store X s) = Inr (ct_rid c)"
    using own(4) D(3) by (cases s) simp_all
  obtain em st where em: "encrypt E (new_SessionCipher S (addr (\<not> s)) age) data (ex_store X s) = (Inr em, st)"
    "device_ok S good (addr (\<not> s)) (ids s) (pubKey (ids (\<not> s))) st" "one_session S (addr (\<not> s)) e st"
    "getOurRegistrationId S st = getOurRegistrationId S (ex_store X s)" "em_type em = (if pendingPreKey (tk_session T s) = None then 1 else 3)"
    "em_body em = (case pendingPreKey (tk_session T s) of None \<Rightarrow> buf | Some p \<Rightarrow> prekey_body W (ct_rid c) p (pubKey (ids s)) buf)"
    by (rule encrypt_one [OF E D(2) own(1) talk_ok_remote [OF D(1)] e(1) reg])
  have side: "entry_ok (tk_session T s)" using D(1) by (auto simp: talk_ok_side [where s = s] pair_ok_def side_ok_def)
  note idx = encryptMessage_ok(2,3) [OF same_envD(4) [OF E] side e(1)]
  let ?p = "\<lparr>pc_message = em, pc_data = data, pc_key = pubKey (eph_of (tk_session T s))\<rparr>" and ?l = "new_letter (tk_session T s) data buf"
  let ?X = "\<lambda>st p. X\<lparr>ex_store := (ex_store X)(s := st), ex_mail := (ex_mail X)(\<not> s := ex_mail X (\<not> s) @ [p])\<rparr>"
  have "parcel_ok W c ids (\<not> s) ?p ?l"
    using em(5,6) own(4) e(3,4) P(3) by (cases s) (auto simp: parcel_ok_def new_letter_def)
  moreover have "em_type em = 3" if "s" "pendingPreKey (tk_session T True) = Some (ct_pending c)" using em(5) that by simp
  ultimately have "mirrors S good P W addr ids c (?X st ?p)
      (T\<lparr>tk_session := (tk_session T)(s := e), tk_mail := (tk_mail T)(\<not> s := tk_mail T (\<not> s) @ [?l])\<rparr>)"
    using M e(2) em(2-4) own(3) idx
    by (cases s) (auto simp: mirrors_def all_bool_eq answers_def same_session_def list_all2_appendI)
  moreover have "post E S addr age s data X = Inr (?X st ?p)" using em(1) own(2) by (simp add: post_def ratchet_key_def)
  moreover have "pc_key ?p = ratchet_key (open_session S (addr (\<not> s)) st)"
    using one_session_open [OF em(3)] e(5) by (simp add: ratchet_key_def)
  ultimately show thesis by (intro that [of "?X st ?p"]) simp_all
qed

text \<open>Removing the one-time prekey leaves the device as it was.\<close>

lemma consume:
  assumes "device_ok S good a I K s" "one_session S a e s"
  obtains s' where "(case i of None \<Rightarrow> (Inr x, s) | Some n \<Rightarrow> (map_sum id (\<lambda>_. x) (fst (removePreKey S n s)), snd (removePreKey S n s))) =
      (Inr x, s')"
    "device_ok S good a I K s'" "one_session S a e s'"
proof (cases i)
  case None
  with assms that show thesis by simp
next
  case (Some n)
  have "device_ok S good a I K (snd (removePreKey S n s))" "one_session S a e (snd (removePreKey S n s))"
    using assms remove_good remove_keys remove_trust remove_load by (simp_all add: device_ok_def one_session_def)
  then show thesis using that Some remove_total [of n s] by simp
qed

text \<open>The first prekey message that is read makes the session.\<close>

lemma first_read:
  assumes P: "prims_ok P" "wire_ok W" "wire_sizes W" and E: "same_env P W E" and c: "contact_ok c"
    and dev: "device_ok S good a (ids False) (pubKey (ids True)) s" and new: "expects P S a ids c e s"
    and sizes: "length (pubKey (ids True)) = 33" "buf \<noteq> []" "length buf < 2 ^ 32"
    and dec: "\<And>e0. alike e e0 \<Longrightarrow> \<exists>e'. doDecryptWhisperMessage P W (Inr (ids False)) (ev_fresh E 0) buf e0 = Inr (data, e') \<and> Q e'"
  obtains s' e' where "decryptPreKeyWhisperMessage E (new_SessionCipher S a age)
      (prekey_body W (ct_rid c) (ct_pending c) (pubKey (ids True)) buf) s = (Inr data, s')"
    "device_ok S good a (ids False) (pubKey (ids True)) s'" "answers S a c e' s'" "Q e'"
proof -
  let ?K = "pubKey (ids True)" and ?p = "ct_pending c"
  obtain r e' e0 s1 where R: "stored_ok r" "only_session e' r" "Q e'" "device_ok S good a (ids False) ?K s1"
    "answers_info c e'"
    and run: "decryptPreKeyWhisperMessage E (new_SessionCipher S a age) (prekey_body W (ct_rid c) ?p ?K buf) s =
       (let s2 = snd (storeSession S (address_toString a) r s1) in
        case pp_preKeyId ?p of None \<Rightarrow> (Inr data, s2)
        | Some i \<Rightarrow> (map_sum id (\<lambda>_. data) (fst (removePreKey S i s2)), snd (removePreKey S i s2)))"
    by (rule first_read_run [OF P E c dev new sizes dec])
  let ?s2 = "snd (storeSession S (address_toString a) r s1)"
  note kept = device_store [OF R(4,1), of a]
  have one: "one_session S a e' ?s2" using kept(2) R(2) by (auto simp: one_session_def)
  obtain s' where consumed: "(case pp_preKeyId ?p of None \<Rightarrow> (Inr data, ?s2)
      | Some n \<Rightarrow> (map_sum id (\<lambda>_. data) (fst (removePreKey S n ?s2)), snd (removePreKey S n ?s2))) = (Inr data, s')"
    and s': "device_ok S good a (ids False) ?K s'" "one_session S a e' s'"
    by (rule consume [OF kept(1) one])
  have "decryptPreKeyWhisperMessage E (new_SessionCipher S a age) (prekey_body W (ct_rid c) ?p ?K buf) s = (Inr data, s')"
    unfolding run Let_def by (rule consumed)
  moreover have "answers S a c e' s'" using s'(2) R(5) by (simp add: answers_def answers_info_def)
  ultimately show thesis using s'(1) R(3) that by blast
qed

text \<open>A message for a session that is there.\<close>

lemma read_established:
  assumes P: "prims_ok P" "wire_ok W" "wire_sizes W" and E: "same_env P W E" and c: "contact_ok c"
    and M: "mirrors S good P W addr ids c X T" and opened: "open_session S (addr (\<not> s)) (ex_store X s) \<noteq> None"
    and parcel: "parcel_ok W c ids s p l" and len: "length (pubKey (ids True)) = 33"
    and dec: "doDecryptWhisperMessage P W (Inr (ids s)) (ev_fresh E 0) (lt_buf l) (tk_session T s) = Inr (lt_data l, e)"
  obtains st u where "read_message E (new_SessionCipher S (addr (\<not> s)) age) (pc_message p) (ex_store X s) = (Inr (lt_data l), st)"
    "device_ok S good (addr (\<not> s)) (ids s) (pubKey (ids (\<not> s))) st"
    "one_session S (addr (\<not> s)) (e\<lparr>indexInfo := (indexInfo (tk_session T s))\<lparr>ii_used := u\<rparr>\<rparr>) st"
    "getOurRegistrationId S st = getOurRegistrationId S (ex_store X s)" "pendingPreKey e = None" "indexInfo e = indexInfo (tk_session T s)"
proof -
  note own = mirrors_session [OF M opened]
  have D: "talk_ok P W ids T" "device_ok S good (addr (\<not> s)) (ids s) (pubKey (ids (\<not> s))) (ex_store X s)"
    using M by (simp_all add: mirrors_def)
  have side: "entry_ok (tk_session T s)" using D(1) by (auto simp: talk_ok_side [where s = s] pair_ok_def side_ok_def)
  note ok = doDecrypt_ok [OF same_envD(4) [OF E] side dec]
  have idx: "indexInfo e = indexInfo (tk_session T s)" using ok(2) by (simp add: same_session_def)
  show thesis
  proof (cases "em_type (pc_message p) = 3")
    case False
    then have body: "em_body (pc_message p) = lt_buf l" using parcel by (simp add: parcel_ok_def)
    obtain st where st: "decryptWhisperMessage E (new_SessionCipher S (addr (\<not> s)) age) (lt_buf l) (ex_store X s) = (Inr (lt_data l), st)"
      "device_ok S good (addr (\<not> s)) (ids s) (pubKey (ids (\<not> s))) st"
      "one_session S (addr (\<not> s)) (e\<lparr>indexInfo := (indexInfo e)\<lparr>ii_used := ev_now E\<rparr>\<rparr>) st"
      "getOurRegistrationId S st = getOurRegistrationId S (ex_store X s)"
      by (rule decrypt_one [OF E D(2) own(1) talk_ok_remote [OF D(1)] dec])
    show thesis by (rule that [OF _ st(2) _ st(4) ok(3) idx]) (use False body st(1,3) idx in \<open>simp_all add: read_message_def\<close>)
  next
    case True
    then have s: "\<not> s" and body: "em_body (pc_message p) = prekey_body W (ct_rid c) (ct_pending c) (pubKey (ids True)) (lt_buf l)"
      and sizes: "lt_buf l \<noteq> []" "length (lt_buf l) < 2 ^ 32"
      using parcel by (simp_all add: parcel_ok_def)
    have C: "1 \<le> ct_rid c" "ct_rid c < 2 ^ 32" "\<forall>i. pp_preKeyId (ct_pending c) = Some i \<longrightarrow> i \<le> 0xffffff"
      "pp_signedKeyId (ct_pending c) \<le> 0xffffff" "length (pp_baseKey (ct_pending c)) = 33"
      using c by (simp_all add: contact_ok_def)
    have base: "baseKey (indexInfo (tk_session T s)) = pp_baseKey (ct_pending c)" "baseKeyType (indexInfo (tk_session T s)) \<noteq> OURS"
      using own(3) s by (simp_all add: answers_def)
    have len': "length (pubKey (ids (\<not> s))) = 33" using s len by simp
    obtain st where st: "decryptPreKeyWhisperMessage E (new_SessionCipher S (addr (\<not> s)) age)
        (prekey_body W (ct_rid c) (ct_pending c) (pubKey (ids (\<not> s))) (lt_buf l)) (ex_store X s) = (Inr (lt_data l), st)"
      "device_ok S good (addr (\<not> s)) (ids s) (pubKey (ids (\<not> s))) st" "one_session S (addr (\<not> s)) e st"
      "getOurRegistrationId S st = getOurRegistrationId S (ex_store X s)"
      by (rule decryptPreKey_one [OF E P(2,3) D(2) own(1) C len' sizes base dec])
    have same: "e\<lparr>indexInfo := (indexInfo (tk_session T s))\<lparr>ii_used := ii_used (indexInfo e)\<rparr>\<rparr> = e" using idx by (cases e) simp
    show thesis by (rule that [of st "ii_used (indexInfo e)", OF _ st(2) _ st(4) ok(3) idx], use True body s st(1) in \<open>simp add: read_message_def\<close>) (unfold same, rule st(3))
  qed
qed

lemma mirrors_other:
  assumes "mirrors S good P W addr ids c X T" "i < length (ex_mail X s)"
  shows "open_session S (addr s) (ex_store X (\<not> s)) = Some (tk_session T (\<not> s))"
  using assms by (cases s) (auto simp: mirrors_def one_session_open answers_open)

text \<open>What the side that fetches relies on.\<close>

lemma fetch_facts:
  assumes E: "same_env P W E" and M: "mirrors S good P W addr ids c X T" and may: "may_fetch E S addr s i X"
  shows "i < length (ex_mail X s)" "i < length (tk_mail T s)" "parcel_ok W c ids s (ex_mail X s ! i) (tk_mail T s ! i)"
    "pc_data (ex_mail X s ! i) = lt_data (tk_mail T s ! i)"
    "lt_key (tk_mail T s ! i) = pubKey (eph_of (tk_session T (\<not> s))) \<or>
      (case open_session S (addr (\<not> s)) (ex_store X s) of None \<Rightarrow> False | Some e \<Rightarrow> getChain (lt_key (tk_mail T s ! i)) e \<noteq> None)"
    "is_key_pair P (ev_fresh E 0)" "pubKey (ev_fresh E 0) \<notin> set (tk_used T)"
    "list_all2 (parcel_ok W c ids s) (remove_nth i (ex_mail X s)) (remove_nth i (tk_mail T s))"
proof -
  show i: "i < length (ex_mail X s)" using may by (simp add: may_fetch_def)
  have D: "tk_used T = ex_used X" "list_all2 (parcel_ok W c ids s) (ex_mail X s) (tk_mail T s)"
    using M by (simp_all add: mirrors_def)
  show parcel: "parcel_ok W c ids s (ex_mail X s ! i) (tk_mail T s ! i)" and "i < length (tk_mail T s)"
    using list_all2_nthD [OF D(2) i] list_all2_lengthD [OF D(2)] i by simp_all
  show "pc_data (ex_mail X s ! i) = lt_data (tk_mail T s ! i)" using parcel by (simp add: parcel_ok_def)
  have key: "pc_key (ex_mail X s ! i) = lt_key (tk_mail T s ! i)" using parcel by (simp add: parcel_ok_def)
  show "lt_key (tk_mail T s ! i) = pubKey (eph_of (tk_session T (\<not> s))) \<or>
      (case open_session S (addr (\<not> s)) (ex_store X s) of None \<Rightarrow> False | Some e \<Rightarrow> getChain (lt_key (tk_mail T s ! i)) e \<noteq> None)"
    using may mirrors_other [OF M i] unfolding may_fetch_def key ratchet_key_def by simp
  show "is_key_pair P (ev_fresh E 0)" "pubKey (ev_fresh E 0) \<notin> set (tk_used T)"
    using same_envD(5) [OF E] may D(1) by (simp_all add: may_fetch_def)
  show "list_all2 (parcel_ok W c ids s) (remove_nth i (ex_mail X s)) (remove_nth i (tk_mail T s))"
    by (rule list_all2_remove_nth [OF D(2)])
qed

lemma fetch_established:
  assumes P: "prims_ok P" "wire_ok W" "wire_sizes W" and len: "length (pubKey (ids True)) = 33" and c: "contact_ok c"
    and E: "same_env P W E" and M: "mirrors S good P W addr ids c X T" and may: "may_fetch E S addr s i X"
    and False: "open_session S (addr (\<not> s)) (ex_store X s) \<noteq> None"
  obtains X' T' where "fetch E S addr age s i X = Inr (pc_data (ex_mail X s ! i), X')" "mirrors S good P W addr ids c X' T'"
proof -
  let ?p = "ex_mail X s ! i" and ?l = "tk_mail T s ! i" and ?g = "ev_fresh E 0"
  let ?T = "\<lambda>e. T\<lparr>tk_session := (tk_session T)(s := e), tk_mail := (tk_mail T)(s := remove_nth i (tk_mail T s)),
      tk_used := pubKey ?g # tk_used T\<rparr>"
  let ?X = "\<lambda>st. X\<lparr>ex_store := (ex_store X)(s := st), ex_mail := (ex_mail X)(s := remove_nth i (ex_mail X s)),
      ex_used := pubKey ?g # ex_used X\<rparr>"
  note F = fetch_facts [OF E M may]
  have D: "talk_ok P W ids T" using M by (simp add: mirrors_def)
  note own = mirrors_session [OF M False]
  have "may_hear P s i ?g T" using F(2,5,6,7) own(2) by (simp add: may_hear_def)
  from talk_opens [OF P(1,2) D this] obtain e where
    e: "doDecryptWhisperMessage P W (Inr (ids s)) ?g (lt_buf ?l) (tk_session T s) = Inr (lt_data ?l, e)" "talk_ok P W ids (?T e)" .
  obtain st u where st: "read_message E (new_SessionCipher S (addr (\<not> s)) age) (pc_message ?p) (ex_store X s) = (Inr (lt_data ?l), st)"
    "device_ok S good (addr (\<not> s)) (ids s) (pubKey (ids (\<not> s))) st"
    "one_session S (addr (\<not> s)) (e\<lparr>indexInfo := (indexInfo (tk_session T s))\<lparr>ii_used := u\<rparr>\<rparr>) st"
    "getOurRegistrationId S st = getOurRegistrationId S (ex_store X s)" "pendingPreKey e = None" "indexInfo e = indexInfo (tk_session T s)"
    by (rule read_established [OF P E c M False F(3) len e(1)])
  let ?e = "e\<lparr>indexInfo := (indexInfo (tk_session T s))\<lparr>ii_used := u\<rparr>\<rparr>"
  have al: "alike (tk_session (?T e) s) ?e" using st(6) by (simp add: alike_def)
  have eq: "(?T e)\<lparr>tk_session := (tk_session (?T e))(s := ?e)\<rparr> = ?T ?e" by (cases T) simp
  have talk: "talk_ok P W ids (?T ?e)" using talk_ok_alike [OF e(2) al] unfolding eq .
  have "mirrors S good P W addr ids c (?X st) (?T ?e)"
    using M talk st(2-6) own(3) F(8,1) by (cases s) (auto simp: mirrors_def all_bool_eq answers_def remove_nth_def dest: in_set_takeD in_set_dropD)
  then show thesis using that st(1) by (simp add: fetch_def F(4))
qed

lemma fetch_first:
  assumes P: "prims_ok P" "wire_ok W" "wire_sizes W" and len: "length (pubKey (ids True)) = 33" and c: "contact_ok c"
    and E: "same_env P W E" and M: "mirrors S good P W addr ids c X T" and may: "may_fetch E S addr s i X"
    and True: "open_session S (addr (\<not> s)) (ex_store X s) = None"
  obtains X' T' where "fetch E S addr age s i X = Inr (pc_data (ex_mail X s ! i), X')" "mirrors S good P W addr ids c X' T'"
proof -
  let ?p = "ex_mail X s ! i" and ?l = "tk_mail T s ! i" and ?g = "ev_fresh E 0"
  let ?T = "\<lambda>e. T\<lparr>tk_session := (tk_session T)(s := e), tk_mail := (tk_mail T)(s := remove_nth i (tk_mail T s)),
      tk_used := pubKey ?g # tk_used T\<rparr>"
  let ?X = "\<lambda>st. X\<lparr>ex_store := (ex_store X)(s := st), ex_mail := (ex_mail X)(s := remove_nth i (ex_mail X s)),
      ex_used := pubKey ?g # ex_used X\<rparr>"
  note F = fetch_facts [OF E M may]
  have D: "talk_ok P W ids T" "device_ok S good (addr (\<not> s)) (ids s) (pubKey (ids (\<not> s))) (ex_store X s)"
    using M by (simp_all add: mirrors_def)
  have s: "\<not> s" and new: "expects P S (addr True) ids c (tk_session T False) (ex_store X False)"
    and three: "em_type (pc_message ?p) = 3"
    using True M F(1) by (cases s; auto simp: mirrors_def one_session_open answers_open)+
  then have body: "em_body (pc_message ?p) = prekey_body W (ct_rid c) (ct_pending c) (pubKey (ids True)) (lt_buf ?l)"
    and sizes: "lt_buf ?l \<noteq> []" "length (lt_buf ?l) < 2 ^ 32"
    using F(3) by (simp_all add: parcel_ok_def)
  have opens: "\<exists>e'. doDecryptWhisperMessage P W (Inr (ids False)) ?g (lt_buf ?l) e0 = Inr (lt_data ?l, e') \<and> talk_ok P W ids (?T e')"
    if "alike (tk_session T False) e0" for e0
  proof -
    let ?T0 = "T\<lparr>tk_session := (tk_session T)(s := e0)\<rparr>"
    have "talk_ok P W ids ?T0" using talk_ok_alike [OF D(1), of s e0] that s by simp
    moreover have "may_hear P s i ?g ?T0" using F(2,5,6,7) True s by (simp add: may_hear_def)
    ultimately obtain e' where "doDecryptWhisperMessage P W (Inr (ids s)) ?g (lt_buf (tk_mail ?T0 s ! i)) (tk_session ?T0 s) =
        Inr (lt_data (tk_mail ?T0 s ! i), e')"
      "talk_ok P W ids (?T0\<lparr>tk_session := (tk_session ?T0)(s := e'), tk_mail := (tk_mail ?T0)(s := remove_nth i (tk_mail ?T0 s)),
        tk_used := pubKey ?g # tk_used ?T0\<rparr>)"
      by (rule talk_opens [OF P(1,2)])
    then show ?thesis using s by auto
  qed
  have dev: "device_ok S good (addr True) (ids False) (pubKey (ids True)) (ex_store X False)" using D(2) s by simp
  obtain st e where st: "decryptPreKeyWhisperMessage E (new_SessionCipher S (addr True) age)
      (prekey_body W (ct_rid c) (ct_pending c) (pubKey (ids True)) (lt_buf ?l)) (ex_store X False) = (Inr (lt_data ?l), st)"
    "device_ok S good (addr True) (ids False) (pubKey (ids True)) st" "answers S (addr True) c e st" "talk_ok P W ids (?T e)"
    by (rule first_read [OF P E c dev new len sizes opens])
  have "mirrors S good P W addr ids c (?X st) (?T e)"
    using M st(2-4) F(8) s by (auto simp: mirrors_def all_bool_eq)
  then show thesis using that [of "?X st" "?T e"] st(1) s three body F(4) by (simp add: fetch_def read_message_def)
qed

lemma fetch_mirrors:
  assumes P: "prims_ok P" "wire_ok W" "wire_sizes W" and ids: "\<And>s. is_key_pair P (ids s)" and c: "contact_ok c"
    and E: "same_env P W E" and M: "mirrors S good P W addr ids c X T" and may: "may_fetch E S addr s i X"
  obtains X' T' where "fetch E S addr age s i X = Inr (pc_data (ex_mail X s ! i), X')" "mirrors S good P W addr ids c X' T'"
proof -
  have len: "length (pubKey (ids True)) = 33" by (rule is_key_pair_lengths(2) [OF prims_okD(4) [OF P(1)] ids])
  show thesis
    using fetch_established [OF P len c E M may, of age] fetch_first [OF P len c E M may, of age] that by metis
qed

text \<open>All runs.\<close>

lemma exchange_step_ok:
  assumes "prims_ok P" "wire_ok W" "wire_sizes W" "\<And>s. is_key_pair P (ids s)" "contact_ok c"
    and step: "exchange_step P W S addr X X'" and ok: "exchange_ok S good P W addr ids c X"
  shows "exchange_ok S good P W addr ids c X'"
proof -
  obtain T where T: "mirrors S good P W addr ids c X T" using ok by (auto simp: exchange_ok_def)
  from step show ?thesis
  proof cases
    case (Post E s data age)
    from post_mirrors [OF assms(1-4) Post(1) T Post(2), of age] Post(3) show ?thesis
      unfolding exchange_ok_def by (metis sum.inject(2))
  next
    case (Fetch E s i age data)
    from fetch_mirrors [OF assms(1-5) Fetch(1) T Fetch(2), of age] Fetch(3) show ?thesis
      unfolding exchange_ok_def by (metis prod.inject sum.inject(2))
  qed
qed

lemma exchange_reachable_ok:
  assumes "prims_ok P" "wire_ok W" "wire_sizes W" "\<And>s. is_key_pair P (ids s)" "contact_ok c"
    and "(exchange_step P W S addr)\<^sup>*\<^sup>* X X'" "exchange_ok S good P W addr ids c X"
  shows "exchange_ok S good P W addr ids c X'"
  using assms(6,7) by (induction rule: rtranclp_induct) (auto intro: exchange_step_ok [OF assms(1-5)])

section \<open>From the bundle on\<close>

lemma exchange_begins:
  assumes P: "prims_ok P" and env: "same_env P W EA" and pub: "bundle_keys_ok P rB IB j SPK sig OPK"
    and A: "device_ok S good addrB IA (pubKey IB) sA" "is_key_pair P IA" "getOurRegistrationId S sA = Inr rA"
      "loadSession S (address_toString addrB) sA = Inr None"
    and B: "device_ok S good addrA IB (pubKey IA) sB" "holds_bundle S sB IB j SPK OPK" "loadSession S (address_toString addrA) sB = Inr None"
    and distinct: "pubKey (ev_fresh EA 1) \<noteq> pubKey SPK" "pubKey (ev_fresh EA 0) \<noteq> pubKey SPK"
  obtains sA2 where "initOutgoing EA S addrB (published_bundle rB IB j SPK sig OPK) sA = (Inr (), sA2)"
    "exchange_ok S good P W (\<lambda>s. if s then addrA else addrB) (\<lambda>s. if s then IA else IB)
       \<lparr>ct_pending = \<lparr>pp_signedKeyId = j, pp_baseKey = pubKey (ev_fresh EA 0), pp_preKeyId = map_option fst OPK\<rparr>, ct_rid = rA\<rparr>
       (new_exchange sA2 sB [pubKey (ev_fresh EA 1), pubKey SPK])"
    "\<exists>e k. open_session S addrB sA2 = Some e \<and> getChain (pubKey (eph_of e)) e = Some (new_chain k SENDING)"
proof -
  let ?b = "published_bundle rB IB j SPK sig OPK" and ?O = "map_option snd OPK"
  let ?pend = "\<lparr>pp_signedKeyId = j, pp_baseKey = pubKey (ev_fresh EA 0), pp_preKeyId = map_option fst OPK\<rparr>"
  let ?ids = "\<lambda>s. if s then IA else IB"
  note E = same_envD [OF env]
  have kp: "is_key_pair P IB" "is_key_pair P SPK" "\<forall>x. ?O = Some x \<longrightarrow> is_key_pair P x"
    using pub by (auto simp: bundle_keys_ok_def)
  obtain eA eB where start:
    "initSession P (ev_now EA) (ev_fresh EA 1) IA True (Some (ev_fresh EA 0)) None (pubKey IB) (map_option pubKey ?O) (Some (pubKey SPK)) (Some rB) = Inr eA"
    "initSession P 0 (ev_fresh EA 0) IB False ?O (Some SPK) (pubKey IA) (Some (pubKey (ev_fresh EA 0))) None (Some rA) = Inr eB"
    "talk_ok P W ?ids (new_talk eA eB)" "tk_used (new_talk eA eB) = [pubKey (ev_fresh EA 1), pubKey SPK]"
    "eph_of eA = ev_fresh EA 1" "\<exists>k. getChain (pubKey (ev_fresh EA 1)) eA = Some (new_chain k SENDING)"
    by (rule agreed_talk [OF P A(2) E(5,5) kp distinct])
  have pre: "map_option prk_publicKey (b_preKey ?b) = map_option pubKey ?O" "map_option prk_keyId (b_preKey ?b) = map_option fst OPK"
    "b_identityKey ?b = pubKey IB" "b_signedPreKey ?b = \<lparr>spk_keyId = j, spk_publicKey = pubKey SPK, spk_signature = sig\<rparr>"
    "b_registrationId ?b = rB"
    by (cases OPK; auto simp: published_bundle_def)+
  note valid = published_bundle_valid [OF P pub]
  obtain s1 where s1: "isTrustedIdentity S (addr_id addrB) (pubKey IB) Sending_Direction sA = (Inr True, s1)"
    "device_ok S good addrB IA (pubKey IB) s1" "getOurRegistrationId S s1 = Inr rA"
    by (rule device_trust [OF A(1), where d = Sending_Direction]) (use A(3) that in simp)
  have own: "good sA" "getOurIdentity S sA = Inr IA" using A(1) by (simp_all add: device_ok_def)
  let ?e = "eA\<lparr>pendingPreKey := Some ?pend\<rparr>"
  obtain r where out: "initOutgoing EA S addrB ?b sA = (Inr (), snd (storeSession S (address_toString addrB) r s1))"
    and r: "stored_ok r" "only_session ?e r"
  proof (rule initOutgoing_run [OF E(1) own(1) valid(1), of addrB s1 IA None eA])
    show "verifySignature (ev_prims EA) (b_identityKey ?b) (spk_publicKey (b_signedPreKey ?b)) (spk_signature (b_signedPreKey ?b)) = Inr True"
      using valid(2) by (simp add: pre E(2))
    show "initSession (ev_prims EA) (ev_now EA) (ev_fresh EA 1) IA True (Some (ev_fresh EA 0)) None (b_identityKey ?b)
      (map_option prk_publicKey (b_preKey ?b)) (Some (spk_publicKey (b_signedPreKey ?b))) (Some (b_registrationId ?b)) = Inr eA"
      using start(1) by (simp only: pre E(2) signed_pre_key_pub.select_convs)
  qed (use that own s1(1) A(4) pre in simp_all)
  let ?sA2 = "snd (storeSession S (address_toString addrB) r s1)"
  note kept = device_store [OF s1(2) r(1), of addrB]
  have one: "one_session S addrB ?e ?sA2" using kept(2) r(2) by (auto simp: one_session_def)
  let ?T = "(new_talk eA eB)\<lparr>tk_session := (tk_session (new_talk eA eB))(True := ?e)\<rparr>"
  have talk: "talk_ok P W ?ids ?T" by (rule talk_ok_alike [OF start(3)]) (simp add: new_talk_def alike_def)
  have pre': "case map_option fst OPK of None \<Rightarrow> ?O = None | Some i \<Rightarrow> loadPreKey S i sB = Inr ?O \<and> ?O \<noteq> None"
    "loadSignedPreKey S j sB = Inr (Some SPK)"
    using B(2) by (cases OPK; auto simp: holds_bundle_def)+
  have expects: "expects P S addrA ?ids \<lparr>ct_pending = ?pend, ct_rid = rA\<rparr> eB sB"
    unfolding expects_def using B(3) pre' start(2) by force
  have "mirrors S good P W (\<lambda>s. if s then addrA else addrB) ?ids \<lparr>ct_pending = ?pend, ct_rid = rA\<rparr>
      (new_exchange ?sA2 sB [pubKey (ev_fresh EA 1), pubKey SPK]) ?T"
    using talk start(4) kept s1(3) one B(1) expects
    by (simp add: mirrors_def all_bool_eq new_exchange_def) (simp add: new_talk_def)
  then show thesis
    using that [OF out] one_session_open [OF one] start(5,6) by (auto simp: exchange_ok_def)
qed

text \<open>
  What holds in every state of a run: who may post does, and what was posted may be fetched at once; who
  may fetch gets what was said.
\<close>

lemma exchange_delivers:
  assumes P: "prims_ok P" "wire_ok W" "wire_sizes W" and ids: "\<And>s. is_key_pair P (ids s)" and c: "contact_ok c"
    and ok: "exchange_ok S good P W addr ids c X" and E: "same_env P W E"
  shows "may_post S addr s data X \<Longrightarrow> \<exists>X'. post E S addr age s data X = Inr X' \<and>
      (\<forall>E'. same_env P W E' \<and> pubKey (ev_fresh E' 0) \<notin> set (ex_used X') \<longrightarrow> may_fetch E' S addr (\<not> s) (length (ex_mail X (\<not> s))) X')"
    and "may_fetch E S addr s i X \<Longrightarrow> \<exists>X'. fetch E S addr age s i X = Inr (pc_data (ex_mail X s ! i), X')"
proof -
  obtain T where T: "mirrors S good P W addr ids c X T" using ok by (auto simp: exchange_ok_def)
  show "\<exists>X'. fetch E S addr age s i X = Inr (pc_data (ex_mail X s ! i), X')" if "may_fetch E S addr s i X"
    using fetch_mirrors [OF P ids c E T that, of age] by metis
  assume may: "may_post S addr s data X"
  obtain X' T' where X': "post E S addr age s data X = Inr X'"
    "\<exists>q. ex_mail X' (\<not> s) = ex_mail X (\<not> s) @ [q] \<and> pc_key q = ratchet_key (open_session S (addr (\<not> s)) (ex_store X' s))"
    by (rule post_mirrors [OF P ids E T may, where age = age])
  then show "\<exists>X'. post E S addr age s data X = Inr X' \<and>
      (\<forall>E'. same_env P W E' \<and> pubKey (ev_fresh E' 0) \<notin> set (ex_used X') \<longrightarrow> may_fetch E' S addr (\<not> s) (length (ex_mail X (\<not> s))) X')"
    by (auto simp: may_fetch_def)
qed

end

end
