(* ===== verification/Device_Properties.thy ===== *)
theory Device_Properties
  imports Contact_Properties Devices
begin

text \<open>
  The conversation of two devices through their storages, from the published bundle on.
\<close>

text \<open>C1: Two devices without a session with each other: one is given the other's bundle and builds a session
  through its storage. From then on both encrypt and decrypt through their storages, in any order, and
  messages may be late, out of order or lost. In every state this leads to, a message that was sent with
  the sender's current ratchet key, or whose chain the receiver still keeps, is decrypted to what was
  said; the prekey message that is read first, whichever it is, makes the receiver's session.
  A device with a sending chain of fewer than 2000 messages, which the first has from the start, can encrypt, and
  what it encrypted can be read at once.\<close>

theorem devices_exchange:
  assumes P: "prims_ok P" "wire_ok W" "wire_sizes W" and env: "same_env P W EA"
    and pub: "bundle_keys_ok P (ms_registrationId sB) (ms_identityKeyPair sB) j SPK sig OPK"
    and a: "mem_ok sA" "is_key_pair P (ms_identityKeyPair sA)" "1 \<le> ms_registrationId sA" "ms_registrationId sA < 2 ^ 32"
      "obj_get (ms_sessions sA) (address_toString addrB) = None"
      "\<forall>d. fst (mem_isTrustedIdentity (addr_id addrB) (pubKey (ms_identityKeyPair sB)) d sA) = Inr True"
    and b: "mem_ok sB" "obj_get (ms_signedPreKeys sB) j = Some SPK" "\<forall>i kp. OPK = Some (i, kp) \<longrightarrow> obj_get (ms_preKeys sB) i = Some kp"
      "obj_get (ms_sessions sB) (address_toString addrA) = None"
      "\<forall>d. fst (mem_isTrustedIdentity (addr_id addrA) (pubKey (ms_identityKeyPair sA)) d sB) = Inr True"
    and distinct: "pubKey (ev_fresh EA 1) \<noteq> pubKey SPK" "pubKey (ev_fresh EA 0) \<noteq> pubKey SPK"
    and addr: "addr = (\<lambda>s. if s then addrA else addrB)"
  shows "\<exists>sA2.
    initOutgoing EA memory_signal_storage addrB (published_bundle (ms_registrationId sB) (ms_identityKeyPair sB) j SPK sig OPK) sA = (Inr (), sA2) \<and>
    (let X0 = new_exchange sA2 sB [pubKey (ev_fresh EA 1), pubKey SPK] in
      (\<forall>data. length data < 2 ^ 31 \<longrightarrow> may_post memory_signal_storage addr True data X0) \<and>
      (\<forall>X E. (exchange_step P W memory_signal_storage addr)\<^sup>*\<^sup>* X0 X \<and> same_env P W E \<longrightarrow>
        (\<forall>s i age. may_fetch E memory_signal_storage addr s i X \<longrightarrow>
           (\<exists>X'. fetch E memory_signal_storage addr age s i X = Inr (pc_data (ex_mail X s ! i), X'))) \<and>
        (\<forall>s data age. may_post memory_signal_storage addr s data X \<longrightarrow>
           (\<exists>X'. post E memory_signal_storage addr age s data X = Inr X' \<and>
             (\<forall>E'. same_env P W E' \<and> pubKey (ev_fresh E' 0) \<notin> set (ex_used X') \<longrightarrow>
                may_fetch E' memory_signal_storage addr (\<not> s) (length (ex_mail X (\<not> s))) X')))))"
proof -
  let ?S = memory_signal_storage and ?IA = "ms_identityKeyPair sA" and ?IB = "ms_identityKeyPair sB"
  let ?ids = "\<lambda>s. if s then ?IA else ?IB"
  let ?c = "\<lparr>ct_pending = \<lparr>pp_signedKeyId = j, pp_baseKey = pubKey (ev_fresh EA 0), pp_preKeyId = map_option fst OPK\<rparr>,
      ct_rid = ms_registrationId sA\<rparr>"
  let ?X = "\<lambda>sA2. new_exchange sA2 sB [pubKey (ev_fresh EA 1), pubKey SPK]"
  note mss = memory_signal_storage_def
  have devs: "device_ok ?S (mem_good None) addrB ?IA (pubKey ?IB) sA" "device_ok ?S (mem_good None) addrA ?IB (pubKey ?IA) sB"
    using a b by (simp_all add: device_ok_def mss)
  have regs: "getOurRegistrationId ?S sA = Inr (ms_registrationId sA)" by (simp add: mss)
  have loads: "loadSession ?S (address_toString addrB) sA = Inr None" "loadSession ?S (address_toString addrA) sB = Inr None"
    using a(1,5) b(1,4) by (simp_all add: mss mem_load_get)
  have holds: "holds_bundle ?S sB ?IB j SPK OPK"
    using b(2,3) by (simp add: holds_bundle_def mss mem_loadPreKey_def mem_loadSignedPreKey_def)
  obtain sA2 where run: "initOutgoing EA ?S addrB (published_bundle (ms_registrationId sB) ?IB j SPK sig OPK) sA = (Inr (), sA2)"
    and ok: "exchange_ok ?S (mem_good None) P W addr ?ids ?c (?X sA2)"
    and chain: "\<exists>e k. open_session ?S addrB sA2 = Some e \<and> getChain (pubKey (eph_of e)) e = Some (new_chain k SENDING)"
    unfolding addr
    by (rule exchange_store.exchange_begins [OF mem_exchange.exchange_store_axioms P(1) env pub devs(1) a(2) regs loads(1)
          devs(2) holds loads(2) distinct])
  have may: "may_post ?S addr True data (?X sA2)" if "length data < 2 ^ 31" for data
    using that chain by (auto simp: may_post_def new_exchange_def addr new_chain_def)
  have ids: "is_key_pair P (?ids s)" for s using a(2) pub by (simp add: bundle_keys_ok_def)
  have c: "contact_ok ?c"
    using a(3,4) pub is_key_pair_lengths(2) [OF prims_okD(4) [OF P(1)] same_envD(5) [OF env]]
    by (auto simp: contact_ok_def bundle_keys_ok_def)
  have all: "exchange_ok ?S (mem_good None) P W addr ?ids ?c X" if "(exchange_step P W ?S addr)\<^sup>*\<^sup>* (?X sA2) X" for X
    by (rule exchange_store.exchange_reachable_ok [OF mem_exchange.exchange_store_axioms P ids c that ok])
  note delivers = exchange_store.exchange_delivers [OF mem_exchange.exchange_store_axioms P ids c all]
  show ?thesis unfolding Let_def using run may delivers by blast
qed

lemma demo_trust: "ms_trusted s = [] \<Longrightarrow> ms_policy s = Tofu \<Longrightarrow> fst (mem_isTrustedIdentity i k d s) = Inr True"
  by (simp add: mem_isTrustedIdentity_def)

theorem devices_exchange_witness:
  "\<exists>sig sA2 X1 X2. let addr = (\<lambda>s. if s then \<lparr>addr_id = ''alice'', deviceId = 1\<rparr> else \<lparr>addr_id = ''bob'', deviceId = 1\<rparr>) in
    initOutgoing (demo_device_env 2) memory_signal_storage \<lparr>addr_id = ''bob'', deviceId = 1\<rparr>
      (published_bundle 6 (demo_key 4) 1 (demo_key 5) sig (Some (2, demo_key 6))) demo_alice = (Inr (), sA2) \<and>
    post (demo_device_env 9) memory_signal_storage addr None True [1, 2, 3]
      (new_exchange sA2 demo_bob [pubKey (demo_key 3), pubKey (demo_key 5)]) = Inr X1 \<and>
    fetch (demo_device_env 7) memory_signal_storage addr None False 0 X1 = Inr ([1, 2, 3], X2)"
proof -
  define addr where "addr = (\<lambda>s. if s then \<lparr>addr_id = ''alice'', deviceId = 1\<rparr> else \<lparr>addr_id = ''bob'', deviceId = 1\<rparr>)"
  have "length (privKey (demo_key 4)) = 32" using demo_key_pair [of 4] by (simp add: is_key_pair_def)
  then obtain sig where sig: "calculateSignature demo_prims (privKey (demo_key 4)) (pubKey (demo_key 5)) = Inr sig"
    by (rule sign_total [OF prims_okD(5) [OF prims_ok_demo]])
  have bob: "ms_registrationId demo_bob = 6" "ms_identityKeyPair demo_bob = demo_key 4" "obj_get (ms_signedPreKeys demo_bob) 1 = Some (demo_key 5)"
    "obj_get (ms_preKeys demo_bob) 2 = Some (demo_key 6)" "ms_sessions demo_bob = []" "ms_trusted demo_bob = []" "ms_policy demo_bob = Tofu"
    and alice: "ms_registrationId demo_alice = 5" "ms_identityKeyPair demo_alice = demo_key 1" "ms_sessions demo_alice = []"
    "ms_trusted demo_alice = []" "ms_policy demo_alice = Tofu"
    by (simp_all add: demo_devices)
  have pub: "bundle_keys_ok demo_prims (ms_registrationId demo_bob) (ms_identityKeyPair demo_bob) 1 (demo_key 5) sig (Some (2, demo_key 6))"
    using demo_key_pair sig by (simp add: bundle_keys_ok_def bob)
  have fresh: "pubKey (ev_fresh (demo_device_env 2) 1) \<noteq> pubKey (demo_key 5)" "pubKey (ev_fresh (demo_device_env 2) 0) \<noteq> pubKey (demo_key 5)"
    by (simp_all add: demo_device_env_def)
  have keys: "ev_fresh (demo_device_env 2) 1 = demo_key 3" "ev_fresh (demo_device_env 7) 0 = demo_key 7"
    by (simp_all add: demo_device_env_def numeral_3_eq_3)
  note env = demo_device_env_ok
  have trust: "\<forall>d. fst (mem_isTrustedIdentity i k d demo_alice) = Inr True" "\<forall>d. fst (mem_isTrustedIdentity i k d demo_bob) = Inr True" for i k
    using demo_trust alice(4,5) bob(6,7) by blast+
  have own: "is_key_pair demo_prims (ms_identityKeyPair demo_alice)" "1 \<le> ms_registrationId demo_alice" "ms_registrationId demo_alice < 2 ^ 32"
    "obj_get (ms_sessions demo_alice) a = None" "obj_get (ms_sessions demo_bob) a = None"
    "\<forall>i kp. Some (2, demo_key 6) = Some (i, kp) \<longrightarrow> obj_get (ms_preKeys demo_bob) i = Some kp" for a
    using demo_key_pair [of 1] by (simp_all add: alice bob)
  obtain sA2 where run: "initOutgoing (demo_device_env 2) memory_signal_storage \<lparr>addr_id = ''bob'', deviceId = 1\<rparr>
      (published_bundle 6 (demo_key 4) 1 (demo_key 5) sig (Some (2, demo_key 6))) demo_alice = (Inr (), sA2)"
    and all: "let X0 = new_exchange sA2 demo_bob [pubKey (demo_key 3), pubKey (demo_key 5)] in
      (\<forall>data. length data < 2 ^ 31 \<longrightarrow> may_post memory_signal_storage addr True data X0) \<and>
      (\<forall>X E. (exchange_step demo_prims varint_wire memory_signal_storage addr)\<^sup>*\<^sup>* X0 X \<and> same_env demo_prims varint_wire E \<longrightarrow>
        (\<forall>s i age. may_fetch E memory_signal_storage addr s i X \<longrightarrow>
           (\<exists>X'. fetch E memory_signal_storage addr age s i X = Inr (pc_data (ex_mail X s ! i), X'))) \<and>
        (\<forall>s data age. may_post memory_signal_storage addr s data X \<longrightarrow>
           (\<exists>X'. post E memory_signal_storage addr age s data X = Inr X' \<and>
             (\<forall>E'. same_env demo_prims varint_wire E' \<and> pubKey (ev_fresh E' 0) \<notin> set (ex_used X') \<longrightarrow>
                may_fetch E' memory_signal_storage addr (\<not> s) (length (ex_mail X (\<not> s))) X'))))"
    using devices_exchange [OF prims_ok_demo wire_ok_varint wire_sizes_varint env pub demo_device_oks(1) own(1-4) trust(1)
        demo_device_oks(2) bob(3) own(6,5) trust(2) fresh addr_def] unfolding keys bob(1,2) by blast
  let ?X0 = "new_exchange sA2 demo_bob [pubKey (demo_key 3), pubKey (demo_key 5)]"
  have may: "may_post memory_signal_storage addr True [1, 2, 3] ?X0" using all by (simp add: Let_def)
  let ?step = "(exchange_step demo_prims varint_wire memory_signal_storage addr)\<^sup>*\<^sup>*"
  have posts: "\<exists>X'. post E memory_signal_storage addr age s data X = Inr X' \<and>
      (\<forall>E'. same_env demo_prims varint_wire E' \<and> pubKey (ev_fresh E' 0) \<notin> set (ex_used X') \<longrightarrow>
         may_fetch E' memory_signal_storage addr (\<not> s) (length (ex_mail X (\<not> s))) X')"
    if "?step ?X0 X" "same_env demo_prims varint_wire E" "may_post memory_signal_storage addr s data X" for X E s data age
    using all that unfolding Let_def by blast
  have fetches: "\<exists>X'. fetch E memory_signal_storage addr age s i X = Inr (pc_data (ex_mail X s ! i), X')"
    if "?step ?X0 X" "same_env demo_prims varint_wire E" "may_fetch E memory_signal_storage addr s i X" for X E s i age
    using all that unfolding Let_def by blast
  obtain X1 where X1: "post (demo_device_env 9) memory_signal_storage addr None True [1, 2, 3] ?X0 = Inr X1"
    "\<forall>E'. same_env demo_prims varint_wire E' \<and> pubKey (ev_fresh E' 0) \<notin> set (ex_used X1) \<longrightarrow>
       may_fetch E' memory_signal_storage addr False 0 X1"
    using posts [OF rtranclp.rtrancl_refl env may, of 9 None] by (auto simp: new_exchange_def)
  have mail: "ex_used X1 = ex_used ?X0" "pc_data (ex_mail X1 False ! 0) = [1, 2, 3]"
    using X1(1) by (auto simp: post_def new_exchange_def split: prod.splits sum.splits)
  have reach: "?step ?X0 X1"
    using exchange_step.Post [OF env may X1(1)] by blast
  have "may_fetch (demo_device_env 7) memory_signal_storage addr False 0 X1"
    using X1(2) env mail(1) keys(2) by (simp add: new_exchange_def)
  then obtain X2 where "fetch (demo_device_env 7) memory_signal_storage addr None False 0 X1 = Inr ([1, 2, 3], X2)"
    using fetches [OF reach env, of 7 False 0 None] mail(2) by auto
  with run X1(1) show ?thesis unfolding Let_def addr_def by blast
qed

end
