(* ===== verification/Spec2Isabelle.thy ===== *)
theory Spec2Isabelle
  imports Session_Properties Foundation_Properties Group_Properties Storage_Properties Service_Properties
    File_Properties File_Names File_Interfaces Contact_Properties Device_Properties
begin

text \<open>
  A verification of libsignal-node, an implementation of the Signal protocol in TypeScript: sessions of two
  devices (X3DH and the double ratchet), group messaging with sender keys, the storages that keep the
  state of both, and the services around them.

  \<^bold>\<open>The program.\<close> \<open>SessionBuilder\<close> makes a session from the bundle another device published or from the
  header of the first message it sent. \<open>SessionCipher\<close> encrypts and decrypts with the sessions of an
  address; \<open>GroupCipher\<close> and \<open>GroupSessionBuilder\<close> do so with the sender keys of a group. Each operation
  loads a record from a storage (\<open>MemorySignalStorage\<close> or \<open>FileSignalStorage\<close>), works on its own copy
  and stores it, as a job that \<open>queueJob\<close> runs after the earlier jobs of its bucket. \<open>PreKeyPoolManager\<close>
  fills the same storage with prekeys and builds the bundles from them.

  \<^bold>\<open>How the code is modelled.\<close> An operation is a function of the state, with \<open>Inl\<close> of the error for every
  \<open>throw\<close>: \<open>error + 'a\<close> where it only computes, \<open>('s, 'a) op = 's \<Rightarrow> (error + 'a) \<times> 's\<close> where it works on a
  storage, whose changes stay when a later step throws. Buffers are lists of \<open>8 word\<close>, objects and maps are
  association lists in insertion order, records have the fields of the classes, values of type \<open>unknown\<close> are
  the datatype \<open>jsval\<close>. Random values and the clock are arguments.

  \<^bold>\<open>Theories and sources\<close> (paths under \<open>src/src\<close>):
  \<^item> \<open>Prelude\<close>, \<open>Base64\<close>, \<open>JS_Value\<close>: bytes, errors (\<open>errors.ts\<close>, \<open>util.ts\<close>), objects, numerals, base64.
  \<^item> \<open>Crypto\<close>, \<open>Curve\<close>: \<open>crypto.ts\<close>, \<open>curve.ts\<close>; the record \<open>prims\<close> stands for OpenSSL and the curve package.
  \<^item> \<open>Wire\<close>, \<open>Whisper_Protocol\<close>, \<open>Message_Objects\<close>, \<open>Group_Proto\<close>: \<open>whisper-text-protocol.ts\<close> and
    \<open>group-proto.ts\<close> over the record \<open>wire\<close> for protobufjs and \<open>pb_util\<close> for its \<open>util\<close>;
    \<open>Message_Typing\<close> shows what the conversions accept and give back.
  \<^item> \<open>Prekey_Validator\<close>, \<open>Address\<close>: \<open>prekey-bundle-validator.ts\<close>, \<open>protocol-address.ts\<close>, \<open>sender-key-name.ts\<close>.
  \<^item> \<open>Session_Record\<close>: \<open>session-record.ts\<close>, the state of sessions and its serialized form.
  \<^item> \<open>Signal_Storage\<close>, \<open>Session_Builder\<close>, \<open>Session_Cipher\<close>, \<open>Session_Operations\<close>: the interfaces of \<open>types.ts\<close>,
    \<open>session-builder.ts\<close> and \<open>session-cipher.ts\<close>, first the functions on a session, then the operations.
  \<^item> \<open>Sender_Key\<close>, \<open>Group_Session\<close>: the \<open>sender-*.ts\<close> files, \<open>group-cipher.ts\<close>, \<open>group-session-builder.ts\<close>.
  \<^item> \<open>Memory_Storage\<close>: \<open>memory-storage.ts\<close>. \<open>File_Format\<close>, \<open>File_Storage\<close>, \<open>File_Names\<close>, \<open>File_Lock\<close>:
    \<open>file-storage.ts\<close>, as the format of the file and its validation, the class over a disk whose calls can fail,
    the names of its files and which of them the cleanup removes, the lock file.
  \<^item> \<open>Key_Helper\<close>, \<open>PreKey_Pool\<close>, \<open>Queue_Job\<close>, \<open>Fingerprint\<close>: \<open>keyhelper.ts\<close>, \<open>prekey-pool.ts\<close>,
    \<open>queue-job.ts\<close>, \<open>numeric-fingerprint.ts\<close>.

  \<^bold>\<open>Specifications and what is shown.\<close>
  \<^item> The double ratchet: \<open>Ratchet\<close> (a chain holds iterated HMACs of the key it started from, \<open>chain_from\<close>),
    \<open>Key_Agreement\<close> (both sides of X3DH and of a ratchet step derive the same keys), \<open>Messages\<close> (exactly which
    frames decrypt), \<open>Delivery\<close> (what is sealed is opened, once), \<open>Conversation\<close> (two sessions from the
    agreement on, each message delivered before the next, with the relation \<open>ahead\<close> between them as invariant),
    \<open>Mailbox\<close> (the same with messages on the way: the steps of \<open>talk_step\<close> let both sides speak at any time and
    hear in any order, \<open>talk_ok\<close> is their invariant; \<open>may_say\<close> keeps a chain below 2000 messages, so that no
    skipped key is pruned, and \<open>may_hear\<close> asks that the chain of the message is still kept), \<open>Devices\<close> (the
    same through two storages: \<open>exchange_step\<close> runs the operations of \<open>Session_Operations\<close>, and \<open>mirrors\<close> is the
    simulation that takes a state of the two storages to a talk; prekey messages and the making of the
    receiver's session included).
  \<^item> \<open>Session_Invariant\<close>: the bounds on chains, keys and sessions, kept by every operation.
  \<^item> Group messaging: \<open>Group_Delivery\<close> (sealing and opening on one chain), \<open>Group_Messages\<close> (frames and
    signatures), \<open>Group_Conversation\<close> (the operations through a store).
  \<^item> The storages: \<open>Memory_Invariant\<close> and \<open>Memory_System\<close> (a step for every operation of a device, its
    invariant, the trust in identities); \<open>Memory_Pool\<close> (refinement of the abstract pool of \<open>Pool_Contract\<close>);
    \<open>File_Snapshot\<close> (what is written is read back), \<open>File_Recovery\<close> (every state of the disk during a save is
    one that opens to the old or the new contents, as triples over the calls), \<open>File_Properties\<close>.
  \<^item> The properties proper stand in the theories \<open>*_Properties\<close>, each with a claim id, those with hypotheses
    with an instance on the concrete parameters of \<open>Instances\<close>.

  \<^bold>\<open>Interfaces.\<close> \<open>session_store\<close> (\<open>Session_Store\<close>) is what every session operation needs of a storage;
  \<open>signal_store\<close> adds that removing a prekey never throws, \<open>contact_store\<close> (\<open>First_Contact\<close>) that storing and
  trusting leave prekeys, registration id and trust alone, \<open>exchange_store\<close> joins the two; \<open>group_store\<close> and \<open>pool_store\<close> are those of
  group messaging and of the pool. The in-memory storage meets all of them, the file storage
  \<open>session_store\<close>, \<open>contact_store\<close> and \<open>group_store\<close>, whatever becomes of its saves; the lemmas about the
  clients are proved once in the locales.

  \<^bold>\<open>Parameters and hypotheses.\<close> \<open>prims_ok\<close>: output lengths, decryption undoes encryption, Diffie-Hellman is
  symmetric, verification accepts signatures. No property rests on secrecy or on the strength of a primitive.
  \<open>wire_ok\<close>: reading undoes writing and reads move forward; \<open>wire_sizes\<close>: a number takes at most five bytes and a
  field of bytes at most five more than it has.
  \<open>util_ok\<close>: base64 and number conversion of protobufjs. The \<open>gcm\<close> of the file storage: what was encrypted under
  a key is decrypted under it. All are met by the instances of \<open>Instances\<close> and \<open>Foundation_Properties\<close>.

  \<^bold>\<open>Bounds and fuel.\<close> The ratchet loop runs at most 2000 times, which its guard ensures; the decode loops have
  one unit of fuel per byte, and \<open>decoding_terminates\<close> shows it is enough; the redraw of the registration id is
  a partial function; the lock loop runs over the list of its attempts. Message counters are integers,
  and the properties about the wire state the bound \<open>2 ^ 32\<close> they need.

  \<^bold>\<open>Not modelled.\<close> \<open>index.ts\<close> only re-exports. Logging (\<open>logger.ts\<close>) has no effect on the state. The delay of
  timers, \<open>fsync\<close>, \<open>chmod\<close> and process exit hooks do nothing in the model (a scheduled save is an event of its
  own). Operations of one object do not interleave, which \<open>queue_serializes\<close> justifies for those the code
  queues. Wiping of keys is a function of buffers, without an account of the copies the runtime keeps.
  \<open>scripts/*.mjs\<close> check and generate the protobuf code at build time and are no part of the library; what
  \<open>verify-proto.mjs\<close> compares is what \<open>whisper_messages_roundtrip\<close> and the mapping of the field numbers state.
\<close>

end
